(* ===== verification/Prelude.thy ===== *)
theory Prelude
  imports Main "HOL-Library.AList" "HOL-Library.Char_ord" "HOL-Library.List_Lexorder"
begin

section \<open>Shared vocabulary of the RiskApp model\<close>

text \<open>
  This theory holds what every component of the model uses: dynamically typed Python
  values, dictionaries, the string methods the sources call, UUIDs, results with errors,
  SQL-like operations on tables, and the generic transition-system argument.

  Text is modelled by the first 256 Unicode code points: an Isabelle \<^typ>\<open>char\<close> is one
  Python character with the same code point. Timestamps are integers, microseconds since
  1970-01-01; where the program turns a timestamp into text the rendering is written out.
\<close>

subsection \<open>Theorem collections\<close>

named_theorems py_simps \<open>evaluation of Python values, strings and dictionaries\<close>
named_theorems table_simps \<open>selection, update and insertion on tables\<close>

subsection \<open>Python values\<close>

text \<open>
  One datatype for every value the program passes around as \<open>Any\<close>: JSON values, column
  values of database rows (UUIDs and timestamps), lists and dictionaries. A dictionary is an
  association list in insertion order; floats do not occur in the modelled code.
\<close>

type_synonym uuid = nat
type_synonym time = int

datatype pyval =
    VNone
  | VBool bool
  | VInt int
  | VStr string
  | VUuid uuid
  | VTime time
  | VList "pyval list"
  | VDict "(string \<times> pyval) list"

type_synonym dict = "(string \<times> pyval) list"

text \<open>\<open>bool(value)\<close>.\<close>

fun truthy :: "pyval \<Rightarrow> bool" where
  "truthy VNone = False"
| "truthy (VBool b) = b"
| "truthy (VInt i) = (i \<noteq> 0)"
| "truthy (VStr s) = (s \<noteq> [])"
| "truthy (VUuid u) = True"
| "truthy (VTime t) = True"
| "truthy (VList xs) = (xs \<noteq> [])"
| "truthy (VDict d) = (d \<noteq> [])"

text \<open>\<open>value is None\<close> and \<open>a or b\<close>.\<close>

fun is_none :: "pyval \<Rightarrow> bool" where
  "is_none VNone = True"
| "is_none v = False"

definition py_or :: "pyval \<Rightarrow> pyval \<Rightarrow> pyval" where
  "py_or a b = (if truthy a then a else b)"

text \<open>\<open>dict.get(key)\<close>, \<open>key in dict\<close>, \<open>dict[key] = value\<close> and \<open>dict.pop(key, None)\<close>.\<close>

definition dget :: "dict \<Rightarrow> string \<Rightarrow> pyval" where
  "dget d k = (case map_of d k of None \<Rightarrow> VNone | Some v \<Rightarrow> v)"

definition dhas :: "dict \<Rightarrow> string \<Rightarrow> bool" where
  "dhas d k = (map_of d k \<noteq> None)"

definition dset :: "dict \<Rightarrow> string \<Rightarrow> pyval \<Rightarrow> dict" where
  "dset d k v = AList.update k v d"

definition dpop :: "dict \<Rightarrow> string \<Rightarrow> dict" where
  "dpop d k = AList.delete k d"

definition dupdate :: "dict \<Rightarrow> dict \<Rightarrow> dict" where
  "dupdate d new = foldl (\<lambda>acc (k, v). dset acc k v) d new"

definition as_dict :: "pyval \<Rightarrow> dict option" where
  "as_dict v = (case v of VDict d \<Rightarrow> Some d | _ \<Rightarrow> None)"

subsection \<open>Strings\<close>

text \<open>\<open>str.isspace\<close> on one character: the white space of the first 256 code points.\<close>

definition is_space :: "char \<Rightarrow> bool" where
  "is_space c = (let n = (of_char c :: nat) in
     (9 \<le> n \<and> n \<le> 13) \<or> (28 \<le> n \<and> n \<le> 32) \<or> n = 133 \<or> n = 160)"

definition lstrip :: "string \<Rightarrow> string" where
  "lstrip s = dropWhile is_space s"

definition rstrip :: "string \<Rightarrow> string" where
  "rstrip s = rev (dropWhile is_space (rev s))"

definition strip :: "string \<Rightarrow> string" where
  "strip s = rstrip (lstrip s)"

text \<open>\<open>str.lower\<close>: ASCII and Latin-1 capitals move by 32; the multiplication sign does not.\<close>

definition lower_char :: "char \<Rightarrow> char" where
  "lower_char c = (let n = (of_char c :: nat) in
     if (65 \<le> n \<and> n \<le> 90) \<or> (192 \<le> n \<and> n \<le> 222 \<and> n \<noteq> 215) then char_of (n + 32) else c)"

definition lower :: "string \<Rightarrow> string" where
  "lower s = map lower_char s"

text \<open>
  \<open>str.upper\<close>. The capitals of the micro sign (181) and of y with diaeresis (255) lie beyond
  the modelled code points and are left as they are; sharp s becomes two letters. The program
  only compares the result with ASCII letters.
\<close>

definition upper_char :: "char \<Rightarrow> string" where
  "upper_char c = (let n = (of_char c :: nat) in
     if n = 223 then ''SS''
     else if (97 \<le> n \<and> n \<le> 122) \<or> (224 \<le> n \<and> n \<le> 254 \<and> n \<noteq> 247) then [char_of (n - 32)]
     else [c])"

definition upper :: "string \<Rightarrow> string" where
  "upper s = concat (map upper_char s)"

definition starts_with :: "string \<Rightarrow> string \<Rightarrow> bool" where
  "starts_with s p = (take (length p) s = p)"

text \<open>\<open>sub in s\<close>.\<close>

fun contains_sub :: "string \<Rightarrow> string \<Rightarrow> bool" where
  "contains_sub [] p = (p = [])"
| "contains_sub (c # s) p = (starts_with (c # s) p \<or> contains_sub s p)"

text \<open>\<open>s.replace(old, new)\<close> for a non-empty \<open>old\<close>: left to right, without overlap.\<close>

fun replace_fuel :: "nat \<Rightarrow> string \<Rightarrow> string \<Rightarrow> string \<Rightarrow> string" where
  "replace_fuel 0 old new s = s"
| "replace_fuel (Suc n) old new s =
     (case s of [] \<Rightarrow> []
      | c # cs \<Rightarrow> if starts_with s old then new @ replace_fuel n old new (drop (length old) s)
                 else c # replace_fuel n old new cs)"

definition replace_str :: "string \<Rightarrow> string \<Rightarrow> string \<Rightarrow> string" where
  "replace_str old new s = replace_fuel (length s) old new s"

text \<open>\<open>s.split(sep)\<close> for a one-character separator; \<open>s.partition(sep)\<close>.\<close>

fun split_on :: "char \<Rightarrow> string \<Rightarrow> string list" where
  "split_on sep [] = [[]]"
| "split_on sep (c # cs) =
     (if c = sep then [] # split_on sep cs
      else (case split_on sep cs of [] \<Rightarrow> [[c]] | x # xs \<Rightarrow> (c # x) # xs))"

definition partition_on :: "char \<Rightarrow> string \<Rightarrow> string \<times> bool \<times> string" where
  "partition_on sep s =
     (let a = takeWhile (\<lambda>c. c \<noteq> sep) s; b = dropWhile (\<lambda>c. c \<noteq> sep) s in
      case b of [] \<Rightarrow> (a, False, []) | _ # t \<Rightarrow> (a, True, t))"

subsection \<open>Decimal and hexadecimal text\<close>

definition digit_char :: "nat \<Rightarrow> char" where
  "digit_char d = char_of (if d < 10 then 48 + d else 87 + d)"

fun nat_str :: "nat \<Rightarrow> string" where
  "nat_str n = (if n < 10 then [digit_char n] else nat_str (n div 10) @ [digit_char (n mod 10)])"

definition int_str :: "int \<Rightarrow> string" where
  "int_str i = (if i < 0 then CHR ''-'' # nat_str (nat (- i)) else nat_str (nat i))"

text \<open>\<open>f"{n:0wd}"\<close> for a natural number.\<close>

definition zero_pad :: "nat \<Rightarrow> nat \<Rightarrow> string" where
  "zero_pad w n = (let s = nat_str n in replicate (w - length s) (CHR ''0'') @ s)"

text \<open>
  \<open>str.isdigit\<close>: the ASCII digits and the three superscript digits of Latin-1 (178, 179, 185),
  which \<open>isdigit\<close> accepts and \<open>int()\<close> rejects.
\<close>

definition is_dec :: "char \<Rightarrow> bool" where
  "is_dec c = (let n = (of_char c :: nat) in 48 \<le> n \<and> n \<le> 57)"

definition is_digit_char :: "char \<Rightarrow> bool" where
  "is_digit_char c = (is_dec c \<or> of_char c \<in> {178, 179, 185 :: nat})"

definition is_digits :: "string \<Rightarrow> bool" where
  "is_digits s = (s \<noteq> [] \<and> list_all is_digit_char s)"

definition digit_val :: "char \<Rightarrow> nat option" where
  "digit_val c = (let n = (of_char c :: nat) in
     if 48 \<le> n \<and> n \<le> 57 then Some (n - 48)
     else if 97 \<le> n \<and> n \<le> 122 then Some (n - 87)
     else if 65 \<le> n \<and> n \<le> 90 then Some (n - 55)
     else None)"

text \<open>
  \<open>int(text, base)\<close>: surrounding white space, an optional sign, then digits of the base with
  single underscores allowed between digits; \<open>None\<close> where Python raises \<open>ValueError\<close>.
\<close>

fun digits_val :: "nat \<Rightarrow> bool \<Rightarrow> nat \<Rightarrow> string \<Rightarrow> nat option" where
  "digits_val base after_digit acc [] = (if after_digit then Some acc else None)"
| "digits_val base after_digit acc (c # cs) =
     (if c = CHR ''_'' then (if after_digit \<and> cs \<noteq> [] then digits_val base False acc cs else None)
      else (case digit_val c of
              None \<Rightarrow> None
            | Some d \<Rightarrow> if d < base then digits_val base True (acc * base + d) cs else None))"

definition base_digits :: "nat \<Rightarrow> string \<Rightarrow> nat option" where
  "base_digits base s =
     (if base = 16 \<and> (starts_with s ''0x'' \<or> starts_with s ''0X'')
      then (case drop 2 s of
              [] \<Rightarrow> None
            | c # cs \<Rightarrow> digits_val base False 0 (if c = CHR ''_'' then cs else c # cs))
      else digits_val base False 0 s)"

definition int_parse :: "nat \<Rightarrow> string \<Rightarrow> int option" where
  "int_parse base s = (case strip s of
      [] \<Rightarrow> None
    | c # cs \<Rightarrow>
        if c = CHR ''-'' then map_option (\<lambda>n. - int n) (base_digits base cs)
        else if c = CHR ''+'' then map_option int (base_digits base cs)
        else map_option int (base_digits base (c # cs)))"

subsection \<open>UUIDs\<close>

text \<open>
  A UUID is its 128-bit integer. \<open>str(uuid)\<close> is the lower-case hyphenated form;
  \<open>uuid.UUID(text)\<close> removes \<open>urn:\<close> and \<open>uuid:\<close>, surrounding braces and all hyphens, requires
  32 characters and reads them as a base-16 integer in range.
\<close>

fun hex_fixed :: "nat \<Rightarrow> nat \<Rightarrow> string" where
  "hex_fixed 0 n = []"
| "hex_fixed (Suc k) n = hex_fixed k (n div 16) @ [digit_char (n mod 16)]"

definition uuid_str :: "uuid \<Rightarrow> string" where
  "uuid_str u = (let h = hex_fixed 32 u in
     take 8 h @ ''-'' @ take 4 (drop 8 h) @ ''-'' @ take 4 (drop 12 h) @ ''-'' @
     take 4 (drop 16 h) @ ''-'' @ drop 20 h)"

definition is_brace :: "char \<Rightarrow> bool" where
  "is_brace c = (c = CHR ''{'' \<or> c = CHR ''}'')"

definition uuid_of_str :: "string \<Rightarrow> uuid option" where
  "uuid_of_str s =
     (let a = replace_str ''uuid:'' [] (replace_str ''urn:'' [] s);
          b = rev (dropWhile is_brace (rev (dropWhile is_brace a)));
          h = filter (\<lambda>c. c \<noteq> CHR ''-'') b in
      if length h \<noteq> 32 then None
      else (case int_parse 16 h of
              None \<Rightarrow> None
            | Some i \<Rightarrow> if 0 \<le> i \<and> i < 2 ^ 128 then Some (nat i) else None))"

subsection \<open>Timestamps as text\<close>

text \<open>
  The proleptic Gregorian date of a day number (days since 1970-01-01), counting years from
  1 March so that the leap day comes last: \<open>(year, month, day)\<close>.
\<close>

definition civil_of_days :: "int \<Rightarrow> int \<times> int \<times> int" where
  "civil_of_days z0 =
     (let z = z0 + 719468; era = z div 146097; doe = z mod 146097;
          yoe = (doe - doe div 1460 + doe div 36524 - doe div 146096) div 365;
          doy = doe - (365 * yoe + yoe div 4 - yoe div 100);
          mp = (5 * doy + 2) div 153;
          d = doy - (153 * mp + 2) div 5 + 1;
          m = (if mp < 10 then mp + 3 else mp - 9);
          y = yoe + era * 400 + (if m \<le> 2 then 1 else 0)
      in (y, m, d))"

definition datetime_text :: "string \<Rightarrow> time \<Rightarrow> string" where
  "datetime_text sep t =
     (let days = t div 86400000000; us = t mod 86400000000; secs = us div 1000000;
          frac = us mod 1000000; (y, m, d) = civil_of_days days in
      zero_pad 4 (nat y) @ ''-'' @ zero_pad 2 (nat m) @ ''-'' @ zero_pad 2 (nat d) @ sep @
      zero_pad 2 (nat (secs div 3600)) @ '':'' @ zero_pad 2 (nat (secs div 60 mod 60)) @ '':'' @
      zero_pad 2 (nat (secs mod 60)) @
      (if frac = 0 then [] else ''.'' @ zero_pad 6 (nat frac)))"

definition isoformat :: "time \<Rightarrow> string" where
  "isoformat t = datetime_text ''T'' t"

subsection \<open>str(value)\<close>

definition printable :: "char \<Rightarrow> bool" where
  "printable c = (let n = (of_char c :: nat) in
     (32 \<le> n \<and> n \<le> 126) \<or> (161 \<le> n \<and> n \<noteq> 173))"

definition escape_char :: "char \<Rightarrow> char \<Rightarrow> string" where
  "escape_char q c =
     (let n = (of_char c :: nat) in
      if c = q \<or> n = 92 then [char_of (92 :: nat), c]
      else if n = 10 then [char_of (92 :: nat), CHR ''n'']
      else if n = 13 then [char_of (92 :: nat), CHR ''r'']
      else if n = 9 then [char_of (92 :: nat), CHR ''t'']
      else if printable c then [c]
      else [char_of (92 :: nat), CHR ''x'', digit_char (n div 16), digit_char (n mod 16)])"

definition repr_str :: "string \<Rightarrow> string" where
  "repr_str s =
     (let sq = char_of (39 :: nat); dq = char_of (34 :: nat);
          q = (if sq \<in> set s \<and> dq \<notin> set s then dq else sq) in
      q # concat (map (escape_char q) s) @ [q])"

fun join_with :: "string \<Rightarrow> string list \<Rightarrow> string" where
  "join_with sep [] = []"
| "join_with sep [x] = x"
| "join_with sep (x # y # ys) = x @ sep @ join_with sep (y # ys)"

text \<open>
  \<open>repr\<close> of the values JSON decoding yields; UUIDs and timestamps are never nested in lists
  or dictionaries that the program renders.
\<close>

fun repr :: "pyval \<Rightarrow> string" where
  "repr VNone = ''None''"
| "repr (VBool b) = (if b then ''True'' else ''False'')"
| "repr (VInt i) = int_str i"
| "repr (VStr s) = repr_str s"
| "repr (VUuid u) = ''UUID('' @ repr_str (uuid_str u) @ '')''"
| "repr (VTime t) = datetime_text '' '' t"
| "repr (VList xs) = ''['' @ join_with '', '' (map repr xs) @ '']''"
| "repr (VDict d) = ''{'' @ join_with '', '' (map (\<lambda>(k, v). repr_str k @ '': '' @ repr v) d) @ ''}''"

definition py_str :: "pyval \<Rightarrow> string" where
  "py_str v = (case v of
      VStr s \<Rightarrow> s
    | VUuid u \<Rightarrow> uuid_str u
    | _ \<Rightarrow> repr v)"

text \<open>\<open>str(value or "")\<close>.\<close>

definition str_or_empty :: "pyval \<Rightarrow> string" where
  "str_or_empty v = (if truthy v then py_str v else [])"

text \<open>
  \<open>int(value)\<close>; \<open>None\<close> where Python raises \<open>TypeError\<close> or \<open>ValueError\<close>.
\<close>

definition py_int :: "pyval \<Rightarrow> int option" where
  "py_int v = (case v of
      VBool b \<Rightarrow> Some (if b then 1 else 0)
    | VInt i \<Rightarrow> Some i
    | VStr s \<Rightarrow> int_parse 10 s
    | _ \<Rightarrow> None)"

subsection \<open>Results\<close>

text \<open>
  A fallible operation returns \<open>Inl e\<close> where the source raises \<open>e\<close>. Sequencing stops at the
  first error.
\<close>

definition rbind :: "'e + 'a \<Rightarrow> ('a \<Rightarrow> 'e + 'b) \<Rightarrow> 'e + 'b" where
  "rbind r f = (case r of Inl e \<Rightarrow> Inl e | Inr x \<Rightarrow> f x)"

definition rguard :: "bool \<Rightarrow> 'e \<Rightarrow> 'e + unit" where
  "rguard b e = (if b then Inr () else Inl e)"

subsection \<open>Tables\<close>

text \<open>
  A table is a list of rows. \<open>select_where\<close> is \<open>SELECT ... WHERE\<close>, \<open>update_where\<close> is
  \<open>UPDATE ... WHERE\<close> (its row count is the number of rows selected), \<open>delete_where\<close> is
  \<open>DELETE ... WHERE\<close>.
\<close>

definition select_where :: "('r \<Rightarrow> bool) \<Rightarrow> 'r list \<Rightarrow> 'r list" where
  "select_where P t = filter P t"

definition first_where :: "('r \<Rightarrow> bool) \<Rightarrow> 'r list \<Rightarrow> 'r option" where
  "first_where P t = find P t"

definition update_where :: "('r \<Rightarrow> bool) \<Rightarrow> ('r \<Rightarrow> 'r) \<Rightarrow> 'r list \<Rightarrow> 'r list" where
  "update_where P f t = map (\<lambda>r. if P r then f r else r) t"

definition delete_where :: "('r \<Rightarrow> bool) \<Rightarrow> 'r list \<Rightarrow> 'r list" where
  "delete_where P t = filter (\<lambda>r. \<not> P r) t"

definition count_where :: "('r \<Rightarrow> bool) \<Rightarrow> 'r list \<Rightarrow> nat" where
  "count_where P t = length (filter P t)"

section \<open>Shared facts\<close>

declare nat_str.simps [simp del]

subsection \<open>Results and dictionaries\<close>

lemma rbind_simps [simp]:
  "rbind (Inl e) f = Inl e"
  "rbind (Inr x) f = f x"
  by (simp_all add: rbind_def)

lemma rbind_Inr_iff [simp]:
  "rbind r f = Inr y \<longleftrightarrow> (\<exists>x. r = Inr x \<and> f x = Inr y)"
  by (cases r) auto

lemma rbind_Inl_iff:
  "rbind r f = Inl e \<longleftrightarrow> r = Inl e \<or> (\<exists>x. r = Inr x \<and> f x = Inl e)"
  by (cases r) auto

lemma rguard_iff [simp]:
  "rguard b e = Inr u \<longleftrightarrow> b"
  "rguard b e = Inl e' \<longleftrightarrow> \<not> b \<and> e' = e"
  by (auto simp: rguard_def)

lemma rguard_eval [simp]:
  "rguard True e = Inr ()" "rguard False e = Inl e"
  by (simp_all add: rguard_def)

lemma dget_Nil [simp, py_simps]: "dget [] k = VNone"
  by (simp add: dget_def)

lemma dget_Cons [py_simps]: "dget ((k', v) # d) k = (if k' = k then v else dget d k)"
  by (simp add: dget_def)

lemma dhas_Nil [simp, py_simps]: "dhas [] k = False"
  by (simp add: dhas_def)

lemma dhas_Cons [py_simps]: "dhas ((k', v) # d) k = (k' = k \<or> dhas d k)"
  by (simp add: dhas_def)

lemma dget_absent: "\<not> dhas d k \<Longrightarrow> dget d k = VNone"
  by (simp add: dget_def dhas_def)

lemma dget_dset [simp]: "dget (dset d k v) k' = (if k' = k then v else dget d k')"
  by (simp add: dget_def dset_def update_conv')

lemma dhas_dset [simp]: "dhas (dset d k v) k' = (k' = k \<or> dhas d k')"
  by (simp add: dhas_def dset_def update_conv')

lemma dget_dpop [simp]: "dget (dpop d k) k' = (if k' = k then VNone else dget d k')"
  by (simp add: dget_def dpop_def delete_conv')

lemma dhas_dpop [simp]: "dhas (dpop d k) k' = (k' \<noteq> k \<and> dhas d k')"
  by (simp add: dhas_def dpop_def delete_conv')

lemma set_dset: "set (dset d k v) \<subseteq> insert (k, v) (set d)"
  unfolding dset_def by (induction d) auto

lemma set_dpop: "set (dpop d k) \<subseteq> set d"
  by (auto simp: dpop_def AList.delete_eq)

lemma dhas_fst: "dhas d k \<longleftrightarrow> k \<in> fst ` set d"
  by (simp add: dhas_def map_of_eq_None_iff)

lemma dupdate_Nil [simp]: "dupdate d [] = d"
  by (simp add: dupdate_def)

lemma dupdate_Cons [simp]: "dupdate d ((k, v) # new) = dupdate (dset d k v) new"
  by (simp add: dupdate_def)

lemma dget_dupdate:
  "distinct (map fst new) \<Longrightarrow>
   dget (dupdate d new) k = (if dhas new k then dget new k else dget d k)"
proof (induction new arbitrary: d)
  case (Cons p new)
  obtain k' v where p: "p = (k', v)" by (cases p)
  from Cons.prems p have "\<not> dhas new k'" by (simp add: dhas_fst)
  with Cons p show ?case by (auto simp: dget_Cons dhas_Cons)
qed simp

lemma is_none_iff: "is_none v \<longleftrightarrow> v = VNone"
  by (cases v) auto

subsection \<open>Tables\<close>

lemma length_update_where [simp, table_simps]: "length (update_where P f t) = length t"
  by (simp add: update_where_def)

lemma update_where_none [table_simps]:
  "\<forall>r \<in> set t. \<not> P r \<Longrightarrow> update_where P f t = t"
  by (simp add: update_where_def map_idI)

lemma set_update_where:
  "set (update_where P f t) = {r \<in> set t. \<not> P r} \<union> f ` {r \<in> set t. P r}"
  by (auto simp: update_where_def)

lemma map_update_where:
  "(\<And>r. P r \<Longrightarrow> g (f r) = g r) \<Longrightarrow> map g (update_where P f t) = map g t"
  by (simp add: update_where_def)

lemma filter_update_where_disjoint:
  "(\<And>r. r \<in> set t \<Longrightarrow> P r \<Longrightarrow> \<not> Q r \<and> \<not> Q (f r)) \<Longrightarrow>
   filter Q (update_where P f t) = filter Q t"
  by (induction t) (auto simp: update_where_def)

lemma in_update_whereD:
  assumes "r' \<in> set (update_where P f t)"
  obtains r where "r \<in> set t" and "r' = (if P r then f r else r)"
  using assms by (auto simp: update_where_def)

lemma set_delete_where [simp, table_simps]: "set (delete_where P t) = {r \<in> set t. \<not> P r}"
  by (auto simp: delete_where_def)

lemma first_where_SomeD:
  "first_where P t = Some r \<Longrightarrow> r \<in> set t \<and> P r"
  by (auto simp: first_where_def find_Some_iff)

lemma first_where_None_iff: "first_where P t = None \<longleftrightarrow> (\<forall>r \<in> set t. \<not> P r)"
  by (auto simp: first_where_def find_None_iff)

lemma first_where_Nil [simp, table_simps]: "first_where P [] = None"
  by (simp add: first_where_def)

lemma first_where_Cons [table_simps]:
  "first_where P (r # t) = (if P r then Some r else first_where P t)"
  by (simp add: first_where_def)

lemma first_where_append:
  "first_where P (t @ u) = (case first_where P t of None \<Rightarrow> first_where P u | Some r \<Rightarrow> Some r)"
  by (induction t) (auto simp: table_simps)

lemma first_where_unique:
  assumes "distinct (map key t)" and "r \<in> set t" and "P r"
    and same: "\<forall>x \<in> set t. P x \<longrightarrow> key x = key r"
  shows "first_where P t = Some r"
proof -
  obtain x where x: "first_where P t = Some x"
    using assms(2,3) by (cases "first_where P t") (auto simp: first_where_None_iff)
  then have "x \<in> set t" "P x" by (auto dest: first_where_SomeD)
  with same assms(1,2) have "x = r" by (metis distinct_map inj_onD)
  with x show ?thesis by simp
qed

lemma count_where_zero_iff: "count_where P t = 0 \<longleftrightarrow> (\<forall>r \<in> set t. \<not> P r)"
  by (auto simp: count_where_def filter_empty_conv)

lemma count_where_unique:
  assumes "distinct (map key t)" and "\<And>r. r \<in> set t \<Longrightarrow> P r \<Longrightarrow> key r = k"
  shows "count_where P t \<le> 1"
  using assms
proof (induction t)
  case Nil
  then show ?case by (simp add: count_where_def)
next
  case (Cons a t)
  show ?case
  proof (cases "P a")
    case True
    with Cons.prems have "\<forall>r \<in> set t. \<not> P r" by force
    with True show ?thesis by (simp add: count_where_def filter_empty_conv)
  next
    case False
    from Cons.prems have "count_where P t \<le> 1" by (intro Cons.IH) auto
    with False show ?thesis by (simp add: count_where_def)
  qed
qed

subsection \<open>Decimal text\<close>

lemma of_char_digit_char: "d < 16 \<Longrightarrow> (of_char (digit_char d) :: nat) = (if d < 10 then 48 + d else 87 + d)"
  by (auto simp: digit_char_def)

lemma digit_val_digit_char [simp]: "d < 16 \<Longrightarrow> digit_val (digit_char d) = Some d"
  by (auto simp: digit_val_def of_char_digit_char Let_def)

lemma digit_char_not_special:
  "d < 16 \<Longrightarrow> \<not> is_space (digit_char d)"
  "d < 16 \<Longrightarrow> digit_char d \<noteq> CHR ''_''"
  "d < 16 \<Longrightarrow> digit_char d \<noteq> CHR ''-''"
  "d < 16 \<Longrightarrow> digit_char d \<noteq> CHR ''+''"
  "d < 16 \<Longrightarrow> digit_char d \<noteq> CHR ''x''"
  "d < 16 \<Longrightarrow> digit_char d \<noteq> CHR ''X''"
  "d < 16 \<Longrightarrow> digit_char d \<noteq> CHR ''u''"
  "d < 16 \<Longrightarrow> \<not> is_brace (digit_char d)"
  by (auto simp: is_space_def is_brace_def Let_def of_char_digit_char
      dest!: arg_cong [where f = "of_char :: char \<Rightarrow> nat"] split: if_splits)

lemma is_dec_digit_char [simp]: "d < 10 \<Longrightarrow> is_dec (digit_char d)"
  by (simp add: is_dec_def of_char_digit_char)

lemma nat_str_nonempty [simp]: "nat_str n \<noteq> []"
  by (subst nat_str.simps) simp

lemma nat_str_dec: "list_all is_dec (nat_str n)"
proof (induction n rule: nat_str.induct)
  case (1 n)
  then show ?case by (subst nat_str.simps) (simp add: list_all_iff)
qed

definition dec_foldl :: "nat \<Rightarrow> nat \<Rightarrow> string \<Rightarrow> nat" where
  "dec_foldl base acc s = foldl (\<lambda>a c. a * base + the (digit_val c)) acc s"

lemma digits_val_foldl:
  "\<lbrakk>\<forall>c \<in> set s. c \<noteq> CHR ''_'' \<and> (\<exists>d < base. digit_val c = Some d); s \<noteq> [] \<or> f\<rbrakk> \<Longrightarrow>
   digits_val base f acc s = Some (dec_foldl base acc s)"
  by (induction s arbitrary: f acc) (auto simp: dec_foldl_def)

lemma dec_foldl_snoc [simp]:
  "dec_foldl base acc (s @ [c]) = dec_foldl base acc s * base + the (digit_val c)"
  by (simp add: dec_foldl_def)

lemma dec_foldl_nat_str [simp]: "dec_foldl 10 0 (nat_str n) = n"
proof (induction n rule: nat_str.induct)
  case (1 n)
  show ?case
  proof (cases "n < 10")
    case True
    then show ?thesis by (subst nat_str.simps) (simp add: dec_foldl_def)
  next
    case False
    with 1 show ?thesis by (subst nat_str.simps) simp
  qed
qed

lemma is_dec_digit_val: "is_dec c \<Longrightarrow> \<exists>d < 10. digit_val c = Some d"
  by (auto simp: is_dec_def digit_val_def Let_def)

lemma is_dec_no_underscore: "is_dec c \<Longrightarrow> c \<noteq> CHR ''_''"
  by (auto simp: is_dec_def)

lemma is_dec_not_space: "is_dec c \<Longrightarrow> \<not> is_space c"
  by (auto simp: is_dec_def is_space_def Let_def)

lemma digits_val_dec:
  "\<lbrakk>list_all is_dec s; s \<noteq> []\<rbrakk> \<Longrightarrow> digits_val 10 f 0 s = Some (dec_foldl 10 0 s)"
  by (rule digits_val_foldl) (auto simp: list_all_iff dest: is_dec_digit_val is_dec_no_underscore)

lemma dropWhile_none: "\<forall>c \<in> set s. \<not> P c \<Longrightarrow> dropWhile P s = s"
  by (cases s) auto

lemma strip_id: "\<forall>c \<in> set s. \<not> is_space c \<Longrightarrow> strip s = s"
  by (simp add: strip_def lstrip_def rstrip_def dropWhile_none)

lemma int_parse_dec:
  assumes "list_all is_dec s" and "s \<noteq> []"
  shows "int_parse 10 s = Some (int (dec_foldl 10 0 s))"
proof -
  have st: "strip s = s"
    using assms(1) by (intro strip_id) (auto simp: list_all_iff dest: is_dec_not_space)
  obtain c cs where s: "s = c # cs" using assms(2) by (cases s) auto
  with assms(1) have "is_dec c" by simp
  then have "c \<noteq> CHR ''-'' \<and> c \<noteq> CHR ''+''" by (auto simp: is_dec_def)
  with st s assms digits_val_dec [of s False] show ?thesis
    by (simp add: int_parse_def base_digits_def)
qed

lemma int_parse_nat_str [simp]: "int_parse 10 (nat_str n) = Some (int n)"
  using int_parse_dec [OF nat_str_dec nat_str_nonempty] by simp

lemma dec_foldl_zeros: "dec_foldl 10 0 (replicate k (CHR ''0'') @ s) = dec_foldl 10 0 s"
  by (induction k) (simp_all add: dec_foldl_def digit_val_def)

lemma zero_pad_dec: "list_all is_dec (zero_pad w n)"
  using nat_str_dec [of n] by (auto simp: zero_pad_def Let_def list_all_iff is_dec_def)

lemma zero_pad_nonempty [simp]: "zero_pad w n \<noteq> []"
  by (simp add: zero_pad_def Let_def)

lemma int_parse_zero_pad [simp]: "int_parse 10 (zero_pad w n) = Some (int n)"
  using int_parse_dec [OF zero_pad_dec zero_pad_nonempty, of w n]
  by (simp add: zero_pad_def Let_def dec_foldl_zeros)

lemma zero_pad_inject: "zero_pad w m = zero_pad w n \<longleftrightarrow> m = n"
proof
  assume "zero_pad w m = zero_pad w n"
  then have "int_parse 10 (zero_pad w m) = int_parse 10 (zero_pad w n)" by simp
  then show "m = n" by simp
qed simp

lemma is_dec_is_digits: "\<lbrakk>list_all is_dec s; s \<noteq> []\<rbrakk> \<Longrightarrow> is_digits s"
  by (auto simp: is_digits_def is_digit_char_def list_all_iff)

subsection \<open>UUID text\<close>

definition hex_chars :: "string \<Rightarrow> bool" where
  "hex_chars s = list_all (\<lambda>c. \<exists>d < 16. c = digit_char d) s"

lemma hex_fixed_chars: "hex_chars (hex_fixed k n)"
proof (induction k arbitrary: n)
  case (Suc k)
  have "\<exists>d < 16. digit_char (n mod 16) = digit_char d"
    by (rule exI [of _ "n mod 16"]) simp
  with Suc show ?case by (simp add: hex_chars_def)
qed (simp add: hex_chars_def)

lemma length_hex_fixed [simp]: "length (hex_fixed k n) = k"
  by (induction k arbitrary: n) auto

lemma dec_foldl_hex_fixed: "dec_foldl 16 0 (hex_fixed k n) = n mod 16 ^ k"
proof (induction k arbitrary: n)
  case (Suc k)
  have "n mod (16 * 16 ^ k) = 16 * (n div 16 mod 16 ^ k) + n mod 16"
    by (rule mod_mult2_eq)
  then show ?case using Suc by (simp add: mult.commute)
qed (simp add: dec_foldl_def)

lemma hex_chars_facts:
  assumes "hex_chars s" and "c \<in> set s"
  shows "\<not> is_space c" "c \<noteq> CHR ''_''" "c \<noteq> CHR ''-''" "c \<noteq> CHR ''+''" "c \<noteq> CHR ''x''"
    "c \<noteq> CHR ''X''" "c \<noteq> CHR ''u''" "\<not> is_brace c" "\<exists>d < 16. digit_val c = Some d"
proof -
  from assms obtain d where "d < 16" "c = digit_char d"
    by (auto simp: hex_chars_def list_all_iff)
  then show "\<not> is_space c" "c \<noteq> CHR ''_''" "c \<noteq> CHR ''-''" "c \<noteq> CHR ''+''" "c \<noteq> CHR ''x''"
    "c \<noteq> CHR ''X''" "c \<noteq> CHR ''u''" "\<not> is_brace c" "\<exists>d < 16. digit_val c = Some d"
    using digit_char_not_special by auto
qed

lemma int_parse_hex:
  assumes "hex_chars s" and "2 \<le> length s"
  shows "int_parse 16 s = Some (int (dec_foldl 16 0 s))"
proof -
  have st: "strip s = s" by (rule strip_id) (auto dest: hex_chars_facts(1) [OF assms(1)])
  obtain a b cs where s: "s = a # b # cs"
    using assms(2) by (cases s; cases "tl s") auto
  have ab: "a \<noteq> CHR ''-''" "a \<noteq> CHR ''+''" "b \<noteq> CHR ''x''" "b \<noteq> CHR ''X''"
    using hex_chars_facts [OF assms(1)] s by auto
  have "digits_val 16 False 0 s = Some (dec_foldl 16 0 s)"
    using s hex_chars_facts(2,9) [OF assms(1)] by (intro digits_val_foldl) auto
  with st s ab show ?thesis
    by (auto simp: int_parse_def base_digits_def starts_with_def)
qed

lemma replace_fuel_id:
  assumes "old \<noteq> []" and "hd old \<notin> set s"
  shows "replace_fuel n old new s = s"
  using assms(2)
proof (induction n arbitrary: s)
  case (Suc n)
  have "\<not> starts_with s old" if "s \<noteq> []"
    using that Suc.prems assms(1) by (cases s; cases old) (auto simp: starts_with_def)
  with Suc show ?case by (auto split: list.splits)
qed simp

lemma replace_str_id: "\<lbrakk>old \<noteq> []; hd old \<notin> set s\<rbrakk> \<Longrightarrow> replace_str old new s = s"
  by (simp add: replace_str_def replace_fuel_id)

lemma set_uuid_str: "set (uuid_str u) \<subseteq> insert (CHR ''-'') (set (hex_fixed 32 u))"
  unfolding uuid_str_def Let_def
  by (auto dest: in_set_takeD in_set_dropD)

lemma filter_uuid_str: "filter (\<lambda>c. c \<noteq> CHR ''-'') (uuid_str u) = hex_fixed 32 u"
proof -
  let ?h = "hex_fixed 32 u"
  have f: "filter (\<lambda>c. c \<noteq> CHR ''-'') ?h = ?h"
    by (rule filter_True) (auto dest: hex_chars_facts(3) [OF hex_fixed_chars])
  have t: "filter (\<lambda>c. c \<noteq> CHR ''-'') (take n (drop m ?h)) = take n (drop m ?h)" for n m
    using hex_chars_facts(3) [OF hex_fixed_chars]
    by (intro filter_True) (metis in_set_takeD in_set_dropD)
  have g: "filter (\<lambda>c. c \<noteq> CHR ''-'') (take n ?h) = take n ?h"
    "filter (\<lambda>c. c \<noteq> CHR ''-'') (take n (drop m ?h)) = take n (drop m ?h)"
    "filter (\<lambda>c. c \<noteq> CHR ''-'') (drop m ?h) = drop m ?h" for n m
    using t [of n 0] t [of n m] t [of "length ?h" m] by simp_all
  have "take 8 ?h @ take 4 (drop 8 ?h) @ take 4 (drop 12 ?h) @ take 4 (drop 16 ?h) @ drop 20 ?h = ?h"
    using append_take_drop_id [of 8 ?h] append_take_drop_id [of 4 "drop 8 ?h"]
      append_take_drop_id [of 4 "drop 12 ?h"] append_take_drop_id [of 4 "drop 16 ?h"]
    by (simp add: drop_drop)
  with g show ?thesis by (simp add: uuid_str_def Let_def)
qed

theorem uuid_roundtrip: "u < 2 ^ 128 \<Longrightarrow> uuid_of_str (uuid_str u) = Some u"
proof -
  assume u: "u < 2 ^ 128"
  have c: "c \<noteq> CHR ''u'' \<and> \<not> is_brace c" if "c \<in> set (uuid_str u)" for c
    using that set_uuid_str [of u] hex_chars_facts(7,8) [OF hex_fixed_chars, of c 32 u]
    by (auto simp: is_brace_def)
  then have r: "replace_str ''urn:'' [] (uuid_str u) = uuid_str u"
    "replace_str ''uuid:'' [] (uuid_str u) = uuid_str u"
    by (auto intro!: replace_str_id dest: c)
  have b: "rev (dropWhile is_brace (rev (dropWhile is_brace (uuid_str u)))) = uuid_str u"
    using c by (simp add: dropWhile_none)
  have p: "int_parse 16 (hex_fixed 32 u) = Some (int u)"
    using int_parse_hex [OF hex_fixed_chars, of 32 u] u
    by (simp add: dec_foldl_hex_fixed)
  have "int u < 2 ^ 128" using u by (metis of_nat_less_iff of_nat_numeral of_nat_power)
  with r b p show ?thesis by (simp add: uuid_of_str_def filter_uuid_str Let_def)
qed

section \<open>Reachability and invariants\<close>

text \<open>
  The states a component can reach from its initial states by its steps, and the argument
  every invariant proof of the development uses: what holds initially and is kept by each
  step holds in every reachable state.
\<close>

inductive reach :: "('s \<Rightarrow> bool) \<Rightarrow> ('s \<Rightarrow> 's \<Rightarrow> bool) \<Rightarrow> 's \<Rightarrow> bool"
  for init :: "'s \<Rightarrow> bool" and step :: "'s \<Rightarrow> 's \<Rightarrow> bool" where
  reach_init: "init s \<Longrightarrow> reach init step s"
| reach_step: "reach init step s \<Longrightarrow> step s t \<Longrightarrow> reach init step t"

locale invariant_system =
  fixes init :: "'s \<Rightarrow> bool" and step :: "'s \<Rightarrow> 's \<Rightarrow> bool" and inv :: "'s \<Rightarrow> bool"
  assumes inv_init: "init s \<Longrightarrow> inv s"
    and inv_step: "inv s \<Longrightarrow> step s t \<Longrightarrow> inv t"
begin

lemma reach_inv: "reach init step s \<Longrightarrow> inv s"
  by (induction rule: reach.induct) (auto intro: inv_init inv_step)

lemma reach_inv_weaken: "reach init step s \<Longrightarrow> (\<And>s. inv s \<Longrightarrow> P s) \<Longrightarrow> P s"
  by (blast dest: reach_inv)

end

end
