(* ===== verification/Server_Models.thy ===== *)
theory Server_Models
  imports Prelude
begin

section \<open>Server data model (db/models.py, core/scoring.py, sync/serialize.py)\<close>

text \<open>
  The ORM classes of the server, the event listeners that keep derived columns true, and the
  session's flush. A row of a synchronised table is its attribute map: the sync engine reads
  and writes columns by name, so the model does too. \<open>None\<close> is \<^const>\<open>VNone\<close>; a column
  that was never set reads as \<open>None\<close>. Every \<open>utcnow()\<close> of one operation returns the same
  instant \<open>now\<close>, an argument of the operation.

  The database is a record of tables. SQLAlchemy's unit of work appears as \<open>flush_insert\<close> and
  \<open>flush_update\<close>: the listeners run, column defaults replace unset values on insert, the
  constraints of the table are checked, and the row is written. A failed operation leaves no
  trace, as the savepoint or transaction around it is rolled back.
\<close>

subsection \<open>Tables and columns\<close>

datatype model = Item | Action | Assessment | HelpDeskTicket

type_synonym row = "string \<Rightarrow> pyval"

datatype col_type = TUuid | TInteger | TBoolean | TDateTime | TString nat | TText

datatype dialect = SQLite | PostgreSQL

text \<open>A column: name, type and whether it may be null.\<close>

type_synonym column = "string \<times> col_type \<times> bool"

definition SyncMixin_columns :: "column list" where
  "SyncMixin_columns =
     [(''created_at'', TDateTime, False), (''updated_at'', TDateTime, False),
      (''version'', TInteger, False), (''is_deleted'', TBoolean, False),
      (''change_sequence'', TInteger, False)]"

definition ItemBaseMixin_columns :: "column list" where
  "ItemBaseMixin_columns =
     [(''project_id'', TUuid, False), (''title'', TString 300, False),
      (''probability'', TInteger, False), (''impact'', TInteger, False),
      (''impact_cost'', TInteger, True), (''impact_time'', TInteger, True),
      (''impact_scope'', TInteger, True), (''impact_quality'', TInteger, True),
      (''code'', TString 60, True), (''description'', TText, True),
      (''category'', TString 120, True), (''threat'', TText, True),
      (''triggers'', TText, True), (''mitigation_plan'', TText, True),
      (''document_url'', TText, True), (''owner_user_id'', TUuid, True),
      (''status'', TString 30, False), (''identified_at'', TDateTime, False),
      (''status_changed_at'', TDateTime, False), (''response_at'', TDateTime, True),
      (''occurred_at'', TDateTime, True), (''score'', TInteger, False),
      (''created_by'', TUuid, False)]"

definition AssessmentMixin_columns :: "column list" where
  "AssessmentMixin_columns =
     [(''assessor_user_id'', TUuid, False), (''probability'', TInteger, False),
      (''impact'', TInteger, False), (''score'', TInteger, False), (''notes'', TText, True)]"

definition HelpDeskTicket_columns :: "column list" where
  "HelpDeskTicket_columns =
     [(''project_id'', TUuid, False), (''title'', TString 300, False),
      (''description'', TText, True), (''category'', TString 40, False),
      (''priority'', TString 20, False), (''status'', TString 20, False),
      (''reporter_email'', TString 320, True), (''created_by'', TUuid, False)]"

definition Action_columns :: "column list" where
  "Action_columns =
     [(''project_id'', TUuid, False), (''item_id'', TUuid, False), (''kind'', TString 20, False),
      (''title'', TString 300, False), (''description'', TText, True),
      (''status'', TString 20, False), (''owner_user_id'', TUuid, True),
      (''created_by'', TUuid, False)]"

fun columns :: "model \<Rightarrow> column list" where
  "columns Item = (''id'', TUuid, False) # SyncMixin_columns @ ItemBaseMixin_columns @
     [(''type'', TString 20, False)]"
| "columns Action = (''id'', TUuid, False) # SyncMixin_columns @ Action_columns"
| "columns Assessment = (''id'', TUuid, False) # SyncMixin_columns @ AssessmentMixin_columns @
     [(''item_id'', TUuid, False)]"
| "columns HelpDeskTicket = (''id'', TUuid, False) # SyncMixin_columns @ HelpDeskTicket_columns"

definition column_names :: "model \<Rightarrow> string list" where
  "column_names m = map fst (columns m)"

text \<open>\<open>hasattr(obj, k)\<close> and \<open>getattr(obj, k, None)\<close> for the names a record may use.\<close>

definition hasattr :: "model \<Rightarrow> string \<Rightarrow> bool" where
  "hasattr m k = (k \<in> set (column_names m))"

definition getattr :: "model \<Rightarrow> row \<Rightarrow> string \<Rightarrow> pyval" where
  "getattr m r k = (if hasattr m k then r k else VNone)"

text \<open>An integer column; integer columns read back from the database are never null.\<close>

definition int_col :: "row \<Rightarrow> string \<Rightarrow> int" where
  "int_col r k = (case r k of VInt i \<Rightarrow> i | _ \<Rightarrow> 0)"

abbreviation version_of :: "row \<Rightarrow> int" where
  "version_of r \<equiv> int_col r ''version''"

abbreviation seq_of :: "row \<Rightarrow> int" where
  "seq_of r \<equiv> int_col r ''change_sequence''"

text \<open>The \<open>default=\<close> of a column, applied on insert to a column that is unset or \<open>None\<close>.\<close>

definition SyncMixin_default :: "time \<Rightarrow> string \<Rightarrow> pyval" where
  "SyncMixin_default now k =
     (if k = ''created_at'' \<or> k = ''updated_at'' then VTime now
      else if k = ''version'' then VInt 1
      else if k = ''is_deleted'' then VBool False
      else if k = ''change_sequence'' then VInt 0
      else VNone)"

fun column_default :: "time \<Rightarrow> model \<Rightarrow> string \<Rightarrow> pyval" where
  "column_default now Item k =
     (if k = ''probability'' \<or> k = ''impact'' \<or> k = ''score'' then VInt 1
      else if k = ''status'' then VStr ''concept''
      else if k = ''identified_at'' \<or> k = ''status_changed_at'' then VTime now
      else SyncMixin_default now k)"
| "column_default now Action k =
     (if k = ''status'' then VStr ''open'' else SyncMixin_default now k)"
| "column_default now Assessment k = SyncMixin_default now k"
| "column_default now HelpDeskTicket k =
     (if k = ''category'' then VStr ''other''
      else if k = ''priority'' then VStr ''medium''
      else if k = ''status'' then VStr ''open''
      else SyncMixin_default now k)"

definition insert_defaults :: "time \<Rightarrow> model \<Rightarrow> row \<Rightarrow> row" where
  "insert_defaults now m r =
     (\<lambda>k. if hasattr m k \<and> r k = VNone then column_default now m k else r k)"

subsection \<open>The database\<close>

record user_row =
  u_id :: uuid
  u_email :: string
  u_password_hash :: string
  u_is_active :: bool
  u_is_superuser :: bool
  u_deactivated_at :: "time option"

record project_row =
  p_id :: uuid
  p_name :: string
  p_description :: "string option"
  p_created_at :: time
  p_created_by :: uuid

record member_row =
  pm_project_id :: uuid
  pm_user_id :: uuid
  pm_role :: string
  pm_created_at :: time

record receipt_row =
  rc_change_id :: uuid
  rc_user_id :: uuid
  rc_project_id :: uuid
  rc_entity :: string
  rc_entity_id :: "uuid option"
  rc_op :: string
  rc_status :: string
  rc_response :: dict
  rc_payload_hash :: "string option"
  rc_processed_at :: time

record audit_row =
  al_ts :: time
  al_user_id :: uuid
  al_project_id :: uuid
  al_change_id :: uuid
  al_entity :: string
  al_entity_id :: uuid
  al_op :: string
  al_before :: "dict option"
  al_after :: dict

record snapshot_row =
  ss_batch_id :: uuid
  ss_captured_at :: time
  ss_project_id :: uuid
  ss_kind :: string
  ss_item_id :: uuid
  ss_title :: string
  ss_probability :: int
  ss_impact :: int
  ss_score :: int
  ss_created_by :: uuid

text \<open>\<open>sync_project_state\<close> holds the per-project high-water mark of the change feed.\<close>

record sdb =
  users :: "user_row list"
  projects :: "project_row list"
  project_members :: "member_row list"
  tables :: "model \<Rightarrow> row list"
  sync_project_state :: "(uuid \<times> int) list"
  sync_receipts :: "receipt_row list"
  audit_log :: "audit_row list"
  score_snapshots :: "snapshot_row list"

text \<open>What the server code raises.\<close>

datatype exc =
    HTTPException int pyval
  | ConflictError string "uuid option" "int option" "dict option"
  | IntegrityError
  | DataError
  | PyValueError
  | PyTypeError
  | PyKeyError
  | PyRuntimeError

type_synonym 'a result = "exc + 'a"

abbreviation http_error :: "int \<Rightarrow> string \<Rightarrow> exc" where
  "http_error code detail \<equiv> HTTPException code (VStr detail)"

subsection \<open>Status changes and soft deletion\<close>

definition change_status :: "pyval \<Rightarrow> time \<Rightarrow> row \<Rightarrow> row" where
  "change_status new_status now r =
     (if r ''status'' \<noteq> new_status
      then let r1 = r(''status'' := new_status, ''status_changed_at'' := VTime now) in
           if new_status = VStr ''happened'' then r1(''occurred_at'' := VTime now) else r1
      else r)"

text \<open>
  Only items have a \<open>change_status\<close> method, so only they satisfy \<open>_StatusChangeable\<close>.
\<close>

definition status_changeable :: "model \<Rightarrow> bool" where
  "status_changeable m = (m = Item)"

definition soft_delete :: "model \<Rightarrow> time \<Rightarrow> row \<Rightarrow> row" where
  "soft_delete m now r =
     (let r1 = r(''is_deleted'' := VBool True, ''updated_at'' := VTime now,
                 ''version'' := VInt (version_of r + 1)) in
      if status_changeable m then change_status (VStr ''deleted'') now r1 else r1)"

subsection \<open>Scores\<close>

definition validate_scale_1_5 :: "pyval \<Rightarrow> unit result" where
  "validate_scale_1_5 v =
     (if v = VNone then Inl PyValueError
      else case py_int v of
             None \<Rightarrow> Inl PyTypeError
           | Some i \<Rightarrow> if 1 \<le> i \<and> i \<le> 5 then Inr () else Inl PyValueError)"

definition score :: "pyval \<Rightarrow> pyval \<Rightarrow> pyval" where
  "score probability impact =
     (case (py_int probability, py_int impact) of
        (Some p, Some i) \<Rightarrow> VInt (p * i)
      | _ \<Rightarrow> VNone)"

definition scored_model :: "model \<Rightarrow> bool" where
  "scored_model m = (m = Item \<or> m = Assessment)"

text \<open>The \<open>before_insert\<close>/\<open>before_update\<close> listener of items and assessments.\<close>

definition compute_score :: "model \<Rightarrow> row \<Rightarrow> row result" where
  "compute_score m r =
     (if scored_model m
      then rbind (validate_scale_1_5 (r ''probability'')) (\<lambda>_.
           rbind (validate_scale_1_5 (r ''impact'')) (\<lambda>_.
           Inr (r(''score'' := score (r ''probability'') (r ''impact'')))))
      else Inr r)"

definition IMPACT_DIMENSIONS :: "string list" where
  "IMPACT_DIMENSIONS = [''impact_cost'', ''impact_time'', ''impact_scope'', ''impact_quality'']"

definition int_or_one :: "pyval \<Rightarrow> int" where
  "int_or_one v = (if truthy v then (case py_int v of Some i \<Rightarrow> i | None \<Rightarrow> 1) else 1)"

definition recalculate_item_scores :: "model \<Rightarrow> row \<Rightarrow> row" where
  "recalculate_item_scores m r =
     (if \<not> (hasattr m ''probability'' \<and> hasattr m ''impact'') then r
      else let dimensions = map (getattr m r) IMPACT_DIMENSIONS;
               valid = List.map_filter py_int (filter (\<lambda>v. v \<noteq> VNone) dimensions);
               r1 = (if valid \<noteq> [] then r(''impact'' := VInt (Max (set valid))) else r) in
           r1(''score'' := VInt (int_or_one (r1 ''probability'') * int_or_one (r1 ''impact''))))"


subsection \<open>The change feed's counter\<close>

definition last_sequence :: "sdb \<Rightarrow> uuid \<Rightarrow> int option" where
  "last_sequence db pid = map_of (sync_project_state db) pid"

text \<open>\<open>UPDATE ... SET last_sequence = last_sequence + 1\<close>, the row count, then the read back.\<close>

definition next_change_sequence :: "sdb \<Rightarrow> pyval \<Rightarrow> (int \<times> sdb) result" where
  "next_change_sequence db project_id =
     (let hit = (\<lambda>(p, s). VUuid p = project_id);
          db' = db\<lparr>sync_project_state :=
                    update_where hit (\<lambda>(p, s). (p, s + 1)) (sync_project_state db)\<rparr> in
      if count_where hit (sync_project_state db) \<noteq> 1 then Inl PyRuntimeError
      else case first_where hit (sync_project_state db') of
             None \<Rightarrow> Inl PyRuntimeError
           | Some (p, s) \<Rightarrow> Inr (s, db'))"

definition sync_entity_project_id :: "sdb \<Rightarrow> model \<Rightarrow> row \<Rightarrow> pyval result" where
  "sync_entity_project_id db m r =
     (if m = Assessment
      then (case first_where (\<lambda>i. i ''id'' = r ''item_id'') (tables db Item) of
              None \<Rightarrow> Inl PyRuntimeError
            | Some i \<Rightarrow> if i ''project_id'' = VNone then Inl PyRuntimeError else Inr (i ''project_id''))
      else Inr (r ''project_id''))"

definition create_project_sync_state :: "uuid \<Rightarrow> sdb \<Rightarrow> sdb" where
  "create_project_sync_state pid db =
     db\<lparr>sync_project_state := sync_project_state db @ [(pid, 0)]\<rparr>"

definition assign_change_sequence :: "model \<Rightarrow> sdb \<Rightarrow> row \<Rightarrow> (row \<times> sdb) result" where
  "assign_change_sequence m db r =
     rbind (sync_entity_project_id db m r) (\<lambda>project_id.
     rbind (next_change_sequence db project_id) (\<lambda>(s, db').
     Inr (r(''change_sequence'' := VInt s), db')))"

subsection \<open>Constraints\<close>

text \<open>
  Values reach the columns through the request schemas or from server-side literals, so a
  value of a wrong type does not occur; the model refuses it as the driver would. Only
  PostgreSQL enforces the length of \<open>String(n)\<close>.
\<close>

fun type_ok :: "dialect \<Rightarrow> col_type \<Rightarrow> pyval \<Rightarrow> bool" where
  "type_ok d TUuid (VUuid u) = True"
| "type_ok d TInteger (VInt i) = True"
| "type_ok d TBoolean (VBool b) = True"
| "type_ok d TDateTime (VTime t) = True"
| "type_ok d (TString n) (VStr s) = (d = PostgreSQL \<longrightarrow> length s \<le> n)"
| "type_ok d TText (VStr s) = True"
| "type_ok d t v = (v = VNone)"

definition types_ok :: "dialect \<Rightarrow> model \<Rightarrow> row \<Rightarrow> bool" where
  "types_ok d m r = list_all (\<lambda>(k, t, nullable). type_ok d t (r k)) (columns m)"

definition not_null_ok :: "model \<Rightarrow> row \<Rightarrow> bool" where
  "not_null_ok m r = list_all (\<lambda>(k, t, nullable). nullable \<or> r k \<noteq> VNone) (columns m)"

definition user_exists :: "sdb \<Rightarrow> pyval \<Rightarrow> bool" where
  "user_exists db v = (v = VNone \<or> list_ex (\<lambda>u. v = VUuid (u_id u)) (users db))"

definition project_exists :: "sdb \<Rightarrow> pyval \<Rightarrow> bool" where
  "project_exists db v = (v = VNone \<or> list_ex (\<lambda>p. v = VUuid (p_id p)) (projects db))"

definition item_exists :: "sdb \<Rightarrow> pyval \<Rightarrow> bool" where
  "item_exists db v = (v = VNone \<or> list_ex (\<lambda>i. v = i ''id'') (tables db Item))"

definition foreign_keys_ok :: "sdb \<Rightarrow> model \<Rightarrow> row \<Rightarrow> bool" where
  "foreign_keys_ok db m r =
     ((hasattr m ''project_id'' \<longrightarrow> project_exists db (r ''project_id'')) \<and>
      (hasattr m ''item_id'' \<longrightarrow> item_exists db (r ''item_id'')) \<and>
      (hasattr m ''owner_user_id'' \<longrightarrow> user_exists db (r ''owner_user_id'')) \<and>
      (hasattr m ''assessor_user_id'' \<longrightarrow> user_exists db (r ''assessor_user_id'')) \<and>
      (hasattr m ''created_by'' \<longrightarrow> user_exists db (r ''created_by'')))"

definition between_1_5 :: "pyval \<Rightarrow> bool" where
  "between_1_5 v = (case v of VInt i \<Rightarrow> 1 \<le> i \<and> i \<le> 5 | _ \<Rightarrow> False)"

fun check_constraints :: "model \<Rightarrow> row \<Rightarrow> bool" where
  "check_constraints Item r = (between_1_5 (r ''probability'') \<and> between_1_5 (r ''impact''))"
| "check_constraints HelpDeskTicket r =
     (r ''status'' \<in> {VStr ''open'', VStr ''in_progress'', VStr ''resolved'', VStr ''closed''} \<and>
      r ''priority'' \<in> {VStr ''low'', VStr ''medium'', VStr ''high'', VStr ''critical''} \<and>
      r ''category'' \<in> {VStr ''bug'', VStr ''question'', VStr ''feature_request'',
                        VStr ''access'', VStr ''other''})"
| "check_constraints Action r = True"
| "check_constraints Assessment r = True"

text \<open>Two distinct rows that a unique constraint forbids together (nulls never collide).\<close>

fun unique_clash :: "model \<Rightarrow> row \<Rightarrow> row \<Rightarrow> bool" where
  "unique_clash Item a b =
     (a ''code'' \<noteq> VNone \<and> a ''code'' = b ''code'' \<and> a ''project_id'' = b ''project_id'')"
| "unique_clash Assessment a b =
     (a ''item_id'' = b ''item_id'' \<and> a ''assessor_user_id'' = b ''assessor_user_id'')"
| "unique_clash Action a b = False"
| "unique_clash HelpDeskTicket a b = False"

definition constraints :: "dialect \<Rightarrow> sdb \<Rightarrow> model \<Rightarrow> row list \<Rightarrow> row \<Rightarrow> unit result" where
  "constraints d db m others r =
     rbind (rguard (types_ok d m r) DataError) (\<lambda>_.
     rguard (not_null_ok m r \<and> check_constraints m r \<and> foreign_keys_ok db m r \<and>
             list_all (\<lambda>o'. o' ''id'' \<noteq> r ''id'' \<and> \<not> unique_clash m o' r) others) IntegrityError)"

subsection \<open>Flushing one object\<close>

definition set_table :: "model \<Rightarrow> row list \<Rightarrow> sdb \<Rightarrow> sdb" where
  "set_table m t db = db\<lparr>tables := (tables db)(m := t)\<rparr>"

definition flush_insert :: "dialect \<Rightarrow> time \<Rightarrow> model \<Rightarrow> row \<Rightarrow> sdb \<Rightarrow> (row \<times> sdb) result" where
  "flush_insert d now m r db =
     rbind (compute_score m r) (\<lambda>r1.
     rbind (assign_change_sequence m db r1) (\<lambda>(r2, db').
     let r3 = insert_defaults now m r2 in
     rbind (constraints d db' m (tables db' m) r3) (\<lambda>_.
     Inr (r3, set_table m (tables db' m @ [r3]) db'))))"

definition flush_update :: "dialect \<Rightarrow> model \<Rightarrow> row \<Rightarrow> sdb \<Rightarrow> (row \<times> sdb) result" where
  "flush_update d m r db =
     rbind (compute_score m r) (\<lambda>r1.
     rbind (assign_change_sequence m db r1) (\<lambda>(r2, db').
     let same = (\<lambda>x. x ''id'' = r ''id'') in
     rbind (constraints d db' m (delete_where same (tables db' m)) r2) (\<lambda>_.
     Inr (r2, set_table m (update_where same (\<lambda>_. r2) (tables db' m)) db'))))"

subsection \<open>Serialisation\<close>

definition json_value :: "pyval \<Rightarrow> pyval" where
  "json_value v = (case v of
      VUuid u \<Rightarrow> VStr (uuid_str u)
    | VTime t \<Rightarrow> VStr (isoformat t)
    | _ \<Rightarrow> v)"

definition model_to_dict :: "model \<Rightarrow> row \<Rightarrow> dict" where
  "model_to_dict m r =
     (let out = map (\<lambda>k. (k, json_value (r k)))
                    (filter (\<lambda>k. k \<noteq> ''change_sequence'') (column_names m)) in
      if dhas out ''item_id''
      then out @ [(''risk_id'', dget out ''item_id''), (''opportunity_id'', dget out ''item_id'')]
      else out)"

definition with_item_aliases :: "dict \<Rightarrow> pyval \<Rightarrow> dict" where
  "with_item_aliases record item_type =
     (let item_id = dget record ''item_id'';
          r1 = dset record ''risk_id'' (if item_type = VStr ''risk'' then item_id else VNone) in
      dset r1 ''opportunity_id'' (if item_type = VStr ''opportunity'' then item_id else VNone))"

definition item_type_of :: "sdb \<Rightarrow> pyval \<Rightarrow> pyval" where
  "item_type_of db item_id =
     (case first_where (\<lambda>i. i ''id'' = item_id) (tables db Item) of
        None \<Rightarrow> VNone
      | Some i \<Rightarrow> i ''type'')"

definition model_to_sync_dict :: "sdb \<Rightarrow> string \<Rightarrow> model \<Rightarrow> row \<Rightarrow> dict" where
  "model_to_sync_dict db entity m r =
     (let out = model_to_dict m r in
      if entity \<notin> {''action'', ''assessment''} then out
      else with_item_aliases out
             (if truthy (dget out ''item_id'') then item_type_of db (r ''item_id'') else VNone))"

definition serialize_action_rows :: "(row \<times> pyval) list \<Rightarrow> dict list" where
  "serialize_action_rows rows = map (\<lambda>(a, item_type).
     map (\<lambda>(k, v). (k, json_value v))
       [(''id'', a ''id''), (''project_id'', a ''project_id''),
        (''risk_id'', if item_type = VStr ''risk'' then a ''item_id'' else VNone),
        (''opportunity_id'', if item_type = VStr ''opportunity'' then a ''item_id'' else VNone),
        (''kind'', a ''kind''), (''title'', a ''title''), (''description'', a ''description''),
        (''status'', a ''status''), (''owner_user_id'', a ''owner_user_id''),
        (''updated_at'', a ''updated_at''), (''version'', a ''version''),
        (''is_deleted'', a ''is_deleted'')]) rows"

definition serialize_assessment_rows :: "(row \<times> pyval) list \<Rightarrow> dict list" where
  "serialize_assessment_rows rows =
     map (\<lambda>(a, item_type). with_item_aliases (model_to_dict Assessment a) item_type) rows"


section \<open>Facts about the data model\<close>

subsection \<open>Scores\<close>

text \<open>What every stored row of a scored table satisfies.\<close>

definition score_ok :: "model \<Rightarrow> row \<Rightarrow> bool" where
  "score_ok m r = (scored_model m \<longrightarrow>
     (\<exists>p i. r ''probability'' = VInt p \<and> r ''impact'' = VInt i \<and> 1 \<le> p \<and> p \<le> 5 \<and>
            1 \<le> i \<and> i \<le> 5 \<and> r ''score'' = VInt (p * i)))"

lemma validate_scale_Inr:
  "validate_scale_1_5 v = Inr () \<longleftrightarrow> (\<exists>i. py_int v = Some i \<and> 1 \<le> i \<and> i \<le> 5)"
  by (auto simp: validate_scale_1_5_def py_int_def split: option.splits pyval.splits)

lemma type_ok_TInteger: "type_ok d TInteger v \<Longrightarrow> v \<noteq> VNone \<Longrightarrow> \<exists>i. v = VInt i"
  by (cases v) auto

lemma type_ok_weaken: "type_ok d t v \<Longrightarrow> type_ok SQLite t v"
  by (cases "(d, t, v)" rule: type_ok.cases) auto

lemma columns_unique:
  "(k, t, n) \<in> set (columns m) \<Longrightarrow> hasattr m k"
  by (force simp: hasattr_def column_names_def)

lemma scored_columns:
  "scored_model m \<Longrightarrow> (''probability'', TInteger, False) \<in> set (columns m)"
  "scored_model m \<Longrightarrow> (''impact'', TInteger, False) \<in> set (columns m)"
  by (cases m; simp add: scored_model_def ItemBaseMixin_columns_def AssessmentMixin_columns_def)+

lemma integer_column:
  assumes "types_ok d m r" "not_null_ok m r" "(k, TInteger, False) \<in> set (columns m)"
  shows "\<exists>i. r k = VInt i"
  using assms type_ok_TInteger by (force simp: types_ok_def not_null_ok_def list_all_iff)

lemma constraints_Inr:
  "constraints d db m others r = Inr u \<longleftrightarrow>
   types_ok d m r \<and> not_null_ok m r \<and> check_constraints m r \<and> foreign_keys_ok db m r \<and>
   (\<forall>x \<in> set others. x ''id'' \<noteq> r ''id'' \<and> \<not> unique_clash m x r)"
  by (auto simp: constraints_def list_all_iff)

lemma compute_score_frame:
  "compute_score m r = Inr r' \<Longrightarrow> k \<noteq> ''score'' \<Longrightarrow> r' k = r k"
  by (auto simp: compute_score_def split: if_splits)

lemma compute_score_ok:
  assumes "compute_score m r = Inr r1" and "scored_model m"
    and "r' ''probability'' = r1 ''probability''" "r' ''impact'' = r1 ''impact''"
    and "r' ''score'' = r1 ''score''" and "types_ok d m r'" "not_null_ok m r'"
  shows "score_ok m r'"
proof -
  obtain p i where p: "r' ''probability'' = VInt p" and i: "r' ''impact'' = VInt i"
    using integer_column [OF assms(6,7)] scored_columns [OF assms(2)] by metis
  with assms(3,4) compute_score_frame [OF assms(1)]
  have "r ''probability'' = VInt p" "r ''impact'' = VInt i" by auto
  with p i assms(1,2,5) show ?thesis
    by (auto simp: compute_score_def score_ok_def validate_scale_Inr score_def py_int_def)
qed

subsection \<open>The counter\<close>

definition states_distinct :: "sdb \<Rightarrow> bool" where
  "states_distinct db = (distinct (map fst (sync_project_state db)) \<and>
     (\<forall>p s. last_sequence db p = Some s \<longrightarrow> 0 \<le> s))"

lemma next_change_sequence_Inr:
  assumes "next_change_sequence db v = Inr (s, db')" and "states_distinct db"
  obtains p l where "v = VUuid p" "last_sequence db p = Some l" "s = l + 1"
    "\<forall>q. last_sequence db' q = (if q = p then Some s else last_sequence db q)"
    "db' = db\<lparr>sync_project_state := sync_project_state db'\<rparr>" "states_distinct db'"
proof -
  let ?hit = "\<lambda>(p, s). VUuid p = v"
  let ?st = "sync_project_state db"
  let ?new = "update_where ?hit (\<lambda>(p, s). (p, s + 1)) ?st"
  from assms(1) have "count_where ?hit ?st = 1"
    by (auto simp: next_change_sequence_def Let_def split: if_splits)
  then have "filter ?hit ?st \<noteq> []" by (auto simp: count_where_def)
  then obtain p l where in_st: "(p, l) \<in> set ?st" and v: "v = VUuid p"
    by (auto simp: filter_empty_conv)
  have dist: "distinct (map fst ?st)" using assms(2) by (simp add: states_distinct_def)
  then have l: "last_sequence db p = Some l"
    using in_st by (simp add: last_sequence_def)
  have fst_new: "map fst ?new = map fst ?st"
    by (rule map_update_where) auto
  have mem: "(q, t) \<in> set ?new \<longleftrightarrow> (q, if q = p then t - 1 else t) \<in> set ?st" for q t
  proof (cases "q = p")
    case True
    have "t = t - 1 + 1" by simp
    then show ?thesis using True unfolding set_update_where v by force
  next
    case False
    then show ?thesis unfolding set_update_where v by auto
  qed
  have lookup: "map_of ?new q = (if q = p then Some (l + 1) else map_of ?st q)" for q
  proof (cases "map_of ?new q")
    case None
    then have "q \<notin> set (map fst ?new)" by (simp add: map_of_eq_None_iff)
    then have no: "q \<notin> fst ` set ?st" unfolding fst_new by simp
    then have "map_of ?st q = None" by (simp add: map_of_eq_None_iff)
    moreover have "q \<noteq> p" using no in_st by force
    ultimately show ?thesis using None by simp
  next
    case (Some t)
    then have "(q, t) \<in> set ?new" by (rule map_of_SomeD)
    then have "(q, if q = p then t - 1 else t) \<in> set ?st" by (simp only: mem)
    then have "map_of ?st q = Some (if q = p then t - 1 else t)"
      using dist by (rule map_of_is_SomeI [rotated])
    with Some l show ?thesis by (auto simp: last_sequence_def)
  qed
  have "(p, l + 1) \<in> set ?new" using in_st by (simp add: mem)
  then have "first_where ?hit ?new = Some (p, l + 1)"
    using dist fst_new by (intro first_where_unique [of fst]) (auto simp: v)
  with assms(1) have s: "s = l + 1" and db': "db' = db\<lparr>sync_project_state := ?new\<rparr>"
    by (auto simp: next_change_sequence_def Let_def split: if_splits)
  show thesis
  proof (rule that [OF v l s])
    show "\<forall>q. last_sequence db' q = (if q = p then Some s else last_sequence db q)"
      using lookup by (simp add: db' s last_sequence_def)
    then show "states_distinct db'"
      using assms(2) l dist fst_new by (auto simp: states_distinct_def db' s split: if_splits)
  qed (simp add: db')
qed


subsection \<open>The feed invariant\<close>

text \<open>
  Every syncable row carries a sequence number of its project, at most the project's counter,
  that no other row of the project carries, whatever its table. This is what lets a client
  page through a project's changes by sequence number.
\<close>

definition row_project :: "sdb \<Rightarrow> model \<Rightarrow> row \<Rightarrow> pyval" where
  "row_project db m r = (case sync_entity_project_id db m r of Inr p \<Rightarrow> p | Inl _ \<Rightarrow> VNone)"

definition ids_distinct :: "sdb \<Rightarrow> bool" where
  "ids_distinct db = (\<forall>m. distinct (map (\<lambda>r. r ''id'') (tables db m)))"

definition seq_bounded :: "sdb \<Rightarrow> bool" where
  "seq_bounded db = (\<forall>m. \<forall>r \<in> set (tables db m). \<exists>p l. row_project db m r = VUuid p \<and>
     last_sequence db p = Some l \<and> 1 \<le> seq_of r \<and> seq_of r \<le> l)"

definition seq_unique :: "sdb \<Rightarrow> bool" where
  "seq_unique db = (\<forall>m m'. \<forall>r \<in> set (tables db m). \<forall>r' \<in> set (tables db m').
     row_project db m r = row_project db m' r' \<and> seq_of r = seq_of r' \<longrightarrow>
     m = m' \<and> r ''id'' = r' ''id'')"

definition feed_inv :: "sdb \<Rightarrow> bool" where
  "feed_inv db = (states_distinct db \<and> ids_distinct db \<and> seq_bounded db \<and> seq_unique db)"

lemma seq_boundedD:
  assumes "seq_bounded db" "r \<in> set (tables db m)"
  obtains p l where "row_project db m r = VUuid p" "last_sequence db p = Some l"
    "1 \<le> seq_of r" "seq_of r \<le> l"
  using assms unfolding seq_bounded_def by blast

lemma feed_inv_write:
  assumes inv: "feed_inv db" and "states_distinct db'" and "ids_distinct db'"
    and p: "last_sequence db p = Some l"
    and st: "\<forall>q. last_sequence db' q = (if q = p then Some (l + 1) else last_sequence db q)"
    and rows: "\<And>m' x. x \<in> set (tables db' m') \<Longrightarrow>
      (m' = m \<and> x ''id'' = i \<and> seq_of x = l + 1 \<and> row_project db' m' x = VUuid p) \<or>
      (x \<in> set (tables db m') \<and> row_project db' m' x = row_project db m' x)"
  shows "feed_inv db'"
proof -
  from inv have b: "seq_bounded db" and u: "seq_unique db" and "states_distinct db"
    by (simp_all add: feed_inv_def)
  with p have l0: "0 \<le> l" by (auto simp: states_distinct_def)
  have le: "seq_of x \<le> l" if "x \<in> set (tables db m')" "row_project db m' x = VUuid p" for m' x
    using seq_boundedD [OF b that(1)] that(2) p by (metis option.inject pyval.inject(4))
  have "seq_bounded db'"
    unfolding seq_bounded_def
  proof (intro allI ballI)
    fix m' x assume "x \<in> set (tables db' m')"
    from rows [OF this] show "\<exists>p l. row_project db' m' x = VUuid p \<and>
      last_sequence db' p = Some l \<and> 1 \<le> seq_of x \<and> seq_of x \<le> l"
    proof (elim disjE)
      assume "x \<in> set (tables db m') \<and> row_project db' m' x = row_project db m' x"
      then have x: "x \<in> set (tables db m')" and q: "row_project db' m' x = row_project db m' x"
        by auto
      from b x obtain q lq where "row_project db m' x = VUuid q" "last_sequence db q = Some lq"
        "1 \<le> seq_of x" "seq_of x \<le> lq" by (rule seq_boundedD)
      with q p st show ?thesis by (cases "q = p") auto
    qed (use l0 st in auto)
  qed
  moreover have "seq_unique db'"
    unfolding seq_unique_def
  proof (intro allI ballI impI)
    fix m1 m2 x y
    assume x: "x \<in> set (tables db' m1)" and y: "y \<in> set (tables db' m2)"
      and eq: "row_project db' m1 x = row_project db' m2 y \<and> seq_of x = seq_of y"
    from rows [OF x] rows [OF y] show "m1 = m2 \<and> x ''id'' = y ''id''"
    proof (elim disjE)
      assume "x \<in> set (tables db m1) \<and> row_project db' m1 x = row_project db m1 x"
        and "y \<in> set (tables db m2) \<and> row_project db' m2 y = row_project db m2 y"
      with eq u show ?thesis unfolding seq_unique_def by metis
    qed (use eq le in fastforce)+
  qed
  ultimately show ?thesis using assms(2,3) by (simp add: feed_inv_def)
qed


lemma assign_change_sequence_Inr:
  assumes "assign_change_sequence m db r = Inr (r', db')" and "states_distinct db"
  obtains p l where "row_project db m r = VUuid p" "last_sequence db p = Some l"
    "r' = r(''change_sequence'' := VInt (l + 1))"
    "\<forall>q. last_sequence db' q = (if q = p then Some (l + 1) else last_sequence db q)"
    "db' = db\<lparr>sync_project_state := sync_project_state db'\<rparr>" "states_distinct db'"
proof -
  from assms(1) obtain v s where v: "sync_entity_project_id db m r = Inr v"
    and s: "next_change_sequence db v = Inr (s, db')"
    and r': "r' = r(''change_sequence'' := VInt s)"
    by (auto simp: assign_change_sequence_def)
  from next_change_sequence_Inr [OF s assms(2)] obtain p l where
    *: "v = VUuid p" "last_sequence db p = Some l" "s = l + 1"
      "\<forall>q. last_sequence db' q = (if q = p then Some s else last_sequence db q)"
      "db' = db\<lparr>sync_project_state := sync_project_state db'\<rparr>" "states_distinct db'"
    by blast
  show thesis
    by (rule that [of p l]) (use * v r' in \<open>simp_all add: row_project_def\<close>)
qed

lemma row_project_depends:
  assumes "m = Assessment \<Longrightarrow>
    first_where (\<lambda>i. i ''id'' = r' ''item_id'') (tables db' Item) =
    first_where (\<lambda>i. i ''id'' = r ''item_id'') (tables db Item)"
    and "r' ''project_id'' = r ''project_id''"
  shows "row_project db' m r' = row_project db m r"
  using assms by (simp add: row_project_def sync_entity_project_id_def)

lemma row_project_cong:
  assumes "\<And>i. map_option (\<lambda>x. x ''project_id'') (first_where (\<lambda>x. x ''id'' = i) (tables db' Item)) =
                map_option (\<lambda>x. x ''project_id'') (first_where (\<lambda>x. x ''id'' = i) (tables db Item))"
    and "r' ''project_id'' = r ''project_id''" and "r' ''item_id'' = r ''item_id''"
  shows "row_project db' m r' = row_project db m r"
  using assms(1) [of "r ''item_id''"] assms(2,3)
  by (auto simp: row_project_def sync_entity_project_id_def split: option.splits)

lemma row_project_VUuid_item:
  "row_project db Assessment r = VUuid p \<Longrightarrow>
   \<exists>i. first_where (\<lambda>i. i ''id'' = r ''item_id'') (tables db Item) = Some i"
  by (auto simp: row_project_def sync_entity_project_id_def split: option.splits)

text \<open>Inserting one row: the frame, the row and the feed invariant.\<close>

lemma flush_insert_Inr:
  assumes "flush_insert d now m r db = Inr (r', db')" and "states_distinct db"
  obtains p l where
    "tables db' = (tables db)(m := tables db m @ [r'])"
    "r' ''change_sequence'' = VInt (l + 1)" "row_project db m r' = VUuid p"
    "last_sequence db p = Some l"
    "\<forall>q. last_sequence db' q = (if q = p then Some (l + 1) else last_sequence db q)"
    "states_distinct db'" "types_ok d m r'" "not_null_ok m r'" "score_ok m r'"
    "\<forall>x \<in> set (tables db m). x ''id'' \<noteq> r' ''id''"
    "db' = db\<lparr>sync_project_state := sync_project_state db', tables := tables db'\<rparr>"
proof -
  from assms(1) obtain r1 r2 db1 where r1: "compute_score m r = Inr r1"
    and a: "assign_change_sequence m db r1 = Inr (r2, db1)"
    and r': "r' = insert_defaults now m r2"
    and c: "constraints d db1 m (tables db1 m) r' = Inr ()"
    and db': "db' = set_table m (tables db1 m @ [r']) db1"
    by (auto simp: flush_insert_def Let_def)
  from a assms(2) obtain p l where p: "row_project db m r1 = VUuid p"
    and l: "last_sequence db p = Some l" and r2: "r2 = r1(''change_sequence'' := VInt (l + 1))"
    and st: "\<forall>q. last_sequence db1 q = (if q = p then Some (l + 1) else last_sequence db q)"
    and db1: "db1 = db\<lparr>sync_project_state := sync_project_state db1\<rparr>" and sd: "states_distinct db1"
    by (rule assign_change_sequence_Inr)
  have tab: "tables db1 = tables db" by (subst db1) simp
  have keep: "r' k = r1 k" if "k \<noteq> ''change_sequence''" "r1 k \<noteq> VNone" for k
    using that by (simp add: r' r2 insert_defaults_def)
  from c have ok: "types_ok d m r'" "not_null_ok m r'"
    "\<forall>x \<in> set (tables db m). x ''id'' \<noteq> r' ''id''"
    by (auto simp: constraints_Inr tab)
  have "score_ok m r'"
  proof (cases "scored_model m")
    case True
    then have "r1 ''probability'' \<noteq> VNone" "r1 ''impact'' \<noteq> VNone" "r1 ''score'' \<noteq> VNone"
      using r1 by (auto simp: compute_score_def validate_scale_Inr score_def py_int_def)
    with keep show ?thesis
      by (intro compute_score_ok [OF r1 True _ _ _ ok(1,2)]) auto
  qed (simp add: score_ok_def)
  moreover have "row_project db m r' = VUuid p"
  proof -
    have "r' ''item_id'' = r1 ''item_id''" "r' ''project_id'' = r1 ''project_id''"
      by (cases m; simp add: r' r2 insert_defaults_def SyncMixin_default_def)+
    with p row_project_depends [of m r' db r1 db] show ?thesis by simp
  qed
  moreover have "r' ''change_sequence'' = VInt (l + 1)"
    by (simp add: r' r2 insert_defaults_def)
  moreover have "db' = db\<lparr>sync_project_state := sync_project_state db', tables := tables db'\<rparr>"
    unfolding db' set_table_def by (subst db1) simp
  ultimately show thesis
    using that [of l p] l st sd ok
    by (simp add: db' set_table_def tab last_sequence_def states_distinct_def)
qed

lemma insert_row_project:
  assumes tab: "tables db' = (tables db)(m := tables db m @ [r'])"
    and "row_project db m' x = VUuid q"
  shows "row_project db' m' x = row_project db m' x"
proof (rule row_project_depends)
  assume "m' = Assessment"
  with assms(2) obtain i where "first_where (\<lambda>i. i ''id'' = x ''item_id'') (tables db Item) = Some i"
    using row_project_VUuid_item by blast
  then show "first_where (\<lambda>i. i ''id'' = x ''item_id'') (tables db' Item) =
             first_where (\<lambda>i. i ''id'' = x ''item_id'') (tables db Item)"
    by (simp add: tab first_where_append)
qed simp

lemma flush_insert_feed:
  assumes "flush_insert d now m r db = Inr (r', db')" and inv: "feed_inv db"
  shows "feed_inv db'"
proof -
  from inv have sd: "states_distinct db" by (simp add: feed_inv_def)
  from assms(1) sd obtain p l where tab: "tables db' = (tables db)(m := tables db m @ [r'])"
    and cs: "r' ''change_sequence'' = VInt (l + 1)" and rp: "row_project db m r' = VUuid p"
    and l: "last_sequence db p = Some l"
    and st: "\<forall>q. last_sequence db' q = (if q = p then Some (l + 1) else last_sequence db q)"
    and sd': "states_distinct db'" and new: "\<forall>x \<in> set (tables db m). x ''id'' \<noteq> r' ''id''"
    by (rule flush_insert_Inr)
  note proj = insert_row_project [OF tab]
  show ?thesis
  proof (rule feed_inv_write [OF inv sd' _ l st])
    show "ids_distinct db'" using inv new by (auto simp: feed_inv_def ids_distinct_def tab)
    fix m' x assume "x \<in> set (tables db' m')"
    then have "x \<in> set (tables db m') \<or> m' = m \<and> x = r'" by (auto simp: tab split: if_splits)
    then show "(m' = m \<and> x ''id'' = r' ''id'' \<and> seq_of x = l + 1 \<and> row_project db' m' x = VUuid p) \<or>
      (x \<in> set (tables db m') \<and> row_project db' m' x = row_project db m' x)"
      using rp cs proj inv by (auto simp: int_col_def feed_inv_def elim!: seq_boundedD)
  qed
qed


text \<open>Updating one row that the session loaded from its table.\<close>

lemma flush_update_Inr:
  assumes "flush_update d m r db = Inr (r', db')" and "states_distinct db"
  obtains p l where
    "tables db' = (tables db)(m := update_where (\<lambda>x. x ''id'' = r ''id'') (\<lambda>_. r') (tables db m))"
    "r' ''change_sequence'' = VInt (l + 1)" "row_project db m r' = VUuid p"
    "last_sequence db p = Some l"
    "\<forall>q. last_sequence db' q = (if q = p then Some (l + 1) else last_sequence db q)"
    "states_distinct db'" "types_ok d m r'" "not_null_ok m r'" "score_ok m r'"
    "\<forall>k. k \<noteq> ''change_sequence'' \<and> k \<noteq> ''score'' \<longrightarrow> r' k = r k"
    "db' = db\<lparr>sync_project_state := sync_project_state db', tables := tables db'\<rparr>"
proof -
  let ?same = "\<lambda>x. x ''id'' = r ''id''"
  from assms(1) obtain r1 db1 where r1: "compute_score m r = Inr r1"
    and a: "assign_change_sequence m db r1 = Inr (r', db1)"
    and c: "constraints d db1 m (delete_where ?same (tables db1 m)) r' = Inr ()"
    and db': "db' = set_table m (update_where ?same (\<lambda>_. r') (tables db1 m)) db1"
    by (auto simp: flush_update_def Let_def)
  from a assms(2) obtain p l where p: "row_project db m r1 = VUuid p"
    and l: "last_sequence db p = Some l" and r': "r' = r1(''change_sequence'' := VInt (l + 1))"
    and st: "\<forall>q. last_sequence db1 q = (if q = p then Some (l + 1) else last_sequence db q)"
    and db1: "db1 = db\<lparr>sync_project_state := sync_project_state db1\<rparr>" and sd: "states_distinct db1"
    by (rule assign_change_sequence_Inr)
  have tab: "tables db1 = tables db" by (subst db1) simp
  from c have ok: "types_ok d m r'" "not_null_ok m r'" by (auto simp: constraints_Inr)
  have "score_ok m r'"
  proof (cases "scored_model m")
    case True
    then show ?thesis by (intro compute_score_ok [OF r1 True _ _ _ ok]) (simp_all add: r')
  qed (simp add: score_ok_def)
  moreover have "row_project db m r' = VUuid p"
    using p row_project_depends [of m r' db r1 db] by (simp add: r')
  moreover have "\<forall>k. k \<noteq> ''change_sequence'' \<and> k \<noteq> ''score'' \<longrightarrow> r' k = r k"
    using compute_score_frame [OF r1] by (simp add: r')
  moreover have "db' = db\<lparr>sync_project_state := sync_project_state db', tables := tables db'\<rparr>"
    unfolding db' set_table_def by (subst db1) simp
  ultimately show thesis
    using that [of l p] l st sd ok
    by (simp add: db' set_table_def tab last_sequence_def states_distinct_def r')
qed

lemma first_where_update_where:
  assumes "\<And>x. P x \<Longrightarrow> Q (f x) = Q x"
  shows "first_where Q (update_where P f t) =
         map_option (\<lambda>x. if P x then f x else x) (first_where Q t)"
  by (induction t) (auto simp: update_where_def first_where_def assms)

lemma ids_distinct_updateD:
  "\<lbrakk>ids_distinct db; x \<in> set (tables db m); y \<in> set (tables db m); x ''id'' = y ''id''\<rbrakk> \<Longrightarrow> x = y"
  unfolding ids_distinct_def by (metis distinct_map inj_onD)

lemma update_row_project:
  assumes tab: "tables db' = (tables db)(m := update_where (\<lambda>x. x ''id'' = r ''id'') (\<lambda>_. r') (tables db m))"
    and ids: "ids_distinct db" and old: "r0 \<in> set (tables db m)" "r ''id'' = r0 ''id''"
    and proj: "m = Item \<Longrightarrow> r ''project_id'' = r0 ''project_id''"
    and keep: "r' ''id'' = r ''id''" "r' ''project_id'' = r ''project_id''"
  shows "row_project db' m' x = row_project db m' x"
proof -
  let ?same = "\<lambda>x. x ''id'' = r ''id''"
  have same: "?same x \<longleftrightarrow> x = r0" if "x \<in> set (tables db m)" for x
    using ids_distinct_updateD [OF ids that old(1)] old(2) by auto
  have items: "map_option (\<lambda>x. x ''project_id'') (first_where (\<lambda>x. x ''id'' = i) (tables db' Item)) =
    map_option (\<lambda>x. x ''project_id'') (first_where (\<lambda>x. x ''id'' = i) (tables db Item))" for i
  proof (cases "m = Item")
    case True
    have "first_where (\<lambda>x. x ''id'' = i) (tables db' Item) = map_option (\<lambda>x. if ?same x then r' else x)
            (first_where (\<lambda>x. x ''id'' = i) (tables db Item))"
      unfolding tab True fun_upd_same by (rule first_where_update_where) (use keep in auto)
    moreover have "(if ?same x then r' else x) ''project_id'' = x ''project_id''"
      if "first_where (\<lambda>x. x ''id'' = i) (tables db Item) = Some x" for x
    proof -
      have "x \<in> set (tables db m)" using first_where_SomeD [OF that] True by simp
      then have "?same x \<Longrightarrow> x = r0" using same by blast
      with keep proj [OF True] show ?thesis by simp
    qed
    ultimately show ?thesis by (cases "first_where (\<lambda>x. x ''id'' = i) (tables db Item)") auto
  qed (simp add: tab)
  show ?thesis by (rule row_project_cong [OF items]) auto
qed

lemma flush_update_feed:
  assumes "flush_update d m r db = Inr (r', db')" and inv: "feed_inv db"
    and old: "r0 \<in> set (tables db m)" "r ''id'' = r0 ''id''"
    and proj: "m = Item \<Longrightarrow> r ''project_id'' = r0 ''project_id''"
  shows "feed_inv db'"
proof -
  let ?same = "\<lambda>x. x ''id'' = r ''id''"
  from inv have sd: "states_distinct db" and ids: "ids_distinct db" by (simp_all add: feed_inv_def)
  from assms(1) sd obtain p l where
    tab: "tables db' = (tables db)(m := update_where ?same (\<lambda>_. r') (tables db m))"
    and cs: "r' ''change_sequence'' = VInt (l + 1)" and rp: "row_project db m r' = VUuid p"
    and l: "last_sequence db p = Some l"
    and st: "\<forall>q. last_sequence db' q = (if q = p then Some (l + 1) else last_sequence db q)"
    and sd': "states_distinct db'" and "types_ok d m r'" "not_null_ok m r'" "score_ok m r'"
    and keep: "\<forall>k. k \<noteq> ''change_sequence'' \<and> k \<noteq> ''score'' \<longrightarrow> r' k = r k"
    by (rule flush_update_Inr)
  have rp': "row_project db' m' x = row_project db m' x" for m' x
    by (rule update_row_project [OF tab ids old proj]) (use keep in auto)
  show ?thesis
  proof (rule feed_inv_write [OF inv sd' _ l])
    have "map (\<lambda>r. r ''id'') (tables db' m') = map (\<lambda>r. r ''id'') (tables db m')" for m'
    proof (cases "m' = m")
      case True
      then show ?thesis unfolding tab by (simp, intro map_update_where) (use keep in auto)
    qed (simp add: tab)
    with ids show "ids_distinct db'" by (simp add: ids_distinct_def)
    fix m' x assume "x \<in> set (tables db' m')"
    then have "x \<in> set (tables db m') \<or> m' = m \<and> x = r'"
      by (auto simp: tab set_update_where split: if_splits)
    then show "(m' = m \<and> x ''id'' = r' ''id'' \<and> seq_of x = l + 1 \<and> row_project db' m' x = VUuid p) \<or>
      (x \<in> set (tables db m') \<and> row_project db' m' x = row_project db m' x)"
      using rp cs rp' by (auto simp: int_col_def)
  qed (use st in auto)
qed


subsection \<open>The database invariant\<close>

definition row_ok :: "model \<Rightarrow> row \<Rightarrow> bool" where
  "row_ok m r = (types_ok SQLite m r \<and> not_null_ok m r \<and> score_ok m r)"

definition rows_ok :: "sdb \<Rightarrow> bool" where
  "rows_ok db = (\<forall>m. \<forall>r \<in> set (tables db m). row_ok m r)"

definition db_inv :: "sdb \<Rightarrow> bool" where
  "db_inv db = (feed_inv db \<and> rows_ok db)"

lemma db_invD:
  "db_inv db \<Longrightarrow> feed_inv db" "db_inv db \<Longrightarrow> states_distinct db" "db_inv db \<Longrightarrow> ids_distinct db"
  "db_inv db \<Longrightarrow> r \<in> set (tables db m) \<Longrightarrow> row_ok m r"
  by (auto simp: db_inv_def feed_inv_def rows_ok_def)

lemma types_ok_weaken: "types_ok d m r \<Longrightarrow> types_ok SQLite m r"
  by (auto simp: types_ok_def list_all_iff intro: type_ok_weaken)

lemma row_ok_version: "row_ok m r \<Longrightarrow> \<exists>v. r ''version'' = VInt v"
  unfolding row_ok_def
  by (elim conjE, erule (1) integer_column) (cases m; simp add: SyncMixin_columns_def)

lemma flush_insert_inv:
  assumes "flush_insert d now m r db = Inr (r', db')" and "db_inv db"
  shows "db_inv db'"
proof -
  from assms(1) db_invD(2) [OF assms(2)] obtain p l where
    tab: "tables db' = (tables db)(m := tables db m @ [r'])"
    and "r' ''change_sequence'' = VInt (l + 1)" "row_project db m r' = VUuid p"
    "last_sequence db p = Some l"
    "\<forall>q. last_sequence db' q = (if q = p then Some (l + 1) else last_sequence db q)"
    "states_distinct db'" and ok: "types_ok d m r'" "not_null_ok m r'" "score_ok m r'"
    by (rule flush_insert_Inr)
  then have "row_ok m r'" by (simp add: row_ok_def types_ok_weaken)
  with tab assms(2) have "rows_ok db'" by (auto simp: rows_ok_def db_inv_def)
  with flush_insert_feed [OF assms(1) db_invD(1) [OF assms(2)]] show ?thesis
    by (simp add: db_inv_def)
qed

lemma flush_update_inv:
  assumes "flush_update d m r db = Inr (r', db')" and "db_inv db"
    and "r0 \<in> set (tables db m)" "r ''id'' = r0 ''id''"
    and "m = Item \<Longrightarrow> r ''project_id'' = r0 ''project_id''"
  shows "db_inv db'"
proof -
  from assms(1) db_invD(2) [OF assms(2)] obtain p l where
    tab: "tables db' = (tables db)(m := update_where (\<lambda>x. x ''id'' = r ''id'') (\<lambda>_. r') (tables db m))"
    and "r' ''change_sequence'' = VInt (l + 1)" "row_project db m r' = VUuid p"
    "last_sequence db p = Some l"
    "\<forall>q. last_sequence db' q = (if q = p then Some (l + 1) else last_sequence db q)"
    "states_distinct db'" and ok: "types_ok d m r'" "not_null_ok m r'" "score_ok m r'"
    by (rule flush_update_Inr)
  then have "row_ok m r'" by (simp add: row_ok_def types_ok_weaken)
  with tab assms(2) have "rows_ok db'" by (auto simp: rows_ok_def db_inv_def set_update_where)
  with flush_update_feed [OF assms(1) db_invD(1) [OF assms(2)] assms(3-5)] show ?thesis
    by (simp add: db_inv_def)
qed

text \<open>The columns that decide a row's place in the feed and its score.\<close>

definition feed_columns :: "string list" where
  "feed_columns = [''id'', ''project_id'', ''item_id'', ''change_sequence'',
     ''probability'', ''impact'', ''score'']"

lemma db_inv_touch:
  assumes inv: "db_inv db"
    and keep: "\<And>r k. k \<in> set feed_columns \<Longrightarrow> f r k = r k"
    and ok: "\<And>r. types_ok SQLite m r \<Longrightarrow> types_ok SQLite m (f r)"
      "\<And>r. not_null_ok m r \<Longrightarrow> not_null_ok m (f r)"
  shows "db_inv (set_table m (update_where P f (tables db m)) db)" (is "db_inv ?db'")
proof -
  have k: "f r ''id'' = r ''id''" "f r ''project_id'' = r ''project_id''"
    "f r ''item_id'' = r ''item_id''" "seq_of (f r) = seq_of r" "score_ok m (f r) = score_ok m r" for r
    using keep by (simp_all add: feed_columns_def int_col_def score_ok_def)
  define g where "g m' x = (if m' = m \<and> P x then f x else x)" for m' x
  have tab: "tables ?db' m' = map (g m') (tables db m')" for m'
    by (auto simp: set_table_def update_where_def g_def map_idI)
  have gk: "g m' x ''id'' = x ''id''" "g m' x ''project_id'' = x ''project_id''"
    "g m' x ''item_id'' = x ''item_id''" "seq_of (g m' x) = seq_of x" for m' x
    by (simp_all add: g_def k)
  have ls: "last_sequence ?db' = last_sequence db" by (simp add: last_sequence_def set_table_def fun_eq_iff)
  have "map_option (\<lambda>x. x ''project_id'') (first_where (\<lambda>x. x ''id'' = i) (map (g Item) t)) =
        map_option (\<lambda>x. x ''project_id'') (first_where (\<lambda>x. x ''id'' = i) t)" for i t
    by (induction t) (simp_all add: table_simps gk)
  then have rp: "row_project ?db' m' (g m' x) = row_project db m' x" for m' x
    by (intro row_project_cong) (simp_all add: gk tab)
  from inv have "states_distinct ?db'" by (simp add: db_inv_def feed_inv_def states_distinct_def ls) (simp add: set_table_def)
  moreover from inv have "ids_distinct ?db'"
    by (simp add: db_inv_def feed_inv_def ids_distinct_def tab gk o_def)
  moreover from inv have "seq_bounded ?db'"
    by (simp add: db_inv_def feed_inv_def seq_bounded_def tab gk rp ls)
  moreover from inv have "seq_unique ?db'"
    by (simp add: db_inv_def feed_inv_def seq_unique_def tab gk rp)
  moreover from inv have "rows_ok ?db'"
    by (auto simp: db_inv_def rows_ok_def tab g_def row_ok_def k ok)
  ultimately show ?thesis by (simp add: db_inv_def feed_inv_def)
qed


lemma db_inv_cong:
  assumes "tables db' = tables db" "sync_project_state db' = sync_project_state db"
  shows "db_inv db' = db_inv db"
  using assms
  by (simp add: db_inv_def feed_inv_def rows_ok_def states_distinct_def ids_distinct_def
      seq_bounded_def seq_unique_def last_sequence_def row_project_def sync_entity_project_id_def)

end
