(* ===== verification/Server_Permissions.thy ===== *)
theory Server_Permissions
  imports Server_Models
begin

section \<open>Roles and permissions (core/permissions.py)\<close>

text \<open>
  Role ranks, the membership lookup with the implicit admin rights of superusers, and the
  guards the routers and the sync engine call. Roles are strings in the database; a value that
  is not one of the four roles has rank 0 as a caller and rank 10000 as a requirement.
\<close>

datatype role = Viewer | Member | Manager | Admin

fun role_value :: "role \<Rightarrow> string" where
  "role_value Viewer = ''viewer''"
| "role_value Member = ''member''"
| "role_value Manager = ''manager''"
| "role_value Admin = ''admin''"

definition ROLE_RANK :: "(string \<times> nat) list" where
  "ROLE_RANK = [(''viewer'', 1), (''member'', 2), (''manager'', 3), (''admin'', 4)]"

definition rank_or :: "nat \<Rightarrow> string \<Rightarrow> nat" where
  "rank_or dflt r = (case map_of ROLE_RANK r of None \<Rightarrow> dflt | Some n \<Rightarrow> n)"

definition is_superuser :: "sdb \<Rightarrow> uuid \<Rightarrow> bool" where
  "is_superuser db user_id =
     (case first_where (\<lambda>u. u_id u = user_id) (users db) of
        None \<Rightarrow> False
      | Some u \<Rightarrow> u_is_superuser u)"

definition insufficient_permissions :: exc where
  "insufficient_permissions = http_error 403 ''Insufficient permissions''"

definition ensure_role_at_least :: "string \<Rightarrow> string \<Rightarrow> unit result" where
  "ensure_role_at_least r m =
     (if rank_or 0 r < rank_or 10000 m then Inl insufficient_permissions else Inr ())"

definition normalize_role :: "string \<Rightarrow> string" where
  "normalize_role s =
     (if starts_with s ''Role.''
      then let candidate = drop 5 s in
           if map_of ROLE_RANK candidate \<noteq> None then candidate else s
      else s)"

definition get_member_role :: "sdb \<Rightarrow> uuid \<Rightarrow> uuid \<Rightarrow> string option" where
  "get_member_role db project_id user_id =
     (case first_where (\<lambda>m. pm_project_id m = project_id \<and> pm_user_id m = user_id)
             (project_members db) of
        Some m \<Rightarrow> Some (normalize_role (pm_role m))
      | None \<Rightarrow> if is_superuser db user_id then Some ''admin'' else None)"

definition require_min_role :: "sdb \<Rightarrow> uuid \<Rightarrow> uuid \<Rightarrow> string \<Rightarrow> string result" where
  "require_min_role db project_id user_id min_role =
     (case get_member_role db project_id user_id of
        None \<Rightarrow> Inl insufficient_permissions
      | Some r \<Rightarrow>
          if map_of ROLE_RANK r = None then Inl insufficient_permissions
          else rbind (ensure_role_at_least r min_role) (\<lambda>_. Inr r))"

definition ensure_member :: "sdb \<Rightarrow> uuid \<Rightarrow> uuid \<Rightarrow> string result" where
  "ensure_member db project_id user_id = require_min_role db project_id user_id ''viewer''"

subsection \<open>Roles are a chain\<close>

definition role_rank :: "role \<Rightarrow> nat" where
  "role_rank r = (case r of Viewer \<Rightarrow> 1 | Member \<Rightarrow> 2 | Manager \<Rightarrow> 3 | Admin \<Rightarrow> 4)"

instantiation role :: linorder
begin

definition less_eq_role :: "role \<Rightarrow> role \<Rightarrow> bool" where
  "less_eq_role a b = (role_rank a \<le> role_rank b)"

definition less_role :: "role \<Rightarrow> role \<Rightarrow> bool" where
  "less_role a b = (role_rank a < role_rank b)"

instance
  by standard (auto simp: less_eq_role_def less_role_def role_rank_def split: role.splits)

end

lemma rank_or_role_value [simp]: "rank_or n (role_value r) = role_rank r"
  by (cases r) (simp_all add: rank_or_def ROLE_RANK_def role_rank_def)

lemma known_role: "map_of ROLE_RANK s \<noteq> None \<longleftrightarrow> (\<exists>r. s = role_value r)"
proof
  assume "map_of ROLE_RANK s \<noteq> None"
  then have "s \<in> {''viewer'', ''member'', ''manager'', ''admin''}"
    by (auto simp: ROLE_RANK_def split: if_splits)
  then show "\<exists>r. s = role_value r"
    by (metis insertE emptyE role_value.simps)
next
  assume "\<exists>r. s = role_value r"
  then obtain r where "s = role_value r" ..
  then show "map_of ROLE_RANK s \<noteq> None" by (cases r) (simp_all add: ROLE_RANK_def)
qed

lemma role_value_inject [simp]: "role_value a = role_value b \<longleftrightarrow> a = b"
  by (cases a; cases b) simp_all

lemma ensure_role_at_least_values:
  "ensure_role_at_least (role_value a) (role_value b) =
     (if b \<le> a then Inr () else Inl insufficient_permissions)"
  by (simp add: ensure_role_at_least_def less_eq_role_def)

lemma ensure_role_at_least_Inr:
  "ensure_role_at_least r (role_value m) = Inr () \<longleftrightarrow> (\<exists>a. r = role_value a \<and> m \<le> a)"
proof (cases "map_of ROLE_RANK r")
  case None
  then have "\<nexists>a. r = role_value a" using known_role [of r] by blast
  moreover have "0 < role_rank m" by (cases m) (simp_all add: role_rank_def)
  ultimately show ?thesis using None
    by (auto simp: ensure_role_at_least_def rank_or_def [of 0 r])
next
  case (Some n)
  then obtain a where "r = role_value a" using known_role [of r] by auto
  then show ?thesis by (auto simp: ensure_role_at_least_values)
qed

lemma require_min_role_Inr:
  "require_min_role db p u (role_value m) = Inr r \<longleftrightarrow>
   get_member_role db p u = Some r \<and> (\<exists>a. r = role_value a \<and> m \<le> a)"
proof -
  have "map_of ROLE_RANK x = None \<Longrightarrow> \<nexists>a. x = role_value a" for x
    using known_role by blast
  then show ?thesis
    by (auto simp: require_min_role_def ensure_role_at_least_Inr split: option.splits)
qed

end
