(* ===== verification/Versioned_Store.thy ===== *)
theory Versioned_Store
  imports Server_Models
begin

section \<open>Optimistic concurrency as an interface\<close>

text \<open>
  The sync engine and the REST routers serialise concurrent writers in the same way: a
  conditional \<open>UPDATE\<close> advances a row's version only while the version is the one the client
  read. This theory states that contract once. A claim names a client, a row and a base
  version; it succeeds exactly when the client may see the row and the version still matches.
  The consequences, that a base version is won at most once however claims interleave and that
  the versions count the wins, are proved from the contract alone.
\<close>

locale versioned_store =
  fixes ok :: "'db \<Rightarrow> bool"
    and row_version :: "'db \<Rightarrow> 'k \<Rightarrow> int option"
    and visible :: "'c \<Rightarrow> 'db \<Rightarrow> 'k \<Rightarrow> bool"
    and claim :: "'c \<Rightarrow> 'db \<Rightarrow> 'k \<Rightarrow> int \<Rightarrow> 'db option"
  assumes claim_enabled:
      "ok db \<Longrightarrow> (claim c db k v \<noteq> None) = (visible c db k \<and> row_version db k = Some v)"
    and claim_ok: "ok db \<Longrightarrow> claim c db k v = Some db' \<Longrightarrow> ok db'"
    and claim_advances: "ok db \<Longrightarrow> claim c db k v = Some db' \<Longrightarrow> row_version db' k = Some (v + 1)"
    and claim_frame:
      "ok db \<Longrightarrow> claim c db k v = Some db' \<Longrightarrow> k' \<noteq> k \<Longrightarrow> row_version db' k' = row_version db k'"
begin

lemma claim_Some: "ok db \<Longrightarrow> claim c db k v = Some db' \<Longrightarrow> row_version db k = Some v"
  using claim_enabled [of db c k v] by simp

lemma stale_claim: "ok db \<Longrightarrow> row_version db k \<noteq> Some v \<Longrightarrow> claim c db k v = None"
  using claim_enabled [of db c k v] by auto

lemma second_claim_fails:
  assumes "ok db" "claim c db k v = Some db'"
  shows "claim c' db' k v = None"
  using stale_claim [OF claim_ok [OF assms]] claim_advances [OF assms] by simp

text \<open>A schedule of claims: the ones that succeed, in order, and the final state.\<close>

fun run :: "'db \<Rightarrow> ('c \<times> 'k \<times> int) list \<Rightarrow> ('k \<times> int) list \<times> 'db" where
  "run db [] = ([], db)"
| "run db ((c, k, v) # rest) =
     (case claim c db k v of
        None \<Rightarrow> run db rest
      | Some db' \<Rightarrow> let (won, final) = run db' rest in ((k, v) # won, final))"

lemma run_ok: "ok db \<Longrightarrow> run db reqs = (won, db') \<Longrightarrow> ok db'"
proof (induction db reqs arbitrary: won db' rule: run.induct)
  case (2 db c k v rest)
  then show ?case by (cases "claim c db k v") (auto split: prod.splits dest: claim_ok)
qed simp

lemma claim_monotone:
  assumes "ok db" "claim c db k' v' = Some db'" "row_version db' k = Some v1"
  shows "\<exists>v0. row_version db k = Some v0 \<and> v0 \<le> v1"
  using claim_advances [OF assms(1,2)] claim_Some [OF assms(1,2)] claim_frame [OF assms(1,2)] assms(3)
  by (cases "k = k'") auto

lemma run_won_bound:
  "ok db \<Longrightarrow> run db reqs = (won, db') \<Longrightarrow> (k, v) \<in> set won \<Longrightarrow>
   \<exists>v0. row_version db k = Some v0 \<and> v0 \<le> v"
proof (induction db reqs arbitrary: won db' rule: run.induct)
  case (2 db c k' v' rest)
  show ?case
  proof (cases "claim c db k' v'")
    case None
    with 2 show ?thesis by auto
  next
    case (Some db1)
    obtain won1 where run1: "run db1 rest = (won1, db')" and won: "won = (k', v') # won1"
      using 2(4) Some by (auto split: prod.splits)
    have ok1: "ok db1" using 2(3) Some claim_ok by blast
    show ?thesis
    proof (cases "(k, v) \<in> set won1")
      case True
      then obtain v1 where "row_version db1 k = Some v1" "v1 \<le> v"
        using 2(2) [OF Some ok1 run1] by blast
      then show ?thesis using claim_monotone [OF 2(3) Some] by fastforce
    next
      case False
      then have "(k, v) = (k', v')" using 2(5) won by auto
      then show ?thesis using claim_Some [OF 2(3) Some] by auto
    qed
  qed
qed auto

text \<open>However claims interleave, no base version of a row is won twice.\<close>

lemma run_distinct: "ok db \<Longrightarrow> run db reqs = (won, db') \<Longrightarrow> distinct won"
proof (induction db reqs arbitrary: won db' rule: run.induct)
  case (2 db c k v rest)
  show ?case
  proof (cases "claim c db k v")
    case None
    with 2 show ?thesis by auto
  next
    case (Some db1)
    obtain won1 where run1: "run db1 rest = (won1, db')" and won: "won = (k, v) # won1"
      using 2 Some by (auto split: prod.splits)
    have ok1: "ok db1" using 2(3) Some claim_ok by blast
    have "(k, v) \<notin> set won1"
      using run_won_bound [OF ok1 run1, of k v] claim_advances [OF 2(3) Some] by auto
    with 2(2) [OF Some ok1 run1] won show ?thesis by simp
  qed
qed auto

text \<open>The version of a row counts the claims it granted.\<close>

lemma run_counts:
  "ok db \<Longrightarrow> run db reqs = (won, db') \<Longrightarrow> row_version db k = Some v0 \<Longrightarrow>
   row_version db' k = Some (v0 + int (length (filter (\<lambda>(k', v). k' = k) won)))"
proof (induction db reqs arbitrary: won db' v0 rule: run.induct)
  case (2 db c k' v rest)
  show ?case
  proof (cases "claim c db k' v")
    case None
    with 2 show ?thesis by auto
  next
    case (Some db1)
    obtain won1 where run1: "run db1 rest = (won1, db')" and won: "won = (k', v) # won1"
      using 2 Some by (auto split: prod.splits)
    have ok1: "ok db1" using 2(3) Some claim_ok by blast
    have "row_version db1 k = Some (if k = k' then v0 + 1 else v0)"
      using claim_advances [OF 2(3) Some] claim_frame [OF 2(3) Some] claim_Some [OF 2(3) Some] 2(5)
      by auto
    from 2(2) [OF Some ok1 run1 this] won show ?thesis by auto
  qed
qed auto

end

text \<open>
  The versions of the rows of a database, keyed by table and primary key, and what a
  conditional \<open>UPDATE\<close> of a single row does to them.
\<close>

definition lookup :: "sdb \<Rightarrow> model \<Rightarrow> uuid \<Rightarrow> row option" where
  "lookup db m i = first_where (\<lambda>r. r ''id'' = VUuid i) (tables db m)"

definition row_version :: "sdb \<Rightarrow> model \<times> uuid \<Rightarrow> int option" where
  "row_version db k = map_option version_of (lookup db (fst k) (snd k))"

lemma lookup_SomeD:
  "lookup db m i = Some r \<Longrightarrow> r \<in> set (tables db m) \<and> r ''id'' = VUuid i"
  by (auto simp: lookup_def dest: first_where_SomeD)

lemma lookup_unique:
  assumes "ids_distinct db" "r \<in> set (tables db m)" "r ''id'' = VUuid i"
  shows "lookup db m i = Some r"
  unfolding lookup_def
  by (rule first_where_unique [of "\<lambda>r. r ''id''"])
     (use assms in \<open>auto simp: ids_distinct_def\<close>)

lemma lookup_set_table_update:
  assumes "\<And>r. f r ''id'' = r ''id''"
  shows "lookup (set_table m (update_where P f (tables db m)) db) m' i =
    (if m' = m then map_option (\<lambda>r. if P r then f r else r) (lookup db m i) else lookup db m' i)"
  by (auto simp: lookup_def set_table_def assms intro!: first_where_update_where)

lemma lookup_hit_elsewhere:
  "ids_distinct db \<Longrightarrow> lookup db m i = Some r \<Longrightarrow> x \<in> set (tables db m) \<Longrightarrow> x ''id'' = VUuid i \<Longrightarrow> x = r"
  by (metis lookup_unique option.inject)

lemma count_where_id:
  assumes "ids_distinct db" "\<And>r. P r \<Longrightarrow> r ''id'' = VUuid i"
  shows "count_where P (tables db m) = (case lookup db m i of Some r \<Rightarrow> if P r then 1 else 0 | None \<Rightarrow> 0)"
proof (cases "\<exists>r \<in> set (tables db m). P r")
  case True
  then obtain r where r: "r \<in> set (tables db m)" "P r" by blast
  then have "lookup db m i = Some r" using lookup_unique [OF assms(1)] assms(2) by blast
  moreover have "count_where P (tables db m) \<le> 1"
    by (rule count_where_unique [of "\<lambda>r. r ''id''" _ _ "VUuid i"])
       (use assms in \<open>auto simp: ids_distinct_def\<close>)
  moreover have "count_where P (tables db m) \<noteq> 0" using r by (auto simp: count_where_zero_iff)
  ultimately show ?thesis using r by simp
next
  case False
  then have "count_where P (tables db m) = 0" by (auto simp: count_where_zero_iff)
  moreover have "lookup db m i = Some r \<Longrightarrow> \<not> P r" for r
    using False lookup_SomeD by blast
  ultimately show ?thesis by (auto split: option.splits)
qed

end
