(* ===== verification/Server_Mutations.thy ===== *)
theory Server_Mutations
  imports Server_Permissions Versioned_Store
begin

section \<open>Applying one pushed change (sync/registry.py, sync/mutations.py)\<close>

text \<open>
  Validation, version claims and writes of a single upsert or delete. The record schemas of
  schemas/models.py are lists of fields; pydantic's coercion of one field is the parameter
  \<open>e_coerce\<close> of the environment, the wording of its errors \<open>e_validation_text\<close>. The session's
  unit of work holds at most one changed object between a handler and the flush that follows
  it; it is the \<open>pending\<close> value the handlers return.
\<close>

subsection \<open>Record schemas\<close>

datatype field_type =
    FUuid
  | FInt int int
  | FIntFrom int
  | FStr nat nat
  | FStripped nat nat
  | FText
  | FBool
  | FDateTime
  | FEnum "string list"

text \<open>A field: name, type, and whether it may be omitted or null.\<close>

type_synonym field = "string \<times> field_type \<times> bool"

definition RiskStatus :: "string list" where
  "RiskStatus = [''concept'', ''active'', ''closed'', ''deleted'', ''happened'']"

definition ItemShared_fields :: "field list" where
  "ItemShared_fields =
     [(''impact_cost'', FInt 1 5, True), (''impact_time'', FInt 1 5, True),
      (''impact_scope'', FInt 1 5, True), (''impact_quality'', FInt 1 5, True),
      (''code'', FStr 1 64, True), (''description'', FStr 0 10000, True),
      (''category'', FStr 0 200, True), (''threat'', FStr 0 10000, True),
      (''triggers'', FStr 0 10000, True), (''mitigation_plan'', FStr 0 10000, True),
      (''document_url'', FStr 0 2000, True), (''owner_user_id'', FUuid, True),
      (''status'', FEnum RiskStatus, True), (''identified_at'', FDateTime, True),
      (''response_at'', FDateTime, True), (''occurred_at'', FDateTime, True)]"

definition SyncItemRecord :: "field list" where
  "SyncItemRecord = ItemShared_fields @
     [(''id'', FUuid, False), (''title'', FStr 0 300, True), (''probability'', FInt 1 5, True),
      (''impact'', FInt 1 5, True), (''is_deleted'', FBool, True)]"

definition SyncActionRecord :: "field list" where
  "SyncActionRecord =
     [(''id'', FUuid, False), (''item_id'', FUuid, True), (''risk_id'', FUuid, True),
      (''opportunity_id'', FUuid, True),
      (''kind'', FEnum [''mitigation'', ''contingency'', ''exploit''], True),
      (''title'', FStr 0 300, True), (''description'', FStr 0 10000, True),
      (''status'', FEnum [''open'', ''doing'', ''done''], True),
      (''owner_user_id'', FUuid, True), (''is_deleted'', FBool, True)]"

definition SyncAssessmentRecord :: "field list" where
  "SyncAssessmentRecord =
     [(''id'', FUuid, False), (''item_id'', FUuid, True), (''risk_id'', FUuid, True),
      (''opportunity_id'', FUuid, True), (''probability'', FInt 1 5, True),
      (''impact'', FInt 1 5, True), (''notes'', FStr 0 5000, True), (''is_deleted'', FBool, True)]"

definition SyncHelpDeskTicketRecord :: "field list" where
  "SyncHelpDeskTicketRecord =
     [(''id'', FUuid, False), (''title'', FStr 0 300, True), (''description'', FStr 0 10000, True),
      (''category'', FEnum [''bug'', ''question'', ''feature_request'', ''access'', ''other''], True),
      (''priority'', FEnum [''low'', ''medium'', ''high'', ''critical''], True),
      (''status'', FEnum [''open'', ''in_progress'', ''resolved'', ''closed''], True),
      (''reporter_email'', FStr 0 320, True), (''is_deleted'', FBool, True)]"

record env =
  e_dialect :: dialect
  e_now :: time
  e_coerce :: "field_type \<Rightarrow> pyval \<Rightarrow> pyval option"
  e_validation_text :: "string \<Rightarrow> dict \<Rightarrow> string"
  e_digest :: "pyval \<Rightarrow> string"

text \<open>
  \<open>schema_cls(**record).model_dump(exclude_unset=True)\<close>: the declared fields that the record
  sets, coerced, in declaration order; unknown keys are ignored; \<open>None\<close> on a validation error.
\<close>

fun model_dump :: "(field_type \<Rightarrow> pyval \<Rightarrow> pyval option) \<Rightarrow> field list \<Rightarrow> dict \<Rightarrow> dict option" where
  "model_dump coerce [] record = Some []"
| "model_dump coerce ((k, t, optional) # fs) record =
     (if dhas record k
      then (case (if optional \<and> dget record k = VNone then Some VNone else coerce t (dget record k)) of
              None \<Rightarrow> None
            | Some v \<Rightarrow> map_option (Cons (k, v)) (model_dump coerce fs record))
      else if optional then model_dump coerce fs record
      else None)"

subsection \<open>The registry\<close>

record entity_config =
  ec_model :: model
  ec_schema :: "field list"
  ec_manager_delete :: bool
  ec_defaults :: dict
  ec_parent_field :: "string option"

definition ENTITY_REGISTRY :: "(string \<times> entity_config) list" where
  "ENTITY_REGISTRY =
     [(''risk'', \<lparr>ec_model = Item, ec_schema = SyncItemRecord, ec_manager_delete = True,
        ec_defaults = [(''title'', VStr ''Untitled''), (''probability'', VInt 1),
                       (''impact'', VInt 1), (''type'', VStr ''risk'')],
        ec_parent_field = None\<rparr>),
      (''opportunity'', \<lparr>ec_model = Item, ec_schema = SyncItemRecord, ec_manager_delete = True,
        ec_defaults = [(''title'', VStr ''Untitled''), (''probability'', VInt 1),
                       (''impact'', VInt 1), (''type'', VStr ''opportunity'')],
        ec_parent_field = None\<rparr>),
      (''action'', \<lparr>ec_model = Action, ec_schema = SyncActionRecord, ec_manager_delete = True,
        ec_defaults = [(''title'', VStr ''Untitled action''), (''kind'', VStr ''mitigation''),
                       (''status'', VStr ''open'')],
        ec_parent_field = None\<rparr>),
      (''assessment'', \<lparr>ec_model = Assessment, ec_schema = SyncAssessmentRecord,
        ec_manager_delete = False,
        ec_defaults = [(''probability'', VInt 1), (''impact'', VInt 1)],
        ec_parent_field = Some ''item_id''\<rparr>),
      (''helpdesk_ticket'', \<lparr>ec_model = HelpDeskTicket, ec_schema = SyncHelpDeskTicketRecord,
        ec_manager_delete = False,
        ec_defaults = [(''title'', VStr ''Untitled ticket''), (''category'', VStr ''other''),
                       (''priority'', VStr ''medium''), (''status'', VStr ''open'')],
        ec_parent_field = None\<rparr>)]"

definition ENTITY_MODELS :: "string \<Rightarrow> model option" where
  "ENTITY_MODELS entity = map_option ec_model (map_of ENTITY_REGISTRY entity)"

definition OPS :: "string list" where
  "OPS = [''upsert'', ''delete'']"

text \<open>
  \<open>ENTITY_REGISTRY[entity]\<close>: the engine looks an entity up only after checking that it is
  registered; the fallback is never used.
\<close>

definition config_of :: "string \<Rightarrow> entity_config" where
  "config_of entity = (case map_of ENTITY_REGISTRY entity of
      Some c \<Rightarrow> c
    | None \<Rightarrow> \<lparr>ec_model = Item, ec_schema = [], ec_manager_delete = True, ec_defaults = [],
              ec_parent_field = None\<rparr>)"

abbreviation model_of :: "string \<Rightarrow> model" where
  "model_of entity \<equiv> ec_model (config_of entity)"

definition is_item_entity :: "string \<Rightarrow> bool" where
  "is_item_entity entity = (entity = ''risk'' \<or> entity = ''opportunity'')"

subsection \<open>Identifiers\<close>

definition updated_at_text :: "dict option \<Rightarrow> pyval" where
  "updated_at_text record =
     (case record of
        None \<Rightarrow> VNone
      | Some d \<Rightarrow> (case dget d ''updated_at'' of VNone \<Rightarrow> VNone | v \<Rightarrow> VStr (py_str v)))"

definition parse_uuid :: "pyval \<Rightarrow> string \<Rightarrow> uuid result" where
  "parse_uuid v name =
     (case v of
        VUuid u \<Rightarrow> Inr u
      | _ \<Rightarrow> (case uuid_of_str (py_str v) of
                Some u \<Rightarrow> Inr u
              | None \<Rightarrow> Inl (http_error 400 (''Invalid UUID for '' @ name))))"

definition maybe_entity_id :: "dict \<Rightarrow> uuid option" where
  "maybe_entity_id record =
     (let rid = dget record ''id'' in
      if truthy rid then uuid_of_str (py_str rid) else None)"

subsection \<open>Validation\<close>

definition parse_record :: "env \<Rightarrow> string \<Rightarrow> dict \<Rightarrow> dict result" where
  "parse_record e entity record =
     (case model_dump (e_coerce e) (ec_schema (config_of entity)) record of
        None \<Rightarrow> Inl (http_error 400 (''Validation error: '' @ e_validation_text e entity record))
      | Some val \<Rightarrow>
          rbind
            (if entity = ''action'' \<or> entity = ''assessment''
             then let rid = dget val ''risk_id''; oid = dget val ''opportunity_id'';
                      val1 = dpop (dpop val ''risk_id'') ''opportunity_id'' in
                  if entity = ''action'' \<and> \<not> truthy (dget val1 ''item_id'') \<and> truthy rid = truthy oid
                  then Inl (http_error 400 (''Validation error: 400: '' @
                              ''Action must have exactly one of risk_id/opportunity_id''))
                  else let val2 = (if \<not> truthy (dget val1 ''item_id'')
                                   then dset val1 ''item_id'' (py_or rid oid) else val1) in
                       Inr (dset val2 ''_target_type''
                              (if truthy rid then VStr ''risk''
                               else if truthy oid then VStr ''opportunity'' else VNone))
             else Inr val)
            (\<lambda>val'.
               Inr (if is_item_entity entity \<and>
                       strip (lower (str_or_empty (dget val' ''status''))) = ''deleted''
                    then dset val' ''is_deleted'' (VBool True) else val')))"

definition ensure_item_in_project :: "sdb \<Rightarrow> uuid \<Rightarrow> uuid \<Rightarrow> pyval \<Rightarrow> unit result" where
  "ensure_item_in_project db project_id item_id expected_type =
     (let t = (case first_where (\<lambda>i. i ''project_id'' = VUuid project_id \<and> i ''id'' = VUuid item_id)
                      (tables db Item) of
                 None \<Rightarrow> VNone
               | Some i \<Rightarrow> i ''type'') in
      if \<not> truthy t \<or> (truthy expected_type \<and> t \<noteq> expected_type)
      then Inl (http_error 400 ''Target not found in project'') else Inr ())"

definition validate_relationships :: "sdb \<Rightarrow> uuid \<Rightarrow> string \<Rightarrow> dict \<Rightarrow> row option \<Rightarrow> unit result" where
  "validate_relationships db project_id entity val obj =
     rbind
       (case ec_parent_field (config_of entity) of
          None \<Rightarrow> Inr ()
        | Some parent_field \<Rightarrow>
            let target_parent = (case obj of
                  None \<Rightarrow> dget val parent_field
                | Some r \<Rightarrow> py_or (dget val parent_field) (r parent_field)) in
            if \<not> truthy target_parent
            then (case obj of
                    None \<Rightarrow> Inl (http_error 400 (parent_field @ '' is required''))
                  | Some r \<Rightarrow> Inr ())
            else rbind (parse_uuid target_parent parent_field) (\<lambda>item_id.
                 ensure_item_in_project db project_id item_id (dget val ''_target_type'')))
       (\<lambda>_.
          if entity = ''action'' \<and> truthy (dget val ''item_id'')
          then rbind (parse_uuid (dget val ''item_id'') ''item_id'') (\<lambda>item_id.
               ensure_item_in_project db project_id item_id (dget val ''_target_type''))
          else Inr ())"


subsection \<open>Loading and claiming\<close>

definition item_in_project :: "sdb \<Rightarrow> uuid \<Rightarrow> pyval \<Rightarrow> bool" where
  "item_in_project db project_id item_id =
     list_ex (\<lambda>i. i ''id'' = item_id \<and> i ''project_id'' = VUuid project_id) (tables db Item)"

definition fetch_obj :: "sdb \<Rightarrow> string \<Rightarrow> uuid \<Rightarrow> uuid \<Rightarrow> row option" where
  "fetch_obj db entity entity_id project_id =
     (case ec_parent_field (config_of entity) of
        None \<Rightarrow> first_where (\<lambda>r. r ''id'' = VUuid entity_id \<and> r ''project_id'' = VUuid project_id)
                  (tables db (model_of entity))
      | Some _ \<Rightarrow> first_where (\<lambda>r. r ''id'' = VUuid entity_id \<and>
                                item_in_project db project_id (r ''item_id''))
                    (tables db (model_of entity)))"

definition check_base_version :: "row \<Rightarrow> int option \<Rightarrow> uuid \<Rightarrow> dict \<Rightarrow> int result" where
  "check_base_version obj base_version entity_id server_record =
     (let server_version = Some (version_of obj) in
      case base_version of
        None \<Rightarrow> Inl (ConflictError ''base_version_required'' (Some entity_id) server_version
                       (Some server_record))
      | Some bv \<Rightarrow>
          if bv < 1
          then Inl (ConflictError ''base_version_required'' (Some entity_id) server_version
                      (Some server_record))
          else if version_of obj \<noteq> bv
          then Inl (ConflictError ''version_mismatch'' (Some entity_id) server_version
                      (Some server_record))
          else Inr bv)"

definition version_scope :: "sdb \<Rightarrow> string \<Rightarrow> uuid \<Rightarrow> uuid \<Rightarrow> uuid \<Rightarrow> row \<Rightarrow> bool" where
  "version_scope db entity entity_id project_id user_id r =
     (r ''id'' = VUuid entity_id \<and>
      (if is_item_entity entity
       then r ''project_id'' = VUuid project_id \<and> r ''type'' = VStr entity
       else if entity = ''assessment''
       then r ''assessor_user_id'' = VUuid user_id \<and> item_in_project db project_id (r ''item_id'')
       else r ''project_id'' = VUuid project_id))"

definition current_server_state ::
  "sdb \<Rightarrow> string \<Rightarrow> uuid \<Rightarrow> uuid \<Rightarrow> uuid \<Rightarrow> int option \<times> dict option" where
  "current_server_state db entity entity_id project_id user_id =
     (case first_where (version_scope db entity entity_id project_id user_id)
             (tables db (model_of entity)) of
        None \<Rightarrow> (None, None)
      | Some obj \<Rightarrow> (Some (version_of obj),
                     Some (model_to_sync_dict db entity (model_of entity) obj)))"

definition claim_row :: "time \<Rightarrow> row \<Rightarrow> row" where
  "claim_row now r = r(''version'' := VInt (version_of r + 1), ''updated_at'' := VTime now)"

definition claim_base_version ::
  "time \<Rightarrow> sdb \<Rightarrow> string \<Rightarrow> uuid \<Rightarrow> uuid \<Rightarrow> uuid \<Rightarrow> int \<Rightarrow> sdb result" where
  "claim_base_version now db entity entity_id project_id user_id base_version =
     (let hit = (\<lambda>r. version_scope db entity entity_id project_id user_id r \<and>
                     version_of r = base_version);
          t = tables db (model_of entity);
          db' = set_table (model_of entity) (update_where hit (claim_row now) t) db in
      if count_where hit t \<noteq> 1
      then let (server_version, server_record) =
                 current_server_state db' entity entity_id project_id user_id in
           Inl (ConflictError ''version_mismatch'' (Some entity_id) server_version server_record)
      else Inr db')"

definition claim_existing ::
  "time \<Rightarrow> sdb \<Rightarrow> row \<Rightarrow> string \<Rightarrow> uuid \<Rightarrow> uuid \<Rightarrow> uuid \<Rightarrow> int option \<Rightarrow> (dict \<times> sdb) result" where
  "claim_existing now db obj entity entity_id project_id user_id base_version =
     (if is_item_entity entity \<and> obj ''type'' \<noteq> VStr entity
      then Inl (ConflictError ''type_mismatch'' (Some entity_id) (Some (version_of obj))
                  (Some (model_to_sync_dict db entity (model_of entity) obj)))
      else if entity = ''assessment'' \<and> obj ''assessor_user_id'' \<noteq> VUuid user_id
      then Inl (http_error 403 ''Cannot modify another user's assessment'')
      else rbind (check_base_version obj base_version entity_id
                    (model_to_sync_dict db entity (model_of entity) obj)) (\<lambda>expected_version.
           let before = model_to_dict (model_of entity) obj in
           rbind (claim_base_version now db entity entity_id project_id user_id expected_version)
             (\<lambda>db'. Inr (before, db'))))"

subsection \<open>Item codes\<close>

text \<open>
  \<open>LIKE 'R-%'\<close>: SQLite compares ASCII letters without case, PostgreSQL with case.
\<close>

definition code_like :: "dialect \<Rightarrow> string \<Rightarrow> pyval \<Rightarrow> bool" where
  "code_like d prefix v = (case v of
      VStr s \<Rightarrow> (if d = SQLite then starts_with (lower (take 2 s)) (lower (prefix @ ''-''))
                else starts_with s (prefix @ ''-''))
    | _ \<Rightarrow> False)"

text \<open>One pass of the loop over \<open>existing_codes\<close>; \<open>None\<close> where \<open>int(suffix)\<close> raises.\<close>

definition used_number :: "string \<Rightarrow> pyval \<Rightarrow> (nat list) result" where
  "used_number prefix existing_code =
     (let (head, separator, suffix) = partition_on (CHR ''-'') (str_or_empty existing_code) in
      if separator \<and> upper head = prefix \<and> is_digits suffix
      then (case int_parse 10 suffix of
              None \<Rightarrow> Inl PyValueError
            | Some n \<Rightarrow> Inr [nat n])
      else Inr [])"

fun used_numbers :: "string \<Rightarrow> pyval list \<Rightarrow> (nat list) result" where
  "used_numbers prefix [] = Inr []"
| "used_numbers prefix (c # cs) =
     rbind (used_number prefix c) (\<lambda>xs. rbind (used_numbers prefix cs) (\<lambda>ys. Inr (xs @ ys)))"

text \<open>\<open>while number in used: number += 1\<close>.\<close>

function first_unused :: "nat list \<Rightarrow> nat \<Rightarrow> nat" where
  "first_unused used number = (if number \<in> set used then first_unused used (number + 1) else number)"
  by pat_completeness auto

termination
proof (relation "measure (\<lambda>(used, number). Suc (Max (insert 0 (set used))) - number)")
  fix used :: "nat list" and number :: nat
  assume "number \<in> set used"
  then have "number \<le> Max (insert 0 (set used))" by simp
  then show "((used, number + 1), used, number) \<in>
      measure (\<lambda>(used, number). Suc (Max (insert 0 (set used))) - number)"
    by simp
qed simp

declare first_unused.simps [simp del]

definition code_prefix :: "string \<Rightarrow> string" where
  "code_prefix entity = (if entity = ''risk'' then ''R'' else ''O'')"

definition canonical_item_code :: "dialect \<Rightarrow> sdb \<Rightarrow> uuid \<Rightarrow> string \<Rightarrow> pyval \<Rightarrow> pyval result" where
  "canonical_item_code d db project_id entity requested =
     (let code = strip (str_or_empty requested);
          mine = filter (\<lambda>i. i ''project_id'' = VUuid project_id) (tables db Item) in
      if code = [] then Inr VNone
      else case filter (\<lambda>i. i ''code'' = VStr code) mine of
             [] \<Rightarrow> Inr (VStr code)
           | _ # _ # _ \<Rightarrow> Inl PyRuntimeError
           | [_] \<Rightarrow>
               let prefix = code_prefix entity;
                   existing_codes = filter (code_like d prefix) (map (\<lambda>i. i ''code'') mine) in
               rbind (used_numbers prefix existing_codes) (\<lambda>used.
               Inr (VStr (prefix @ ''-'' @ zero_pad 3 (first_unused used 1)))))"

subsection \<open>Writing\<close>

datatype pending = Pending_insert model row | Pending_update model row

definition client_fields :: "model \<Rightarrow> dict \<Rightarrow> dict" where
  "client_fields m val =
     filter (\<lambda>(k, v). \<not> (starts_with k ''_'' \<or> k \<in> {''score'', ''assessor_user_id''} \<or> \<not> hasattr m k)) val"

definition setattrs :: "dict \<Rightarrow> row \<Rightarrow> row" where
  "setattrs kvs r = foldl (\<lambda>acc (k, v). acc(k := v)) r kvs"

definition create_new :: "env \<Rightarrow> sdb \<Rightarrow> uuid \<Rightarrow> uuid \<Rightarrow> string \<Rightarrow> uuid \<Rightarrow> dict \<Rightarrow> row result" where
  "create_new e db user_id project_id entity entity_id record =
     (let now = e_now e; config = config_of entity; m = ec_model config in
      rbind (parse_record e entity record) (\<lambda>val0.
      rbind (if is_item_entity entity \<and> dhas val0 ''code''
             then rbind (canonical_item_code (e_dialect e) db project_id entity (dget val0 ''code''))
                    (\<lambda>c. Inr (dset val0 ''code'' c))
             else Inr val0) (\<lambda>val.
      let common = [(''id'', VUuid entity_id), (''version'', VInt 1), (''updated_at'', VTime now),
                    (''created_at'', VTime now)] @
                   (if entity \<noteq> ''assessment''
                    then [(''project_id'', VUuid project_id), (''created_by'', VUuid user_id)]
                    else []) @ ec_defaults config in
      rbind (validate_relationships db project_id entity val None) (\<lambda>_.
      let common' = (case ec_parent_field config of
                       None \<Rightarrow> common
                     | Some _ \<Rightarrow> common @ [(''assessor_user_id'', VUuid user_id)]);
          obj = setattrs common' (\<lambda>_. VNone) in
      Inr (recalculate_item_scores m (setattrs (client_fields m val) obj))))))"

fun update_fields :: "model \<Rightarrow> time \<Rightarrow> dict \<Rightarrow> row \<Rightarrow> row" where
  "update_fields m now [] r = r"
| "update_fields m now ((k, v) # kvs) r =
     update_fields m now kvs
       (if k = ''status'' \<and> status_changeable m then change_status v now r else r(k := v))"

definition update_existing :: "env \<Rightarrow> sdb \<Rightarrow> uuid \<Rightarrow> string \<Rightarrow> row \<Rightarrow> dict \<Rightarrow> row result" where
  "update_existing e db project_id entity obj record =
     (let now = e_now e; m = model_of entity in
      rbind (parse_record e entity record) (\<lambda>val.
      rbind (validate_relationships db project_id entity val (Some obj)) (\<lambda>_.
      let r1 = update_fields m now (client_fields m val) obj;
          flag = dget val ''is_deleted'';
          did_soft_delete = truthy flag;
          r2 = (if flag = VNone then r1
                else if truthy flag then soft_delete m now r1
                else r1(''is_deleted'' := VBool False));
          r3 = (recalculate_item_scores m r2)(''updated_at'' := VTime now) in
      Inr (if did_soft_delete then r3 else r3(''version'' := VInt (version_of r3 + 1))))))"

definition audit ::
  "env \<Rightarrow> sdb \<Rightarrow> uuid \<Rightarrow> uuid \<Rightarrow> uuid \<Rightarrow> string \<Rightarrow> uuid \<Rightarrow> string \<Rightarrow> dict option \<Rightarrow> row \<Rightarrow> sdb" where
  "audit e db user_id project_id change_id entity entity_id op before obj =
     db\<lparr>audit_log := audit_log db @
         [\<lparr>al_ts = e_now e, al_user_id = user_id, al_project_id = project_id,
           al_change_id = change_id, al_entity = entity, al_entity_id = entity_id, al_op = op,
           al_before = before, al_after = model_to_dict (model_of entity) obj\<rparr>]\<rparr>"

definition apply_upsert ::
  "env \<Rightarrow> sdb \<Rightarrow> uuid \<Rightarrow> uuid \<Rightarrow> string \<Rightarrow> int option \<Rightarrow> dict \<Rightarrow> uuid \<Rightarrow>
   (uuid \<times> pending option \<times> sdb) result" where
  "apply_upsert e db user_id project_id entity base_version record change_id =
     rbind (parse_uuid (dget record ''id'') ''record.id'') (\<lambda>entity_id.
     case fetch_obj db entity entity_id project_id of
       None \<Rightarrow>
         rbind (create_new e db user_id project_id entity entity_id record) (\<lambda>obj.
         Inr (entity_id, Some (Pending_insert (model_of entity) obj),
              audit e db user_id project_id change_id entity entity_id ''upsert'' None obj))
     | Some obj \<Rightarrow>
         rbind (claim_existing (e_now e) db obj entity entity_id project_id user_id base_version)
           (\<lambda>(before, db').
         rbind (update_existing e db' project_id entity obj record) (\<lambda>obj'.
         Inr (entity_id, Some (Pending_update (model_of entity) obj'),
              audit e db' user_id project_id change_id entity entity_id ''upsert'' (Some before) obj'))))"

definition apply_delete ::
  "env \<Rightarrow> sdb \<Rightarrow> uuid \<Rightarrow> uuid \<Rightarrow> string \<Rightarrow> int option \<Rightarrow> dict \<Rightarrow> uuid \<Rightarrow>
   (uuid \<times> pending option \<times> sdb) result" where
  "apply_delete e db user_id project_id entity base_version record change_id =
     rbind (parse_uuid (dget record ''id'') ''record.id'') (\<lambda>entity_id.
     case fetch_obj db entity entity_id project_id of
       None \<Rightarrow> Inr (entity_id, None, db)
     | Some obj \<Rightarrow>
         rbind (claim_existing (e_now e) db obj entity entity_id project_id user_id base_version)
           (\<lambda>(before, db').
         let obj' = soft_delete (model_of entity) (e_now e) obj in
         Inr (entity_id, Some (Pending_update (model_of entity) obj'),
              audit e db' user_id project_id change_id entity entity_id ''delete'' (Some before) obj')))"

fun flush_pending :: "env \<Rightarrow> pending option \<Rightarrow> sdb \<Rightarrow> sdb result" where
  "flush_pending e None db = Inr db"
| "flush_pending e (Some (Pending_insert m r)) db =
     rbind (flush_insert (e_dialect e) (e_now e) m r db) (\<lambda>(r', db'). Inr db')"
| "flush_pending e (Some (Pending_update m r)) db =
     rbind (flush_update (e_dialect e) m r db) (\<lambda>(r', db'). Inr db')"


section \<open>Facts about mutations\<close>

subsection \<open>Claims\<close>

lemma config_cases:
  "is_item_entity entity \<Longrightarrow> model_of entity = Item"
  "is_item_entity entity \<Longrightarrow> ec_parent_field (config_of entity) = None"
  "model_of ''assessment'' = Assessment" "ec_parent_field (config_of ''assessment'') = Some ''item_id''"
  "entity \<noteq> ''assessment'' \<Longrightarrow> ec_parent_field (config_of entity) = None"
  "entity \<noteq> ''assessment'' \<Longrightarrow> model_of entity \<noteq> Assessment"
  by (auto simp: config_of_def ENTITY_REGISTRY_def is_item_entity_def)

lemma claim_row_id [simp]: "claim_row now r ''id'' = r ''id''"
  by (simp add: claim_row_def)

lemma claim_row_version [simp]: "version_of (claim_row now r) = version_of r + 1"
  by (simp add: claim_row_def int_col_def)

definition sync_client_visible :: "string \<times> uuid \<times> uuid \<Rightarrow> sdb \<Rightarrow> model \<times> uuid \<Rightarrow> bool" where
  "sync_client_visible c db k =
     (case c of (entity, project_id, user_id) \<Rightarrow> fst k = model_of entity \<and>
        (case lookup db (fst k) (snd k) of
           None \<Rightarrow> False
         | Some r \<Rightarrow> version_scope db entity (snd k) project_id user_id r))"

definition sync_claim :: "time \<Rightarrow> string \<times> uuid \<times> uuid \<Rightarrow> sdb \<Rightarrow> model \<times> uuid \<Rightarrow> int \<Rightarrow> sdb option" where
  "sync_claim now c db k v =
     (case c of (entity, project_id, user_id) \<Rightarrow>
        if fst k \<noteq> model_of entity then None
        else (case claim_base_version now db entity (snd k) project_id user_id v of
                Inl _ \<Rightarrow> None
              | Inr db' \<Rightarrow> Some db'))"

lemma claim_base_version_Inr:
  assumes "ids_distinct db"
  shows "claim_base_version now db entity i p u v = Inr db' \<longleftrightarrow>
    (\<exists>r. lookup db (model_of entity) i = Some r \<and> version_scope db entity i p u r \<and> version_of r = v \<and>
      db' = set_table (model_of entity) (update_where (\<lambda>x. version_scope db entity i p u x \<and> version_of x = v)
              (claim_row now) (tables db (model_of entity))) db)"
proof -
  let ?hit = "\<lambda>r. version_scope db entity i p u r \<and> version_of r = v"
  have "count_where ?hit (tables db (model_of entity)) =
    (case lookup db (model_of entity) i of Some r \<Rightarrow> if ?hit r then 1 else 0 | None \<Rightarrow> 0)"
    by (rule count_where_id [OF assms]) (auto simp: version_scope_def)
  then show ?thesis
    by (auto simp: claim_base_version_def Let_def split: option.splits prod.splits if_splits)
qed

lemma claim_base_version_lookup:
  assumes "ids_distinct db" "claim_base_version now db entity i p u v = Inr db'"
  shows "lookup db' m j = (if m = model_of entity \<and> j = i
           then map_option (claim_row now) (lookup db m i) else lookup db m j)"
proof -
  from assms obtain r where r: "lookup db (model_of entity) i = Some r"
    "version_scope db entity i p u r" "version_of r = v"
    and db': "db' = set_table (model_of entity)
      (update_where (\<lambda>x. version_scope db entity i p u x \<and> version_of x = v)
              (claim_row now) (tables db (model_of entity))) db"
    by (auto simp: claim_base_version_Inr)
  have other: "\<not> version_scope db entity i p u x" if "lookup db (model_of entity) j = Some x" "j \<noteq> i" for x
    using lookup_SomeD [OF that(1)] that(2) by (auto simp: version_scope_def)
  have eq: "lookup db' m j = (if m = model_of entity
      then map_option (\<lambda>r. if version_scope db entity i p u r \<and> version_of r = v
                           then claim_row now r else r) (lookup db m j)
      else lookup db m j)"
    unfolding db' by (simp add: lookup_set_table_update)
  show ?thesis
  proof (cases "m = model_of entity \<and> j = i")
    case True
    with eq r show ?thesis by simp
  next
    case False
    with eq other show ?thesis by (cases "lookup db m j") auto
  qed
qed

interpretation sync_claims: versioned_store ids_distinct row_version sync_client_visible "sync_claim now" for now
proof
  fix db :: sdb and c :: "string \<times> uuid \<times> uuid" and k :: "model \<times> uuid" and v :: int
  assume ids: "ids_distinct db"
  obtain entity p u where c: "c = (entity, p, u)" by (cases c)
  obtain m i where k: "k = (m, i)" by (cases k)
  have claim: "sync_claim now c db k v = Some db' \<longleftrightarrow>
    m = model_of entity \<and> claim_base_version now db entity i p u v = Inr db'" for db'
    by (auto simp: sync_claim_def c k split: sum.splits)
  show "(sync_claim now c db k v \<noteq> None) = (sync_client_visible c db k \<and> row_version db k = Some v)"
    unfolding not_None_eq claim claim_base_version_Inr [OF ids]
    by (auto simp: sync_client_visible_def row_version_def c k split: option.splits)
  fix db' :: sdb and k' :: "model \<times> uuid"
  assume "sync_claim now c db k v = Some db'"
  with claim have m: "m = model_of entity" and ok: "claim_base_version now db entity i p u v = Inr db'"
    by auto
  note look = claim_base_version_lookup [OF ids ok]
  from ok obtain r where r: "lookup db m i = Some r" "version_of r = v"
    and db': "db' = set_table m (update_where (\<lambda>x. version_scope db entity i p u x \<and> version_of x = v)
              (claim_row now) (tables db m)) db"
    by (auto simp: claim_base_version_Inr [OF ids] m)
  show "row_version db' k = Some (v + 1)"
    using r look [of m i] by (simp add: row_version_def k m)
  show "row_version db' k' = row_version db k'" if "k' \<noteq> k"
    using that look [of "fst k'" "snd k'"] by (auto simp: row_version_def k m prod_eq_iff)
  have "map (\<lambda>r. r ''id'') (tables db' m') = map (\<lambda>r. r ''id'') (tables db m')" for m'
    unfolding db' by (simp add: set_table_def map_update_where)
  with ids show "ids_distinct db'" by (simp add: ids_distinct_def)
qed


lemma version_columns:
  "(''version'', t, n) \<in> set (columns m) \<Longrightarrow> t = TInteger"
  "(''updated_at'', t, n) \<in> set (columns m) \<Longrightarrow> t = TDateTime"
  by (cases m; simp add: SyncMixin_columns_def ItemBaseMixin_columns_def Action_columns_def
      AssessmentMixin_columns_def HelpDeskTicket_columns_def)+

lemma claim_row_inv:
  assumes "db_inv db"
  shows "db_inv (set_table m (update_where P (claim_row now) (tables db m)) db)"
proof -
  have ty: "types_ok SQLite m (claim_row now r)" if "types_ok SQLite m r" for r
    unfolding types_ok_def list_all_iff
  proof (clarify)
    fix k t n assume c: "(k, t, n) \<in> set (columns m)"
    with that have "type_ok SQLite t (r k)" by (auto simp: types_ok_def list_all_iff)
    with c version_columns [of t n m] show "type_ok SQLite t (claim_row now r k)"
      by (auto simp: claim_row_def)
  qed
  have nn: "not_null_ok m (claim_row now r)" if "not_null_ok m r" for r
    using that by (fastforce simp: not_null_ok_def claim_row_def list_all_iff split: if_splits)
  show ?thesis by (rule db_inv_touch [OF assms _ ty nn]) (auto simp: feed_columns_def claim_row_def)
qed

lemma claim_base_version_inv:
  assumes "db_inv db" "claim_base_version now db entity i p u v = Inr db'"
  shows "db_inv db'"
  using assms claim_row_inv [OF assms(1)]
  by (auto simp: claim_base_version_Inr [OF db_invD(3) [OF assms(1)]])

subsection \<open>Parsed records\<close>

lemma model_dump_Cons:
  "model_dump coerce ((k, t, optional) # fs) rcd = Some val \<longleftrightarrow>
   (dhas rcd k \<and> (\<exists>v z. val = (k, v) # z \<and> model_dump coerce fs rcd = Some z \<and>
      (if optional \<and> dget rcd k = VNone then v = VNone else coerce t (dget rcd k) = Some v))) \<or>
   (\<not> dhas rcd k \<and> optional \<and> model_dump coerce fs rcd = Some val)"
  by (auto split: option.splits)

lemma model_dump_mem:
  "model_dump coerce fs rcd = Some val \<Longrightarrow> (k, v) \<in> set val \<Longrightarrow>
   \<exists>t optional. (k, t, optional) \<in> set fs \<and> dhas rcd k \<and>
     (optional \<and> dget rcd k = VNone \<and> v = VNone \<or> coerce t (dget rcd k) = Some v)"
proof (induction fs arbitrary: val)
  case (Cons f fs)
  obtain k' t optional where f: "f = (k', t, optional)" by (cases f)
  from Cons.prems(1) [unfolded f model_dump_Cons] show ?case
  proof (elim disjE conjE exE)
    fix v' z
    assume "dhas rcd k'" "val = (k', v') # z" "model_dump coerce fs rcd = Some z"
      "if optional \<and> dget rcd k' = VNone then v' = VNone else coerce t (dget rcd k') = Some v'"
    with Cons.IH [of z] Cons.prems(2) show ?thesis
      by (cases "(k, v) \<in> set z") (auto simp: f split: if_splits)
  qed (use Cons.IH [of val] Cons.prems(2) in \<open>auto simp: f\<close>)
qed simp

lemma model_dump_distinct:
  "model_dump coerce fs rcd = Some val \<Longrightarrow> distinct (map fst fs) \<Longrightarrow> distinct (map fst val)"
proof (induction fs arbitrary: val)
  case (Cons f fs)
  obtain k t optional where f: "f = (k, t, optional)" by (cases f)
  have "k \<notin> fst ` set z" if "model_dump coerce fs rcd = Some z" for z
    using model_dump_mem [OF that] Cons.prems(2) f by force
  with Cons show ?case unfolding f model_dump_Cons by auto
qed simp

definition server_fields :: "string list" where
  "server_fields = [''version'', ''project_id'', ''change_sequence'', ''type'', ''score'',
     ''created_at'', ''updated_at'', ''created_by'', ''assessor_user_id'']"

lemma schema_no_server_fields:
  "(k, t, optional) \<in> set (ec_schema (config_of entity)) \<Longrightarrow> k \<notin> set server_fields"
  by (auto simp: config_of_def ENTITY_REGISTRY_def server_fields_def SyncItemRecord_def
      ItemShared_fields_def SyncActionRecord_def SyncAssessmentRecord_def
      SyncHelpDeskTicketRecord_def split: if_splits)

lemma schema_distinct: "distinct (map fst (ec_schema (config_of entity)))"
  by (auto simp: config_of_def ENTITY_REGISTRY_def SyncItemRecord_def
      ItemShared_fields_def SyncActionRecord_def SyncAssessmentRecord_def
      SyncHelpDeskTicketRecord_def)

lemma schema_id_field:
  "(''id'', t, optional) \<in> set (ec_schema (config_of entity)) \<Longrightarrow> t = FUuid \<and> \<not> optional"
  by (auto simp: config_of_def ENTITY_REGISTRY_def SyncItemRecord_def
      ItemShared_fields_def SyncActionRecord_def SyncAssessmentRecord_def
      SyncHelpDeskTicketRecord_def split: if_splits)

text \<open>The entries of a parsed record come from the schema or from the normalisation.\<close>

lemma parse_record_mem:
  assumes "parse_record e entity record = Inr val" "(k, v) \<in> set val"
  shows "(\<exists>val0. model_dump (e_coerce e) (ec_schema (config_of entity)) record = Some val0 \<and>
            (k, v) \<in> set val0) \<or> k = ''item_id'' \<and> \<not> is_item_entity entity \<or> k = ''_target_type'' \<or>
         k = ''is_deleted'' \<and> is_item_entity entity"
proof -
  have sub: "x \<in> set (dset d k' w) \<Longrightarrow> x = (k', w) \<or> x \<in> set d" for x d k' w
    using set_dset by force
  have pop: "x \<in> set (dpop d k') \<Longrightarrow> x \<in> set d" for x d k' using set_dpop by fastforce
  from assms(1) obtain val0 where
    "model_dump (e_coerce e) (ec_schema (config_of entity)) record = Some val0"
    by (auto simp: parse_record_def split: option.splits)
  with assms show ?thesis
    by (auto simp: parse_record_def Let_def is_item_entity_def
        dest!: sub pop split: if_splits)
qed

lemma parse_record_no_server_fields:
  assumes "parse_record e entity record = Inr val" "(k, v) \<in> set val"
  shows "k \<notin> set server_fields"
proof -
  have "k = ''item_id'' \<or> k = ''_target_type'' \<or> k = ''is_deleted'' \<Longrightarrow> ?thesis"
    by (auto simp: server_fields_def)
  with parse_record_mem [OF assms] show ?thesis
    by (blast dest: model_dump_mem schema_no_server_fields)
qed


text \<open>
  What the engine relies on of pydantic's coercion: a coerced value has the declared type and
  range, an identifier that both pydantic and \<open>uuid.UUID\<close> accept is the same one, a value
  coerced to true is truthy, and an enum member is given by its exact text.
\<close>

fun field_ok :: "field_type \<Rightarrow> pyval \<Rightarrow> bool" where
  "field_ok FUuid (VUuid u) = True"
| "field_ok (FInt lo hi) (VInt i) = (lo \<le> i \<and> i \<le> hi)"
| "field_ok (FIntFrom lo) (VInt i) = (lo \<le> i)"
| "field_ok (FStr lo hi) (VStr s) = (lo \<le> length s \<and> length s \<le> hi)"
| "field_ok (FStripped lo hi) (VStr s) = (lo \<le> length s \<and> length s \<le> hi \<and> strip s = s)"
| "field_ok FText (VStr s) = True"
| "field_ok FBool (VBool b) = True"
| "field_ok FDateTime (VTime t) = True"
| "field_ok (FEnum ss) (VStr s) = (s \<in> set ss)"
| "field_ok t v = False"

definition coerce_ok :: "(field_type \<Rightarrow> pyval \<Rightarrow> pyval option) \<Rightarrow> bool" where
  "coerce_ok coerce =
     ((\<forall>t v w. coerce t v = Some w \<longrightarrow> field_ok t w) \<and>
      (\<forall>v w n u. coerce FUuid v = Some w \<longrightarrow> parse_uuid v n = Inr u \<longrightarrow> w = VUuid u) \<and>
      (\<forall>v. coerce FBool v = Some (VBool True) \<longrightarrow> truthy v) \<and>
      (\<forall>ss v s. coerce (FEnum ss) v = Some (VStr s) \<longrightarrow> v = VStr s))"

text \<open>A concrete coercion with these properties: values of the declared type as they are.\<close>

definition strict_coerce :: "field_type \<Rightarrow> pyval \<Rightarrow> pyval option" where
  "strict_coerce t v =
     (let w = (case (t, v) of
                 (FUuid, VStr s) \<Rightarrow> map_option VUuid (uuid_of_str s)
               | (FStripped lo hi, VStr s) \<Rightarrow> Some (VStr (strip s))
               | _ \<Rightarrow> Some v) in
      case w of None \<Rightarrow> None | Some x \<Rightarrow> if field_ok t x then Some x else None)"

lemma strict_coerce_ok: "coerce_ok strict_coerce"
proof -
  have a: "strict_coerce t v = Some w \<Longrightarrow> field_ok t w" for t v w
    by (auto simp: strict_coerce_def Let_def split: option.splits if_splits)
  have b: "strict_coerce FUuid v = Some w \<Longrightarrow> parse_uuid v n = Inr u \<Longrightarrow> w = VUuid u" for v w n u
    by (cases v) (auto simp: strict_coerce_def Let_def parse_uuid_def py_str_def
        split: option.splits if_splits)
  have c: "strict_coerce FBool v = Some (VBool True) \<Longrightarrow> truthy v" for v
    by (auto simp: strict_coerce_def Let_def split: option.splits if_splits)
  have d: "strict_coerce (FEnum ss) v = Some (VStr t) \<Longrightarrow> v = VStr t" for ss v t
    by (auto simp: strict_coerce_def Let_def split: option.splits if_splits)
  from a b c d show ?thesis unfolding coerce_ok_def by blast
qed

lemma parse_record_id:
  assumes "parse_record e entity record = Inr val" "(''id'', v) \<in> set val" "coerce_ok (e_coerce e)"
    and "parse_uuid (dget record ''id'') n = Inr u"
  shows "v = VUuid u"
proof -
  from parse_record_mem [OF assms(1,2)] obtain val0 where
    "model_dump (e_coerce e) (ec_schema (config_of entity)) record = Some val0" "(''id'', v) \<in> set val0"
    by auto
  then obtain t optional where "(''id'', t, optional) \<in> set (ec_schema (config_of entity))"
    "optional \<and> dget record ''id'' = VNone \<and> v = VNone \<or> e_coerce e t (dget record ''id'') = Some v"
    using model_dump_mem by blast
  with schema_id_field have "e_coerce e FUuid (dget record ''id'') = Some v" by blast
  with assms(3,4) show ?thesis unfolding coerce_ok_def by blast
qed

lemma client_fields_mem: "(k, v) \<in> set (client_fields m val) \<Longrightarrow> (k, v) \<in> set val"
  by (auto simp: client_fields_def)

subsection \<open>Rows built from parsed records\<close>

lemma setattrs_simps [simp]:
  "setattrs [] r = r" "setattrs ((k, v) # kvs) r = setattrs kvs (r(k := v))"
  by (simp_all add: setattrs_def)

lemma setattrs_other: "k \<notin> fst ` set kvs \<Longrightarrow> setattrs kvs r k = r k"
  by (induction kvs arbitrary: r) auto

lemma setattrs_const: "(\<And>v. (k, v) \<in> set kvs \<Longrightarrow> v = r k) \<Longrightarrow> setattrs kvs r k = r k"
proof (induction kvs arbitrary: r)
  case (Cons p kvs)
  obtain k' v where p: "p = (k', v)" by (cases p)
  have eq: "(r(k' := v)) k = r k" using Cons.prems [of v] p by auto
  have "setattrs kvs (r(k' := v)) k = (r(k' := v)) k"
    by (rule Cons.IH, unfold eq, rule Cons.prems) simp
  with eq p show ?case by (simp only: setattrs_simps)
qed simp

lemma change_status_other:
  "k \<notin> {''status'', ''status_changed_at'', ''occurred_at''} \<Longrightarrow> change_status v now r k = r k"
  by (auto simp: change_status_def Let_def)

lemma update_fields_const:
  "\<lbrakk>\<And>v. (k, v) \<in> set kvs \<Longrightarrow> v = r k; k \<notin> {''status'', ''status_changed_at'', ''occurred_at''}\<rbrakk> \<Longrightarrow>
   update_fields m now kvs r k = r k"
proof (induction m now kvs r rule: update_fields.induct)
  case (2 m now k' v kvs r)
  let ?r = "if k' = ''status'' \<and> status_changeable m then change_status v now r else r(k' := v)"
  have r: "?r k = r k" using 2(2,3) change_status_other by auto
  have "update_fields m now kvs ?r k = ?r k"
  proof (rule 2(1))
    fix w assume "(k, w) \<in> set kvs"
    then show "w = ?r k" unfolding r using 2(2) by simp
  qed (rule 2(3))
  then show ?case unfolding r by simp
qed simp

lemma recalculate_other:
  "k \<notin> {''impact'', ''score''} \<Longrightarrow> recalculate_item_scores m r k = r k"
  by (auto simp: recalculate_item_scores_def Let_def)

lemma soft_delete_other:
  "k \<notin> {''is_deleted'', ''updated_at'', ''version'', ''status'', ''status_changed_at'', ''occurred_at''} \<Longrightarrow>
   soft_delete m now r k = r k"
  by (auto simp: soft_delete_def Let_def change_status_other)

lemma soft_delete_version: "soft_delete m now r ''version'' = VInt (version_of r + 1)"
  by (auto simp: soft_delete_def Let_def change_status_other)


lemma update_existing_effect:
  assumes "update_existing e db p entity obj record = Inr obj'" "coerce_ok (e_coerce e)"
    and "parse_uuid (dget record ''id'') n = Inr i" "obj ''id'' = VUuid i"
  shows "obj' ''id'' = obj ''id''" "obj' ''project_id'' = obj ''project_id''"
    "obj' ''type'' = obj ''type''" "obj' ''created_by'' = obj ''created_by''"
    "obj' ''version'' = VInt (version_of obj + 1)" "obj' ''updated_at'' = VTime (e_now e)"
proof -
  let ?m = "model_of entity" and ?now = "e_now e"
  from assms(1) obtain val where val: "parse_record e entity record = Inr val"
    and obj': "obj' = (let r1 = update_fields ?m ?now (client_fields ?m val) obj;
          flag = dget val ''is_deleted'';
          r2 = (if flag = VNone then r1
                else if truthy flag then soft_delete ?m ?now r1
                else r1(''is_deleted'' := VBool False));
          r3 = (recalculate_item_scores ?m r2)(''updated_at'' := VTime ?now) in
      if truthy flag then r3 else r3(''version'' := VInt (version_of r3 + 1)))"
    by (auto simp: update_existing_def Let_def)
  define r1 where "r1 = update_fields ?m ?now (client_fields ?m val) obj"
  have keep: "r1 k = obj k" if "k \<in> set server_fields" for k
    unfolding r1_def
  proof (rule update_fields_const)
    fix v assume "(k, v) \<in> set (client_fields ?m val)"
    then show "v = obj k" using parse_record_no_server_fields [OF val] that client_fields_mem by blast
  qed (use that in \<open>auto simp: server_fields_def\<close>)
  have id: "r1 ''id'' = obj ''id''"
    unfolding r1_def
    by (rule update_fields_const)
       (use parse_record_id [OF val _ assms(2,3)] client_fields_mem assms(4) in auto)
  have v: "version_of r1 = version_of obj" using keep [of "''version''"]
    by (simp add: server_fields_def int_col_def)
  note other = recalculate_other soft_delete_other
  show "obj' ''id'' = obj ''id''" "obj' ''project_id'' = obj ''project_id''"
    "obj' ''type'' = obj ''type''" "obj' ''created_by'' = obj ''created_by''"
    using keep [of "''project_id''"] keep [of "''type''"] keep [of "''created_by''"] id
    unfolding obj' r1_def [symmetric] by (auto simp: Let_def other server_fields_def)
  show "obj' ''version'' = VInt (version_of obj + 1)"
    unfolding obj' r1_def [symmetric]
    by (auto simp: Let_def recalculate_other soft_delete_version v int_col_def [of "_(_ := _)"]
        int_col_def [of "recalculate_item_scores _ _"] int_col_def [of "soft_delete _ _ _"])
       (use v in \<open>auto simp: int_col_def\<close>)
  show "obj' ''updated_at'' = VTime (e_now e)"
    unfolding obj' by (simp add: Let_def)
qed

lemma fetch_obj_SomeD:
  assumes "fetch_obj db entity i p = Some obj"
  shows "obj \<in> set (tables db (model_of entity))" "obj ''id'' = VUuid i"
  using assms by (auto simp: fetch_obj_def dest: first_where_SomeD split: option.splits)

lemma claim_existing_Inr:
  assumes "claim_existing now db obj entity i p u bv = Inr (before, db')"
  shows "bv = Some (version_of obj)" "1 \<le> version_of obj"
    "claim_base_version now db entity i p u (version_of obj) = Inr db'"
    "before = model_to_dict (model_of entity) obj"
  using assms
  by (auto simp: claim_existing_def check_base_version_def Let_def split: if_splits option.splits)


lemma create_new_effect:
  assumes "create_new e db u p entity i record = Inr obj" "coerce_ok (e_coerce e)"
    and "parse_uuid (dget record ''id'') n = Inr i" and "entity \<in> fst ` set ENTITY_REGISTRY"
  shows "obj ''id'' = VUuid i" "obj ''version'' = VInt 1"
    "entity \<noteq> ''assessment'' \<Longrightarrow> obj ''project_id'' = VUuid p"
proof -
  let ?m = "model_of entity"
  from assms(1) obtain val0 val common where val0: "parse_record e entity record = Inr val0"
    and val: "val = val0 \<or> (\<exists>c. val = dset val0 ''code'' c)"
    and common: "common = [(''id'', VUuid i), (''version'', VInt 1), (''updated_at'', VTime (e_now e)),
                    (''created_at'', VTime (e_now e))] @
                   (if entity \<noteq> ''assessment''
                    then [(''project_id'', VUuid p), (''created_by'', VUuid u)]
                    else []) @ ec_defaults (config_of entity) @
                   (case ec_parent_field (config_of entity) of None \<Rightarrow> []
                    | Some _ \<Rightarrow> [(''assessor_user_id'', VUuid u)])"
    and obj: "obj = recalculate_item_scores ?m (setattrs (client_fields ?m val) (setattrs common (\<lambda>_. VNone)))"
    by (auto simp: create_new_def Let_def split: if_splits option.splits)
  have mem: "(k, v) \<in> set val0" if "(k, v) \<in> set val" "k \<noteq> ''code''" for k v
    using val that set_dset by fastforce
  have base: "setattrs common (\<lambda>_. VNone) ''id'' = VUuid i"
    "setattrs common (\<lambda>_. VNone) ''version'' = VInt 1"
    "entity \<noteq> ''assessment'' \<Longrightarrow> setattrs common (\<lambda>_. VNone) ''project_id'' = VUuid p"
    using assms(4) by (auto simp: common config_of_def ENTITY_REGISTRY_def)
  have keep: "obj k = setattrs common (\<lambda>_. VNone) k" if "k \<in> {''version'', ''project_id''}" for k
    unfolding obj using that parse_record_no_server_fields [OF val0, of k] mem client_fields_mem
    by (subst recalculate_other, force, intro setattrs_const) (fastforce simp: server_fields_def)
  show "obj ''id'' = VUuid i"
    unfolding obj base(1) [symmetric]
    using parse_record_id [OF val0 _ assms(2,3)] mem client_fields_mem base(1)
    by (subst recalculate_other, force, intro setattrs_const) force
  show "obj ''version'' = VInt 1" using keep base by simp
  show "obj ''project_id'' = VUuid p" if "entity \<noteq> ''assessment''" using keep base(3) [OF that] by simp
qed

lemma flush_insert_lookup:
  assumes "flush_insert d now m r db = Inr (r', db')" "states_distinct db"
  shows "r' ''id'' = r ''id''" "r ''version'' = VInt v \<Longrightarrow> r' ''version'' = VInt v"
    "lookup db m j = Some x \<Longrightarrow> r ''id'' \<noteq> VUuid j"
    "lookup db' m' j = (if m' = m \<and> r ''id'' = VUuid j then Some r' else lookup db m' j)"
proof -
  from assms(1) obtain r1 r2 db1 where r1: "compute_score m r = Inr r1"
    and a: "assign_change_sequence m db r1 = Inr (r2, db1)" and r': "r' = insert_defaults now m r2"
    by (auto simp: flush_insert_def Let_def)
  from a have r2: "r2 k = r1 k" if "k \<noteq> ''change_sequence''" for k
    using that by (auto simp: assign_change_sequence_def)
  show id: "r' ''id'' = r ''id''"
    using compute_score_frame [OF r1] r2
    by (cases m) (auto simp: r' insert_defaults_def SyncMixin_default_def)
  show "r ''version'' = VInt v \<Longrightarrow> r' ''version'' = VInt v"
    using compute_score_frame [OF r1] r2 by (simp add: r' insert_defaults_def)
  from assms obtain p l where tab: "tables db' = (tables db)(m := tables db m @ [r'])"
    and "r' ''change_sequence'' = VInt (l + 1)" "row_project db m r' = VUuid p"
    "last_sequence db p = Some l"
    "\<forall>q. last_sequence db' q = (if q = p then Some (l + 1) else last_sequence db q)"
    "states_distinct db'" "types_ok d m r'" "not_null_ok m r'" "score_ok m r'"
    and new: "\<forall>x \<in> set (tables db m). x ''id'' \<noteq> r' ''id''"
    by (rule flush_insert_Inr)
  show no: "lookup db m j = Some x \<Longrightarrow> r ''id'' \<noteq> VUuid j" for j x
    using new id lookup_SomeD by metis
  show "lookup db' m' j = (if m' = m \<and> r ''id'' = VUuid j then Some r' else lookup db m' j)"
    using no [of j] id
    by (auto simp: lookup_def tab first_where_append table_simps split: option.splits)
qed

lemma flush_update_lookup:
  assumes "flush_update d m r db = Inr (r', db')" "states_distinct db"
  shows "\<forall>k. k \<noteq> ''change_sequence'' \<and> k \<noteq> ''score'' \<longrightarrow> r' k = r k"
    "lookup db' m' j = (if m' = m \<and> r ''id'' = VUuid j then map_option (\<lambda>_. r') (lookup db m j)
                        else lookup db m' j)"
proof -
  from assms obtain p l where
    tab: "tables db' = (tables db)(m := update_where (\<lambda>x. x ''id'' = r ''id'') (\<lambda>_. r') (tables db m))"
    and "r' ''change_sequence'' = VInt (l + 1)" "row_project db m r' = VUuid p"
    "last_sequence db p = Some l"
    "\<forall>q. last_sequence db' q = (if q = p then Some (l + 1) else last_sequence db q)"
    "states_distinct db'" "types_ok d m r'" "not_null_ok m r'" "score_ok m r'"
    and keep: "\<forall>k. k \<noteq> ''change_sequence'' \<and> k \<noteq> ''score'' \<longrightarrow> r' k = r k"
    by (rule flush_update_Inr)
  show "\<forall>k. k \<noteq> ''change_sequence'' \<and> k \<noteq> ''score'' \<longrightarrow> r' k = r k" by (rule keep)
  have id: "r' ''id'' = r ''id''" using keep by simp
  have eq: "lookup db' m j = map_option (\<lambda>x. if x ''id'' = r ''id'' then r' else x) (lookup db m j)"
    unfolding lookup_def tab fun_upd_same by (rule first_where_update_where) (simp add: id)
  have hit: "lookup db m j = Some x \<Longrightarrow> x ''id'' = VUuid j" for x using lookup_SomeD by blast
  show "lookup db' m' j = (if m' = m \<and> r ''id'' = VUuid j then map_option (\<lambda>_. r') (lookup db m j)
                        else lookup db m' j)"
  proof (cases "m' = m")
    case True
    with eq hit show ?thesis by (cases "lookup db m j") auto
  next
    case False
    then show ?thesis by (simp add: lookup_def tab)
  qed
qed


subsection \<open>One mutation and its flush\<close>

text \<open>
  What a mutation of row \<open>i\<close> of table \<open>m\<close> may do: keep the invariant, move the row's version
  from \<open>old\<close> to \<open>new\<close>, and touch no other row.
\<close>

definition mutates :: "sdb \<Rightarrow> model \<Rightarrow> uuid \<Rightarrow> int option \<Rightarrow> int option \<Rightarrow> sdb \<Rightarrow> bool" where
  "mutates db m i old new db' =
     (db_inv db' \<and> row_version db (m, i) = old \<and> row_version db' (m, i) = new \<and>
      (\<forall>m' j. (m', j) \<noteq> (m, i) \<longrightarrow> lookup db' m' j = lookup db m' j))"

lemma lookup_audit [simp]: "lookup (audit e db u p cid entity i op before obj) m j = lookup db m j"
  by (simp add: audit_def lookup_def)

lemma tables_audit [simp]: "tables (audit e db u p cid entity i op before obj) = tables db"
  by (simp add: audit_def)

lemma db_inv_audit [simp]: "db_inv (audit e db u p cid entity i op before obj) = db_inv db"
  by (rule db_inv_cong) (simp_all add: audit_def)

lemma insert_mutates:
  assumes "flush_insert d now m r db = Inr (r', db')" "db_inv db"
    and "r ''id'' = VUuid i" "r ''version'' = VInt 1"
  shows "mutates db m i None (Some 1) db'"
proof -
  note look = flush_insert_lookup [OF assms(1) db_invD(2) [OF assms(2)]]
  have "lookup db m i = None" using look(3) [of i] assms(3) by (cases "lookup db m i") auto
  moreover have "version_of r' = 1" using look(2) assms(4) by (simp add: int_col_def)
  ultimately show ?thesis
    using flush_insert_inv [OF assms(1,2)] look(4) assms(3)
    by (auto simp: mutates_def row_version_def)
qed

lemma claimed_update_mutates:
  assumes inv: "db_inv db" and obj: "obj \<in> set (tables db (model_of entity))" "obj ''id'' = VUuid i"
    and claim: "claim_base_version now db entity i p u (version_of obj) = Inr db1"
    and db2: "tables db2 = tables db1" "sync_project_state db2 = sync_project_state db1"
    and flush: "flush_update d (model_of entity) obj' db2 = Inr (r', db')"
    and keep: "obj' ''id'' = obj ''id''" "obj' ''project_id'' = obj ''project_id''"
      "obj' ''version'' = VInt (version_of obj + 1)"
  shows "mutates db (model_of entity) i (Some (version_of obj)) (Some (version_of obj + 1)) db'"
proof -
  let ?m = "model_of entity"
  note ids = db_invD(3) [OF inv]
  have inv2: "db_inv db2" using claim_base_version_inv [OF inv claim] db_inv_cong [OF db2] by simp
  have old: "lookup db ?m i = Some obj" by (rule lookup_unique [OF ids obj])
  have look2: "lookup db2 m j = (if m = ?m \<and> j = i then map_option (claim_row now) (lookup db m i)
      else lookup db m j)" for m j
    using claim_base_version_lookup [OF ids claim] by (simp add: lookup_def db2)
  then have "lookup db2 ?m i = Some (claim_row now obj)" using old by simp
  then have row: "claim_row now obj \<in> set (tables db2 ?m)" by (blast dest: lookup_SomeD)
  have "claim_row now obj ''project_id'' = obj ''project_id''" by (simp add: claim_row_def)
  with keep have inv': "db_inv db'"
    by (intro flush_update_inv [OF flush inv2 row]) auto
  note look' = flush_update_lookup [OF flush db_invD(2) [OF inv2]]
  have "r' ''version'' = VInt (version_of obj + 1)" using look'(1) keep(3) by simp
  then have "row_version db' (?m, i) = Some (version_of obj + 1)"
    using look'(2) [of ?m i] keep(1) obj(2) look2 [of ?m i] old
    by (simp add: row_version_def) (simp add: int_col_def)
  with inv' old show ?thesis
    using look'(2) look2 keep(1) obj(2) by (auto simp: mutates_def row_version_def)
qed

lemma apply_upsert_mutates:
  assumes inv: "db_inv db" and coerce: "coerce_ok (e_coerce e)"
    and reg: "entity \<in> fst ` set ENTITY_REGISTRY"
    and up: "apply_upsert e db u p entity bv record cid = Inr (i, pend, db1)"
    and flush: "flush_pending e pend db1 = Inr db'"
  shows "case fetch_obj db entity i p of
      None \<Rightarrow> mutates db (model_of entity) i None (Some 1) db'
    | Some obj \<Rightarrow> bv = Some (version_of obj) \<and>
        mutates db (model_of entity) i bv (Some (version_of obj + 1)) db'"
proof -
  from up have i: "parse_uuid (dget record ''id'') ''record.id'' = Inr i"
    by (auto simp: apply_upsert_def split: option.splits prod.splits)
  show ?thesis
  proof (cases "fetch_obj db entity i p")
    case None
    with up i obtain obj where new: "create_new e db u p entity i record = Inr obj"
      and pend: "pend = Some (Pending_insert (model_of entity) obj)"
      and db1: "db1 = audit e db u p cid entity i ''upsert'' None obj"
      by (auto simp: apply_upsert_def)
    from flush pend obtain r' where fi: "flush_insert (e_dialect e) (e_now e) (model_of entity) obj db1 = Inr (r', db')"
      by (auto split: prod.splits)
    have "mutates db1 (model_of entity) i None (Some 1) db'"
      using insert_mutates [OF fi] create_new_effect [OF new coerce i reg] inv db1 by simp
    with None show ?thesis by (simp add: mutates_def row_version_def db1)
  next
    case (Some obj)
    with up i obtain before dbc obj' where
      claim: "claim_existing (e_now e) db obj entity i p u bv = Inr (before, dbc)"
      and upd: "update_existing e dbc p entity obj record = Inr obj'"
      and pend: "pend = Some (Pending_update (model_of entity) obj')"
      and db1: "db1 = audit e dbc u p cid entity i ''upsert'' (Some before) obj'"
      by (auto simp: apply_upsert_def)
    from flush pend obtain r' where fu: "flush_update (e_dialect e) (model_of entity) obj' db1 = Inr (r', db')"
      by (auto split: prod.splits)
    note cl = claim_existing_Inr [OF claim]
    note eff = update_existing_effect [OF upd coerce i fetch_obj_SomeD(2) [OF Some]]
    have "mutates db (model_of entity) i (Some (version_of obj)) (Some (version_of obj + 1)) db'"
      by (rule claimed_update_mutates [OF inv fetch_obj_SomeD [OF Some] cl(3) _ _ fu eff(1,2,5)])
         (simp_all add: db1 audit_def)
    with Some cl(1) show ?thesis by simp
  qed
qed

lemma apply_delete_mutates:
  assumes inv: "db_inv db"
    and del: "apply_delete e db u p entity bv record cid = Inr (i, pend, db1)"
    and flush: "flush_pending e pend db1 = Inr db'"
  shows "case fetch_obj db entity i p of
      None \<Rightarrow> db' = db
    | Some obj \<Rightarrow> bv = Some (version_of obj) \<and>
        mutates db (model_of entity) i bv (Some (version_of obj + 1)) db' \<and>
        (\<exists>r. lookup db' (model_of entity) i = Some r \<and> r ''is_deleted'' = VBool True)"
proof -
  from del have i: "parse_uuid (dget record ''id'') ''record.id'' = Inr i"
    by (auto simp: apply_delete_def Let_def split: option.splits prod.splits)
  show ?thesis
  proof (cases "fetch_obj db entity i p")
    case None
    with del i flush show ?thesis by (auto simp: apply_delete_def)
  next
    case (Some obj)
    let ?obj' = "soft_delete (model_of entity) (e_now e) obj"
    from Some del i obtain before dbc where
      claim: "claim_existing (e_now e) db obj entity i p u bv = Inr (before, dbc)"
      and pend: "pend = Some (Pending_update (model_of entity) ?obj')"
      and db1: "db1 = audit e dbc u p cid entity i ''delete'' (Some before) ?obj'"
      by (auto simp: apply_delete_def Let_def)
    from flush pend obtain r' where fu: "flush_update (e_dialect e) (model_of entity) ?obj' db1 = Inr (r', db')"
      by (auto split: prod.splits)
    note cl = claim_existing_Inr [OF claim]
    have mut: "mutates db (model_of entity) i (Some (version_of obj)) (Some (version_of obj + 1)) db'"
      by (rule claimed_update_mutates [OF inv fetch_obj_SomeD [OF Some] cl(3) _ _ fu])
         (simp_all add: db1 audit_def soft_delete_other soft_delete_version)
    have inv1: "db_inv db1" using claim_base_version_inv [OF inv cl(3)] by (simp add: db1)
    note look' = flush_update_lookup [OF fu db_invD(2) [OF inv1]]
    have "r' ''is_deleted'' = VBool True"
      using look'(1) by (auto simp: soft_delete_def Let_def change_status_other)
    moreover have "row_version db' (model_of entity, i) \<noteq> None" using mut by (simp add: mutates_def)
    ultimately have "\<exists>r. lookup db' (model_of entity) i = Some r \<and> r ''is_deleted'' = VBool True"
      using look'(2) [of "model_of entity" i] fetch_obj_SomeD(2) [OF Some]
      by (auto simp: row_version_def soft_delete_other)
    with mut Some cl(1) show ?thesis by simp
  qed
qed


subsection \<open>Allocated codes\<close>

lemma first_unused_fresh: "first_unused used n \<notin> set used \<and> n \<le> first_unused used n"
proof (induction used n rule: first_unused.induct)
  case (1 used n)
  show ?case
  proof (cases "n \<in> set used")
    case True
    with 1 show ?thesis by (subst (1 2) first_unused.simps) auto
  next
    case False
    then show ?thesis by (subst (1 2) first_unused.simps) simp
  qed
qed

lemma first_unused_least: "n \<le> k \<Longrightarrow> k < first_unused used n \<Longrightarrow> k \<in> set used"
proof (induction used n rule: first_unused.induct)
  case (1 used n)
  show ?case
  proof (cases "n \<in> set used")
    case True
    then have "k < first_unused used (n + 1)" using 1(3) by (subst (asm) first_unused.simps) simp
    with 1 True show ?thesis by (cases "k = n") auto
  next
    case False
    then have "first_unused used n = n" by (subst first_unused.simps) simp
    with 1 show ?thesis by simp
  qed
qed

lemma used_numbers_mem:
  "used_numbers prefix cs = Inr used \<Longrightarrow> c \<in> set cs \<Longrightarrow> used_number prefix c = Inr ns \<Longrightarrow> set ns \<subseteq> set used"
  by (induction cs arbitrary: used) auto

lemma used_number_allocated:
  assumes "prefix = ''R'' \<or> prefix = ''O''"
  shows "used_number prefix (VStr (prefix @ ''-'' @ zero_pad 3 n)) = Inr [n]"
proof -
  have "partition_on (CHR ''-'') (prefix @ ''-'' @ zero_pad 3 n) = (prefix, True, zero_pad 3 n)"
    using assms by (auto simp: partition_on_def)
  moreover have "is_digits (zero_pad 3 n)" by (rule is_dec_is_digits [OF zero_pad_dec]) simp
  moreover have "upper prefix = prefix" using assms by (auto simp: upper_def upper_char_def)
  ultimately show ?thesis using assms
    by (auto simp: used_number_def str_or_empty_def py_str_def)
qed

lemma code_like_allocated:
  assumes "prefix = ''R'' \<or> prefix = ''O''"
  shows "code_like d prefix (VStr (prefix @ ''-'' @ s))"
  using assms by (auto simp: code_like_def starts_with_def)

lemma canonical_item_code_fresh:
  assumes "canonical_item_code d db p entity requested = Inr (VStr code)"
    and "i \<in> set (tables db Item)" "i ''project_id'' = VUuid p"
  shows "i ''code'' \<noteq> VStr code"
proof
  assume clash: "i ''code'' = VStr code"
  let ?mine = "filter (\<lambda>i. i ''project_id'' = VUuid p) (tables db Item)"
  let ?req = "strip (str_or_empty requested)" and ?prefix = "code_prefix entity"
  have pre: "?prefix = ''R'' \<or> ?prefix = ''O''" by (simp add: code_prefix_def)
  have i: "i \<in> set ?mine" using assms(2,3) by simp
  show False
  proof (cases "filter (\<lambda>i. i ''code'' = VStr ?req) ?mine")
    case Nil
    with assms(1) have "code = ?req" by (auto simp: canonical_item_code_def Let_def split: if_splits)
    with Nil i clash show False by (auto simp: filter_empty_conv)
  next
    case (Cons x xs)
    have ne: "?req \<noteq> []" using assms(1) by (auto simp: canonical_item_code_def Let_def)
    have xs: "xs = []" using assms(1) Cons ne by (cases xs) (simp_all add: canonical_item_code_def Let_def)
    have "canonical_item_code d db p entity requested =
        rbind (used_numbers ?prefix (filter (code_like d ?prefix) (map (\<lambda>i. i ''code'') ?mine)))
          (\<lambda>used. Inr (VStr (?prefix @ ''-'' @ zero_pad 3 (first_unused used 1))))"
      unfolding canonical_item_code_def Let_def Cons xs using ne by simp
    with assms(1) obtain used where
      used: "used_numbers ?prefix (filter (code_like d ?prefix) (map (\<lambda>i. i ''code'') ?mine)) = Inr used"
      and code: "code = ?prefix @ ''-'' @ zero_pad 3 (first_unused used 1)"
      by (cases "used_numbers ?prefix (filter (code_like d ?prefix) (map (\<lambda>i. i ''code'') ?mine))") simp_all
    let ?n = "first_unused used 1"
    have "code_like d ?prefix (i ''code'')" unfolding clash code by (rule code_like_allocated [OF pre])
    then have "i ''code'' \<in> set (filter (code_like d ?prefix) (map (\<lambda>i. i ''code'') ?mine))"
      using i by simp
    moreover have "used_number ?prefix (i ''code'') = Inr [?n]"
      unfolding clash code by (rule used_number_allocated [OF pre])
    ultimately have "?n \<in> set used" using used_numbers_mem [OF used] by fastforce
    with first_unused_fresh show False by blast
  qed
qed

end
