(* ===== verification/Server_Receipts.thy ===== *)
theory Server_Receipts
  imports Server_Mutations "HOL-Library.Multiset"
begin

section \<open>Idempotency receipts (sync/receipts.py)\<close>

text \<open>
  Every processed change leaves a receipt with its outcome; a repeated \<open>change_id\<close> replays
  the receipt. The hash that ties a receipt to its request is SHA-256 over canonical JSON; the
  digest is the parameter \<open>e_digest\<close>, applied to the request with the keys of every object
  sorted, as \<open>json.dumps(..., sort_keys=True)\<close> writes it.
\<close>

record sync_change =
  c_change_id :: uuid
  c_entity :: string
  c_op :: string
  c_base_version :: "int option"
  c_record :: dict

definition opt_int :: "int option \<Rightarrow> pyval" where
  "opt_int v = (case v of None \<Rightarrow> VNone | Some i \<Rightarrow> VInt i)"

definition opt_dict :: "dict option \<Rightarrow> pyval" where
  "opt_dict v = (case v of None \<Rightarrow> VNone | Some d \<Rightarrow> VDict d)"

definition opt_uuid :: "uuid option \<Rightarrow> pyval" where
  "opt_uuid v = (case v of None \<Rightarrow> VNone | Some u \<Rightarrow> VUuid u)"

fun canonical :: "pyval \<Rightarrow> pyval" where
  "canonical (VDict d) = VDict (sort_key fst (map (\<lambda>(k, v). (k, canonical v)) d))"
| "canonical (VList xs) = VList (map canonical xs)"
| "canonical v = v"

definition payload_hash :: "env \<Rightarrow> sync_change \<Rightarrow> string" where
  "payload_hash e change =
     e_digest e (canonical (VDict
       [(''entity'', VStr (c_entity change)), (''op'', VStr (c_op change)),
        (''base_version'', opt_int (c_base_version change)),
        (''record'', VDict (c_record change))]))"

definition RESULT_KEYS :: "string list" where
  "RESULT_KEYS = [''reason'', ''detail'', ''server_version'', ''server_record'',
     ''server_updated_at'', ''failure_kind'', ''retryable'']"

definition change_result ::
  "uuid \<Rightarrow> string \<Rightarrow> string \<Rightarrow> string \<Rightarrow> pyval \<Rightarrow> dict \<Rightarrow> bool \<Rightarrow> dict" where
  "change_result change_id status entity op entity_id response replayed =
     (let stored_entity_id = py_or (dget response ''entity_id'') entity_id;
          result = [(''change_id'', VStr (uuid_str change_id)), (''status'', VStr status),
                    (''replayed'', VBool replayed), (''entity'', VStr entity), (''op'', VStr op),
                    (''entity_id'', if truthy stored_entity_id then VStr (py_str stored_entity_id)
                                    else VNone)] in
      dupdate result (map (\<lambda>k. (k, dget response k)) (filter (dhas response) RESULT_KEYS)))"

definition receipt_result :: "receipt_row \<Rightarrow> dict" where
  "receipt_result receipt =
     change_result (rc_change_id receipt) (rc_status receipt) (rc_entity receipt) (rc_op receipt)
       (opt_uuid (rc_entity_id receipt)) (rc_response receipt) True"

definition store_receipt ::
  "env \<Rightarrow> sdb \<Rightarrow> sync_change \<Rightarrow> uuid \<Rightarrow> uuid \<Rightarrow> string \<Rightarrow> uuid option \<Rightarrow> string \<Rightarrow> string \<Rightarrow> dict \<Rightarrow> sdb" where
  "store_receipt e db change user_id project_id entity entity_id op status response =
     db\<lparr>sync_receipts := sync_receipts db @
         [\<lparr>rc_change_id = c_change_id change, rc_user_id = user_id, rc_project_id = project_id,
           rc_entity = entity, rc_entity_id = entity_id, rc_op = op, rc_status = status,
           rc_response = response, rc_payload_hash = Some (payload_hash e change),
           rc_processed_at = e_now e\<rparr>]\<rparr>"

text \<open>A dict comprehension over the receipts: change ids are unique, the last one would win.\<close>

definition load_existing_receipts :: "sdb \<Rightarrow> sync_change list \<Rightarrow> uuid \<Rightarrow> receipt_row option" where
  "load_existing_receipts db changes =
     (if changes = [] then Map.empty
      else map_of (rev (map (\<lambda>r. (rc_change_id r, r))
             (filter (\<lambda>r. rc_change_id r \<in> c_change_id ` set changes) (sync_receipts db)))))"

definition duplicate_error_reason ::
  "env \<Rightarrow> sync_change \<Rightarrow> receipt_row option \<Rightarrow> string option \<Rightarrow> uuid \<Rightarrow> uuid \<Rightarrow> string option" where
  "duplicate_error_reason e change receipt batch_hash user_id project_id =
     (case receipt of
        None \<Rightarrow> if batch_hash = Some (payload_hash e change) then None
                else Some ''change_id_payload_mismatch''
      | Some r \<Rightarrow>
          if rc_user_id r \<noteq> user_id \<or> rc_project_id r \<noteq> project_id then Some ''change_id_in_use''
          else (case rc_payload_hash r of
                  None \<Rightarrow> Some ''receipt_unverifiable''
                | Some h \<Rightarrow> if h \<noteq> payload_hash e change then Some ''change_id_payload_mismatch''
                            else None))"

definition refresh_accepted_replay :: "sdb \<Rightarrow> uuid \<Rightarrow> uuid \<Rightarrow> dict \<Rightarrow> dict" where
  "refresh_accepted_replay db project_id user_id replay =
     (if dget replay ''status'' \<noteq> VStr ''accepted'' then replay
      else let entity = str_or_empty (dget replay ''entity'');
               raw_entity_id = dget replay ''entity_id'' in
           if ENTITY_MODELS entity = None \<or> \<not> truthy raw_entity_id then replay
           else (case uuid_of_str (py_str raw_entity_id) of
                   None \<Rightarrow> replay
                 | Some entity_id \<Rightarrow>
                     (case current_server_state db entity entity_id project_id user_id of
                        (server_version, None) \<Rightarrow> replay
                      | (server_version, Some server_record) \<Rightarrow>
                          let d1 = (case dget replay ''server_version'' of
                                      VInt v \<Rightarrow> dset replay ''receipt_server_version'' (VInt v)
                                    | _ \<Rightarrow> replay);
                              d2 = dset d1 ''server_version'' (opt_int server_version);
                              d3 = dset d2 ''server_record'' (VDict server_record) in
                          dset d3 ''server_updated_at'' (updated_at_text (Some server_record)))))"


section \<open>Facts about receipts\<close>

lemma dget_map_keys: "dget (map (\<lambda>k. (k, f k)) ks) k = (if k \<in> set ks then f k else VNone)"
  by (induction ks) (simp_all add: dget_Cons)

lemma dhas_map_keys: "dhas (map (\<lambda>k. (k, f k)) ks) k \<longleftrightarrow> k \<in> set ks"
  by (induction ks) (auto simp: dhas_Cons)

lemma distinct_result_keys:
  "distinct (map fst (map (\<lambda>k. (k, dget response k)) (filter (dhas response) RESULT_KEYS)))"
  by (simp add: o_def RESULT_KEYS_def)

lemma change_result_header:
  "k \<notin> set RESULT_KEYS \<Longrightarrow>
   dget (change_result cid status entity op eid response replayed) k =
   dget [(''change_id'', VStr (uuid_str cid)), (''status'', VStr status),
         (''replayed'', VBool replayed), (''entity'', VStr entity), (''op'', VStr op),
         (''entity_id'', let v = py_or (dget response ''entity_id'') eid in
                         if truthy v then VStr (py_str v) else VNone)] k"
  unfolding change_result_def Let_def
  by (subst dget_dupdate [OF distinct_result_keys]) (simp add: dhas_map_keys)

lemma change_result_simps [simp]:
  "dget (change_result cid status entity op eid response replayed) ''change_id'' = VStr (uuid_str cid)"
  "dget (change_result cid status entity op eid response replayed) ''status'' = VStr status"
  "dget (change_result cid status entity op eid response replayed) ''replayed'' = VBool replayed"
  "dget (change_result cid status entity op eid response replayed) ''entity'' = VStr entity"
  "dget (change_result cid status entity op eid response replayed) ''op'' = VStr op"
  by (subst change_result_header; simp add: RESULT_KEYS_def dget_Cons)+

lemma header_no_result_key:
  "k \<in> set RESULT_KEYS \<Longrightarrow>
   dget [(''change_id'', a), (''status'', b), (''replayed'', c), (''entity'', d), (''op'', f),
         (''entity_id'', g)] k = VNone"
  by (auto simp: RESULT_KEYS_def dget_Cons)

lemma change_result_key:
  assumes "k \<in> set RESULT_KEYS"
  shows "dget (change_result cid status entity op eid response replayed) k = dget response k"
  unfolding change_result_def Let_def
  by (subst dget_dupdate [OF distinct_result_keys])
     (simp add: assms dhas_map_keys dget_map_keys header_no_result_key dget_absent)

lemma refresh_keeps:
  "k \<notin> {''server_version'', ''server_record'', ''server_updated_at'', ''receipt_server_version''} \<Longrightarrow>
   dget (refresh_accepted_replay db p u d) k = dget d k"
  by (auto simp: refresh_accepted_replay_def Let_def split: option.splits pyval.splits prod.splits)

lemma receipt_result_simps [simp]:
  "dget (receipt_result r) ''change_id'' = VStr (uuid_str (rc_change_id r))"
  "dget (receipt_result r) ''status'' = VStr (rc_status r)"
  "dget (receipt_result r) ''replayed'' = VBool True"
  by (simp_all add: receipt_result_def)

text \<open>The hash does not depend on the order in which the client wrote the record's keys.\<close>

lemma canonical_perm:
  assumes "mset d = mset d'" "distinct (map fst d)"
  shows "canonical (VDict d) = canonical (VDict d')"
proof -
  let ?f = "\<lambda>(k, v). (k, canonical v)"
  have fst_f: "fst \<circ> ?f = fst" by auto
  have "mset (map ?f d) = mset (map ?f d')" using assms(1) by simp
  moreover have "inj_on fst (set (map ?f d))"
    using assms(2) by (metis distinct_map fst_f map_map)
  ultimately have "sort_key fst (map ?f d) = sort_key fst (map ?f d')"
    by (intro sort_key_inj_key_eq) (auto simp flip: mset_map)
  then show ?thesis by simp
qed

lemma payload_hash_perm:
  assumes "mset (c_record c) = mset (c_record c')" "distinct (map fst (c_record c))"
    and "c_entity c = c_entity c'" "c_op c = c_op c'" "c_base_version c = c_base_version c'"
  shows "payload_hash e c = payload_hash e c'"
  using canonical_perm [OF assms(1,2)] assms(3-5)
  unfolding payload_hash_def by simp

subsection \<open>Frames\<close>

lemma store_receipt_simps [simp]:
  "tables (store_receipt e db c u p en ei op st resp) = tables db"
  "sync_project_state (store_receipt e db c u p en ei op st resp) = sync_project_state db"
  "lookup (store_receipt e db c u p en ei op st resp) m i = lookup db m i"
  "project_members (store_receipt e db c u p en ei op st resp) = project_members db"
  "users (store_receipt e db c u p en ei op st resp) = users db"
  by (simp_all add: store_receipt_def lookup_def)

lemma db_inv_store_receipt [simp]: "db_inv (store_receipt e db c u p en ei op st resp) = db_inv db"
  by (rule db_inv_cong) simp_all

text \<open>Mutations and flushes leave receipts, members and users alone.\<close>

definition same_admin :: "sdb \<Rightarrow> sdb \<Rightarrow> bool" where
  "same_admin db db' = (sync_receipts db' = sync_receipts db \<and>
     project_members db' = project_members db \<and> users db' = users db \<and>
     map fst (sync_project_state db') = map fst (sync_project_state db))"

lemma same_admin_refl [simp]: "same_admin db db" by (simp add: same_admin_def)

lemma same_admin_trans: "same_admin a b \<Longrightarrow> same_admin b c \<Longrightarrow> same_admin a c"
  by (simp add: same_admin_def)

lemma same_admin_next: "next_change_sequence db v = Inr (s, db') \<Longrightarrow> same_admin db db'"
  by (auto simp: next_change_sequence_def Let_def same_admin_def update_where_def
      split: if_splits option.splits)

lemma same_admin_assign: "assign_change_sequence m db r = Inr (r', db') \<Longrightarrow> same_admin db db'"
  by (auto simp: assign_change_sequence_def dest: same_admin_next)

lemma same_admin_set_table [simp]: "same_admin db (set_table m t db') = same_admin db db'"
  by (simp add: same_admin_def set_table_def)

lemma same_admin_audit [simp]: "same_admin db (audit e db' u p cid en i op b o') = same_admin db db'"
  by (simp add: same_admin_def audit_def)

lemma same_admin_flush: "flush_pending e pend db = Inr db' \<Longrightarrow> same_admin db db'"
proof (induction e pend db rule: flush_pending.induct)
  case (2 e m r db)
  then show ?case by (auto simp: flush_insert_def Let_def dest!: same_admin_assign)
next
  case (3 e m r db)
  then show ?case by (auto simp: flush_update_def Let_def dest!: same_admin_assign)
qed simp

lemma same_admin_claim:
  "claim_existing now db obj entity i p u bv = Inr (before, db') \<Longrightarrow> same_admin db db'"
  using claim_existing_Inr(3)
  by (fastforce simp: claim_base_version_def Let_def split: if_splits prod.splits)

lemma same_admin_apply:
  "apply_upsert e db u p entity bv rcd cid = Inr (i, pend, db') \<Longrightarrow> same_admin db db'"
  "apply_delete e db u p entity bv rcd cid = Inr (i, pend, db') \<Longrightarrow> same_admin db db'"
  by (auto simp: apply_upsert_def apply_delete_def Let_def split: option.splits)
     (rule same_admin_claim, assumption)+

end
