(* ===== verification/Server_Push.thy ===== *)
theory Server_Push
  imports Server_Receipts
begin

section \<open>Pushing a batch of changes (sync/engine.py)\<close>

text \<open>
  The push handler as a fold of one step over the batch. The context record is
  \<open>_PushContext\<close>; each change runs inside a savepoint, so a failed change contributes a result
  and, unless it is transient, a receipt, and nothing else. Locking (\<open>BEGIN IMMEDIATE\<close>,
  advisory locks, \<open>FOR UPDATE\<close>) makes the handler run alone; the model runs it as one step.
\<close>

record push_ctx =
  px_db :: sdb
  px_user_id :: uuid
  px_project_id :: uuid
  px_role :: string
  px_existing_receipts :: "uuid \<Rightarrow> receipt_row option"
  px_results :: "dict list"
  px_batch_results :: "uuid \<Rightarrow> dict option"
  px_batch_hashes :: "uuid \<Rightarrow> string option"
  px_wrote :: nat

definition classify_http_failure :: "int \<Rightarrow> string \<times> bool" where
  "classify_http_failure status =
     (if status = 401 then (''authentication'', False)
      else if status = 403 then (''permission'', False)
      else if status \<in> {408, 425, 429} \<or> 500 \<le> status then (''transient'', True)
      else (''validation'', False))"

definition seen :: "push_ctx \<Rightarrow> uuid \<Rightarrow> bool" where
  "seen ctx change_id =
     (px_existing_receipts ctx change_id \<noteq> None \<or> px_batch_hashes ctx change_id \<noteq> None)"

text \<open>
  \<open>_PushContext.record\<close>; the periodic flush and \<open>expunge_all\<close> bound memory and change no data.
\<close>

definition record_result :: "push_ctx \<Rightarrow> sync_change \<Rightarrow> dict \<Rightarrow> bool \<Rightarrow> push_ctx" where
  "record_result ctx change result persisted =
     ctx\<lparr>px_results := px_results ctx @ [result],
         px_batch_results := (px_batch_results ctx)(c_change_id change \<mapsto> result),
         px_wrote := px_wrote ctx + (if persisted then 1 else 0)\<rparr>"

definition record_duplicate :: "env \<Rightarrow> push_ctx \<Rightarrow> sync_change \<Rightarrow> push_ctx result" where
  "record_duplicate e ctx change =
     (let receipt = px_existing_receipts ctx (c_change_id change) in
      case duplicate_error_reason e change receipt (px_batch_hashes ctx (c_change_id change))
             (px_user_id ctx) (px_project_id ctx) of
        Some reason \<Rightarrow>
          Inr (ctx\<lparr>px_results := px_results ctx @
            [change_result (c_change_id change) ''error'' (c_entity change) (c_op change)
               (opt_uuid (maybe_entity_id (c_record change)))
               [(''reason'', VStr reason), (''failure_kind'', VStr ''validation''),
                (''retryable'', VBool False)] False]\<rparr>)
      | None \<Rightarrow>
          rbind (case receipt of
                   Some r \<Rightarrow> Inr (receipt_result r)
                 | None \<Rightarrow> (case px_batch_results ctx (c_change_id change) of
                              None \<Rightarrow> Inl PyKeyError
                            | Some d \<Rightarrow> Inr (dset d ''replayed'' (VBool True)))) (\<lambda>replay.
          Inr (ctx\<lparr>px_results := px_results ctx @
            [refresh_accepted_replay (px_db ctx) (px_project_id ctx) (px_user_id ctx) replay]\<rparr>)))"

definition reject_push_change ::
  "env \<Rightarrow> push_ctx \<Rightarrow> sync_change \<Rightarrow> string \<Rightarrow> string \<Rightarrow> string \<Rightarrow> bool \<Rightarrow> bool \<Rightarrow> push_ctx" where
  "reject_push_change e ctx change reason detail failure_kind retryable store =
     (let entity = lower (strip (c_entity change));
          op = lower (strip (c_op change));
          entity_id = maybe_entity_id (c_record change);
          response = [(''reason'', VStr reason), (''failure_kind'', VStr failure_kind),
                      (''retryable'', VBool retryable)] @
                     (if detail \<noteq> [] then [(''detail'', VStr detail)] else []);
          ctx1 = (if store
                  then ctx\<lparr>px_db := store_receipt e (px_db ctx) change (px_user_id ctx)
                             (px_project_id ctx) entity entity_id op ''error'' response\<rparr>
                  else ctx) in
      record_result ctx1 change
        (change_result (c_change_id change) ''error'' entity op (opt_uuid entity_id) response False)
        store)"

definition requires_manager :: "push_ctx \<Rightarrow> string \<Rightarrow> string \<Rightarrow> dict \<Rightarrow> bool" where
  "requires_manager ctx entity op record =
     (if \<not> ec_manager_delete (config_of entity) then False
      else if op = ''delete'' then True
      else if is_item_entity entity \<and>
              strip (lower (str_or_empty (dget record ''status''))) = ''deleted'' then True
      else if truthy (dget record ''is_deleted'') then True
      else if \<not> dhas record ''is_deleted'' then False
      else (case maybe_entity_id record of
              None \<Rightarrow> False
            | Some entity_id \<Rightarrow>
                (case fetch_obj (px_db ctx) entity entity_id (px_project_id ctx) of
                   None \<Rightarrow> False
                 | Some existing \<Rightarrow> truthy (existing ''is_deleted''))))"

definition authorize_push_change ::
  "env \<Rightarrow> push_ctx \<Rightarrow> sync_change \<Rightarrow> string \<Rightarrow> string \<Rightarrow> dict \<Rightarrow> bool \<times> push_ctx" where
  "authorize_push_change e ctx change entity op record =
     (let required = (if requires_manager ctx entity op record then ''manager'' else ''member'') in
      case ensure_role_at_least (px_role ctx) required of
        Inr _ \<Rightarrow> (True, ctx)
      | Inl _ \<Rightarrow> (False, reject_push_change e ctx change ''insufficient_permissions'' []
                          ''permission'' False True))"

definition apply_push_change ::
  "env \<Rightarrow> push_ctx \<Rightarrow> sync_change \<Rightarrow> string \<Rightarrow> string \<Rightarrow> dict \<Rightarrow> push_ctx result" where
  "apply_push_change e ctx change entity op record =
     rbind ((if op = ''upsert'' then apply_upsert else apply_delete) e (px_db ctx) (px_user_id ctx)
              (px_project_id ctx) entity (c_base_version change) record (c_change_id change))
       (\<lambda>(entity_id, pend, db1).
     rbind (flush_pending e pend db1) (\<lambda>db2.
     let (server_version, server_record) =
           current_server_state db2 entity entity_id (px_project_id ctx) (px_user_id ctx);
         response = [(''entity_id'', VStr (uuid_str entity_id)),
                     (''server_version'', opt_int server_version),
                     (''server_record'', opt_dict server_record),
                     (''server_updated_at'', updated_at_text server_record)];
         db3 = store_receipt e db2 change (px_user_id ctx) (px_project_id ctx) entity
                 (Some entity_id) op ''accepted'' response in
     Inr (record_result (ctx\<lparr>px_db := db3\<rparr>) change
            (change_result (c_change_id change) ''accepted'' entity op (VUuid entity_id) response False)
            True)))"

definition record_push_conflict ::
  "env \<Rightarrow> push_ctx \<Rightarrow> sync_change \<Rightarrow> string \<Rightarrow> string \<Rightarrow> string \<Rightarrow> uuid option \<Rightarrow> int option \<Rightarrow> dict option \<Rightarrow> push_ctx" where
  "record_push_conflict e ctx change entity op reason entity_id server_version server_record =
     (let response = [(''reason'', VStr reason), (''server_version'', opt_int server_version),
                      (''server_record'', opt_dict server_record),
                      (''server_updated_at'', updated_at_text server_record),
                      (''failure_kind'', VStr ''conflict''), (''retryable'', VBool False)];
          db' = store_receipt e (px_db ctx) change (px_user_id ctx) (px_project_id ctx) entity
                  entity_id op ''conflict'' response in
      record_result (ctx\<lparr>px_db := db'\<rparr>) change
        (change_result (c_change_id change) ''conflict'' entity op (opt_uuid entity_id) response False)
        True)"

definition process_new_push_change :: "env \<Rightarrow> push_ctx \<Rightarrow> sync_change \<Rightarrow> push_ctx" where
  "process_new_push_change e ctx change =
     (let entity = lower (strip (c_entity change));
          op = lower (strip (c_op change));
          record = c_record change in
      if ENTITY_MODELS entity = None
      then reject_push_change e ctx change ''unknown_entity'' [] ''validation'' False True
      else if op \<notin> set OPS
      then reject_push_change e ctx change ''unknown_op'' [] ''validation'' False True
      else case authorize_push_change e ctx change entity op record of
             (False, ctx') \<Rightarrow> ctx'
           | (True, ctx') \<Rightarrow>
               (case apply_push_change e ctx' change entity op record of
                  Inr ctx'' \<Rightarrow> ctx''
                | Inl (ConflictError reason entity_id server_version server_record) \<Rightarrow>
                    record_push_conflict e ctx' change entity op reason entity_id server_version
                      server_record
                | Inl (HTTPException status detail) \<Rightarrow>
                    let (failure_kind, retryable) = classify_http_failure status in
                    reject_push_change e ctx' change ''http_error'' (py_str detail) failure_kind
                      retryable (\<not> retryable)
                | Inl IntegrityError \<Rightarrow>
                    reject_push_change e ctx' change ''constraint_violation''
                      ''Change violates a database constraint'' ''validation'' False True
                | Inl _ \<Rightarrow>
                    reject_push_change e ctx' change ''internal_error'' [] ''transient'' True False))"

definition push_step :: "env \<Rightarrow> sync_change \<Rightarrow> push_ctx \<Rightarrow> push_ctx result" where
  "push_step e change ctx =
     (if seen ctx (c_change_id change) then record_duplicate e ctx change
      else Inr (process_new_push_change e
             (ctx\<lparr>px_batch_hashes := (px_batch_hashes ctx)(c_change_id change \<mapsto> payload_hash e change)\<rparr>)
             change))"

fun push_loop :: "env \<Rightarrow> sync_change list \<Rightarrow> push_ctx \<Rightarrow> push_ctx result" where
  "push_loop e [] ctx = Inr ctx"
| "push_loop e (change # changes) ctx = rbind (push_step e change ctx) (push_loop e changes)"

definition initial_ctx :: "sdb \<Rightarrow> uuid \<Rightarrow> uuid \<Rightarrow> string \<Rightarrow> sync_change list \<Rightarrow> push_ctx" where
  "initial_ctx db user_id project_id role changes =
     \<lparr>px_db = db, px_user_id = user_id, px_project_id = project_id, px_role = role,
      px_existing_receipts = load_existing_receipts db changes, px_results = [],
      px_batch_results = Map.empty, px_batch_hashes = Map.empty, px_wrote = 0\<rparr>"

text \<open>
  The handler: the new database and the results, or the exception that rolls everything back.
  Whether the final commit succeeds is the argument \<open>commit_ok\<close>.
\<close>

definition push_changes ::
  "env \<Rightarrow> bool \<Rightarrow> sdb \<Rightarrow> uuid \<Rightarrow> uuid \<Rightarrow> sync_change list \<Rightarrow> (sdb \<times> dict list) result" where
  "push_changes e commit_ok db user_id project_id changes =
     rbind (rguard (changes = [] \<or> last_sequence db project_id \<noteq> None)
              (http_error 500 ''Project sync state is missing'')) (\<lambda>_.
     rbind (ensure_member db project_id user_id) (\<lambda>role.
     rbind (push_loop e changes (initial_ctx db user_id project_id role changes)) (\<lambda>ctx.
     rbind (rguard commit_ok (http_error 500 ''Sync push commit failed'')) (\<lambda>_.
     Inr (px_db ctx, px_results ctx)))))"


section \<open>Facts about pushes\<close>

subsection \<open>What one new change does\<close>

lemma record_result_simps [simp]:
  "px_db (record_result ctx c d b) = px_db ctx"
  "px_user_id (record_result ctx c d b) = px_user_id ctx"
  "px_project_id (record_result ctx c d b) = px_project_id ctx"
  "px_role (record_result ctx c d b) = px_role ctx"
  "px_existing_receipts (record_result ctx c d b) = px_existing_receipts ctx"
  "px_results (record_result ctx c d b) = px_results ctx @ [d]"
  "px_batch_results (record_result ctx c d b) = (px_batch_results ctx)(c_change_id c \<mapsto> d)"
  "px_batch_hashes (record_result ctx c d b) = px_batch_hashes ctx"
  by (simp_all add: record_result_def)

text \<open>The receipt that a persisted outcome leaves.\<close>

definition leaves_receipt :: "env \<Rightarrow> push_ctx \<Rightarrow> sync_change \<Rightarrow> dict \<Rightarrow> push_ctx \<Rightarrow> bool" where
  "leaves_receipt e ctx c d ctx' =
     (\<exists>rc. sync_receipts (px_db ctx') = sync_receipts (px_db ctx) @ [rc] \<and>
        rc_change_id rc = c_change_id c \<and> rc_user_id rc = px_user_id ctx \<and>
        rc_project_id rc = px_project_id ctx \<and> rc_payload_hash rc = Some (payload_hash e c) \<and>
        VStr (rc_status rc) = dget d ''status'')"

text \<open>
  The outcome of a new change: accepted, with the handler's database; or refused, with the
  entity tables as they were and either a receipt or a retryable result.
\<close>

definition accepted_outcome :: "env \<Rightarrow> push_ctx \<Rightarrow> sync_change \<Rightarrow> dict \<Rightarrow> push_ctx \<Rightarrow> bool" where
  "accepted_outcome e ctx c d ctx' =
     (let entity = lower (strip (c_entity c)); op = lower (strip (c_op c)) in
      dget d ''status'' = VStr ''accepted'' \<and> ENTITY_MODELS entity \<noteq> None \<and> op \<in> set OPS \<and>
      ensure_role_at_least (px_role ctx)
        (if requires_manager ctx entity op (c_record c) then ''manager'' else ''member'') = Inr () \<and>
      leaves_receipt e ctx c d ctx' \<and>
      (\<exists>i pend db1 db2.
         (if op = ''upsert'' then apply_upsert else apply_delete) e (px_db ctx) (px_user_id ctx)
              (px_project_id ctx) entity (c_base_version c) (c_record c) (c_change_id c)
            = Inr (i, pend, db1) \<and> flush_pending e pend db1 = Inr db2 \<and>
         tables (px_db ctx') = tables db2 \<and>
         sync_project_state (px_db ctx') = sync_project_state db2 \<and>
         project_members (px_db ctx') = project_members (px_db ctx) \<and>
         users (px_db ctx') = users (px_db ctx) \<and>
         map fst (sync_project_state (px_db ctx')) = map fst (sync_project_state (px_db ctx))))"

definition refused_outcome :: "env \<Rightarrow> push_ctx \<Rightarrow> sync_change \<Rightarrow> dict \<Rightarrow> push_ctx \<Rightarrow> bool" where
  "refused_outcome e ctx c d ctx' =
     (dget d ''status'' \<in> {VStr ''error'', VStr ''conflict''} \<and>
      tables (px_db ctx') = tables (px_db ctx) \<and>
      sync_project_state (px_db ctx') = sync_project_state (px_db ctx) \<and>
      project_members (px_db ctx') = project_members (px_db ctx) \<and>
      users (px_db ctx') = users (px_db ctx) \<and>
      (leaves_receipt e ctx c d ctx' \<or>
       dget d ''retryable'' = VBool True \<and> px_db ctx' = px_db ctx))"

definition new_outcome :: "env \<Rightarrow> push_ctx \<Rightarrow> sync_change \<Rightarrow> dict \<Rightarrow> push_ctx \<Rightarrow> bool" where
  "new_outcome e ctx c d ctx' =
     (px_results ctx' = px_results ctx @ [d] \<and>
      px_batch_results ctx' = (px_batch_results ctx)(c_change_id c \<mapsto> d) \<and>
      px_batch_hashes ctx' = px_batch_hashes ctx \<and>
      px_existing_receipts ctx' = px_existing_receipts ctx \<and>
      px_user_id ctx' = px_user_id ctx \<and> px_project_id ctx' = px_project_id ctx \<and>
      px_role ctx' = px_role ctx \<and> dget d ''change_id'' = VStr (uuid_str (c_change_id c)) \<and>
      (accepted_outcome e ctx c d ctx' \<or> refused_outcome e ctx c d ctx'))"

lemma reject_outcome:
  assumes "store \<or> retryable"
  shows "\<exists>d. new_outcome e ctx c d (reject_push_change e ctx c reason detail kind retryable store) \<and>
             refused_outcome e ctx c d (reject_push_change e ctx c reason detail kind retryable store)"
  using assms
  unfolding new_outcome_def reject_push_change_def Let_def record_result_simps
  by (auto simp: refused_outcome_def leaves_receipt_def store_receipt_def change_result_key
      RESULT_KEYS_def dget_Cons intro!: exI [where x = "change_result _ _ _ _ _ _ _"])

lemma conflict_outcome:
  "\<exists>d. new_outcome e ctx c d (record_push_conflict e ctx c en op reason i v r) \<and>
       dget d ''status'' = VStr ''conflict'' \<and> dget d ''reason'' = VStr reason \<and>
       dget d ''server_version'' = opt_int v \<and> dget d ''server_record'' = opt_dict r \<and>
       refused_outcome e ctx c d (record_push_conflict e ctx c en op reason i v r)"
  unfolding new_outcome_def record_push_conflict_def Let_def record_result_simps
  by (auto simp: refused_outcome_def leaves_receipt_def store_receipt_def change_result_key
      RESULT_KEYS_def dget_Cons intro!: exI [where x = "change_result _ _ _ _ _ _ _"])


lemma apply_push_change_Inr:
  assumes "apply_push_change e ctx c (lower (strip (c_entity c))) (lower (strip (c_op c))) (c_record c) = Inr ctx'"
    and "ENTITY_MODELS (lower (strip (c_entity c))) \<noteq> None" "lower (strip (c_op c)) \<in> set OPS"
    and "ensure_role_at_least (px_role ctx)
        (if requires_manager ctx (lower (strip (c_entity c))) (lower (strip (c_op c))) (c_record c)
         then ''manager'' else ''member'') = Inr ()"
  shows "\<exists>d. new_outcome e ctx c d ctx' \<and> accepted_outcome e ctx c d ctx'"
proof -
  let ?en = "lower (strip (c_entity c))" and ?op = "lower (strip (c_op c))"
  from assms(1) obtain i pend db1 db2 resp where
    app: "(if ?op = ''upsert'' then apply_upsert else apply_delete) e (px_db ctx) (px_user_id ctx)
              (px_project_id ctx) ?en (c_base_version c) (c_record c) (c_change_id c) = Inr (i, pend, db1)"
    and fl: "flush_pending e pend db1 = Inr db2"
    and ctx': "ctx' = record_result (ctx\<lparr>px_db := store_receipt e db2 c (px_user_id ctx)
        (px_project_id ctx) ?en (Some i) ?op ''accepted'' resp\<rparr>) c
        (change_result (c_change_id c) ''accepted'' ?en ?op (VUuid i) resp False) True"
    unfolding apply_push_change_def by (auto simp: Let_def case_prod_beta)
  have "same_admin (px_db ctx) db1"
    using app same_admin_apply by (auto split: if_splits)
  with same_admin_flush [OF fl] have adm: "same_admin (px_db ctx) db2"
    by (blast intro: same_admin_trans)
  let ?d = "change_result (c_change_id c) ''accepted'' ?en ?op (VUuid i) resp False"
  have acc: "accepted_outcome e ctx c ?d ctx'"
    unfolding accepted_outcome_def Let_def
  proof (intro conjI exI)
    show "leaves_receipt e ctx c ?d ctx'"
      using adm by (auto simp: ctx' leaves_receipt_def store_receipt_def same_admin_def)
  qed (use assms(2-4) app fl adm in \<open>simp_all add: ctx' same_admin_def\<close>)
  have "new_outcome e ctx c ?d ctx'"
    using acc unfolding new_outcome_def by (simp add: ctx')
  with acc show ?thesis by blast
qed

lemma process_new_outcome: "\<exists>d. new_outcome e ctx c d (process_new_push_change e ctx c)"
proof -
  let ?en = "lower (strip (c_entity c))" and ?op = "lower (strip (c_op c))"
  let ?r = "\<lambda>reason detail kind retryable store. reject_push_change e ctx c reason detail kind retryable store"
  have rej: "\<exists>d. new_outcome e ctx c d (?r a b k t st)" if "st \<or> t" for a b k t st
    using reject_outcome [OF that] by blast
  consider "ENTITY_MODELS ?en = None" | "?op \<notin> set OPS"
    | "ENTITY_MODELS ?en \<noteq> None" "?op \<in> set OPS" by blast
  then show ?thesis
  proof cases
    case 3
    let ?req = "if requires_manager ctx ?en ?op (c_record c) then ''manager'' else ''member''"
    show ?thesis
    proof (cases "ensure_role_at_least (px_role ctx) ?req")
      case (Inl x)
      with 3 rej show ?thesis by (auto simp: process_new_push_change_def Let_def authorize_push_change_def)
    next
      case (Inr u)
      then have auth: "authorize_push_change e ctx c ?en ?op (c_record c) = (True, ctx)"
        by (simp add: authorize_push_change_def Let_def)
      show ?thesis
      proof (cases "apply_push_change e ctx c ?en ?op (c_record c)")
        case (Inr ctx')
        with 3 auth apply_push_change_Inr [OF Inr 3] \<open>ensure_role_at_least (px_role ctx) ?req = Inr u\<close>
        show ?thesis by (auto simp: process_new_push_change_def Let_def)
      next
        case (Inl x)
        have "\<exists>d. new_outcome e ctx c d (record_push_conflict e ctx c en op reason i v r)"
          for en op reason i v r using conflict_outcome by blast
        with Inl 3 auth rej show ?thesis
          by (cases x) (auto simp: process_new_push_change_def Let_def split: prod.splits)
      qed
    qed
  qed (use rej in \<open>auto simp: process_new_push_change_def Let_def\<close>)
qed

subsection \<open>The batch loop never fails\<close>

definition push_wf :: "push_ctx \<Rightarrow> bool" where
  "push_wf ctx =
     ((\<forall>cid. px_batch_hashes ctx cid \<noteq> None \<longrightarrow>
        (\<exists>d. px_batch_results ctx cid = Some d \<and> dget d ''change_id'' = VStr (uuid_str cid))) \<and>
      (\<forall>cid r. px_existing_receipts ctx cid = Some r \<longrightarrow> rc_change_id r = cid))"

definition bookkept :: "push_ctx \<Rightarrow> push_ctx \<Rightarrow> bool" where
  "bookkept ctx ctx' =
     (px_user_id ctx' = px_user_id ctx \<and> px_project_id ctx' = px_project_id ctx \<and>
      px_role ctx' = px_role ctx \<and> px_existing_receipts ctx' = px_existing_receipts ctx)"

lemma bookkept_refl [simp]: "bookkept ctx ctx" by (simp add: bookkept_def)

lemma bookkept_trans: "bookkept a b \<Longrightarrow> bookkept b c \<Longrightarrow> bookkept a c"
  by (simp add: bookkept_def)

definition dup_outcome :: "env \<Rightarrow> push_ctx \<Rightarrow> sync_change \<Rightarrow> dict \<Rightarrow> push_ctx \<Rightarrow> bool" where
  "dup_outcome e ctx c d ctx' =
     (ctx' = ctx\<lparr>px_results := px_results ctx @ [d]\<rparr> \<and>
      dget d ''change_id'' = VStr (uuid_str (c_change_id c)) \<and>
      (dget d ''status'' = VStr ''error'' \<and> dget d ''failure_kind'' = VStr ''validation'' \<or>
       dget d ''replayed'' = VBool True))"

lemma record_duplicate_outcome:
  assumes "push_wf ctx" "seen ctx (c_change_id c)"
  shows "\<exists>d ctx'. record_duplicate e ctx c = Inr ctx' \<and> dup_outcome e ctx c d ctx'"
proof (cases "duplicate_error_reason e c (px_existing_receipts ctx (c_change_id c))
    (px_batch_hashes ctx (c_change_id c)) (px_user_id ctx) (px_project_id ctx)")
  case (Some reason)
  then show ?thesis
    by (auto simp: record_duplicate_def Let_def dup_outcome_def change_result_key RESULT_KEYS_def dget_Cons)
next
  case None
  show ?thesis
  proof (cases "px_existing_receipts ctx (c_change_id c)")
    case (Some r)
    with None assms(1) show ?thesis
      by (auto simp: record_duplicate_def Let_def dup_outcome_def refresh_keeps push_wf_def)
  next
    case none: None
    with assms obtain d where "px_batch_results ctx (c_change_id c) = Some d"
      "dget d ''change_id'' = VStr (uuid_str (c_change_id c))"
      by (auto simp: seen_def push_wf_def)
    with None none show ?thesis
      by (auto simp: record_duplicate_def Let_def dup_outcome_def refresh_keeps)
  qed
qed

lemma push_step_outcome:
  assumes "push_wf ctx"
  shows "\<exists>ctx' d. push_step e c ctx = Inr ctx' \<and> push_wf ctx' \<and> bookkept ctx ctx' \<and>
    px_results ctx' = px_results ctx @ [d] \<and> dget d ''change_id'' = VStr (uuid_str (c_change_id c))"
proof (cases "seen ctx (c_change_id c)")
  case True
  from record_duplicate_outcome [OF assms this] obtain d ctx' where
    "record_duplicate e ctx c = Inr ctx'" "dup_outcome e ctx c d ctx'" by blast
  with True assms show ?thesis
    by (auto simp: push_step_def dup_outcome_def push_wf_def bookkept_def)
next
  case False
  let ?ctx = "ctx\<lparr>px_batch_hashes := (px_batch_hashes ctx)(c_change_id c \<mapsto> payload_hash e c)\<rparr>"
  obtain d where "new_outcome e ?ctx c d (process_new_push_change e ?ctx c)"
    using process_new_outcome by blast
  with False assms show ?thesis
    by (auto simp: push_step_def new_outcome_def push_wf_def bookkept_def)
qed


lemma push_loop_outcome:
  "push_wf ctx \<Longrightarrow>
   \<exists>ctx' ds. push_loop e cs ctx = Inr ctx' \<and> push_wf ctx' \<and> bookkept ctx ctx' \<and>
     px_results ctx' = px_results ctx @ ds \<and>
     map (\<lambda>d. dget d ''change_id'') ds = map (\<lambda>c. VStr (uuid_str (c_change_id c))) cs"
proof (induction cs arbitrary: ctx)
  case (Cons c cs)
  from push_step_outcome [OF Cons.prems] obtain ctx1 d where
    1: "push_step e c ctx = Inr ctx1" "push_wf ctx1" "bookkept ctx ctx1"
      "px_results ctx1 = px_results ctx @ [d]" "dget d ''change_id'' = VStr (uuid_str (c_change_id c))"
    by blast
  from Cons.IH [OF 1(2)] obtain ctx' ds where
    "push_loop e cs ctx1 = Inr ctx'" "push_wf ctx'" "bookkept ctx1 ctx'"
    "px_results ctx' = px_results ctx1 @ ds"
    "map (\<lambda>d. dget d ''change_id'') ds = map (\<lambda>c. VStr (uuid_str (c_change_id c))) cs"
    by blast
  with 1 show ?case
    by (intro exI [of _ ctx'] exI [of _ "d # ds"]) (auto intro: bookkept_trans)
qed simp

lemma push_wf_initial: "push_wf (initial_ctx db u p role cs)"
  by (auto simp: push_wf_def initial_ctx_def load_existing_receipts_def dest!: map_of_SomeD split: if_splits)

text \<open>A change keeps the database invariant, and so does the batch.\<close>

lemma registered: "ENTITY_MODELS entity \<noteq> None \<longleftrightarrow> entity \<in> fst ` set ENTITY_REGISTRY"
  by (simp add: ENTITY_MODELS_def map_of_eq_None_iff del: not_None_eq)

lemma accepted_upsert_mutates:
  assumes "accepted_outcome e ctx c d ctx'" "db_inv (px_db ctx)" "coerce_ok (e_coerce e)"
    and en: "entity = lower (strip (c_entity c))" and "lower (strip (c_op c)) = ''upsert''"
  shows "\<exists>i. parse_uuid (dget (c_record c) ''id'') ''record.id'' = Inr i \<and>
    (case fetch_obj (px_db ctx) entity i (px_project_id ctx) of
      None \<Rightarrow> mutates (px_db ctx) (model_of entity) i None (Some 1) (px_db ctx')
    | Some obj \<Rightarrow> c_base_version c = Some (version_of obj) \<and>
        mutates (px_db ctx) (model_of entity) i (c_base_version c) (Some (version_of obj + 1)) (px_db ctx'))"
proof -
  from assms(1,5) obtain i pend db1 db2 where
    up: "apply_upsert e (px_db ctx) (px_user_id ctx) (px_project_id ctx) entity (c_base_version c)
      (c_record c) (c_change_id c) = Inr (i, pend, db1)"
    and fl: "flush_pending e pend db1 = Inr db2" and reg: "ENTITY_MODELS entity \<noteq> None"
    and t: "tables (px_db ctx') = tables db2" "sync_project_state (px_db ctx') = sync_project_state db2"
    by (auto simp: accepted_outcome_def Let_def en)
  have same: "mutates db m j o1 o2 (px_db ctx') = mutates db m j o1 o2 db2" for db m j o1 o2
    by (simp add: mutates_def db_inv_cong [OF t] row_version_def lookup_def t(1))
  have i: "parse_uuid (dget (c_record c) ''id'') ''record.id'' = Inr i"
    using up by (auto simp: apply_upsert_def split: option.splits prod.splits)
  from reg have "entity \<in> fst ` set ENTITY_REGISTRY" by (simp only: registered)
  from apply_upsert_mutates [OF assms(2,3) this up fl] i show ?thesis
    unfolding same by blast
qed

lemma accepted_delete_mutates:
  assumes "accepted_outcome e ctx c d ctx'" "db_inv (px_db ctx)"
    and en: "entity = lower (strip (c_entity c))" and "lower (strip (c_op c)) = ''delete''"
  shows "\<exists>i. parse_uuid (dget (c_record c) ''id'') ''record.id'' = Inr i \<and>
    (case fetch_obj (px_db ctx) entity i (px_project_id ctx) of
      None \<Rightarrow> tables (px_db ctx') = tables (px_db ctx) \<and>
              sync_project_state (px_db ctx') = sync_project_state (px_db ctx)
    | Some obj \<Rightarrow> c_base_version c = Some (version_of obj) \<and>
        mutates (px_db ctx) (model_of entity) i (c_base_version c) (Some (version_of obj + 1)) (px_db ctx') \<and>
        (\<exists>r. lookup (px_db ctx') (model_of entity) i = Some r \<and> r ''is_deleted'' = VBool True))"
proof -
  from assms(1,4) obtain i pend db1 db2 where
    up: "apply_delete e (px_db ctx) (px_user_id ctx) (px_project_id ctx) entity (c_base_version c)
      (c_record c) (c_change_id c) = Inr (i, pend, db1)"
    and fl: "flush_pending e pend db1 = Inr db2"
    and t: "tables (px_db ctx') = tables db2" "sync_project_state (px_db ctx') = sync_project_state db2"
    by (auto simp: accepted_outcome_def Let_def en)
  have same: "mutates db m j o1 o2 (px_db ctx') = mutates db m j o1 o2 db2"
    "lookup (px_db ctx') m j = lookup db2 m j" for db m j o1 o2
    by (simp_all add: mutates_def db_inv_cong [OF t] row_version_def lookup_def t(1))
  have "parse_uuid (dget (c_record c) ''id'') ''record.id'' = Inr i"
    using up by (auto simp: apply_delete_def Let_def split: option.splits prod.splits)
  with apply_delete_mutates [OF assms(2) up fl] t show ?thesis
    by (auto simp: same split: option.splits)
qed

lemma new_outcome_inv:
  assumes "new_outcome e ctx c d ctx'" "db_inv (px_db ctx)" "coerce_ok (e_coerce e)"
  shows "db_inv (px_db ctx')"
  using assms(1) unfolding new_outcome_def
proof (elim conjE disjE)
  assume acc: "accepted_outcome e ctx c d ctx'"
  then consider "lower (strip (c_op c)) = ''upsert''" | "lower (strip (c_op c)) = ''delete''"
    by (auto simp: accepted_outcome_def Let_def OPS_def)
  then show ?thesis
  proof cases
    case 1
    from accepted_upsert_mutates [OF acc assms(2,3) refl 1] show ?thesis
      by (auto simp: mutates_def split: option.splits)
  next
    case 2
    from accepted_delete_mutates [OF acc assms(2) refl 2] show ?thesis
      using assms(2) db_inv_cong [of "px_db ctx'" "px_db ctx"] by (auto simp: mutates_def split: option.splits)
  qed
next
  assume "refused_outcome e ctx c d ctx'"
  then show ?thesis using assms(2) db_inv_cong [of "px_db ctx'" "px_db ctx"]
    by (simp add: refused_outcome_def)
qed


lemma push_step_inv:
  assumes "push_step e c ctx = Inr ctx'" "push_wf ctx" "db_inv (px_db ctx)" "coerce_ok (e_coerce e)"
  shows "db_inv (px_db ctx')"
proof (cases "seen ctx (c_change_id c)")
  case True
  from record_duplicate_outcome [OF assms(2) this, of e] assms(1,3) True show ?thesis
    by (auto simp: push_step_def dup_outcome_def)
next
  case False
  let ?ctx = "ctx\<lparr>px_batch_hashes := (px_batch_hashes ctx)(c_change_id c \<mapsto> payload_hash e c)\<rparr>"
  obtain d where "new_outcome e ?ctx c d (process_new_push_change e ?ctx c)"
    using process_new_outcome by blast
  from new_outcome_inv [OF this _ assms(4)] assms(1,3) False show ?thesis
    by (simp add: push_step_def)
qed

lemma push_loop_inv:
  "push_loop e cs ctx = Inr ctx' \<Longrightarrow> push_wf ctx \<Longrightarrow> db_inv (px_db ctx) \<Longrightarrow> coerce_ok (e_coerce e) \<Longrightarrow>
   db_inv (px_db ctx')"
proof (induction cs arbitrary: ctx)
  case (Cons c cs)
  from Cons.prems(1) obtain ctx1 where 1: "push_step e c ctx = Inr ctx1" "push_loop e cs ctx1 = Inr ctx'"
    by auto
  moreover have "push_wf ctx1" using push_step_outcome [OF Cons.prems(2), of e c] 1(1) by auto
  ultimately show ?case
    using Cons.IH push_step_inv [OF 1(1) Cons.prems(2-4)] Cons.prems(4) by blast
qed simp

lemma push_changes_Inr:
  assumes "push_changes e commit_ok db u p cs = Inr (db', rs)"
  obtains role ctx where "ensure_member db p u = Inr role"
    "push_loop e cs (initial_ctx db u p role cs) = Inr ctx" "db' = px_db ctx" "rs = px_results ctx"
  using assms by (auto simp: push_changes_def)

subsection \<open>Retries\<close>

text \<open>
  What the loop knows of the changes of a batch \<open>C\<close> that it has recorded: unless the result is
  retryable, the database holds a receipt with the same outcome, owner and payload hash.
\<close>

definition receipt_of :: "sdb \<Rightarrow> uuid \<Rightarrow> receipt_row \<Rightarrow> bool" where
  "receipt_of db cid rc = (rc \<in> set (sync_receipts db) \<and> rc_change_id rc = cid)"

definition receipts_distinct :: "sdb \<Rightarrow> bool" where
  "receipts_distinct db = distinct (map rc_change_id (sync_receipts db))"

definition matching_receipt :: "push_ctx \<Rightarrow> uuid \<Rightarrow> string \<Rightarrow> dict \<Rightarrow> receipt_row \<Rightarrow> bool" where
  "matching_receipt ctx cid h d rc =
     (receipt_of (px_db ctx) cid rc \<and> rc_user_id rc = px_user_id ctx \<and>
      rc_project_id rc = px_project_id ctx \<and> rc_payload_hash rc = Some h \<and>
      VStr (rc_status rc) = dget d ''status'')"

definition recorded :: "uuid set \<Rightarrow> push_ctx \<Rightarrow> bool" where
  "recorded C ctx =
     (receipts_distinct (px_db ctx) \<and>
      (\<forall>rc \<in> set (sync_receipts (px_db ctx)). rc_change_id rc \<in> C \<longrightarrow> seen ctx (rc_change_id rc)) \<and>
      (\<forall>cid r. px_existing_receipts ctx cid = Some r \<longrightarrow> receipt_of (px_db ctx) cid r) \<and>
      (\<forall>cid d. px_batch_results ctx cid = Some d \<longrightarrow> d \<in> set (px_results ctx)) \<and>
      (\<forall>cid h d. px_batch_hashes ctx cid = Some h \<longrightarrow> px_batch_results ctx cid = Some d \<longrightarrow>
         dget d ''retryable'' \<noteq> VBool True \<longrightarrow> (\<exists>rc. matching_receipt ctx cid h d rc)))"

text \<open>The status a repeated change gets from its receipt.\<close>

definition replay_status :: "env \<Rightarrow> uuid \<Rightarrow> uuid \<Rightarrow> sync_change \<Rightarrow> receipt_row \<Rightarrow> pyval" where
  "replay_status e u p c rc =
     (if duplicate_error_reason e c (Some rc) None u p = None then VStr (rc_status rc)
      else VStr ''error'')"

definition all_final :: "push_ctx \<Rightarrow> bool" where
  "all_final ctx = (\<forall>d \<in> set (px_results ctx). dget d ''retryable'' \<noteq> VBool True)"

lemma leaves_receipt_matching:
  assumes "leaves_receipt e ctx c d ctx'" "px_user_id ctx' = px_user_id ctx"
    "px_project_id ctx' = px_project_id ctx"
  shows "\<exists>rc. matching_receipt ctx' (c_change_id c) (payload_hash e c) d rc"
  using assms by (auto simp: leaves_receipt_def matching_receipt_def receipt_of_def)

lemma new_outcome_recorded:
  assumes out: "new_outcome e ctx c d ctx'" and rec: "recorded C ctx0" and cC: "c_change_id c \<in> C"
    and new: "\<not> seen ctx0 (c_change_id c)"
    and ctx: "ctx = ctx0\<lparr>px_batch_hashes := (px_batch_hashes ctx0)(c_change_id c \<mapsto> payload_hash e c)\<rparr>"
  shows "recorded C ctx'" "set (sync_receipts (px_db ctx0)) \<subseteq> set (sync_receipts (px_db ctx'))"
    "dget d ''retryable'' \<noteq> VBool True \<Longrightarrow>
       \<exists>rc. matching_receipt ctx' (c_change_id c) (payload_hash e c) d rc"
proof -
  have fresh: "\<forall>rc \<in> set (sync_receipts (px_db ctx0)). rc_change_id rc \<noteq> c_change_id c"
    using rec new cC unfolding recorded_def by metis
  have book: "px_user_id ctx' = px_user_id ctx0" "px_project_id ctx' = px_project_id ctx0"
    "px_existing_receipts ctx' = px_existing_receipts ctx0"
    "px_batch_hashes ctx' = (px_batch_hashes ctx0)(c_change_id c \<mapsto> payload_hash e c)"
    "px_batch_results ctx' = (px_batch_results ctx0)(c_change_id c \<mapsto> d)"
    "px_results ctx' = px_results ctx0 @ [d]"
    using out by (simp_all add: new_outcome_def ctx)
  have cases: "leaves_receipt e ctx c d ctx' \<or> dget d ''retryable'' = VBool True \<and> px_db ctx' = px_db ctx0"
    using out by (auto simp: new_outcome_def accepted_outcome_def refused_outcome_def Let_def ctx)
  then obtain extra where ex: "sync_receipts (px_db ctx') = sync_receipts (px_db ctx0) @ extra"
    and ids: "extra = [] \<or> (\<exists>rc. extra = [rc] \<and> rc_change_id rc = c_change_id c)"
    by (auto simp: leaves_receipt_def ctx)
  show sub: "set (sync_receipts (px_db ctx0)) \<subseteq> set (sync_receipts (px_db ctx'))" by (simp add: ex)
  show match: "dget d ''retryable'' \<noteq> VBool True \<Longrightarrow>
       \<exists>rc. matching_receipt ctx' (c_change_id c) (payload_hash e c) d rc"
    using cases leaves_receipt_matching [of e ctx c d ctx'] book by (auto simp: ctx)
  have old: "matching_receipt ctx' cid h x rc" if "matching_receipt ctx0 cid h x rc" for cid h x rc
    using that sub book by (auto simp: matching_receipt_def receipt_of_def)
  have seen': "seen ctx' cid \<longleftrightarrow> seen ctx0 cid \<or> cid = c_change_id c" for cid
    by (auto simp: seen_def book)
  show "recorded C ctx'"
    unfolding recorded_def
  proof (intro conjI)
    show "receipts_distinct (px_db ctx')"
      using rec ids fresh by (auto simp: recorded_def receipts_distinct_def ex)
    show "\<forall>rc\<in>set (sync_receipts (px_db ctx')). rc_change_id rc \<in> C \<longrightarrow> seen ctx' (rc_change_id rc)"
      using rec ids by (auto simp: ex seen' recorded_def)
    show "\<forall>cid r. px_existing_receipts ctx' cid = Some r \<longrightarrow> receipt_of (px_db ctx') cid r"
      using rec by (auto simp: book recorded_def receipt_of_def ex)
    show "\<forall>cid d. px_batch_results ctx' cid = Some d \<longrightarrow> d \<in> set (px_results ctx')"
      using rec by (auto simp: book recorded_def)
    show "\<forall>cid h d. px_batch_hashes ctx' cid = Some h \<longrightarrow> px_batch_results ctx' cid = Some d \<longrightarrow>
      dget d ''retryable'' \<noteq> VBool True \<longrightarrow> (\<exists>rc. matching_receipt ctx' cid h d rc)"
      using rec match old unfolding book recorded_def by (auto split: if_splits) metis
  qed
qed


lemma replay_status_match:
  "rc_user_id rc = u \<Longrightarrow> rc_project_id rc = p \<Longrightarrow> rc_payload_hash rc = Some (payload_hash e c) \<Longrightarrow>
   replay_status e u p c rc = VStr (rc_status rc)"
  by (simp add: replay_status_def duplicate_error_reason_def)

lemma record_duplicate_status:
  assumes "record_duplicate e ctx c = Inr ctx'" "px_results ctx' = px_results ctx @ [d]"
  shows "dget d ''status'' =
    (if duplicate_error_reason e c (px_existing_receipts ctx (c_change_id c))
          (px_batch_hashes ctx (c_change_id c)) (px_user_id ctx) (px_project_id ctx) \<noteq> None
     then VStr ''error''
     else case px_existing_receipts ctx (c_change_id c) of
            Some r \<Rightarrow> VStr (rc_status r)
          | None \<Rightarrow> dget (the (px_batch_results ctx (c_change_id c))) ''status'')"
  using assms
  by (auto simp: record_duplicate_def Let_def refresh_keeps split: option.splits)

lemma push_step_recorded:
  assumes step: "push_step e c ctx = Inr ctx'" and wf: "push_wf ctx" and rec: "recorded C ctx"
    and cC: "c_change_id c \<in> C"
  shows "recorded C ctx'" "set (sync_receipts (px_db ctx)) \<subseteq> set (sync_receipts (px_db ctx'))"
    "all_final ctx' \<Longrightarrow> \<exists>d rc. px_results ctx' = px_results ctx @ [d] \<and>
       receipt_of (px_db ctx') (c_change_id c) rc \<and>
       dget d ''status'' = replay_status e (px_user_id ctx) (px_project_id ctx) c rc"
proof -
  let ?cid = "c_change_id c"
  have "recorded C ctx' \<and> set (sync_receipts (px_db ctx)) \<subseteq> set (sync_receipts (px_db ctx')) \<and>
    (all_final ctx' \<longrightarrow> (\<exists>d rc. px_results ctx' = px_results ctx @ [d] \<and>
       receipt_of (px_db ctx') ?cid rc \<and>
       dget d ''status'' = replay_status e (px_user_id ctx) (px_project_id ctx) c rc))"
  proof (cases "seen ctx ?cid")
    case False
    let ?ctx = "ctx\<lparr>px_batch_hashes := (px_batch_hashes ctx)(?cid \<mapsto> payload_hash e c)\<rparr>"
    obtain d where out: "new_outcome e ?ctx c d (process_new_push_change e ?ctx c)"
      using process_new_outcome by blast
    from step False have ctx': "ctx' = process_new_push_change e ?ctx c" by (simp add: push_step_def)
    note new = new_outcome_recorded [OF out [folded ctx'] rec cC False refl]
    have res: "px_results ctx' = px_results ctx @ [d]" "px_user_id ctx' = px_user_id ctx"
      "px_project_id ctx' = px_project_id ctx"
      using out by (simp_all add: ctx' new_outcome_def)
    have "\<exists>rc. receipt_of (px_db ctx') ?cid rc \<and>
        dget d ''status'' = replay_status e (px_user_id ctx) (px_project_id ctx) c rc" if fin: "all_final ctx'"
    proof -
      from fin res(1) have "dget d ''retryable'' \<noteq> VBool True" by (simp add: all_final_def)
      from new(3) [OF this] obtain rc where "matching_receipt ctx' ?cid (payload_hash e c) d rc" ..
      with res(2,3) replay_status_match show ?thesis unfolding matching_receipt_def by metis
    qed
    with new(1,2) res(1) show ?thesis by blast
  next
    case True
    from record_duplicate_outcome [OF wf True, of e] step True obtain d where
      dup: "record_duplicate e ctx c = Inr ctx'"
      and ctx': "ctx' = ctx\<lparr>px_results := px_results ctx @ [d]\<rparr>"
      by (auto simp: push_step_def dup_outcome_def)
    have recd: "recorded C ctx'"
      using rec by (auto simp: recorded_def ctx' seen_def matching_receipt_def)
    have "\<exists>rc. receipt_of (px_db ctx') ?cid rc \<and>
        dget d ''status'' = replay_status e (px_user_id ctx) (px_project_id ctx) c rc" if fin: "all_final ctx'"
    proof (cases "px_existing_receipts ctx ?cid")
      case (Some r)
      with rec have "receipt_of (px_db ctx') ?cid r" by (simp add: recorded_def ctx')
      moreover have "dget d ''status'' = replay_status e (px_user_id ctx) (px_project_id ctx) c r"
        using record_duplicate_status [OF dup] Some ctx'
        by (simp add: replay_status_def duplicate_error_reason_def)
      ultimately show ?thesis by blast
    next
      case None
      with True obtain h where h: "px_batch_hashes ctx ?cid = Some h" by (auto simp: seen_def)
      with wf obtain b where b: "px_batch_results ctx ?cid = Some b" by (auto simp: push_wf_def)
      with rec have "b \<in> set (px_results ctx)" by (auto simp: recorded_def)
      with fin have "dget b ''retryable'' \<noteq> VBool True" by (auto simp: all_final_def ctx')
      with rec h b obtain rc where rc: "matching_receipt ctx ?cid h b rc" by (force simp: recorded_def)
      moreover have "dget d ''status'' = replay_status e (px_user_id ctx) (px_project_id ctx) c rc"
        using record_duplicate_status [OF dup] None ctx' h b rc
        by (simp add: replay_status_def duplicate_error_reason_def matching_receipt_def)
      ultimately show ?thesis by (auto simp: matching_receipt_def ctx')
    qed
    with recd show ?thesis by (auto simp: ctx')
  qed
  then show "recorded C ctx'" "set (sync_receipts (px_db ctx)) \<subseteq> set (sync_receipts (px_db ctx'))"
    "all_final ctx' \<Longrightarrow> \<exists>d rc. px_results ctx' = px_results ctx @ [d] \<and>
       receipt_of (px_db ctx') (c_change_id c) rc \<and>
       dget d ''status'' = replay_status e (px_user_id ctx) (px_project_id ctx) c rc"
    by blast+
qed


definition outcome_matches :: "env \<Rightarrow> uuid \<Rightarrow> uuid \<Rightarrow> sdb \<Rightarrow> dict \<Rightarrow> sync_change \<Rightarrow> bool" where
  "outcome_matches e u p db d c =
     (\<exists>rc. receipt_of db (c_change_id c) rc \<and> dget d ''status'' = replay_status e u p c rc)"

lemma push_loop_recorded:
  "\<lbrakk>push_loop e cs ctx = Inr ctx'; push_wf ctx; recorded C ctx; c_change_id ` set cs \<subseteq> C; all_final ctx'\<rbrakk> \<Longrightarrow>
   receipts_distinct (px_db ctx') \<and> set (sync_receipts (px_db ctx)) \<subseteq> set (sync_receipts (px_db ctx')) \<and>
   (\<exists>ds. px_results ctx' = px_results ctx @ ds \<and>
      list_all2 (outcome_matches e (px_user_id ctx) (px_project_id ctx) (px_db ctx')) ds cs)"
proof (induction cs arbitrary: ctx)
  case Nil
  then show ?case by (simp add: recorded_def)
next
  case (Cons c cs)
  from Cons.prems(1) obtain ctx1 where s: "push_step e c ctx = Inr ctx1" and l: "push_loop e cs ctx1 = Inr ctx'"
    by auto
  have cC: "c_change_id c \<in> C" using Cons.prems(4) by simp
  note st = push_step_recorded [OF s Cons.prems(2,3) cC]
  have wf1: "push_wf ctx1" and bk: "bookkept ctx ctx1"
    using push_step_outcome [OF Cons.prems(2), of e c] s by auto
  from push_loop_outcome [OF wf1, of e cs] l obtain ds0 where "px_results ctx' = px_results ctx1 @ ds0"
    by auto
  with Cons.prems(5) have "all_final ctx1" by (simp add: all_final_def)
  from st(3) [OF this] obtain d rc where d: "px_results ctx1 = px_results ctx @ [d]"
    "receipt_of (px_db ctx1) (c_change_id c) rc"
    "dget d ''status'' = replay_status e (px_user_id ctx) (px_project_id ctx) c rc" by blast
  from Cons.IH [OF l wf1 st(1) _ Cons.prems(5)] Cons.prems(4) bk obtain ds where
    ih: "receipts_distinct (px_db ctx')" "set (sync_receipts (px_db ctx1)) \<subseteq> set (sync_receipts (px_db ctx'))"
      "px_results ctx' = px_results ctx1 @ ds"
      "list_all2 (outcome_matches e (px_user_id ctx) (px_project_id ctx) (px_db ctx')) ds cs"
    by (auto simp: bookkept_def)
  have "outcome_matches e (px_user_id ctx) (px_project_id ctx) (px_db ctx') d c"
    using d(2,3) ih(2) by (auto simp: outcome_matches_def receipt_of_def)
  with ih d(1) st(2) show ?case by (intro conjI exI [of _ "d # ds"]) auto
qed

lemma load_existing_receipt:
  assumes "receipts_distinct db" "receipt_of db (c_change_id c) rc" "c \<in> set cs"
  shows "load_existing_receipts db cs (c_change_id c) = Some rc"
proof -
  let ?l = "rev (map (\<lambda>r. (rc_change_id r, r))
             (filter (\<lambda>r. rc_change_id r \<in> c_change_id ` set cs) (sync_receipts db)))"
  have "distinct (map fst ?l)"
    using assms(1) by (simp add: receipts_distinct_def o_def distinct_map_filter flip: rev_map)
  moreover have "(c_change_id c, rc) \<in> set ?l"
    using assms(2,3) by (force simp: receipt_of_def image_iff)
  ultimately have "map_of ?l (c_change_id c) = Some rc" by (rule map_of_is_SomeI)
  with assms(3) show ?thesis by (auto simp: load_existing_receipts_def)
qed

lemma replay_loop:
  assumes "push_wf ctx"
    and "\<forall>c \<in> set cs. \<exists>rc. px_existing_receipts ctx (c_change_id c) = Some rc \<and>
           s c = replay_status e (px_user_id ctx) (px_project_id ctx) c rc"
  shows "\<exists>ctx' ds. push_loop e cs ctx = Inr ctx' \<and> px_db ctx' = px_db ctx \<and>
    px_results ctx' = px_results ctx @ ds \<and> map (\<lambda>d. dget d ''status'') ds = map s cs"
  using assms
proof (induction cs arbitrary: ctx)
  case (Cons c cs)
  from Cons.prems(2) obtain rc where rc: "px_existing_receipts ctx (c_change_id c) = Some rc"
    "s c = replay_status e (px_user_id ctx) (px_project_id ctx) c rc" by auto
  then have seen: "seen ctx (c_change_id c)" by (simp add: seen_def)
  from record_duplicate_outcome [OF Cons.prems(1) this, of e] obtain d ctx1 where
    dup: "record_duplicate e ctx c = Inr ctx1" and ctx1: "ctx1 = ctx\<lparr>px_results := px_results ctx @ [d]\<rparr>"
    by (auto simp: dup_outcome_def)
  have "push_wf ctx1" using Cons.prems(1) by (simp add: ctx1 push_wf_def)
  moreover have "\<forall>c \<in> set cs. \<exists>rc. px_existing_receipts ctx1 (c_change_id c) = Some rc \<and>
           s c = replay_status e (px_user_id ctx1) (px_project_id ctx1) c rc"
    using Cons.prems(2) by (simp add: ctx1)
  ultimately obtain ctx' ds where ih: "push_loop e cs ctx1 = Inr ctx'" "px_db ctx' = px_db ctx1"
    "px_results ctx' = px_results ctx1 @ ds" "map (\<lambda>d. dget d ''status'') ds = map s cs"
    using Cons.IH by blast
  have "dget d ''status'' = s c"
    using record_duplicate_status [OF dup, of d] rc
    by (simp add: ctx1 replay_status_def duplicate_error_reason_def)
  with ih dup seen show ?case
    by (intro exI [of _ ctx'] exI [of _ "d # ds"]) (simp add: push_step_def ctx1)
qed simp

text \<open>Pushing does not touch memberships, users or the set of counters.\<close>

definition admin_kept :: "sdb \<Rightarrow> sdb \<Rightarrow> bool" where
  "admin_kept db db' = (project_members db' = project_members db \<and> users db' = users db \<and>
     map fst (sync_project_state db') = map fst (sync_project_state db))"

lemma push_step_admin:
  assumes "push_step e c ctx = Inr ctx'" "push_wf ctx"
  shows "admin_kept (px_db ctx) (px_db ctx')"
proof (cases "seen ctx (c_change_id c)")
  case True
  from record_duplicate_outcome [OF assms(2) this, of e] assms(1) True show ?thesis
    by (auto simp: push_step_def dup_outcome_def admin_kept_def)
next
  case False
  let ?ctx = "ctx\<lparr>px_batch_hashes := (px_batch_hashes ctx)(c_change_id c \<mapsto> payload_hash e c)\<rparr>"
  obtain d where "new_outcome e ?ctx c d (process_new_push_change e ?ctx c)"
    using process_new_outcome by blast
  with assms(1) False show ?thesis
    by (auto simp: push_step_def new_outcome_def admin_kept_def accepted_outcome_def
        refused_outcome_def Let_def)
qed

lemma push_loop_admin:
  "push_loop e cs ctx = Inr ctx' \<Longrightarrow> push_wf ctx \<Longrightarrow> admin_kept (px_db ctx) (px_db ctx')"
proof (induction cs arbitrary: ctx)
  case (Cons c cs)
  from Cons.prems(1) obtain ctx1 where s: "push_step e c ctx = Inr ctx1" and l: "push_loop e cs ctx1 = Inr ctx'"
    by auto
  have "push_wf ctx1" using push_step_outcome [OF Cons.prems(2), of e c] s by auto
  with Cons.IH l push_step_admin [OF s Cons.prems(2)] show ?case by (auto simp: admin_kept_def)
qed (simp add: admin_kept_def)

lemma admin_kept_roles:
  assumes "admin_kept db db'"
  shows "ensure_member db' p u = ensure_member db p u"
    "(last_sequence db' p \<noteq> None) = (last_sequence db p \<noteq> None)"
proof -
  show "ensure_member db' p u = ensure_member db p u"
    using assms by (simp add: admin_kept_def ensure_member_def require_min_role_def
        get_member_role_def is_superuser_def)
  have "fst ` set (sync_project_state db') = fst ` set (sync_project_state db)"
    using assms by (metis admin_kept_def list.set_map)
  then show "(last_sequence db' p \<noteq> None) = (last_sequence db p \<noteq> None)"
    by (simp add: last_sequence_def map_of_eq_None_iff del: not_None_eq)
qed


lemma recorded_initial:
  assumes "receipts_distinct db"
  shows "recorded (c_change_id ` set cs) (initial_ctx db u p role cs)"
proof -
  have load: "load_existing_receipts db cs cid = Some r \<Longrightarrow> receipt_of db cid r" for cid r
    by (auto simp: load_existing_receipts_def receipt_of_def dest!: map_of_SomeD split: if_splits)
  have "seen (initial_ctx db u p role cs) (rc_change_id rc)"
    if "rc \<in> set (sync_receipts db)" "rc_change_id rc \<in> c_change_id ` set cs" for rc
  proof -
    from that obtain c where c: "c \<in> set cs" "rc_change_id rc = c_change_id c" by auto
    with load_existing_receipt [OF assms _ c(1), of rc] that(1) show ?thesis
      by (simp add: seen_def initial_ctx_def receipt_of_def)
  qed
  with assms load show ?thesis by (auto simp: recorded_def initial_ctx_def)
qed

lemma payload_hash_digest: "e_digest e' = e_digest e \<Longrightarrow> payload_hash e' c = payload_hash e c"
  by (simp add: payload_hash_def)

lemma replay_status_digest: "e_digest e' = e_digest e \<Longrightarrow> replay_status e' u p c rc = replay_status e u p c rc"
  unfolding replay_status_def duplicate_error_reason_def
  by (simp only: payload_hash_digest [of e' e c])

lemma push_changes_total:
  assumes "ensure_member db p u = Inr role" "last_sequence db p \<noteq> None"
  shows "\<exists>db' rs. push_changes e True db u p cs = Inr (db', rs) \<and>
    map (\<lambda>d. dget d ''change_id'') rs = map (\<lambda>c. VStr (uuid_str (c_change_id c))) cs"
proof -
  obtain ctx' ds where "push_loop e cs (initial_ctx db u p role cs) = Inr ctx'" "px_results ctx' = ds"
    "map (\<lambda>d. dget d ''change_id'') ds = map (\<lambda>c. VStr (uuid_str (c_change_id c))) cs"
    using push_loop_outcome [OF push_wf_initial, of e cs db u p role cs] by (auto simp: initial_ctx_def)
  with assms show ?thesis by (auto simp: push_changes_def)
qed

lemma push_changes_inv:
  assumes "push_changes e commit_ok db u p cs = Inr (db', rs)" "db_inv db" "coerce_ok (e_coerce e)"
  shows "db_inv db'"
proof -
  from assms(1) obtain role ctx where "push_loop e cs (initial_ctx db u p role cs) = Inr ctx" "db' = px_db ctx"
    by (rule push_changes_Inr)
  with push_loop_inv [OF this(1) push_wf_initial] assms(2,3) show ?thesis by (simp add: initial_ctx_def)
qed

lemma push_changes_retry:
  assumes push: "push_changes e True db u p cs = Inr (db', rs)" and dist: "receipts_distinct db"
    and final: "\<forall>d \<in> set rs. dget d ''retryable'' \<noteq> VBool True"
    and dig: "e_digest e' = e_digest e"
  shows "\<exists>rs'. push_changes e' True db' u p cs = Inr (db', rs') \<and>
    map (\<lambda>d. dget d ''status'') rs' = map (\<lambda>d. dget d ''status'') rs"
proof -
  from push obtain role ctx where mem: "ensure_member db p u = Inr role"
    and loop: "push_loop e cs (initial_ctx db u p role cs) = Inr ctx" and db': "db' = px_db ctx"
    and rs: "rs = px_results ctx"
    by (rule push_changes_Inr)
  have fin: "all_final ctx" using final by (simp add: all_final_def rs)
  from push_loop_recorded [OF loop push_wf_initial recorded_initial [OF dist] subset_refl fin]
  have rd: "receipts_distinct db'" and all2: "list_all2 (outcome_matches e u p db') rs cs"
    by (auto simp: db' rs initial_ctx_def)
  have adm: "admin_kept db db'"
    using push_loop_admin [OF loop push_wf_initial] by (simp add: db' initial_ctx_def)
  let ?ctx = "initial_ctx db' u p role cs"
  have len: "length rs = length cs" using all2 by (rule list_all2_lengthD)
  define s where "s c = (SOME v. \<exists>rc. px_existing_receipts ?ctx (c_change_id c) = Some rc \<and>
      v = replay_status e' u p c rc)" for c
  have s: "\<exists>rc. px_existing_receipts ?ctx (c_change_id (cs ! i)) = Some rc \<and>
      s (cs ! i) = replay_status e' u p (cs ! i) rc \<and> s (cs ! i) = dget (rs ! i) ''status''"
    if i: "i < length cs" for i
  proof -
    from all2 i obtain rc where rc: "receipt_of db' (c_change_id (cs ! i)) rc"
      "dget (rs ! i) ''status'' = replay_status e u p (cs ! i) rc"
      using list_all2_nthD2 [OF all2 i] by (auto simp: outcome_matches_def)
    from load_existing_receipt [OF rd rc(1), of cs] i
    have ex: "px_existing_receipts ?ctx (c_change_id (cs ! i)) = Some rc" by (simp add: initial_ctx_def)
    then have "s (cs ! i) = replay_status e' u p (cs ! i) rc" by (auto simp: s_def)
    with ex rc(2) show ?thesis by (simp add: replay_status_digest [OF dig])
  qed
  have "\<forall>c \<in> set cs. \<exists>rc. px_existing_receipts ?ctx (c_change_id c) = Some rc \<and>
      s c = replay_status e' (px_user_id ?ctx) (px_project_id ?ctx) c rc"
  proof
    fix c assume "c \<in> set cs"
    then obtain i where "i < length cs" "c = cs ! i" by (metis in_set_conv_nth)
    with s [of i] show "\<exists>rc. px_existing_receipts ?ctx (c_change_id c) = Some rc \<and>
      s c = replay_status e' (px_user_id ?ctx) (px_project_id ?ctx) c rc"
      by (auto simp: initial_ctx_def)
  qed
  from replay_loop [OF push_wf_initial this] obtain ctx' ds where
    2: "push_loop e' cs ?ctx = Inr ctx'" "px_db ctx' = db'" "px_results ctx' = ds"
      "map (\<lambda>d. dget d ''status'') ds = map s cs"
    by (auto simp: initial_ctx_def)
  have "map s cs = map (\<lambda>d. dget d ''status'') rs"
  proof (rule nth_equalityI)
    fix i assume "i < length (map s cs)"
    with s [of i] len show "map s cs ! i = map (\<lambda>d. dget d ''status'') rs ! i" by auto
  qed (simp add: len)
  moreover have "changes = [] \<or> last_sequence db' p \<noteq> None" if "cs \<noteq> []" for changes :: "sync_change list"
    using that push admin_kept_roles(2) [OF adm, of p] by (auto simp: push_changes_def)
  ultimately show ?thesis
    using 2 mem admin_kept_roles(1) [OF adm] by (cases cs) (auto simp: push_changes_def)
qed


subsection \<open>Stale writes\<close>

lemma claim_existing_stale:
  assumes "is_item_entity entity \<Longrightarrow> obj ''type'' = VStr entity"
    and "entity = ''assessment'' \<Longrightarrow> obj ''assessor_user_id'' = VUuid u"
    and "1 \<le> v" "v \<noteq> version_of obj"
  shows "claim_existing now db obj entity i p u (Some v) =
    Inl (ConflictError ''version_mismatch'' (Some i) (Some (version_of obj))
           (Some (model_to_sync_dict db entity (model_of entity) obj)))"
  using assms by (auto simp: claim_existing_def check_base_version_def Let_def)

lemma stale_change_conflicts:
  fixes ctx :: push_ctx and c :: sync_change
  defines "entity \<equiv> lower (strip (c_entity c))" and "op \<equiv> lower (strip (c_op c))"
  assumes reg: "ENTITY_MODELS entity \<noteq> None" "op \<in> set OPS"
    and auth: "ensure_role_at_least (px_role ctx)
        (if requires_manager ctx entity op (c_record c) then ''manager'' else ''member'') = Inr ()"
    and i: "parse_uuid (dget (c_record c) ''id'') ''record.id'' = Inr i"
    and obj: "fetch_obj (px_db ctx) entity i (px_project_id ctx) = Some obj"
    and own: "is_item_entity entity \<Longrightarrow> obj ''type'' = VStr entity"
      "entity = ''assessment'' \<Longrightarrow> obj ''assessor_user_id'' = VUuid (px_user_id ctx)"
    and bv: "c_base_version c = Some v" "1 \<le> v" "v \<noteq> version_of obj"
  shows "\<exists>d. new_outcome e ctx c d (process_new_push_change e ctx c) \<and>
    refused_outcome e ctx c d (process_new_push_change e ctx c) \<and>
    dget d ''status'' = VStr ''conflict'' \<and> dget d ''reason'' = VStr ''version_mismatch'' \<and>
    dget d ''server_version'' = VInt (version_of obj)"
proof -
  note stale = claim_existing_stale [OF own bv(2,3), of "e_now e" "px_db ctx" i "px_project_id ctx"]
  let ?r = "Some (model_to_sync_dict (px_db ctx) entity (model_of entity) obj)"
  have "apply_push_change e ctx c entity op (c_record c) =
      Inl (ConflictError ''version_mismatch'' (Some i) (Some (version_of obj)) ?r)"
    by (simp add: apply_push_change_def apply_upsert_def apply_delete_def i obj bv(1) stale)
  moreover have "authorize_push_change e ctx c entity op (c_record c) = (True, ctx)"
    using auth by (simp add: authorize_push_change_def Let_def)
  ultimately have "process_new_push_change e ctx c = record_push_conflict e ctx c entity op
      ''version_mismatch'' (Some i) (Some (version_of obj)) ?r"
    using reg by (auto simp: process_new_push_change_def Let_def entity_def op_def)
  with conflict_outcome [of e ctx c entity op "''version_mismatch''" "Some i" "Some (version_of obj)" ?r]
  show ?thesis by (auto simp: opt_int_def)
qed

subsection \<open>Deletions need a manager\<close>

lemma dget_mem: "dget d k = VNone \<or> (k, dget d k) \<in> set d"
  by (auto simp: dget_def split: option.splits dest: map_of_SomeD)

lemma parse_record_is_deleted:
  assumes val: "parse_record e entity rcd = Inr val" and m: "(''is_deleted'', v) \<in> set val"
    and coerce: "coerce_ok (e_coerce e)"
    and st: "is_item_entity entity \<Longrightarrow> strip (lower (str_or_empty (dget rcd ''status''))) \<noteq> ''deleted''"
    and fl: "\<not> truthy (dget rcd ''is_deleted'')"
  shows "dhas rcd ''is_deleted'' \<and> (v = VNone \<or> v = VBool False)"
proof -
  from val obtain val0 where val0: "model_dump (e_coerce e) (ec_schema (config_of entity)) rcd = Some val0"
    by (auto simp: parse_record_def split: option.splits)
  have sch: "(k, t, optional) \<in> set (ec_schema (config_of entity)) \<Longrightarrow>
      (k = ''is_deleted'' \<longrightarrow> t = FBool) \<and> (k = ''status'' \<longrightarrow> (\<exists>ss. t = FEnum ss))" for k t optional
    by (auto simp: config_of_def ENTITY_REGISTRY_def SyncItemRecord_def
      ItemShared_fields_def SyncActionRecord_def SyncAssessmentRecord_def
      SyncHelpDeskTicketRecord_def split: if_splits)
  have status: "w = dget rcd ''status''" if "(''status'', w) \<in> set val0" for w
  proof -
    from model_dump_mem [OF val0 that] sch obtain ss where
      d: "dget rcd ''status'' = VNone \<and> w = VNone \<or> e_coerce e (FEnum ss) (dget rcd ''status'') = Some w"
      by blast
    moreover have "field_ok (FEnum ss) w" if "e_coerce e (FEnum ss) (dget rcd ''status'') = Some w"
      using coerce that by (auto simp: coerce_ok_def)
    then have "\<exists>s. w = VStr s" if "e_coerce e (FEnum ss) (dget rcd ''status'') = Some w"
      using that by (cases w) auto
    ultimately show ?thesis using coerce unfolding coerce_ok_def by metis
  qed
  have "dget val0 ''status'' = dget rcd ''status'' \<or> dget val0 ''status'' = VNone"
    using status dget_mem by blast
  with st have "is_item_entity entity \<Longrightarrow> strip (lower (str_or_empty (dget val0 ''status''))) \<noteq> ''deleted''"
    by (auto simp: str_or_empty_def lower_def strip_def lstrip_def rstrip_def)
  moreover have sub: "x \<in> set (dset d k' w) \<Longrightarrow> x = (k', w) \<or> x \<in> set d" for x d k' w
    using set_dset by force
  have pop: "x \<in> set (dpop d k') \<Longrightarrow> x \<in> set d" for x d k' using set_dpop by fastforce
  ultimately have in0: "(''is_deleted'', v) \<in> set val0"
    using val m val0
    by (auto simp: parse_record_def Let_def is_item_entity_def dest!: sub pop split: if_splits)
  from model_dump_mem [OF val0 in0] sch have h: "dhas rcd ''is_deleted''"
    and d: "v = VNone \<or> e_coerce e FBool (dget rcd ''is_deleted'') = Some v" by blast+
  moreover have "v = VBool False" if c: "e_coerce e FBool (dget rcd ''is_deleted'') = Some v"
  proof -
    from c coerce have "field_ok FBool v" by (auto simp: coerce_ok_def)
    then obtain b where "v = VBool b" by (cases v) auto
    with c coerce fl show ?thesis by (cases b) (auto simp: coerce_ok_def)
  qed
  ultimately show ?thesis by blast
qed


lemma update_existing_is_deleted:
  assumes upd: "update_existing e db p entity obj rcd = Inr obj'"
    and flags: "\<And>val v. parse_record e entity rcd = Inr val \<Longrightarrow> (''is_deleted'', v) \<in> set val \<Longrightarrow>
      v = VNone \<or> v = VBool False \<and> obj ''is_deleted'' = VBool False"
  shows "obj' ''is_deleted'' = obj ''is_deleted'' \<or> obj' ''is_deleted'' = VNone"
proof -
  let ?m = "model_of entity" and ?now = "e_now e"
  from upd obtain val where val: "parse_record e entity rcd = Inr val"
    and obj': "obj' = (let r1 = update_fields ?m ?now (client_fields ?m val) obj;
          flag = dget val ''is_deleted'';
          r2 = (if flag = VNone then r1
                else if truthy flag then soft_delete ?m ?now r1
                else r1(''is_deleted'' := VBool False));
          r3 = (recalculate_item_scores ?m r2)(''updated_at'' := VTime ?now) in
      if truthy flag then r3 else r3(''version'' := VInt (version_of r3 + 1)))"
    by (auto simp: update_existing_def Let_def)
  have step: "update_fields m now kvs r ''is_deleted'' = r ''is_deleted'' \<or>
      (''is_deleted'', update_fields m now kvs r ''is_deleted'') \<in> set kvs" for m now kvs r
  proof (induction m now kvs r rule: update_fields.induct)
    case (2 m now k v kvs r)
    let ?r = "if k = ''status'' \<and> status_changeable m then change_status v now r else r(k := v)"
    have "?r ''is_deleted'' = r ''is_deleted'' \<or> k = ''is_deleted'' \<and> ?r ''is_deleted'' = v"
      by (auto simp: change_status_other)
    with 2 show ?case unfolding update_fields.simps by (metis list.set_intros)
  qed simp
  define r1 where "r1 = update_fields ?m ?now (client_fields ?m val) obj"
  have r1: "r1 ''is_deleted'' = obj ''is_deleted'' \<or> r1 ''is_deleted'' = VNone"
    using step [of ?m ?now "client_fields ?m val" obj] flags [OF val] client_fields_mem [of _ _ ?m val]
    unfolding r1_def by metis
  have "dget val ''is_deleted'' = VNone \<or> (''is_deleted'', dget val ''is_deleted'') \<in> set val"
    by (rule dget_mem)
  with flags [OF val] have "dget val ''is_deleted'' = VNone \<or>
      dget val ''is_deleted'' = VBool False \<and> obj ''is_deleted'' = VBool False" by blast
  with r1 show ?thesis
    unfolding obj' r1_def [symmetric] by (auto simp: Let_def recalculate_other)
qed

lemma not_manager_not_required:
  assumes "ensure_role_at_least role (if b then ''manager'' else ''member'') = Inr ()"
    and "rank_or 0 role < 3"
  shows "\<not> b"
  using assms by (auto simp: ensure_role_at_least_def rank_or_def ROLE_RANK_def split: if_splits)

lemma length_replace_fuel: "length (replace_fuel n old [] s) \<le> length s"
proof (induction n arbitrary: s)
  case (Suc n)
  have "length (replace_fuel n old [] (drop (length old) s)) \<le> length s"
    using Suc [of "drop (length old) s"] by simp
  with Suc show ?case by (auto split: list.splits)
qed simp

lemma uuid_of_str_short:
  assumes "length s < 32"
  shows "uuid_of_str s = None"
proof -
  let ?a = "replace_str ''uuid:'' [] (replace_str ''urn:'' [] s)"
  let ?h = "filter (\<lambda>c. c \<noteq> CHR ''-'') (rev (dropWhile is_brace (rev (dropWhile is_brace ?a))))"
  have a: "length ?a \<le> length s" unfolding replace_str_def
    by (meson length_replace_fuel order_trans)
  have "length ?h \<le> length (rev (dropWhile is_brace (rev (dropWhile is_brace ?a))))"
    by (rule length_filter_le)
  also have "\<dots> \<le> length (rev (dropWhile is_brace ?a))"
    using length_dropWhile_le [of is_brace "rev (dropWhile is_brace ?a)"] by simp
  also have "\<dots> \<le> length ?a" by (simp add: length_dropWhile_le)
  finally have "length ?h \<noteq> 32" using a assms by linarith
  then show ?thesis unfolding uuid_of_str_def Let_def by (rule if_P)
qed

lemma maybe_entity_id_parse:
  assumes "parse_uuid v n = Inr i" "\<And>u. v \<noteq> VUuid u" "dget rcd ''id'' = v"
  shows "maybe_entity_id rcd = Some i"
proof -
  from assms(1,2) have p: "uuid_of_str (py_str v) = Some i"
    by (cases v) (auto simp: parse_uuid_def split: option.splits)
  have "truthy v"
  proof (rule ccontr)
    assume "\<not> truthy v"
    then have "length (py_str v) < 32"
      by (cases v) (simp_all add: py_str_def int_str_def nat_str.simps [of 0])
    with p uuid_of_str_short show False by fastforce
  qed
  with p assms(3) show ?thesis by (simp add: maybe_entity_id_def)
qed


text \<open>
  Deletion flags of risks, opportunities and actions: kept on the rows that were there, false
  on new ones.
\<close>

definition flags_kept :: "sdb \<Rightarrow> sdb \<Rightarrow> bool" where
  "flags_kept db db' =
     (\<forall>m \<in> {Item, Action}. \<forall>i. case lookup db m i of
        Some r \<Rightarrow> (\<exists>r'. lookup db' m i = Some r' \<and> r' ''is_deleted'' = r ''is_deleted'')
      | None \<Rightarrow> (\<forall>r'. lookup db' m i = Some r' \<longrightarrow> r' ''is_deleted'' = VBool False))"

lemma flags_kept_lookup: "(\<And>m i. m \<in> {Item, Action} \<Longrightarrow> lookup db' m i = lookup db m i) \<Longrightarrow> flags_kept db db'"
  by (auto simp: flags_kept_def split: option.splits)

lemma row_ok_is_deleted: "row_ok m r \<Longrightarrow> \<exists>b. r ''is_deleted'' = VBool b"
proof -
  assume ok: "row_ok m r"
  have col: "(''is_deleted'', TBoolean, False) \<in> set (columns m)" by (cases m) (simp_all add: SyncMixin_columns_def)
  with ok have "type_ok SQLite TBoolean (r ''is_deleted'')" "r ''is_deleted'' \<noteq> VNone"
    by (auto simp: row_ok_def types_ok_def not_null_ok_def list_all_iff)
  then show ?thesis by (cases "r ''is_deleted''") auto
qed

lemma flush_insert_is_deleted:
  assumes "flush_insert d now m r db = Inr (r', db')" "r ''is_deleted'' \<in> {VNone, VBool False}"
  shows "r' ''is_deleted'' = VBool False"
proof -
  from assms(1) obtain r1 r2 db1 where r1: "compute_score m r = Inr r1"
    and a: "assign_change_sequence m db r1 = Inr (r2, db1)" and r': "r' = insert_defaults now m r2"
    by (auto simp: flush_insert_def Let_def)
  from a have r2: "r2 ''is_deleted'' = r1 ''is_deleted''" by (auto simp: assign_change_sequence_def)
  have "hasattr m ''is_deleted''" "column_default now m ''is_deleted'' = VBool False"
    by (cases m; simp add: hasattr_def column_names_def SyncMixin_columns_def SyncMixin_default_def)+
  with r2 compute_score_frame [OF r1, of "''is_deleted''"] assms(2) show ?thesis
    by (auto simp: r' insert_defaults_def)
qed

lemma create_new_is_deleted:
  assumes new: "create_new e db u p entity i rcd = Inr obj"
    and reg: "entity \<in> fst ` set ENTITY_REGISTRY"
    and flags: "\<And>val v. parse_record e entity rcd = Inr val \<Longrightarrow> (''is_deleted'', v) \<in> set val \<Longrightarrow>
      v = VNone \<or> v = VBool False"
  shows "obj ''is_deleted'' \<in> {VNone, VBool False}"
proof -
  let ?m = "model_of entity"
  from new obtain val0 val common where val0: "parse_record e entity rcd = Inr val0"
    and val: "val = val0 \<or> (\<exists>c. val = dset val0 ''code'' c)"
    and common: "common = [(''id'', VUuid i), (''version'', VInt 1), (''updated_at'', VTime (e_now e)),
                    (''created_at'', VTime (e_now e))] @
                   (if entity \<noteq> ''assessment''
                    then [(''project_id'', VUuid p), (''created_by'', VUuid u)]
                    else []) @ ec_defaults (config_of entity) @
                   (case ec_parent_field (config_of entity) of None \<Rightarrow> []
                    | Some _ \<Rightarrow> [(''assessor_user_id'', VUuid u)])"
    and obj: "obj = recalculate_item_scores ?m (setattrs (client_fields ?m val) (setattrs common (\<lambda>_. VNone)))"
    by (auto simp: create_new_def Let_def split: if_splits option.splits)
  have base: "setattrs common (\<lambda>_. VNone) ''is_deleted'' = VNone"
    using reg by (auto simp: common config_of_def ENTITY_REGISTRY_def)
  have step: "setattrs kvs r k = r k \<or> (k, setattrs kvs r k) \<in> set kvs" for kvs r k
  proof (induction kvs arbitrary: r)
    case (Cons kv kvs)
    obtain k' v where kv: "kv = (k', v)" by (cases kv)
    have "(r(k' := v)) k = r k \<or> k = k' \<and> (r(k' := v)) k = v" by auto
    with Cons [of "r(k' := v)"] show ?case unfolding kv setattrs_simps by (metis list.set_intros)
  qed simp
  have mem: "(''is_deleted'', v) \<in> set val0" if "(''is_deleted'', v) \<in> set val" for v
    using val that set_dset by fastforce
  have "obj ''is_deleted'' = setattrs (client_fields ?m val) (setattrs common (\<lambda>_. VNone)) ''is_deleted''"
    unfolding obj by (rule recalculate_other) simp
  then show ?thesis
    using step [of "client_fields ?m val" "setattrs common (\<lambda>_. VNone)" "''is_deleted''"] base
      client_fields_mem mem flags [OF val0] by (metis insertI1 insert_iff)
qed


lemma mutates_flags:
  assumes "mutates db m i old new db'"
    and "m \<in> {Item, Action} \<Longrightarrow> case lookup db m i of
        Some r \<Rightarrow> (\<exists>r'. lookup db' m i = Some r' \<and> r' ''is_deleted'' = r ''is_deleted'')
      | None \<Rightarrow> (\<forall>r'. lookup db' m i = Some r' \<longrightarrow> r' ''is_deleted'' = VBool False)"
  shows "flags_kept db db'"
  unfolding flags_kept_def
proof (intro ballI allI)
  fix m' j assume m': "m' \<in> {Item, Action}"
  show "case lookup db m' j of
        Some r \<Rightarrow> (\<exists>r'. lookup db' m' j = Some r' \<and> r' ''is_deleted'' = r ''is_deleted'')
      | None \<Rightarrow> (\<forall>r'. lookup db' m' j = Some r' \<longrightarrow> r' ''is_deleted'' = VBool False)"
  proof (cases "(m', j) = (m, i)")
    case True
    then have "m' = m" "j = i" by auto
    with assms(2) m' show ?thesis by blast
  next
    case False
    with assms(1) have "lookup db' m' j = lookup db m' j" by (simp add: mutates_def)
    then show ?thesis by (simp split: option.splits)
  qed
qed

lemma item_action_registry:
  assumes "entity \<in> fst ` set ENTITY_REGISTRY" "model_of entity \<in> {Item, Action}"
  shows "ec_manager_delete (config_of entity)" "ec_parent_field (config_of entity) = None"
  using assms by (auto simp: config_of_def ENTITY_REGISTRY_def)

definition flag_kept :: "sdb \<Rightarrow> model \<Rightarrow> uuid \<Rightarrow> sdb \<Rightarrow> bool" where
  "flag_kept db m i db' = (case lookup db m i of
        Some r \<Rightarrow> (\<exists>r'. lookup db' m i = Some r' \<and> r' ''is_deleted'' = r ''is_deleted'')
      | None \<Rightarrow> (\<forall>r'. lookup db' m i = Some r' \<longrightarrow> r' ''is_deleted'' = VBool False))"

lemma upsert_new_flag:
  assumes inv: "db_inv db" and coerce: "coerce_ok (e_coerce e)" and reg: "entity \<in> fst ` set ENTITY_REGISTRY"
    and i: "parse_uuid (dget rcd ''id'') n = Inr i"
    and new: "create_new e db u p entity i rcd = Inr obj"
    and flags: "\<And>val v. parse_record e entity rcd = Inr val \<Longrightarrow> (''is_deleted'', v) \<in> set val \<Longrightarrow>
      v = VNone \<or> v = VBool False"
    and flush: "flush_insert d now (model_of entity) obj (audit e db u p cid entity i op b obj) = Inr (r', db')"
  shows "flag_kept db (model_of entity) i db'"
proof -
  let ?m = "model_of entity" and ?db1 = "audit e db u p cid entity i op b obj"
  have "obj ''is_deleted'' \<in> {VNone, VBool False}" using create_new_is_deleted [OF new reg] flags by blast
  from flush_insert_is_deleted [OF flush this] have del: "r' ''is_deleted'' = VBool False" .
  have "db_inv ?db1" using inv by simp
  note lk = flush_insert_lookup [OF flush db_invD(2) [OF this]]
  have id: "obj ''id'' = VUuid i" using create_new_effect(1) [OF new coerce i reg] .
  have "lookup db ?m i = None" using lk(3) [of i] id by (cases "lookup db ?m i") auto
  with lk(4) [of ?m i] id del show ?thesis by (simp add: flag_kept_def)
qed

lemma upsert_existing_flag:
  assumes inv: "db_inv db" and coerce: "coerce_ok (e_coerce e)"
    and i: "parse_uuid (dget rcd ''id'') n = Inr i" and obj: "fetch_obj db entity i p = Some obj"
    and claim: "claim_existing now db obj entity i p u bv = Inr (before, dbc)"
    and upd: "update_existing e dbc p entity obj rcd = Inr obj'"
    and flags: "\<And>val v. parse_record e entity rcd = Inr val \<Longrightarrow> (''is_deleted'', v) \<in> set val \<Longrightarrow>
      v = VNone \<or> v = VBool False \<and> obj ''is_deleted'' = VBool False"
    and flush: "flush_update d (model_of entity) obj' (audit e dbc u p cid entity i op b obj') = Inr (r', db')"
  shows "flag_kept db (model_of entity) i db'"
proof -
  let ?m = "model_of entity" and ?db1 = "audit e dbc u p cid entity i op b obj'"
  note ob = fetch_obj_SomeD [OF obj] and cl = claim_existing_Inr(3) [OF claim]
  have keep: "obj' ''is_deleted'' = obj ''is_deleted'' \<or> obj' ''is_deleted'' = VNone"
    using update_existing_is_deleted [OF upd] flags by blast
  have inv1: "db_inv ?db1" using claim_base_version_inv [OF inv cl] by simp
  note eff = update_existing_effect [OF upd coerce i ob(2)]
  have mut: "mutates db ?m i (Some (version_of obj)) (Some (version_of obj + 1)) db'"
    by (rule claimed_update_mutates [OF inv ob cl _ _ flush eff(1,2,5)]) (simp_all add: audit_def)
  note lk = flush_update_lookup [OF flush db_invD(2) [OF inv1]]
  have "lookup db' ?m i \<noteq> None" using mut by (auto simp: mutates_def row_version_def)
  then have r': "lookup db' ?m i = Some r'" using lk(2) [of ?m i] eff(1) ob(2) by auto
  then have "r' \<in> set (tables db' ?m)" by (blast dest: lookup_SomeD)
  moreover have "db_inv db'" using mut by (simp add: mutates_def)
  ultimately have "r' ''is_deleted'' \<noteq> VNone" using row_ok_is_deleted [OF db_invD(4)] by fastforce
  then have "r' ''is_deleted'' = obj ''is_deleted''" using keep lk(1) by auto
  moreover have "lookup db ?m i = Some obj" by (rule lookup_unique [OF db_invD(3) [OF inv] ob])
  ultimately show ?thesis using r' by (simp add: flag_kept_def)
qed

lemma unmanaged_upsert_flag:
  assumes inv: "db_inv (px_db ctx)" and coerce: "coerce_ok (e_coerce e)"
    and reg: "entity \<in> fst ` set ENTITY_REGISTRY" and m: "model_of entity \<in> {Item, Action}"
    and free: "\<not> requires_manager ctx entity ''upsert'' rcd"
    and json: "\<And>u. dget rcd ''id'' \<noteq> VUuid u"
    and app: "apply_upsert e (px_db ctx) u (px_project_id ctx) entity bv rcd cid = Inr (i, pend, db1)"
    and fl: "flush_pending e pend db1 = Inr db2"
  shows "flag_kept (px_db ctx) (model_of entity) i db2"
proof -
  let ?db = "px_db ctx" and ?p = "px_project_id ctx"
  note cfg = item_action_registry [OF reg m]
  have st: "is_item_entity entity \<Longrightarrow> strip (lower (str_or_empty (dget rcd ''status''))) \<noteq> ''deleted''"
    and nf: "\<not> truthy (dget rcd ''is_deleted'')"
    using free cfg(1) by (auto simp: requires_manager_def split: if_splits)
  note flag = parse_record_is_deleted [OF _ _ coerce st nf]
  have i: "parse_uuid (dget rcd ''id'') ''record.id'' = Inr i"
    using app by (auto simp: apply_upsert_def split: option.splits prod.splits)
  show ?thesis
  proof (cases "fetch_obj ?db entity i ?p")
    case None
    with app i fl obtain obj r' where new: "create_new e ?db u ?p entity i rcd = Inr obj"
      and fi: "flush_insert (e_dialect e) (e_now e) (model_of entity) obj
        (audit e ?db u ?p cid entity i ''upsert'' None obj) = Inr (r', db2)"
      by (auto simp: apply_upsert_def)
    show ?thesis by (rule upsert_new_flag [OF inv coerce reg i new _ fi]) (use flag in blast)
  next
    case (Some obj)
    have live: "obj ''is_deleted'' = VBool False" if "dhas rcd ''is_deleted''"
    proof -
      from that free cfg(1) st nf maybe_entity_id_parse [OF i json refl] Some
      have "\<not> truthy (obj ''is_deleted'')" by (auto simp: requires_manager_def split: if_splits)
      with row_ok_is_deleted [OF db_invD(4) [OF inv fetch_obj_SomeD(1) [OF Some]]] show ?thesis by auto
    qed
    from Some app i fl obtain before dbc obj' r' where
      claim: "claim_existing (e_now e) ?db obj entity i ?p u bv = Inr (before, dbc)"
      and upd: "update_existing e dbc ?p entity obj rcd = Inr obj'"
      and fu: "flush_update (e_dialect e) (model_of entity) obj'
        (audit e dbc u ?p cid entity i ''upsert'' (Some before) obj') = Inr (r', db2)"
      by (auto simp: apply_upsert_def)
    show ?thesis
      by (rule upsert_existing_flag [OF inv coerce i Some claim upd _ fu]) (use flag live in blast)
  qed
qed

lemma accepted_flags:
  assumes acc: "accepted_outcome e ctx c d ctx'" and inv: "db_inv (px_db ctx)"
    and coerce: "coerce_ok (e_coerce e)" and role: "rank_or 0 (px_role ctx) < 3"
    and json: "\<And>u. dget (c_record c) ''id'' \<noteq> VUuid u"
  shows "flags_kept (px_db ctx) (px_db ctx')"
proof -
  define entity where "entity = lower (strip (c_entity c))"
  define op where "op = lower (strip (c_op c))"
  let ?m = "model_of entity" and ?rcd = "c_record c" and ?db = "px_db ctx" and ?p = "px_project_id ctx"
  have reg: "entity \<in> fst ` set ENTITY_REGISTRY"
    using acc by (auto simp: accepted_outcome_def Let_def entity_def registered [symmetric])
  have free: "\<not> requires_manager ctx entity op ?rcd"
    using acc not_manager_not_required [OF _ role] by (auto simp: accepted_outcome_def Let_def entity_def op_def)
  have op: "op \<in> {''upsert'', ''delete''}"
    using acc by (auto simp: accepted_outcome_def Let_def op_def OPS_def)
  then consider (nothing) "tables (px_db ctx') = tables ?db"
    | (mut) i old new where "parse_uuid (dget ?rcd ''id'') ''record.id'' = Inr i"
        "mutates ?db ?m i old new (px_db ctx')"
    using accepted_upsert_mutates [OF acc inv coerce entity_def]
      accepted_delete_mutates [OF acc inv entity_def]
    by (fastforce simp: op_def split: option.splits)
  then show ?thesis
  proof cases
    case nothing
    then show ?thesis by (auto simp: lookup_def intro: flags_kept_lookup)
  next
    case mut
    have "flag_kept ?db ?m i (px_db ctx')" if m: "?m \<in> {Item, Action}"
    proof -
      have up: "op = ''upsert''"
        using free op item_action_registry(1) [OF reg m] by (auto simp: requires_manager_def)
      from acc up obtain i' pend db1 db2 where
        app: "apply_upsert e ?db (px_user_id ctx) ?p entity (c_base_version c) ?rcd (c_change_id c)
           = Inr (i', pend, db1)"
        and fl: "flush_pending e pend db1 = Inr db2" and t: "tables (px_db ctx') = tables db2"
        by (auto simp: accepted_outcome_def Let_def entity_def op_def)
      have "i' = i" using app mut(1) by (auto simp: apply_upsert_def split: option.splits prod.splits)
      moreover have "lookup (px_db ctx') ?m i = lookup db2 ?m i" by (simp add: lookup_def t)
      ultimately show ?thesis
        using unmanaged_upsert_flag [OF inv coerce reg m free [unfolded up] json app fl]
        by (simp add: flag_kept_def split: option.splits)
    qed
    then show ?thesis by (intro mutates_flags [OF mut(2)]) (simp add: flag_kept_def)
  qed
qed


lemma push_step_flags:
  assumes step: "push_step e c ctx = Inr ctx'" and wf: "push_wf ctx" and inv: "db_inv (px_db ctx)"
    and coerce: "coerce_ok (e_coerce e)" and role: "rank_or 0 (px_role ctx) < 3"
    and json: "\<And>u. dget (c_record c) ''id'' \<noteq> VUuid u"
  shows "flags_kept (px_db ctx) (px_db ctx')"
proof (cases "seen ctx (c_change_id c)")
  case True
  from record_duplicate_outcome [OF wf this, of e] step True show ?thesis
    by (auto simp: push_step_def dup_outcome_def intro: flags_kept_lookup)
next
  case False
  let ?ctx = "ctx\<lparr>px_batch_hashes := (px_batch_hashes ctx)(c_change_id c \<mapsto> payload_hash e c)\<rparr>"
  obtain d where "new_outcome e ?ctx c d (process_new_push_change e ?ctx c)"
    using process_new_outcome by blast
  moreover have "ctx' = process_new_push_change e ?ctx c" using step False by (simp add: push_step_def)
  ultimately have "accepted_outcome e ?ctx c d ctx' \<or> tables (px_db ctx') = tables (px_db ctx)"
    by (auto simp: new_outcome_def refused_outcome_def)
  then show ?thesis
    using accepted_flags [of e ?ctx c d ctx'] inv coerce role json
    by (auto simp: lookup_def intro: flags_kept_lookup)
qed

lemma flags_kept_trans:
  assumes "flags_kept a b" "flags_kept b c"
  shows "flags_kept a c"
  unfolding flags_kept_def
proof (intro ballI allI)
  fix m i assume m: "m \<in> {Item, Action}"
  have ab: "flag_kept a m i b" and bc: "flag_kept b m i c"
    using assms m unfolding flags_kept_def flag_kept_def by blast+
  then have "flag_kept a m i c"
    by (auto simp: flag_kept_def split: option.splits)
  then show "case lookup a m i of
        Some r \<Rightarrow> (\<exists>r'. lookup c m i = Some r' \<and> r' ''is_deleted'' = r ''is_deleted'')
      | None \<Rightarrow> (\<forall>r'. lookup c m i = Some r' \<longrightarrow> r' ''is_deleted'' = VBool False)"
    unfolding flag_kept_def .
qed

lemma push_loop_flags:
  "\<lbrakk>push_loop e cs ctx = Inr ctx'; push_wf ctx; db_inv (px_db ctx); coerce_ok (e_coerce e);
    rank_or 0 (px_role ctx) < 3; \<forall>c \<in> set cs. \<forall>u. dget (c_record c) ''id'' \<noteq> VUuid u\<rbrakk> \<Longrightarrow>
   flags_kept (px_db ctx) (px_db ctx')"
proof (induction cs arbitrary: ctx)
  case Nil
  then show ?case by (auto intro: flags_kept_lookup)
next
  case (Cons c cs)
  from Cons.prems(1) obtain ctx1 where s: "push_step e c ctx = Inr ctx1" and l: "push_loop e cs ctx1 = Inr ctx'"
    by auto
  have wf: "push_wf ctx1" and bk: "bookkept ctx ctx1"
    using push_step_outcome [OF Cons.prems(2), of e c] s by auto
  have "flags_kept (px_db ctx) (px_db ctx1)"
    using push_step_flags [OF s Cons.prems(2-5)] Cons.prems(6) by simp
  moreover have "flags_kept (px_db ctx1) (px_db ctx')"
    using Cons.IH [OF l wf push_step_inv [OF s Cons.prems(2-4)] Cons.prems(4)] bk Cons.prems(5,6)
    by (simp add: bookkept_def)
  ultimately show ?case by (rule flags_kept_trans)
qed

end
