(* ===== verification/Change_Feed.thy ===== *)
theory Change_Feed
  imports Prelude "HOL-Library.Multiset"
begin

section \<open>Paging a change feed as an interface\<close>

text \<open>
  A feed is a set of rows with distinct sequence numbers. A page returns, in order, the first
  rows after a cursor and up to a snapshot, says whether more follow, and gives the next
  cursor. The client follows the cursors until no more rows follow while writers keep moving
  rows beyond the snapshot. From the page's contract alone: on an unchanging feed the client
  collects exactly the rows of the interval, in order, each once, after finitely many pages;
  on a feed that changes between pages it still receives every row that has not moved on.
\<close>

definition slice :: "('r \<Rightarrow> int) \<Rightarrow> 'r list \<Rightarrow> int \<Rightarrow> int \<Rightarrow> 'r list" where
  "slice key feed lo hi = sort_key key (filter (\<lambda>r. lo < key r \<and> key r \<le> hi) feed)"

lemma set_slice: "set (slice key feed lo hi) = {r \<in> set feed. lo < key r \<and> key r \<le> hi}"
  by (auto simp: slice_def)

lemma distinct_keys_sorted_filter:
  assumes "distinct (map key feed)"
  shows "distinct (map key (sort_key key (filter P feed)))"
proof -
  have "distinct (map key (filter P feed))" using assms by (rule distinct_map_filter)
  moreover have "mset (map key (sort_key key (filter P feed))) = mset (map key (filter P feed))" by simp
  ultimately show ?thesis by (metis mset_eq_imp_distinct_iff)
qed

lemma sorted_slice: "sorted (map key (slice key feed lo hi))"
  by (simp add: slice_def)

lemma slice_strict:
  "distinct (map key feed) \<Longrightarrow> sorted_wrt (<) (map key (slice key feed lo hi))"
  using distinct_keys_sorted_filter [of key feed] sorted_slice [of key feed lo hi]
  by (simp add: slice_def strict_sorted_iff)

text \<open>What follows a page is the slice after the page's last row.\<close>

lemma slice_after_prefix:
  assumes "distinct (map key feed)" "slice key feed lo hi = rows @ rest" "rows \<noteq> []"
  shows "slice key feed (key (last rows)) hi = rest"
proof -
  let ?s = "slice key feed lo hi" and ?m = "key (last rows)"
  have strict: "sorted_wrt (<) (map key (rows @ rest))" 
    using slice_strict [OF assms(1), of lo hi] by (simp only: assms(2))
  have "last rows \<in> set ?s" using assms(3) by (simp add: assms(2))
  then have lo: "lo < ?m" unfolding set_slice by simp
  have "(?m < key r \<and> key r \<le> hi) = ((lo < key r \<and> key r \<le> hi) \<and> ?m < key r)" for r
    using lo by auto
  then have "slice key feed ?m hi = filter (\<lambda>r. ?m < key r) ?s"
    unfolding slice_def filter_sort filter_filter by simp
  also have "\<dots> = rest"
  proof -
    have "\<not> ?m < key r" if "r \<in> set rows" for r
    proof -
      from assms(3) obtain init where rows: "rows = init @ [last rows]" by (metis append_butlast_last_id)
      with that consider "r = last rows" | "r \<in> set init" by (metis Un_iff empty_iff empty_set set_ConsD set_append)
      then show ?thesis
      proof cases
        case 2
        have "sorted_wrt (<) (map key (init @ [last rows]))"
          using strict rows by (metis map_append sorted_wrt_append)
        with 2 show ?thesis by (auto simp: sorted_wrt_append)
      qed simp
    qed
    moreover have "?m < key r" if "r \<in> set rest" for r
      using strict that assms(3) by (auto simp: sorted_wrt_append)
    ultimately show ?thesis by (simp add: assms(2))
  qed
  finally show ?thesis .
qed

locale change_feed =
  fixes key :: "'r \<Rightarrow> int"
    and page :: "'r list \<Rightarrow> nat \<Rightarrow> int \<Rightarrow> int \<Rightarrow> 'r list \<times> bool \<times> int"
  assumes page_prefix:
      "1 \<le> limit \<Longrightarrow> page feed limit snapshot cursor = (rows, more, cursor') \<Longrightarrow>
       \<exists>rest. slice key feed cursor snapshot = rows @ rest \<and> (more \<longleftrightarrow> rest \<noteq> [])"
    and page_progress:
      "1 \<le> limit \<Longrightarrow> page feed limit snapshot cursor = (rows, more, cursor') \<Longrightarrow> more \<Longrightarrow> rows \<noteq> []"
    and page_cursor:
      "page feed limit snapshot cursor = (rows, more, cursor') \<Longrightarrow>
       cursor' = (if rows = [] then cursor else key (last rows))"
begin

text \<open>The client's loop, with fuel for the number of requests.\<close>

fun collect :: "nat \<Rightarrow> 'r list \<Rightarrow> nat \<Rightarrow> int \<Rightarrow> int \<Rightarrow> 'r list option" where
  "collect 0 feed limit snapshot cursor = None"
| "collect (Suc n) feed limit snapshot cursor =
     (case page feed limit snapshot cursor of
        (rows, more, cursor') \<Rightarrow>
          if more then map_option ((@) rows) (collect n feed limit snapshot cursor') else Some rows)"

lemma collect_slice:
  assumes "distinct (map key feed)" "1 \<le> limit" "length (slice key feed cursor snapshot) < n"
  shows "collect n feed limit snapshot cursor = Some (slice key feed cursor snapshot)"
  using assms(3)
proof (induction n arbitrary: cursor)
  case (Suc n)
  obtain rows more cursor' where page: "page feed limit snapshot cursor = (rows, more, cursor')"
    by (metis prod_cases3)
  from page_prefix [OF assms(2) page] obtain rest where
    rest: "slice key feed cursor snapshot = rows @ rest" and more: "more \<longleftrightarrow> rest \<noteq> []" by blast
  show ?case
  proof (cases more)
    case True
    have ne: "rows \<noteq> []" using page_progress [OF assms(2) page True] .
    with page_cursor [OF page] have "cursor' = key (last rows)" by simp
    then have "slice key feed cursor' snapshot = rest"
      using slice_after_prefix [OF assms(1) rest ne] by simp
    moreover have "length rest < n" using Suc.prems rest ne by (cases rows) auto
    ultimately show ?thesis using Suc.IH [of cursor'] page True rest by simp
  next
    case False
    with more page rest show ?thesis by simp
  qed
qed simp

text \<open>The same loop when each request sees a later state of the feed.\<close>

fun collect_live :: "'r list list \<Rightarrow> nat \<Rightarrow> int \<Rightarrow> int \<Rightarrow> 'r list option" where
  "collect_live [] limit snapshot cursor = None"
| "collect_live (feed # feeds) limit snapshot cursor =
     (case page feed limit snapshot cursor of
        (rows, more, cursor') \<Rightarrow>
          if more then map_option ((@) rows) (collect_live feeds limit snapshot cursor') else Some rows)"

definition moves_on :: "int \<Rightarrow> 'r list \<Rightarrow> 'r list \<Rightarrow> bool" where
  "moves_on snapshot feed feed' = (\<forall>r \<in> set feed'. key r \<le> snapshot \<longrightarrow> r \<in> set feed)"

lemma collect_live_complete:
  assumes "1 \<le> limit" "\<forall>feed \<in> set feeds. distinct (map key feed) \<and> moves_on snapshot feed final"
    and "collect_live feeds limit snapshot cursor = Some got"
    and "r \<in> set final" "cursor < key r" "key r \<le> snapshot"
  shows "r \<in> set got"
  using assms(2-5)
proof (induction feeds arbitrary: cursor got)
  case (Cons feed feeds)
  obtain rows more cursor' where page: "page feed limit snapshot cursor = (rows, more, cursor')"
    by (metis prod_cases3)
  from page_prefix [OF assms(1) page] obtain rest where
    rest: "slice key feed cursor snapshot = rows @ rest" and more: "more \<longleftrightarrow> rest \<noteq> []" by blast
  have dist: "distinct (map key feed)" and "r \<in> set feed"
    using Cons.prems(1,3) assms(6) by (auto simp: moves_on_def)
  with Cons.prems(4) assms(6) have r: "r \<in> set rows \<or> r \<in> set rest"
    using set_slice [of key feed cursor snapshot] rest by auto
  show ?case
  proof (cases more)
    case False
    with r more page Cons.prems(2) show ?thesis by auto
  next
    case True
    have ne: "rows \<noteq> []" using page_progress [OF assms(1) page True] .
    from True page Cons.prems(2) obtain got' where got': "collect_live feeds limit snapshot cursor' = Some got'"
      and got: "got = rows @ got'" by auto
    show ?thesis
    proof (cases "r \<in> set rows")
      case False
      with r have "r \<in> set rest" by simp
      then have "key (last rows) < key r"
        using slice_after_prefix [OF dist rest ne] set_slice [of key feed "key (last rows)" snapshot] by auto
      with page_cursor [OF page] ne have "cursor' < key r" by simp
      from Cons.IH [OF _ got' Cons.prems(3) this] Cons.prems(1) show ?thesis by (simp add: got)
    qed (simp add: got)
  qed
qed simp

end

end
