(* ===== verification/Server_Pull.thy ===== *)
theory Server_Pull
  imports Server_Push Change_Feed
begin

section \<open>Pulling a project's changes (sync/pull.py)\<close>

text \<open>
  The change feed: each entity kind is paged by \<open>change_sequence\<close> after the client's cursor and
  up to a snapshot of the project's counter. A page's rows carry the type of the parent item
  for the joined queries (actions and assessments) and \<open>None\<close> otherwise.
\<close>

type_synonym feed_row = "row \<times> pyval"

record pull_ctx =
  pc_db :: sdb
  pc_limit :: nat
  pc_hard_cap :: "nat option"
  pc_cursors :: "(string \<times> string) list"
  pc_since_sequence :: int
  pc_snapshot_sequence :: int

record pull_page =
  pg_rows :: "feed_row list"
  pg_has_more :: bool
  pg_cursor :: string

definition parse_sequence_cursor :: "string option \<Rightarrow> int \<Rightarrow> int \<Rightarrow> int result" where
  "parse_sequence_cursor cur default_since snapshot_sequence =
     (case cur of
        None \<Rightarrow> Inr default_since
      | Some s \<Rightarrow>
          if s = [] then Inr default_since
          else case partition_on (CHR '':'') s of
                 (prefix, True, v) \<Rightarrow>
                   (case int_parse 10 v of
                      None \<Rightarrow> Inl (http_error 400 ''Invalid cursor'')
                    | Some sequence \<Rightarrow>
                        if prefix \<noteq> ''seq'' \<or>
                           \<not> (default_since \<le> sequence \<and> sequence \<le> snapshot_sequence)
                        then Inl (http_error 400 ''Invalid cursor'')
                        else Inr sequence)
               | _ \<Rightarrow> Inl (http_error 400 ''Invalid cursor''))"

definition seq_cursor :: "int \<Rightarrow> string" where
  "seq_cursor since = ''seq:'' @ int_str since"

text \<open>The limit is a number; zero (possible only as the configured cap) means no limit.\<close>

definition prepare_pull_context ::
  "nat \<Rightarrow> sdb \<Rightarrow> uuid \<Rightarrow> nat option \<Rightarrow> (string \<times> string) list \<Rightarrow> int \<Rightarrow> int option \<Rightarrow> pull_ctx result" where
  "prepare_pull_context max_per_entity db project_id limit_per_entity cursors since_sequence snapshot_sequence =
     (case last_sequence db project_id of
        None \<Rightarrow> Inl (http_error 500 ''Project synchronization state is missing'')
      | Some current_sequence \<Rightarrow>
          let snapshot = (case snapshot_sequence of None \<Rightarrow> current_sequence | Some s \<Rightarrow> s) in
          rbind (rguard (0 \<le> since_sequence) (http_error 400 ''since_sequence must be nonnegative'')) (\<lambda>_.
          rbind (rguard (since_sequence \<le> snapshot)
                   (http_error 400 ''snapshot_sequence precedes since_sequence'')) (\<lambda>_.
          rbind (rguard (snapshot \<le> current_sequence)
                   (http_error 400 ''snapshot_sequence is ahead of the server'')) (\<lambda>_.
          Inr \<lparr>pc_db = db,
               pc_limit = (case limit_per_entity of None \<Rightarrow> max_per_entity | Some n \<Rightarrow> n),
               pc_hard_cap = (case limit_per_entity of None \<Rightarrow> Some max_per_entity | Some n \<Rightarrow> None),
               pc_cursors = cursors, pc_since_sequence = since_sequence,
               pc_snapshot_sequence = snapshot\<rparr>))))"

definition frow_seq :: "feed_row \<Rightarrow> int" where
  "frow_seq r = seq_of (fst r)"

text \<open>The query of one page and its bookkeeping, after the cursor was parsed.\<close>

definition page_rows :: "feed_row list \<Rightarrow> nat \<Rightarrow> int \<Rightarrow> int \<Rightarrow> feed_row list \<times> bool \<times> int" where
  "page_rows source limit snapshot since =
     (let selected = sort_key frow_seq
            (filter (\<lambda>r. since < frow_seq r \<and> frow_seq r \<le> snapshot) source);
          rows0 = (if limit \<noteq> 0 then take (limit + 1) selected else selected);
          has_more = (limit \<noteq> 0 \<and> limit < length rows0);
          rows = (if has_more then take limit rows0 else rows0);
          since' = (if rows = [] then since else frow_seq (last rows)) in
      (rows, has_more, since'))"

definition pull_page :: "pull_ctx \<Rightarrow> string \<Rightarrow> feed_row list \<Rightarrow> pull_page result" where
  "pull_page ctx cursor_key source =
     rbind (parse_sequence_cursor (map_of (pc_cursors ctx) cursor_key) (pc_since_sequence ctx)
              (pc_snapshot_sequence ctx)) (\<lambda>since.
     let (rows, has_more, since') =
           page_rows source (pc_limit ctx) (pc_snapshot_sequence ctx) since in
     Inr \<lparr>pg_rows = rows, pg_has_more = has_more, pg_cursor = seq_cursor since'\<rparr>)"

subsection \<open>The five queries\<close>

definition items_source :: "sdb \<Rightarrow> uuid \<Rightarrow> string \<Rightarrow> feed_row list" where
  "items_source db project_id item_type =
     map (\<lambda>r. (r, VNone))
       (filter (\<lambda>r. r ''project_id'' = VUuid project_id \<and> r ''type'' = VStr item_type) (tables db Item))"

text \<open>\<open>select(model, Item.type).join(Item, model.item_id == Item.id)\<close>.\<close>

definition with_item_type :: "sdb \<Rightarrow> model \<Rightarrow> (row \<Rightarrow> row \<Rightarrow> bool) \<Rightarrow> feed_row list" where
  "with_item_type db m keep =
     concat (map (\<lambda>r. map (\<lambda>i. (r, i ''type''))
       (filter (\<lambda>i. r ''item_id'' = i ''id'' \<and> keep r i) (tables db Item))) (tables db m))"

definition actions_source :: "sdb \<Rightarrow> uuid \<Rightarrow> feed_row list" where
  "actions_source db project_id = with_item_type db Action (\<lambda>r i. r ''project_id'' = VUuid project_id)"

definition assessments_source :: "sdb \<Rightarrow> uuid \<Rightarrow> feed_row list" where
  "assessments_source db project_id =
     with_item_type db Assessment (\<lambda>r i. i ''project_id'' = VUuid project_id)"

definition tickets_source :: "sdb \<Rightarrow> uuid \<Rightarrow> feed_row list" where
  "tickets_source db project_id =
     map (\<lambda>r. (r, VNone)) (filter (\<lambda>r. r ''project_id'' = VUuid project_id) (tables db HelpDeskTicket))"

definition serialize_ticket :: "row \<Rightarrow> dict" where
  "serialize_ticket r = map (\<lambda>k. (k, json_value (r k)))
     [''id'', ''project_id'', ''title'', ''description'', ''category'', ''priority'', ''status'',
      ''reporter_email'', ''created_at'', ''updated_at'', ''version'', ''is_deleted'']"

record pull_response =
  pr_server_time :: time
  pr_server_sequence :: int
  pr_risks :: "dict list"
  pr_opportunities :: "dict list"
  pr_actions :: "dict list"
  pr_assessments :: "dict list"
  pr_helpdesk_tickets :: "dict list"
  pr_has_more :: "(string \<times> bool) list"
  pr_cursors :: "(string \<times> string) list"

definition pull_since ::
  "nat \<Rightarrow> time \<Rightarrow> sdb \<Rightarrow> uuid \<Rightarrow> int \<Rightarrow> nat option \<Rightarrow> (string \<times> string) list \<Rightarrow> int option \<Rightarrow>
   pull_response result" where
  "pull_since max_per_entity now db project_id since_sequence limit_per_entity cursors snapshot_sequence =
     rbind (prepare_pull_context max_per_entity db project_id limit_per_entity cursors since_sequence
              snapshot_sequence) (\<lambda>ctx.
     rbind (pull_page ctx ''risks'' (items_source db project_id ''risk'')) (\<lambda>risks.
     rbind (pull_page ctx ''opportunities'' (items_source db project_id ''opportunity'')) (\<lambda>opportunities.
     rbind (pull_page ctx ''actions'' (actions_source db project_id)) (\<lambda>actions.
     rbind (pull_page ctx ''assessments'' (assessments_source db project_id)) (\<lambda>assessments.
     rbind (pull_page ctx ''helpdesk_tickets'' (tickets_source db project_id)) (\<lambda>tickets.
     let pages = [(''risks'', risks), (''opportunities'', opportunities), (''actions'', actions),
                  (''assessments'', assessments), (''helpdesk_tickets'', tickets)] in
     rbind (rguard (\<not> (pc_hard_cap ctx \<noteq> None \<and> pc_hard_cap ctx \<noteq> Some 0 \<and>
                       list_ex (\<lambda>(k, page). pg_has_more page) pages))
              (http_error 413 ''Sync pull too large. Paginate using limit_per_entity + cursors.'')) (\<lambda>_.
     Inr \<lparr>pr_server_time = now, pr_server_sequence = pc_snapshot_sequence ctx,
          pr_risks = map (model_to_dict Item \<circ> fst) (pg_rows risks),
          pr_opportunities = map (model_to_dict Item \<circ> fst) (pg_rows opportunities),
          pr_actions = serialize_action_rows (pg_rows actions),
          pr_assessments = serialize_assessment_rows (pg_rows assessments),
          pr_helpdesk_tickets = map (serialize_ticket \<circ> fst) (pg_rows tickets),
          pr_has_more = (if limit_per_entity = None then []
                         else map (\<lambda>(k, page). (k, pg_has_more page)) pages),
          pr_cursors = (if limit_per_entity = None then []
                        else map (\<lambda>(k, page). (k, pg_cursor page)) pages)\<rparr>)))))))"

text \<open>The two routes (api/routers/sync_routes.py).\<close>

definition sync_pull ::
  "nat \<Rightarrow> time \<Rightarrow> sdb \<Rightarrow> uuid \<Rightarrow> uuid \<Rightarrow> uuid \<Rightarrow> int \<Rightarrow> nat option \<Rightarrow> (string \<times> string) list \<Rightarrow> int option \<Rightarrow>
   pull_response result" where
  "sync_pull max_per_entity now db user_id project_id payload_project_id since_sequence limit_per_entity
     cursors snapshot_sequence =
     rbind (ensure_member db project_id user_id) (\<lambda>_.
     rbind (rguard (payload_project_id = project_id) (http_error 400 ''project_id mismatch'')) (\<lambda>_.
     pull_since max_per_entity now db project_id since_sequence limit_per_entity cursors snapshot_sequence))"

definition sync_push ::
  "env \<Rightarrow> bool \<Rightarrow> sdb \<Rightarrow> uuid \<Rightarrow> uuid \<Rightarrow> uuid \<Rightarrow> sync_change list \<Rightarrow> (sdb \<times> dict list) result" where
  "sync_push e commit_ok db user_id project_id payload_project_id changes =
     rbind (require_min_role db project_id user_id ''member'') (\<lambda>_.
     rbind (rguard (payload_project_id = project_id) (http_error 400 ''project_id mismatch'')) (\<lambda>_.
     push_changes e commit_ok db user_id project_id changes))"


section \<open>Facts about pulls\<close>

subsection \<open>Pages implement the feed interface\<close>

lemma page_rows_eq:
  assumes "1 \<le> limit"
  shows "page_rows source limit snapshot since =
    (let s = slice frow_seq source since snapshot; rows = take limit s in
     (rows, limit < length s, if rows = [] then since else frow_seq (last rows)))"
  using assms by (auto simp: page_rows_def Let_def slice_def min_def)

interpretation pull_feed: change_feed frow_seq page_rows
proof
  fix limit :: nat and source snapshot since rows more since'
  assume limit: "1 \<le> limit" and page: "page_rows source limit snapshot since = (rows, more, since')"
  show "\<exists>rest. slice frow_seq source since snapshot = rows @ rest \<and> more = (rest \<noteq> [])"
    using page limit
    by (intro exI [of _ "drop limit (slice frow_seq source since snapshot)"])
       (auto simp: page_rows_eq Let_def)
  show "rows \<noteq> []" if more using page limit that by (auto simp: page_rows_eq Let_def)
next
  fix limit :: nat and source snapshot since rows more since'
  assume "page_rows source limit snapshot since = (rows, more, since')"
  then show "since' = (if rows = [] then since else frow_seq (last rows))"
    by (auto simp: page_rows_def Let_def)
qed

subsection \<open>Cursors\<close>

lemma partition_on_append:
  "sep \<notin> set a \<Longrightarrow> partition_on sep (a @ sep # b) = (a, True, b)"
proof (induction a)
  case Nil
  then show ?case by (simp add: partition_on_def)
next
  case (Cons c a)
  then show ?case by (auto simp: partition_on_def Let_def split: list.splits)
qed

lemma cursor_parses:
  assumes "0 \<le> c" "since \<le> c" "c \<le> snapshot"
  shows "parse_sequence_cursor (Some (seq_cursor c)) since snapshot = Inr c"
proof -
  have "partition_on (CHR '':'') (seq_cursor c) = (''seq'', True, nat_str (nat c))"
    using partition_on_append [of "CHR '':''" "''seq''" "nat_str (nat c)"] assms(1)
    by (simp add: seq_cursor_def int_str_def)
  with assms show ?thesis by (simp add: parse_sequence_cursor_def seq_cursor_def)
qed

lemma parse_sequence_cursor_bounds:
  assumes "parse_sequence_cursor cur since snapshot = Inr c" "since \<le> snapshot"
  shows "since \<le> c \<and> c \<le> snapshot"
  using assms
  by (auto simp: parse_sequence_cursor_def split: option.splits if_splits prod.splits bool.splits)

subsection \<open>The sources have distinct sequence numbers\<close>

lemma project_rows_distinct:
  assumes "feed_inv db"
  shows "distinct (map seq_of (filter (\<lambda>r. row_project db m r = VUuid p) (tables db m)))"
proof -
  from assms have ids: "distinct (map (\<lambda>r. r ''id'') (tables db m))" and u: "seq_unique db"
    by (auto simp: feed_inv_def ids_distinct_def)
  let ?t = "filter (\<lambda>r. row_project db m r = VUuid p) (tables db m)"
  have "distinct ?t" using ids by (simp add: distinct_map)
  moreover have "inj_on seq_of (set ?t)"
  proof (rule inj_onI)
    fix r r' assume "r \<in> set ?t" "r' \<in> set ?t" "seq_of r = seq_of r'"
    with u have "r ''id'' = r' ''id''" unfolding seq_unique_def by auto
    with ids \<open>r \<in> set ?t\<close> \<open>r' \<in> set ?t\<close> show "r = r'" by (auto simp: distinct_map inj_on_def)
  qed
  ultimately show ?thesis by (simp add: distinct_map)
qed

lemma distinct_map_subfilter:
  assumes "distinct (map f (filter Q xs))" "\<And>x. x \<in> set xs \<Longrightarrow> P x \<Longrightarrow> Q x"
  shows "distinct (map f (filter P xs))"
proof -
  have "filter P xs = filter P (filter Q xs)"
    unfolding filter_filter by (rule filter_cong) (use assms(2) in auto)
  with assms(1) show ?thesis by (metis distinct_map_filter)
qed

lemma concat_if_singleton: "concat (map (\<lambda>x. if P x then [f x] else []) xs) = map f (filter P xs)"
  by (induction xs) auto

lemma with_item_type_seqs:
  assumes "ids_distinct db"
  shows "map frow_seq (with_item_type db m keep) =
    map seq_of (filter (\<lambda>r. \<exists>i \<in> set (tables db Item). r ''item_id'' = i ''id'' \<and> keep r i) (tables db m))"
proof -
  have one: "map frow_seq (map (\<lambda>i. (r, i ''type'')) (filter (\<lambda>i. r ''item_id'' = i ''id'' \<and> keep r i) (tables db Item)))
    = (if \<exists>i \<in> set (tables db Item). r ''item_id'' = i ''id'' \<and> keep r i then [seq_of r] else [])"
    (is "map frow_seq (map ?g (filter ?P ?t)) = _") for r
  proof -
    have "count_where ?P ?t \<le> 1"
      by (rule count_where_unique [of "\<lambda>r. r ''id''" _ _ "r ''item_id''"])
         (use assms in \<open>auto simp: ids_distinct_def\<close>)
    then have len: "length (filter ?P ?t) \<le> 1" by (simp add: count_where_def)
    show ?thesis
    proof (cases "filter ?P ?t")
      case Nil
      then show ?thesis by (auto simp: filter_empty_conv)
    next
      case (Cons a as)
      with len have "filter ?P ?t = [a]" by simp
      moreover have "a \<in> set (filter ?P ?t)" using Cons by simp
      then have "\<exists>i \<in> set ?t. ?P i" by auto
      ultimately show ?thesis by (simp add: frow_seq_def)
    qed
  qed
  show ?thesis
    unfolding with_item_type_def map_concat
    using one by (simp add: o_def concat_if_singleton)
qed

lemma source_distinct:
  assumes "feed_inv db"
  shows "distinct (map frow_seq (items_source db p item_type))"
    "distinct (map frow_seq (tickets_source db p))"
    "distinct (map frow_seq (actions_source db p))"
    "distinct (map frow_seq (assessments_source db p))"
proof -
  have ids: "ids_distinct db" using assms by (simp add: feed_inv_def)
  note base = project_rows_distinct [OF assms]
  have fs: "frow_seq \<circ> (\<lambda>r. (r, VNone)) = seq_of" by (auto simp: frow_seq_def)
  show "distinct (map frow_seq (items_source db p item_type))"
    unfolding items_source_def map_map fs
    by (rule distinct_map_subfilter [OF base [of Item p]]) (simp add: row_project_def sync_entity_project_id_def)
  show "distinct (map frow_seq (tickets_source db p))"
    unfolding tickets_source_def map_map fs
    by (rule distinct_map_subfilter [OF base [of HelpDeskTicket p]])
       (simp add: row_project_def sync_entity_project_id_def)
  show "distinct (map frow_seq (actions_source db p))"
    unfolding actions_source_def with_item_type_seqs [OF ids]
    by (rule distinct_map_subfilter [OF base [of Action p]])
       (auto simp: row_project_def sync_entity_project_id_def)
  show "distinct (map frow_seq (assessments_source db p))"
    unfolding assessments_source_def with_item_type_seqs [OF ids]
  proof (rule distinct_map_subfilter [OF base [of Assessment p]], elim bexE conjE)
    fix r i assume i: "i \<in> set (tables db Item)" "r ''item_id'' = i ''id''" "i ''project_id'' = VUuid p"
    then have "first_where (\<lambda>x. x ''id'' = r ''item_id'') (tables db Item) = Some i"
      using ids by (intro first_where_unique [of "\<lambda>r. r ''id''"]) (auto simp: ids_distinct_def)
    with i(3) show "row_project db Assessment r = VUuid p"
      by (simp add: row_project_def sync_entity_project_id_def)
  qed
qed


subsection \<open>How pushes move the feed\<close>

text \<open>
  A write only adds rows beyond the counters it started from, never moves a row to another
  project and never lowers a counter. Hence what a paging client has not yet fetched is still
  there or has moved past its snapshot.
\<close>

definition feed_advances :: "sdb \<Rightarrow> sdb \<Rightarrow> bool" where
  "feed_advances db db' =
     ((\<forall>q. (last_sequence db q = None) = (last_sequence db' q = None)) \<and>
      (\<forall>q l l'. last_sequence db q = Some l \<longrightarrow> last_sequence db' q = Some l' \<longrightarrow> l \<le> l') \<and>
      (\<forall>m. \<forall>x \<in> set (tables db' m). x \<in> set (tables db m) \<or>
         (\<exists>q l. row_project db' m x = VUuid q \<and> last_sequence db q = Some l \<and> l < seq_of x)) \<and>
      (\<forall>m x q. row_project db m x = VUuid q \<longrightarrow> row_project db' m x = VUuid q))"

lemma feed_advances_same:
  assumes "tables db' = tables db" "sync_project_state db' = sync_project_state db"
  shows "feed_advances db db'"
  using assms by (simp add: feed_advances_def last_sequence_def row_project_def sync_entity_project_id_def)

lemma feed_advances_last:
  assumes "feed_advances a b"
  shows "last_sequence a q = Some l \<Longrightarrow> \<exists>l'. last_sequence b q = Some l' \<and> l \<le> l'"
    "last_sequence b q = Some l' \<Longrightarrow> \<exists>l. last_sequence a q = Some l \<and> l \<le> l'"
proof -
  from assms have d: "(last_sequence a q = None) = (last_sequence b q = None)"
    and le: "\<And>l l'. last_sequence a q = Some l \<Longrightarrow> last_sequence b q = Some l' \<Longrightarrow> l \<le> l'"
    unfolding feed_advances_def by blast+
  show "last_sequence a q = Some l \<Longrightarrow> \<exists>l'. last_sequence b q = Some l' \<and> l \<le> l'"
    using d le by (cases "last_sequence b q") auto
  show "last_sequence b q = Some l' \<Longrightarrow> \<exists>l. last_sequence a q = Some l \<and> l \<le> l'"
    using d le by (cases "last_sequence a q") auto
qed

lemma feed_advances_rows:
  assumes "feed_advances a b" "x \<in> set (tables b m)"
  shows "x \<in> set (tables a m) \<or>
    (\<exists>q l. row_project b m x = VUuid q \<and> last_sequence a q = Some l \<and> l < seq_of x)"
  using assms unfolding feed_advances_def by blast

lemma feed_advances_project:
  "feed_advances a b \<Longrightarrow> row_project a m x = VUuid q \<Longrightarrow> row_project b m x = VUuid q"
  unfolding feed_advances_def by blast

lemma feed_advances_trans:
  assumes ab: "feed_advances a b" and bc: "feed_advances b c"
  shows "feed_advances a c"
  unfolding feed_advances_def
proof (intro conjI allI ballI impI)
  show "(last_sequence a q = None) = (last_sequence c q = None)" for q
    using ab bc by (simp add: feed_advances_def)
  show "l \<le> l'" if "last_sequence a q = Some l" "last_sequence c q = Some l'" for q l l'
    using feed_advances_last(1) [OF ab that(1)] feed_advances_last(1) [OF bc] that(2) by fastforce
  show "row_project c m x = VUuid q" if "row_project a m x = VUuid q" for m x q
    using feed_advances_project ab bc that by blast
  fix m x assume x: "x \<in> set (tables c m)"
  from feed_advances_rows [OF bc x]
  show "x \<in> set (tables a m) \<or>
      (\<exists>q l. row_project c m x = VUuid q \<and> last_sequence a q = Some l \<and> l < seq_of x)"
  proof (elim disjE exE conjE)
    assume "x \<in> set (tables b m)"
    from feed_advances_rows [OF ab this] feed_advances_project [OF bc] show ?thesis by blast
  next
    fix q l assume "row_project c m x = VUuid q" "last_sequence b q = Some l" "l < seq_of x"
    with feed_advances_last(2) [OF ab this(2)] show ?thesis by fastforce
  qed
qed

lemma flush_insert_advances:
  assumes "flush_insert d now m r db = Inr (r', db')" "states_distinct db"
  shows "feed_advances db db'"
proof -
  from assms obtain p l where tab: "tables db' = (tables db)(m := tables db m @ [r'])"
    and cs: "r' ''change_sequence'' = VInt (l + 1)" and rp: "row_project db m r' = VUuid p"
    and l: "last_sequence db p = Some l"
    and st: "\<forall>q. last_sequence db' q = (if q = p then Some (l + 1) else last_sequence db q)"
    by (rule flush_insert_Inr)
  note proj = insert_row_project [OF tab]
  have "seq_of r' = l + 1" using cs by (simp add: int_col_def)
  then have new: "\<exists>q l. row_project db' m r' = VUuid q \<and> last_sequence db q = Some l \<and> l < seq_of r'"
    using proj [OF rp] rp l by auto
  show ?thesis
    unfolding feed_advances_def using st l new proj by (auto simp: tab split: if_splits)
qed

text \<open>Writing one row, after at most that row was touched outside the feed (a version claim).\<close>

lemma touched_update_advances:
  assumes db1: "tables db1 = (tables db)(m := update_where P f (tables db m))"
      "sync_project_state db1 = sync_project_state db"
    and f: "\<And>x. f x ''id'' = x ''id''" "\<And>x. f x ''project_id'' = x ''project_id''"
    and P: "\<And>x. P x \<Longrightarrow> x ''id'' = r ''id''"
    and inv1: "db_inv db1" and row: "r0 \<in> set (tables db1 m)"
    and flush: "flush_update d m r db1 = Inr (r', db')"
    and keep: "r ''id'' = r0 ''id''" "r ''project_id'' = r0 ''project_id''"
  shows "feed_advances db db'"
proof -
  have st1: "last_sequence db1 = last_sequence db" by (simp add: fun_eq_iff last_sequence_def db1)
  from flush db_invD(2) [OF inv1] obtain q l where
    tab: "tables db' = (tables db1)(m := update_where (\<lambda>x. x ''id'' = r ''id'') (\<lambda>_. r') (tables db1 m))"
    and cs: "r' ''change_sequence'' = VInt (l + 1)" and rp: "row_project db1 m r' = VUuid q"
    and l: "last_sequence db1 q = Some l"
    and st: "\<forall>x. last_sequence db' x = (if x = q then Some (l + 1) else last_sequence db1 x)"
    and "states_distinct db'" "types_ok d m r'" "not_null_ok m r'" "score_ok m r'"
    and k: "\<forall>k. k \<noteq> ''change_sequence'' \<and> k \<noteq> ''score'' \<longrightarrow> r' k = r k"
    by (rule flush_update_Inr)
  have proj': "row_project db' m' x = row_project db1 m' x" for m' x
    by (rule update_row_project [of db' db1 m r r' r0, OF tab db_invD(3) [OF inv1] row])
       (use keep k in auto)
  have proj1: "row_project db1 m' x = row_project db m' x" for m' x
  proof (rule row_project_cong)
    show "map_option (\<lambda>x. x ''project_id'') (first_where (\<lambda>x. x ''id'' = j) (tables db1 Item)) =
          map_option (\<lambda>x. x ''project_id'') (first_where (\<lambda>x. x ''id'' = j) (tables db Item))" for j
      by (auto simp: db1 first_where_update_where option.map_comp o_def f intro!: option.map_cong)
  qed auto
  have rows: "x \<in> set (tables db m') \<or> m' = m \<and> x = r'" if "x \<in> set (tables db' m')" for m' x
  proof -
    have "x \<in> set (tables db m)" if "x \<in> set (tables db1 m)" "x ''id'' \<noteq> r ''id''"
      using that P f(1) by (auto simp: db1 set_update_where)
    with that show ?thesis by (auto simp: tab set_update_where db1 split: if_splits)
  qed
  have "seq_of r' = l + 1" using cs by (simp add: int_col_def)
  then have new: "\<exists>q l. row_project db' m r' = VUuid q \<and> last_sequence db q = Some l \<and> l < seq_of r'"
    using rp proj' l st1 by auto
  have "x \<in> set (tables db m') \<or> (\<exists>q l. row_project db' m' x = VUuid q \<and> last_sequence db q = Some l \<and>
      l < seq_of x)" if "x \<in> set (tables db' m')" for m' x
    using rows [OF that] new by blast
  with st l proj' proj1 st1 show ?thesis unfolding feed_advances_def by simp
qed

lemma claimed_update_advances:
  assumes inv: "db_inv db" and obj: "obj \<in> set (tables db (model_of entity))" "obj ''id'' = VUuid i"
    and claim: "claim_base_version now db entity i p u (version_of obj) = Inr db1"
    and db2: "tables db2 = tables db1" "sync_project_state db2 = sync_project_state db1"
    and flush: "flush_update d (model_of entity) obj' db2 = Inr (r', db')"
    and keep: "obj' ''id'' = obj ''id''" "obj' ''project_id'' = obj ''project_id''"
  shows "feed_advances db db'"
proof -
  let ?m = "model_of entity" and ?hit = "\<lambda>x. version_scope db entity i p u x \<and> version_of x = version_of obj"
  from claim have db1: "db1 = set_table ?m (update_where ?hit (claim_row now) (tables db ?m)) db"
    by (auto simp: claim_base_version_Inr [OF db_invD(3) [OF inv]])
  have inv2: "db_inv db2" using claim_base_version_inv [OF inv claim] db_inv_cong [OF db2] by simp
  have "lookup db2 ?m i = Some (claim_row now obj)"
    using claim_base_version_lookup [OF db_invD(3) [OF inv] claim, of ?m i]
      lookup_unique [OF db_invD(3) [OF inv] obj] by (simp add: lookup_def db2)
  then have row: "claim_row now obj \<in> set (tables db2 ?m)" by (blast dest: lookup_SomeD)
  show ?thesis
  proof (rule touched_update_advances [OF _ _ _ _ _ inv2 row flush])
    show "tables db2 = (tables db)(?m := update_where ?hit (claim_row now) (tables db ?m))"
      "sync_project_state db2 = sync_project_state db"
      by (simp_all add: db2 db1 set_table_def)
  qed (use keep obj in \<open>auto simp: claim_row_def version_scope_def\<close>)
qed


lemma apply_advances:
  assumes inv: "db_inv db" and coerce: "coerce_ok (e_coerce e)"
    and app: "(if op = ''upsert'' then apply_upsert else apply_delete) e db u p entity bv rcd cid
        = Inr (i, pend, db1)"
    and flush: "flush_pending e pend db1 = Inr db'"
  shows "feed_advances db db'"
proof -
  let ?m = "model_of entity"
  from app have i: "parse_uuid (dget rcd ''id'') ''record.id'' = Inr i"
    by (auto simp: apply_upsert_def apply_delete_def Let_def split: option.splits prod.splits if_splits)
  show ?thesis
  proof (cases "fetch_obj db entity i p")
    case None
    show ?thesis
    proof (cases "op = ''upsert''")
      case True
      with app i None obtain obj where pend: "pend = Some (Pending_insert ?m obj)"
        and db1: "db1 = audit e db u p cid entity i ''upsert'' None obj"
        by (auto simp: apply_upsert_def)
      with flush obtain r' where fi: "flush_insert (e_dialect e) (e_now e) ?m obj db1 = Inr (r', db')"
        by (auto split: prod.splits)
      have adv: "feed_advances db db1" by (rule feed_advances_same) (simp_all add: db1 audit_def)
      have "db_inv db1" using inv by (simp add: db1)
      from feed_advances_trans [OF adv flush_insert_advances [OF fi db_invD(2) [OF this]]] show ?thesis .
    next
      case False
      with app i None flush show ?thesis by (auto simp: apply_delete_def intro: feed_advances_same)
    qed
  next
    case (Some obj)
    note ob = fetch_obj_SomeD [OF Some]
    from app i Some obtain before dbc obj' opn where
      claim: "claim_existing (e_now e) db obj entity i p u bv = Inr (before, dbc)"
      and upd: "update_existing e dbc p entity obj rcd = Inr obj' \<or> obj' = soft_delete ?m (e_now e) obj"
      and pend: "pend = Some (Pending_update ?m obj')"
      and db1: "db1 = audit e dbc u p cid entity i opn (Some before) obj'"
      by (auto simp: apply_upsert_def apply_delete_def Let_def split: if_splits)
    from flush pend obtain r' where fu: "flush_update (e_dialect e) ?m obj' db1 = Inr (r', db')"
      by (auto split: prod.splits)
    have keep: "obj' ''id'' = obj ''id''" "obj' ''project_id'' = obj ''project_id''"
      using upd update_existing_effect(1,2) [of e dbc p entity obj rcd obj', OF _ coerce i ob(2)]
      by (auto simp: soft_delete_other)
    show ?thesis
      by (rule claimed_update_advances [OF inv ob claim_existing_Inr(3) [OF claim] _ _ fu keep])
         (simp_all add: db1 audit_def)
  qed
qed

lemma push_step_advances:
  assumes "push_step e c ctx = Inr ctx'" "push_wf ctx" "db_inv (px_db ctx)" "coerce_ok (e_coerce e)"
  shows "feed_advances (px_db ctx) (px_db ctx')"
proof (cases "seen ctx (c_change_id c)")
  case True
  from record_duplicate_outcome [OF assms(2) this, of e] assms(1) True show ?thesis
    by (auto simp: push_step_def dup_outcome_def intro: feed_advances_same)
next
  case False
  let ?ctx = "ctx\<lparr>px_batch_hashes := (px_batch_hashes ctx)(c_change_id c \<mapsto> payload_hash e c)\<rparr>"
  obtain d where out: "new_outcome e ?ctx c d (process_new_push_change e ?ctx c)"
    using process_new_outcome by blast
  have ctx': "ctx' = process_new_push_change e ?ctx c" using assms(1) False by (simp add: push_step_def)
  from out [folded ctx'] have "accepted_outcome e ?ctx c d ctx' \<or> refused_outcome e ?ctx c d ctx'"
    by (simp add: new_outcome_def)
  then show ?thesis
  proof
    assume acc: "accepted_outcome e ?ctx c d ctx'"
    then obtain i pend db1 db2 where
      app: "(if lower (strip (c_op c)) = ''upsert'' then apply_upsert else apply_delete) e (px_db ctx)
        (px_user_id ctx) (px_project_id ctx) (lower (strip (c_entity c))) (c_base_version c) (c_record c)
        (c_change_id c) = Inr (i, pend, db1)"
      and fl: "flush_pending e pend db1 = Inr db2"
      and t: "tables (px_db ctx') = tables db2" "sync_project_state (px_db ctx') = sync_project_state db2"
      by (auto simp: accepted_outcome_def Let_def)
    from apply_advances [OF assms(3,4) app fl] feed_advances_same [OF t] show ?thesis
      by (rule feed_advances_trans)
  qed (auto simp: refused_outcome_def intro: feed_advances_same)
qed

lemma push_loop_advances:
  "push_loop e cs ctx = Inr ctx' \<Longrightarrow> push_wf ctx \<Longrightarrow> db_inv (px_db ctx) \<Longrightarrow> coerce_ok (e_coerce e) \<Longrightarrow>
   feed_advances (px_db ctx) (px_db ctx')"
proof (induction cs arbitrary: ctx)
  case Nil
  then show ?case by (auto intro: feed_advances_same)
next
  case (Cons c cs)
  from Cons.prems(1) obtain ctx1 where s: "push_step e c ctx = Inr ctx1" and l: "push_loop e cs ctx1 = Inr ctx'"
    by auto
  have "push_wf ctx1" using push_step_outcome [OF Cons.prems(2), of e c] s by auto
  from Cons.IH [OF l this push_step_inv [OF s Cons.prems(2-4)] Cons.prems(4)]
    push_step_advances [OF s Cons.prems(2-4)]
  show ?case by (blast intro: feed_advances_trans)
qed

lemma push_changes_advances:
  assumes "push_changes e commit_ok db u p cs = Inr (db', rs)" "db_inv db" "coerce_ok (e_coerce e)"
  shows "feed_advances db db'"
proof -
  from assms(1) obtain role ctx where "ensure_member db p u = Inr role"
    "push_loop e cs (initial_ctx db u p role cs) = Inr ctx" "db' = px_db ctx"
    by (rule push_changes_Inr)
  with push_loop_advances [OF this(2) push_wf_initial] assms(2,3) show ?thesis
    by (simp add: initial_ctx_def)
qed

text \<open>The database as a transition system: any user pushes any batch.\<close>

definition push_trans :: "sdb \<Rightarrow> sdb \<Rightarrow> bool" where
  "push_trans db db' = (\<exists>e u p cs rs. coerce_ok (e_coerce e) \<and> push_changes e True db u p cs = Inr (db', rs))"

text \<open>What the item feed of a later database still holds of an earlier snapshot.\<close>

lemma items_moves_on:
  assumes adv: "feed_advances db db'" and inv: "db_inv db" and s: "last_sequence db p = Some l" "snapshot \<le> l"
  shows "pull_feed.moves_on snapshot (items_source db p t) (items_source db' p t)"
  unfolding pull_feed.moves_on_def
proof (intro ballI impI)
  fix x assume x: "x \<in> set (items_source db' p t)" and le: "frow_seq x \<le> snapshot"
  then obtain r where r: "x = (r, VNone)" "r \<in> set (tables db' Item)" "r ''project_id'' = VUuid p"
    "r ''type'' = VStr t" by (auto simp: items_source_def)
  have "row_project db' Item r = VUuid p" using r(3) by (simp add: row_project_def sync_entity_project_id_def)
  with feed_advances_rows [OF adv r(2)] le s have "r \<in> set (tables db Item)"
    by (auto simp: r(1) frow_seq_def)
  with r show "x \<in> set (items_source db p t)" by (auto simp: items_source_def)
qed

end
