(* ===== verification/Sync_Demo.thy ===== *)
theory Sync_Demo
  imports Server_Pull
begin

section \<open>A small project\<close>

text \<open>
  One administrator, one plain member and one risk: the concrete input on which the witnesses
  of the synchronisation properties run the handlers.
\<close>

definition demo_env :: env where
  "demo_env = \<lparr>e_dialect = SQLite, e_now = 7, e_coerce = strict_coerce,
     e_validation_text = (\<lambda>_ _. []), e_digest = (\<lambda>_. ''h'')\<rparr>"

definition demo_item :: row where
  "demo_item = setattrs
     [(''id'', VUuid 100), (''created_at'', VTime 0), (''updated_at'', VTime 0), (''version'', VInt 3),
      (''is_deleted'', VBool False), (''change_sequence'', VInt 1), (''project_id'', VUuid 10),
      (''title'', VStr ''Flood''), (''probability'', VInt 2), (''impact'', VInt 4),
      (''code'', VStr ''R-001''), (''status'', VStr ''active''), (''identified_at'', VTime 0),
      (''status_changed_at'', VTime 0), (''score'', VInt 8), (''created_by'', VUuid 1),
      (''type'', VStr ''risk'')] (\<lambda>_. VNone)"

definition demo_db :: sdb where
  "demo_db = \<lparr>users = [\<lparr>u_id = 1, u_email = ''a@b.cz'', u_password_hash = [], u_is_active = True,
        u_is_superuser = False, u_deactivated_at = None\<rparr>,
       \<lparr>u_id = 2, u_email = ''c@d.cz'', u_password_hash = [], u_is_active = True,
        u_is_superuser = False, u_deactivated_at = None\<rparr>],
     projects = [\<lparr>p_id = 10, p_name = ''Dam'', p_description = None, p_created_at = 0, p_created_by = 1\<rparr>],
     project_members = [\<lparr>pm_project_id = 10, pm_user_id = 1, pm_role = ''admin'', pm_created_at = 0\<rparr>,
       \<lparr>pm_project_id = 10, pm_user_id = 2, pm_role = ''member'', pm_created_at = 0\<rparr>],
     tables = (\<lambda>m. if m = Item then [demo_item] else []),
     sync_project_state = [(10, 1)], sync_receipts = [], audit_log = [], score_snapshots = []\<rparr>"

text \<open>An upsert of the risk's title, made against a given version.\<close>

definition demo_change :: "uuid \<Rightarrow> int \<Rightarrow> dict \<Rightarrow> sync_change" where
  "demo_change cid v kvs = \<lparr>c_change_id = cid, c_entity = ''risk'', c_op = ''upsert'',
     c_base_version = Some v, c_record = (''id'', VStr (uuid_str 100)) # kvs\<rparr>"


lemma demo_item_simps [simp]:
  "demo_item ''id'' = VUuid 100" "demo_item ''project_id'' = VUuid 10" "demo_item ''version'' = VInt 3"
  "demo_item ''type'' = VStr ''risk''" "demo_item ''is_deleted'' = VBool False"
  "demo_item ''change_sequence'' = VInt 1" "demo_item ''probability'' = VInt 2"
  "demo_item ''impact'' = VInt 4" "demo_item ''score'' = VInt 8" "demo_item ''code'' = VStr ''R-001''"
  "demo_item ''status'' = VStr ''active''" "demo_item ''owner_user_id'' = VNone"
  "demo_item ''created_by'' = VUuid 1" "demo_item ''title'' = VStr ''Flood''"
  "demo_item ''created_at'' = VTime 0" "demo_item ''updated_at'' = VTime 0"
  "demo_item ''identified_at'' = VTime 0" "demo_item ''status_changed_at'' = VTime 0"
  "demo_item ''impact_cost'' = VNone" "demo_item ''impact_time'' = VNone"
  "demo_item ''impact_scope'' = VNone" "demo_item ''impact_quality'' = VNone"
  "demo_item ''description'' = VNone" "demo_item ''category'' = VNone" "demo_item ''threat'' = VNone"
  "demo_item ''triggers'' = VNone" "demo_item ''mitigation_plan'' = VNone"
  "demo_item ''document_url'' = VNone" "demo_item ''response_at'' = VNone" "demo_item ''occurred_at'' = VNone"
  by (simp_all add: demo_item_def)

lemma demo_db_simps [simp]:
  "tables demo_db Item = [demo_item]" "m \<noteq> Item \<Longrightarrow> tables demo_db m = []"
  "sync_project_state demo_db = [(10, 1)]" "sync_receipts demo_db = []"
  by (simp_all add: demo_db_def)

lemma demo_env_simps [simp]:
  "e_dialect demo_env = SQLite" "e_now demo_env = 7" "e_coerce demo_env = strict_coerce"
  by (simp_all add: demo_env_def)

lemma item_columns: "columns Item = (''id'', TUuid, False) # SyncMixin_columns @ ItemBaseMixin_columns @
     [(''type'', TString 20, False)]" by simp

lemma demo_row_ok: "row_ok Item demo_item"
  by (simp add: row_ok_def types_ok_def not_null_ok_def score_ok_def scored_model_def
      SyncMixin_columns_def ItemBaseMixin_columns_def)

lemma demo_table: "r \<in> set (tables demo_db m) \<longleftrightarrow> m = Item \<and> r = demo_item"
  by (cases "m = Item") auto

lemma demo_row_project: "row_project demo_db Item demo_item = VUuid 10"
  by (simp add: row_project_def sync_entity_project_id_def)

lemma demo_inv: "db_inv demo_db"
proof -
  have d: "distinct (map (\<lambda>r. r ''id'') (tables demo_db m))" for m by (cases "m = Item") auto
  show ?thesis
    unfolding db_inv_def feed_inv_def states_distinct_def ids_distinct_def seq_bounded_def seq_unique_def
      rows_ok_def
    using d demo_row_ok demo_row_project
    by (simp add: demo_table last_sequence_def int_col_def split: if_splits)
qed

definition demo_record :: dict where
  "demo_record = [(''id'', VStr (uuid_str 100)), (''title'', VStr ''Fire'')]"

lemma demo_change_simps [simp]:
  "c_change_id (demo_change cid v kvs) = cid" "c_entity (demo_change cid v kvs) = ''risk''"
  "c_op (demo_change cid v kvs) = ''upsert''" "c_base_version (demo_change cid v kvs) = Some v"
  "c_record (demo_change cid v [(''title'', VStr ''Fire'')]) = demo_record"
  by (simp_all add: demo_change_def demo_record_def)

lemma demo_parse: "parse_record demo_env ''risk'' demo_record =
   Inr [(''id'', VUuid 100), (''title'', VStr ''Fire'')]"
  by code_simp

lemma demo_id: "parse_uuid (dget demo_record ''id'') ''record.id'' = Inr 100"
  by code_simp

lemma config_risk [simp]: "model_of ''risk'' = Item" "ec_parent_field (config_of ''risk'') = None"
  "is_item_entity ''risk''"
  by (simp_all add: config_of_def ENTITY_REGISTRY_def is_item_entity_def)

lemma demo_fetch: "fetch_obj demo_db ''risk'' 100 10 = Some demo_item"
  by (simp add: fetch_obj_def first_where_Cons)

definition demo_claimed :: sdb where
  "demo_claimed = set_table Item [claim_row 7 demo_item] demo_db"

lemma demo_version [simp]: "version_of demo_item = 3"
  by (simp add: int_col_def)

lemma demo_claim: "claim_base_version 7 demo_db ''risk'' 100 10 u 3 = Inr demo_claimed"
  by (simp add: claim_base_version_def Let_def count_where_def update_where_def version_scope_def demo_claimed_def)

definition demo_new :: row where
  "demo_new = demo_item(''title'' := VStr ''Fire'', ''score'' := VInt 8, ''updated_at'' := VTime 7, ''version'' := VInt 4)"

lemma status_changeable_Item: "status_changeable Item" by (simp add: status_changeable_def)

lemma demo_update: "update_existing demo_env db 10 ''risk'' demo_item demo_record = Inr demo_new"
proof -
  have cf: "client_fields Item [(''id'', VUuid 100), (''title'', VStr ''Fire'')] =
      [(''id'', VUuid 100), (''title'', VStr ''Fire'')]"
    by (simp add: client_fields_def starts_with_def hasattr_def column_names_def ItemBaseMixin_columns_def)
  have id: "demo_item(''id'' := VUuid 100) = demo_item" by (rule fun_upd_idem) simp
  have val: "validate_relationships db 10 ''risk'' [(''id'', VUuid 100), (''title'', VStr ''Fire'')] (Some demo_item) = Inr ()"
    by (simp add: validate_relationships_def)
  show ?thesis
    by (simp add: update_existing_def Let_def demo_parse val cf id dget_Cons)
       (simp add: recalculate_item_scores_def Let_def hasattr_def column_names_def ItemBaseMixin_columns_def
        IMPACT_DIMENSIONS_def getattr_def List.map_filter_def int_or_one_def py_int_def int_col_def demo_new_def fun_upd_twist)
qed


definition demo_stored :: row where
  "demo_stored = demo_new(''score'' := VInt 8, ''change_sequence'' := VInt 2)"

lemma demo_score: "compute_score Item demo_new = Inr (demo_new(''score'' := VInt 8))"
  by (simp add: compute_score_def scored_model_def validate_scale_1_5_def py_int_def score_def demo_new_def)

lemma demo_flush:
  assumes "tables db Item = [claim_row 7 demo_item]" "sync_project_state db = [(10, 1)]"
    "users db = users demo_db" "projects db = projects demo_db"
  shows "\<exists>db'. flush_update SQLite Item demo_new db = Inr (demo_stored, db') \<and>
    sync_receipts db' = sync_receipts db"
proof -
  let ?db1 = "db\<lparr>sync_project_state := [(10, 2)]\<rparr>"
  have seq: "assign_change_sequence Item db (demo_new(''score'' := VInt 8)) = Inr (demo_stored, ?db1)"
    by (simp add: assign_change_sequence_def sync_entity_project_id_def next_change_sequence_def Let_def
        count_where_def update_where_def first_where_Cons assms(2) demo_stored_def demo_new_def)
  have "constraints SQLite ?db1 Item [] demo_stored = Inr ()"
    unfolding constraints_Inr
    by (simp add: types_ok_def not_null_ok_def SyncMixin_columns_def ItemBaseMixin_columns_def
        between_1_5_def foreign_keys_ok_def project_exists_def user_exists_def item_exists_def assms(3,4)
        demo_stored_def demo_new_def demo_db_def hasattr_def column_names_def)
  moreover have "delete_where (\<lambda>x. x ''id'' = demo_new ''id'') (tables ?db1 Item) = []"
    by (simp add: delete_where_def assms(1) demo_new_def)
  ultimately show ?thesis
    by (simp add: flush_update_def demo_score seq Let_def set_table_def)
qed

lemma demo_apply:
  "\<exists>db1 db2. apply_upsert demo_env demo_db u 10 ''risk'' (Some 3) demo_record cid =
     Inr (100, Some (Pending_update Item demo_new), db1) \<and>
   flush_pending demo_env (Some (Pending_update Item demo_new)) db1 = Inr db2"
proof -
  have cl: "claim_existing 7 demo_db demo_item ''risk'' 100 10 u (Some 3) =
      Inr (model_to_dict Item demo_item, demo_claimed)"
    by (simp add: claim_existing_def check_base_version_def demo_claim)
  let ?db1 = "audit demo_env demo_claimed u 10 cid ''risk'' 100 ''upsert''
      (Some (model_to_dict Item demo_item)) demo_new"
  have "apply_upsert demo_env demo_db u 10 ''risk'' (Some 3) demo_record cid =
     Inr (100, Some (Pending_update Item demo_new), ?db1)"
    by (simp add: apply_upsert_def demo_id demo_fetch cl demo_update)
  moreover have "\<exists>db'. flush_update SQLite Item demo_new ?db1 = Inr (demo_stored, db') \<and>
      sync_receipts db' = sync_receipts ?db1"
    by (rule demo_flush) (simp_all add: demo_claimed_def set_table_def audit_def)
  ultimately show ?thesis by force
qed

lemma demo_members: "ensure_member demo_db 10 1 = Inr ''admin''" "ensure_member demo_db 10 2 = Inr ''member''"
  by (simp_all add: ensure_member_def require_min_role_def get_member_role_def first_where_Cons
      demo_db_def ROLE_RANK_def normalize_role_def starts_with_def ensure_role_at_least_def rank_or_def)

lemma lower_strip_names [simp]: "lower (strip ''risk'') = ''risk''" "lower (strip ''upsert'') = ''upsert''"
  by code_simp+

text \<open>The context of a batch of one change by a member, and its accepted outcome.\<close>

abbreviation demo_ctx :: "string \<Rightarrow> push_ctx" where
  "demo_ctx role \<equiv> initial_ctx demo_db 2 10 role []"

lemma demo_not_seen: "\<not> seen (demo_ctx role) cid"
  by (simp add: seen_def initial_ctx_def load_existing_receipts_def)

lemma demo_no_manager: "\<not> requires_manager ctx ''risk'' ''upsert'' demo_record"
  by (simp add: requires_manager_def demo_record_def dget_Cons dhas_Cons str_or_empty_def strip_def
      lower_def rstrip_def lstrip_def)

lemma demo_accepted:
  "\<exists>ctx' d. push_step demo_env (demo_change 5 3 [(''title'', VStr ''Fire'')]) (demo_ctx ''member'') = Inr ctx' \<and>
     px_results ctx' = [d] \<and> dget d ''status'' = VStr ''accepted'' \<and> dget d ''retryable'' = VNone"
proof -
  let ?c = "demo_change 5 3 [(''title'', VStr ''Fire'')]"
  let ?ctx = "(demo_ctx ''member'')\<lparr>px_batch_hashes := [5 \<mapsto> payload_hash demo_env ?c]\<rparr>"
  have auth: "authorize_push_change demo_env ?ctx ?c ''risk'' ''upsert'' demo_record = (True, ?ctx)"
    by (simp add: authorize_push_change_def demo_no_manager ensure_role_at_least_def rank_or_def
        ROLE_RANK_def initial_ctx_def)
  obtain db1 db2 where app: "apply_upsert demo_env demo_db 2 10 ''risk'' (Some 3) demo_record 5 =
     Inr (100, Some (Pending_update Item demo_new), db1)"
    "flush_pending demo_env (Some (Pending_update Item demo_new)) db1 = Inr db2"
    using demo_apply by blast
  have "\<exists>ctx' d. apply_push_change demo_env ?ctx ?c ''risk'' ''upsert'' demo_record = Inr ctx' \<and>
      px_results ctx' = [d] \<and> dget d ''status'' = VStr ''accepted'' \<and> dget d ''retryable'' = VNone"
    using app by (auto simp: apply_push_change_def initial_ctx_def Let_def case_prod_beta record_result_def
        change_result_key RESULT_KEYS_def dget_Cons)
  moreover have "ENTITY_MODELS ''risk'' = Some Item" by (simp add: ENTITY_MODELS_def ENTITY_REGISTRY_def)
  ultimately show ?thesis
    using auth demo_not_seen [of "''member''" 5]
    by (auto simp: push_step_def process_new_push_change_def Let_def OPS_def initial_ctx_def)
qed


lemma demo_initial: "initial_ctx demo_db 2 10 role (c # cs) = demo_ctx role"
  by (simp add: initial_ctx_def load_existing_receipts_def)

lemma demo_batch:
  "\<exists>db' d. push_changes demo_env True demo_db 2 10 [demo_change 5 3 [(''title'', VStr ''Fire'')]] =
     Inr (db', [d]) \<and> dget d ''status'' = VStr ''accepted'' \<and> dget d ''retryable'' = VNone"
proof -
  from demo_accepted obtain ctx' d where
    "push_step demo_env (demo_change 5 3 [(''title'', VStr ''Fire'')]) (demo_ctx ''member'') = Inr ctx'"
    "px_results ctx' = [d]" "dget d ''status'' = VStr ''accepted''" "dget d ''retryable'' = VNone"
    by blast
  then show ?thesis
    by (simp add: push_changes_def demo_members demo_initial last_sequence_def)
qed

end
