(* ===== verification/Server_Items.thy ===== *)
theory Server_Items
  imports Server_Pull
begin

section \<open>REST writes (core/items_crud.py, routers items.py, actions.py, helpdesk.py)\<close>

text \<open>
  The routes through which a connected client writes risks, opportunities, assessments,
  actions and tickets one at a time. They share the data model, the flush and the version claim
  with the sync engine. A request body is validated against the schema of its route before
  the handler runs (\<open>validated\<close>, status 422 on failure); a payload is the dictionary of the fields
  that the body set, its enum members given by their values. \<open>uuid.uuid4()\<close> is an argument. A
  handler that raises leaves no trace: its transaction is never committed.
\<close>

subsection \<open>Request schemas\<close>

definition ItemCreateFields :: "field list" where
  "ItemCreateFields = ItemShared_fields @
     [(''title'', FStripped 1 300, False), (''probability'', FInt 1 5, False), (''impact'', FInt 1 5, False)]"

definition ItemCreate :: "string \<Rightarrow> field list" where
  "ItemCreate item_type = ItemCreateFields @ [(''type'', FEnum [item_type], True)]"

definition ItemUpdate :: "field list" where
  "ItemUpdate = ItemShared_fields @
     [(''base_version'', FIntFrom 1, False), (''title'', FStr 0 300, True),
      (''probability'', FInt 1 5, True), (''impact'', FInt 1 5, True)]"

definition AssessmentIn :: "field list" where
  "AssessmentIn = [(''base_version'', FIntFrom 0, False), (''probability'', FInt 1 5, False),
     (''impact'', FInt 1 5, False), (''notes'', FText, True)]"

definition ActionKind :: "string list" where
  "ActionKind = [''mitigation'', ''contingency'', ''exploit'']"

definition ActionStatus :: "string list" where
  "ActionStatus = [''open'', ''doing'', ''done'']"

definition ActionCreate :: "field list" where
  "ActionCreate = [(''risk_id'', FUuid, True), (''opportunity_id'', FUuid, True),
     (''kind'', FEnum ActionKind, False), (''title'', FStripped 1 300, False),
     (''description'', FStr 0 10000, True), (''status'', FEnum ActionStatus, True),
     (''owner_user_id'', FUuid, True)]"

definition ActionUpdate :: "field list" where
  "ActionUpdate = [(''base_version'', FIntFrom 1, False), (''risk_id'', FUuid, True),
     (''opportunity_id'', FUuid, True), (''kind'', FEnum ActionKind, True),
     (''title'', FStr 0 300, True), (''description'', FStr 0 10000, True),
     (''status'', FEnum ActionStatus, True), (''owner_user_id'', FUuid, True)]"

definition HelpDeskCategory :: "string list" where
  "HelpDeskCategory = [''bug'', ''question'', ''feature_request'', ''access'', ''other'']"

definition HelpDeskPriority :: "string list" where
  "HelpDeskPriority = [''low'', ''medium'', ''high'', ''critical'']"

definition HelpDeskStatus :: "string list" where
  "HelpDeskStatus = [''open'', ''in_progress'', ''resolved'', ''closed'']"

definition HelpDeskTicketCreate :: "field list" where
  "HelpDeskTicketCreate = [(''title'', FStripped 1 300, False), (''description'', FStr 0 10000, True),
     (''category'', FEnum HelpDeskCategory, True), (''priority'', FEnum HelpDeskPriority, True),
     (''reporter_email'', FStr 0 320, True)]"

definition HelpDeskTicketUpdate :: "field list" where
  "HelpDeskTicketUpdate = [(''base_version'', FIntFrom 1, False), (''title'', FStr 0 300, True),
     (''description'', FStr 0 10000, True), (''category'', FEnum HelpDeskCategory, True),
     (''priority'', FEnum HelpDeskPriority, True), (''status'', FEnum HelpDeskStatus, True),
     (''reporter_email'', FStr 0 320, True)]"

definition validated :: "env \<Rightarrow> string \<Rightarrow> field list \<Rightarrow> dict \<Rightarrow> dict result" where
  "validated e name schema body =
     (case model_dump (e_coerce e) schema body of
        None \<Rightarrow> Inl (http_error 422 (e_validation_text e name body))
      | Some payload \<Rightarrow> Inr payload)"

text \<open>The \<open>model_validator\<close> of the two action schemas.\<close>

definition validate_target :: "env \<Rightarrow> dict \<Rightarrow> dict \<Rightarrow> dict result" where
  "validate_target e body payload =
     (if truthy (dget payload ''risk_id'') \<and> truthy (dget payload ''opportunity_id'')
      then Inl (http_error 422 (e_validation_text e ''action_target'' body)) else Inr payload)"

definition base_version_of :: "dict \<Rightarrow> int" where
  "base_version_of payload = (case dget payload ''base_version'' of VInt i \<Rightarrow> i | _ \<Rightarrow> 0)"

subsection \<open>Items\<close>

definition status_value :: "pyval \<Rightarrow> string" where
  "status_value v = strip (lower (str_or_empty v))"

definition version_conflict :: "pyval \<Rightarrow> exc" where
  "version_conflict server_version =
     HTTPException 409 (VDict [(''reason'', VStr ''version_mismatch''), (''server_version'', server_version)])"

text \<open>
  The condition names one row by a unique key. \<open>.one()\<close> raises unless exactly one row satisfies it.
\<close>

definition rest_claim_base_version ::
  "env \<Rightarrow> sdb \<Rightarrow> model \<Rightarrow> (row \<Rightarrow> bool) \<Rightarrow> int \<Rightarrow> string option \<Rightarrow> (row \<times> sdb) result" where
  "rest_claim_base_version e db m cond base_version not_found_detail =
     (let hit = (\<lambda>r. cond r \<and> version_of r = base_version);
          db' = set_table m (update_where hit (claim_row (e_now e)) (tables db m)) db in
      if count_where hit (tables db m) \<noteq> 1
      then (case first_where cond (tables db' m) of
              Some r \<Rightarrow> Inl (version_conflict (r ''version''))
            | None \<Rightarrow> (case not_found_detail of
                         Some detail \<Rightarrow> Inl (http_error 404 detail)
                       | None \<Rightarrow> Inl (version_conflict VNone)))
      else (case filter cond (tables db' m) of
              [r] \<Rightarrow> Inr (r, db')
            | _ \<Rightarrow> Inl PyRuntimeError))"

definition item_where :: "model \<Rightarrow> uuid \<Rightarrow> uuid \<Rightarrow> string option \<Rightarrow> row \<Rightarrow> bool" where
  "item_where m project_id item_id item_type r =
     (r ''project_id'' = VUuid project_id \<and> r ''id'' = VUuid item_id \<and>
      (case item_type of
         Some t \<Rightarrow> t \<noteq> [] \<and> hasattr m ''type'' \<longrightarrow> r ''type'' = VStr t
       | None \<Rightarrow> True))"

text \<open>\<open>f"{prefix}-{uuid.uuid4().hex[:8].upper()}"\<close>.\<close>

definition random_code :: "string \<Rightarrow> uuid \<Rightarrow> string" where
  "random_code item_type u = code_prefix item_type @ ''-'' @ upper (take 8 (hex_fixed 32 u))"

text \<open>\<open>commit\<close> with the handler's translation of an integrity error.\<close>

definition on_integrity_error :: "exc \<Rightarrow> 'a result \<Rightarrow> 'a result" where
  "on_integrity_error err res = (case res of Inl IntegrityError \<Rightarrow> Inl err | _ \<Rightarrow> res)"

definition create_item :: "env \<Rightarrow> uuid \<times> uuid \<Rightarrow> sdb \<Rightarrow> uuid \<Rightarrow> uuid \<Rightarrow> string \<Rightarrow> dict \<Rightarrow> (row \<times> sdb) result" where
  "create_item e ids db user_id project_id default_type payload =
     (let now = e_now e;
          item_type = lower (if dhas payload ''type'' then py_str (dget payload ''type'') else default_type);
          code0 = (if dget payload ''code'' \<noteq> VNone then strip (py_str (dget payload ''code'')) else []);
          code = (if code0 = [] then random_code item_type (snd ids) else code0);
          status0 = status_value (dget payload ''status'');
          status = (if status0 = [] then ''concept'' else status0) in
      if status = ''deleted'' then Inl (http_error 422 ''Cannot create an item with status=deleted'')
      else let occurred_at = py_or (dget payload ''occurred_at'')
                               (if status = ''happened'' then VTime now else VNone);
               data = dpop payload ''base_version'' @
                 [(''id'', VUuid (fst ids)), (''project_id'', VUuid project_id), (''type'', VStr item_type),
                  (''code'', VStr code), (''score'', VInt 0), (''status'', VStr status),
                  (''identified_at'', py_or (dget payload ''identified_at'') (VTime now)),
                  (''status_changed_at'', VTime now), (''created_at'', VTime now),
                  (''created_by'', VUuid user_id), (''updated_at'', VTime now), (''version'', VInt 1),
                  (''is_deleted'', VBool False), (''occurred_at'', occurred_at)];
               item = recalculate_item_scores Item (setattrs data (\<lambda>_. VNone)) in
           on_integrity_error (http_error 409 ''Item code already exists in this project'')
             (flush_insert (e_dialect e) now Item item db))"

definition NON_NULLABLE_FIELDS :: "string list" where
  "NON_NULLABLE_FIELDS = [''title'', ''probability'', ''impact'', ''status'', ''identified_at'']"

fun validated_fields :: "dict \<Rightarrow> dict result" where
  "validated_fields [] = Inr []"
| "validated_fields ((k, v) # kvs) =
     (if k \<in> set NON_NULLABLE_FIELDS \<and> v = VNone then Inl (http_error 422 (k @ '' cannot be null''))
      else if k = ''title'' \<and> (case v of VStr s \<Rightarrow> strip s = [] | _ \<Rightarrow> False)
      then Inl (http_error 422 ''title cannot be blank'')
      else rbind (validated_fields kvs) (\<lambda>changes.
           Inr ((k, if k = ''status'' then VStr (strip (lower (py_str v))) else v) # changes)))"

definition validated_changes :: "dict \<Rightarrow> (dict \<times> bool) result" where
  "validated_changes payload =
     (let update_data = dpop payload ''base_version'' in
      rbind (if dhas update_data ''code''
             then if dget update_data ''code'' = VNone then Inl (http_error 422 ''code cannot be null'')
                  else let code = strip (py_str (dget update_data ''code'')) in
                       if code = [] then Inl (http_error 422 ''code cannot be blank'')
                       else Inr (dset update_data ''code'' (VStr code))
             else Inr update_data) (\<lambda>data.
      rbind (validated_fields data) (\<lambda>changes.
      Inr (changes, dget changes ''status'' = VStr ''deleted''))))"

definition update_item ::
  "env \<Rightarrow> sdb \<Rightarrow> uuid \<Rightarrow> uuid \<Rightarrow> dict \<Rightarrow> string option \<Rightarrow> (row \<times> sdb) result" where
  "update_item e db project_id item_id payload item_type =
     rbind (validated_changes payload) (\<lambda>(changes, delete_requested).
     rbind (rest_claim_base_version e db Item (item_where Item project_id item_id item_type)
              (base_version_of payload) (Some ''Item not found'')) (\<lambda>(item, db').
     let item1 = (update_fields Item (e_now e) changes item)(''updated_at'' := VTime (e_now e)) in
     if delete_requested
     then flush_update (e_dialect e) Item (item1(''is_deleted'' := VBool True)) db'
     else on_integrity_error (http_error 409 ''Item code already exists'')
            (flush_update (e_dialect e) Item (recalculate_item_scores Item item1) db')))"

definition delete_item :: "env \<Rightarrow> sdb \<Rightarrow> uuid \<Rightarrow> uuid \<Rightarrow> model \<Rightarrow> string option \<Rightarrow> sdb result" where
  "delete_item e db project_id item_id m item_type =
     (case first_where (item_where m project_id item_id item_type) (tables db m) of
        None \<Rightarrow> Inl (http_error 404 ''Item not found'')
      | Some item \<Rightarrow>
          rbind (flush_update (e_dialect e) m (soft_delete m (e_now e) item) db) (\<lambda>(_, db'). Inr db'))"

definition require_item :: "sdb \<Rightarrow> uuid \<Rightarrow> uuid \<Rightarrow> string \<Rightarrow> unit result" where
  "require_item db project_id item_id item_type =
     rguard (list_ex (\<lambda>r. r ''project_id'' = VUuid project_id \<and> r ''id'' = VUuid item_id \<and>
               r ''is_deleted'' = VBool False \<and> r ''type'' = VStr item_type) (tables db Item))
       (http_error 404 ''Item not found'')"

definition my_assessment :: "uuid \<Rightarrow> uuid \<Rightarrow> row \<Rightarrow> bool" where
  "my_assessment item_id user_id r =
     (r ''item_id'' = VUuid item_id \<and> r ''assessor_user_id'' = VUuid user_id)"

definition set_assessment :: "time \<Rightarrow> dict \<Rightarrow> row \<Rightarrow> row" where
  "set_assessment now payload r =
     recalculate_item_scores Assessment
       (r(''probability'' := dget payload ''probability'', ''impact'' := dget payload ''impact'',
          ''notes'' := dget payload ''notes'', ''is_deleted'' := VBool False, ''updated_at'' := VTime now))"

definition upsert_assessment :: "env \<Rightarrow> uuid \<Rightarrow> sdb \<Rightarrow> uuid \<Rightarrow> uuid \<Rightarrow> dict \<Rightarrow> (row \<times> sdb) result" where
  "upsert_assessment e new_id db item_id user_id payload =
     (let now = e_now e; mine = my_assessment item_id user_id in
      case first_where mine (tables db Assessment) of
        None \<Rightarrow>
          if base_version_of payload \<noteq> 0 then Inl (version_conflict VNone)
          else flush_insert (e_dialect e) now Assessment
                 (set_assessment now payload
                    (setattrs [(''id'', VUuid new_id), (''item_id'', VUuid item_id),
                               (''assessor_user_id'', VUuid user_id), (''created_at'', VTime now),
                               (''updated_at'', VTime now), (''version'', VInt 1),
                               (''is_deleted'', VBool False)] (\<lambda>_. VNone))) db
      | Some _ \<Rightarrow>
          rbind (rest_claim_base_version e db Assessment mine (base_version_of payload) None)
            (\<lambda>(assessment, db').
          flush_update (e_dialect e) Assessment (set_assessment now payload assessment) db'))"

subsection \<open>The item routes (create_item_router)\<close>

definition create_obj ::
  "env \<Rightarrow> uuid \<times> uuid \<Rightarrow> sdb \<Rightarrow> uuid \<Rightarrow> string \<Rightarrow> uuid \<Rightarrow> dict \<Rightarrow> (row \<times> sdb) result" where
  "create_obj e ids db user_id item_type project_id body =
     rbind (validated e item_type (ItemCreate item_type) body) (\<lambda>payload.
     rbind (require_min_role db project_id user_id ''member'') (\<lambda>_.
     create_item e ids db user_id project_id item_type payload))"

definition update_obj ::
  "env \<Rightarrow> sdb \<Rightarrow> uuid \<Rightarrow> string \<Rightarrow> uuid \<Rightarrow> uuid \<Rightarrow> dict \<Rightarrow> (row \<times> sdb) result" where
  "update_obj e db user_id item_type project_id item_id body =
     rbind (validated e item_type ItemUpdate body) (\<lambda>payload.
     let deleting = (status_value (dget payload ''status'') = ''deleted'') in
     rbind (require_min_role db project_id user_id (if deleting then ''manager'' else ''member'')) (\<lambda>_.
     update_item e db project_id item_id payload (Some item_type)))"

definition delete_obj :: "env \<Rightarrow> sdb \<Rightarrow> uuid \<Rightarrow> string \<Rightarrow> uuid \<Rightarrow> uuid \<Rightarrow> sdb result" where
  "delete_obj e db user_id item_type project_id item_id =
     rbind (require_min_role db project_id user_id ''manager'') (\<lambda>_.
     delete_item e db project_id item_id Item (Some item_type))"

definition upsert_my_assessment_route ::
  "env \<Rightarrow> uuid \<Rightarrow> sdb \<Rightarrow> uuid \<Rightarrow> string \<Rightarrow> uuid \<Rightarrow> uuid \<Rightarrow> dict \<Rightarrow> (row \<times> sdb) result" where
  "upsert_my_assessment_route e new_id db user_id item_type project_id item_id body =
     rbind (validated e ''assessment'' AssessmentIn body) (\<lambda>payload.
     rbind (require_min_role db project_id user_id ''member'') (\<lambda>_.
     rbind (require_item db project_id item_id item_type) (\<lambda>_.
     upsert_assessment e new_id db item_id user_id payload)))"

subsection \<open>Actions\<close>

definition exactly_one_target :: exc where
  "exactly_one_target = http_error 400 ''Provide exactly one of risk_id or opportunity_id''"

definition resolve_target :: "sdb \<Rightarrow> uuid \<Rightarrow> pyval \<Rightarrow> pyval \<Rightarrow> (pyval \<times> string) result" where
  "resolve_target db project_id risk_id opportunity_id =
     rbind (if risk_id \<noteq> VNone
            then if opportunity_id \<noteq> VNone then Inl exactly_one_target else Inr (risk_id, ''risk'')
            else if opportunity_id \<noteq> VNone then Inr (opportunity_id, ''opportunity'')
            else Inl exactly_one_target) (\<lambda>(item_id, expected_type).
     case first_where (\<lambda>r. r ''project_id'' = VUuid project_id \<and> r ''id'' = item_id \<and>
            r ''is_deleted'' = VBool False) (tables db Item) of
       None \<Rightarrow> Inl (http_error 404 ''Target not found'')
     | Some r \<Rightarrow>
         if r ''type'' = VNone then Inl (http_error 404 ''Target not found'')
         else if r ''type'' \<noteq> VStr expected_type
         then Inl (http_error 400 (''Target is a '' @ py_str (r ''type'') @ '', expected '' @ expected_type))
         else Inr (item_id, expected_type))"

definition action_out :: "row \<Rightarrow> string \<Rightarrow> dict" where
  "action_out a target_type =
     [(''id'', a ''id''), (''project_id'', a ''project_id''),
      (''risk_id'', if target_type = ''risk'' then a ''item_id'' else VNone),
      (''opportunity_id'', if target_type = ''opportunity'' then a ''item_id'' else VNone),
      (''kind'', a ''kind''), (''title'', a ''title''), (''description'', a ''description''),
      (''status'', a ''status''), (''owner_user_id'', a ''owner_user_id''),
      (''updated_at'', a ''updated_at''), (''version'', a ''version''), (''is_deleted'', a ''is_deleted'')]"

definition create_action ::
  "env \<Rightarrow> uuid \<Rightarrow> sdb \<Rightarrow> uuid \<Rightarrow> uuid \<Rightarrow> dict \<Rightarrow> (dict \<times> sdb) result" where
  "create_action e new_id db user_id project_id body =
     rbind (validated e ''action'' ActionCreate body) (\<lambda>payload0.
     rbind (validate_target e body payload0) (\<lambda>payload.
     rbind (require_min_role db project_id user_id ''member'') (\<lambda>_.
     rbind (resolve_target db project_id (dget payload ''risk_id'') (dget payload ''opportunity_id''))
       (\<lambda>(item_id, target_type).
     let now = e_now e;
         action = setattrs
           [(''id'', VUuid new_id), (''project_id'', VUuid project_id), (''item_id'', item_id),
            (''kind'', dget payload ''kind''), (''title'', dget payload ''title''),
            (''description'', dget payload ''description''),
            (''status'', if dget payload ''status'' \<noteq> VNone then dget payload ''status'' else VStr ''open''),
            (''owner_user_id'', dget payload ''owner_user_id''), (''created_by'', VUuid user_id),
            (''created_at'', VTime now), (''updated_at'', VTime now), (''version'', VInt 1),
            (''is_deleted'', VBool False)] (\<lambda>_. VNone) in
     rbind (flush_insert (e_dialect e) now Action action db) (\<lambda>(action', db').
     Inr (action_out action' target_type, db'))))))"

definition live_where :: "uuid \<Rightarrow> uuid \<Rightarrow> row \<Rightarrow> bool" where
  "live_where project_id i r =
     (r ''project_id'' = VUuid project_id \<and> r ''id'' = VUuid i \<and> r ''is_deleted'' = VBool False)"

definition action_title :: "dict \<Rightarrow> dict result" where
  "action_title data =
     (if \<not> dhas data ''title'' then Inr data
      else if dget data ''title'' = VNone then Inl (http_error 422 ''title cannot be null'')
      else let title = strip (py_str (dget data ''title'')) in
           if title = [] then Inl (http_error 422 ''title cannot be blank'')
           else Inr (dset data ''title'' (VStr title)))"

definition retarget_action :: "sdb \<Rightarrow> uuid \<Rightarrow> dict \<Rightarrow> row \<Rightarrow> (row \<times> dict) result" where
  "retarget_action db project_id data action =
     (if dhas data ''risk_id'' \<or> dhas data ''opportunity_id''
      then rbind (resolve_target db project_id (dget data ''risk_id'') (dget data ''opportunity_id''))
             (\<lambda>(item_id, _).
           Inr (action(''item_id'' := item_id), dpop (dpop data ''risk_id'') ''opportunity_id''))
      else Inr (action, data))"

definition update_action_route :: "env \<Rightarrow> sdb \<Rightarrow> uuid \<Rightarrow> uuid \<Rightarrow> uuid \<Rightarrow> dict \<Rightarrow> (dict \<times> sdb) result" where
  "update_action_route e db user_id project_id action_id body =
     rbind (validated e ''action'' ActionUpdate body) (\<lambda>payload0.
     rbind (validate_target e body payload0) (\<lambda>payload.
     rbind (require_min_role db project_id user_id ''member'') (\<lambda>_.
     let data0 = dpop payload ''base_version'' in
     rbind (rguard (\<not> (dhas data0 ''kind'' \<and> dget data0 ''kind'' = VNone))
              (http_error 422 ''kind cannot be null'')) (\<lambda>_.
     rbind (rguard (\<not> (dhas data0 ''status'' \<and> dget data0 ''status'' = VNone))
              (http_error 422 ''status cannot be null'')) (\<lambda>_.
     rbind (action_title data0) (\<lambda>data.
     rbind (rest_claim_base_version e db Action (live_where project_id action_id)
              (base_version_of payload) (Some ''Action not found'')) (\<lambda>(action, db').
     rbind (retarget_action db' project_id data action) (\<lambda>(action1, data1).
     rbind (flush_update (e_dialect e) Action
              ((setattrs data1 action1)(''updated_at'' := VTime (e_now e))) db') (\<lambda>(action', db2).
     let t = item_type_of db2 (action' ''item_id'') in
     Inr (action_out action' (if truthy t then py_str t else ''risk''), db2))))))))))"

definition delete_action :: "env \<Rightarrow> sdb \<Rightarrow> uuid \<Rightarrow> uuid \<Rightarrow> uuid \<Rightarrow> sdb result" where
  "delete_action e db user_id project_id action_id =
     rbind (require_min_role db project_id user_id ''manager'') (\<lambda>_.
     delete_item e db project_id action_id Action None)"

subsection \<open>Tickets\<close>

definition create_helpdesk_ticket_route ::
  "env \<Rightarrow> uuid \<Rightarrow> sdb \<Rightarrow> uuid \<Rightarrow> uuid \<Rightarrow> dict \<Rightarrow> (row \<times> sdb) result" where
  "create_helpdesk_ticket_route e new_id db user_id project_id body =
     rbind (validated e ''helpdesk_ticket'' HelpDeskTicketCreate body) (\<lambda>payload.
     rbind (require_min_role db project_id user_id ''member'') (\<lambda>_.
     let now = e_now e in
     flush_insert (e_dialect e) now HelpDeskTicket
       (setattrs
          [(''id'', VUuid new_id), (''project_id'', VUuid project_id), (''title'', dget payload ''title''),
           (''description'', dget payload ''description''),
           (''category'', py_or (dget payload ''category'') (VStr ''other'')),
           (''priority'', py_or (dget payload ''priority'') (VStr ''medium'')),
           (''status'', VStr ''open''), (''reporter_email'', dget payload ''reporter_email''),
           (''created_by'', VUuid user_id), (''created_at'', VTime now), (''updated_at'', VTime now),
           (''version'', VInt 1), (''is_deleted'', VBool False)] (\<lambda>_. VNone)) db))"

definition update_helpdesk_ticket_route ::
  "env \<Rightarrow> sdb \<Rightarrow> uuid \<Rightarrow> uuid \<Rightarrow> uuid \<Rightarrow> dict \<Rightarrow> (row \<times> sdb) result" where
  "update_helpdesk_ticket_route e db user_id project_id ticket_id body =
     rbind (validated e ''helpdesk_ticket'' HelpDeskTicketUpdate body) (\<lambda>payload.
     rbind (require_min_role db project_id user_id ''member'') (\<lambda>_.
     let data = dpop payload ''base_version'' in
     rbind (rguard (\<not> (dhas data ''title'' \<and> dget data ''title'' = VNone))
              (http_error 422 ''title cannot be null'')) (\<lambda>_.
     rbind (rest_claim_base_version e db HelpDeskTicket (live_where project_id ticket_id)
              (base_version_of payload) (Some ''Help Desk ticket not found'')) (\<lambda>(ticket, db').
     flush_update (e_dialect e) HelpDeskTicket
       ((setattrs data ticket)(''updated_at'' := VTime (e_now e))) db'))))"

definition delete_helpdesk_ticket_route :: "env \<Rightarrow> sdb \<Rightarrow> uuid \<Rightarrow> uuid \<Rightarrow> uuid \<Rightarrow> sdb result" where
  "delete_helpdesk_ticket_route e db user_id project_id ticket_id =
     rbind (require_min_role db project_id user_id ''member'') (\<lambda>_.
     case first_where (live_where project_id ticket_id) (tables db HelpDeskTicket) of
       None \<Rightarrow> Inl (http_error 404 ''Help Desk ticket not found'')
     | Some ticket \<Rightarrow>
         rbind (flush_update (e_dialect e) HelpDeskTicket
                  (soft_delete HelpDeskTicket (e_now e) ticket) db) (\<lambda>(_, db'). Inr db'))"

subsection \<open>The routes as one step function\<close>

datatype rest_request =
    Post_item string uuid dict
  | Patch_item string uuid uuid dict
  | Delete_item string uuid uuid
  | Put_assessment string uuid uuid dict
  | Post_action uuid dict
  | Patch_action uuid uuid dict
  | Delete_action uuid uuid
  | Post_ticket uuid dict
  | Patch_ticket uuid uuid dict
  | Delete_ticket uuid uuid

definition stored :: "('a \<times> sdb) result \<Rightarrow> sdb result" where
  "stored res = rbind res (\<lambda>(_, db). Inr db)"

fun rest_write :: "env \<Rightarrow> uuid \<times> uuid \<Rightarrow> uuid \<Rightarrow> rest_request \<Rightarrow> sdb \<Rightarrow> sdb result" where
  "rest_write e ids u (Post_item t p body) db = stored (create_obj e ids db u t p body)"
| "rest_write e ids u (Patch_item t p i body) db = stored (update_obj e db u t p i body)"
| "rest_write e ids u (Delete_item t p i) db = delete_obj e db u t p i"
| "rest_write e ids u (Put_assessment t p i body) db =
     stored (upsert_my_assessment_route e (fst ids) db u t p i body)"
| "rest_write e ids u (Post_action p body) db = stored (create_action e (fst ids) db u p body)"
| "rest_write e ids u (Patch_action p i body) db = stored (update_action_route e db u p i body)"
| "rest_write e ids u (Delete_action p i) db = delete_action e db u p i"
| "rest_write e ids u (Post_ticket p body) db = stored (create_helpdesk_ticket_route e (fst ids) db u p body)"
| "rest_write e ids u (Patch_ticket p i body) db = stored (update_helpdesk_ticket_route e db u p i body)"
| "rest_write e ids u (Delete_ticket p i) db = delete_helpdesk_ticket_route e db u p i"


section \<open>Facts about REST writes\<close>

subsection \<open>One row written\<close>

text \<open>
  What every successful write does: one row appears at version 1 or goes up by one version, no
  other row changes, the invariant holds and the change feed advances.
\<close>

definition row_written :: "sdb \<Rightarrow> model \<Rightarrow> uuid \<Rightarrow> int option \<Rightarrow> sdb \<Rightarrow> bool" where
  "row_written db m i old db' =
     (mutates db m i old (Some (case old of None \<Rightarrow> 1 | Some v \<Rightarrow> v + 1)) db' \<and> feed_advances db db')"

lemma insert_written:
  assumes "flush_insert d now m r db = Inr (r', db')" "db_inv db"
    and "r ''id'' = VUuid i" "r ''version'' = VInt 1" "r ''is_deleted'' = VBool False"
  shows "row_written db m i None db'" "flag_kept db m i db'"
proof -
  from assms(1,2) show "row_written db m i None db'"
    using insert_mutates [OF assms(1-4)] flush_insert_advances [OF assms(1)] db_invD(2)
    by (auto simp: row_written_def)
  note look = flush_insert_lookup [OF assms(1) db_invD(2) [OF assms(2)]]
  have "lookup db m i = None" using look(3) [of i] assms(3) by (cases "lookup db m i") auto
  then show "flag_kept db m i db'"
    using look(4) [of m i] assms(3,5) flush_insert_is_deleted [OF assms(1)] by (simp add: flag_kept_def)
qed

lemma touched_written:
  assumes inv: "db_inv db" and db1: "db1 = set_table m (update_where P f (tables db m)) db"
    and f: "\<And>x. f x ''id'' = x ''id''" "\<And>x. f x ''project_id'' = x ''project_id''"
      "\<And>x. f x ''is_deleted'' = x ''is_deleted''"
    and P: "\<And>x. P x \<Longrightarrow> x ''id'' = VUuid i"
    and inv1: "db_inv db1" and old: "lookup db m i = Some r0"
    and flush: "flush_update d m r db1 = Inr (r', db')"
    and keep: "r ''id'' = VUuid i" "r ''project_id'' = r0 ''project_id''"
      "r ''version'' = VInt (version_of r0 + 1)"
  shows "row_written db m i (Some (version_of r0)) db'"
    "r ''is_deleted'' = r0 ''is_deleted'' \<Longrightarrow> flag_kept db m i db'"
proof -
  let ?g = "\<lambda>x. if P x then f x else x"
  have look1: "lookup db1 m' j = (if m' = m then map_option ?g (lookup db m j) else lookup db m' j)" for m' j
    unfolding db1 by (rule lookup_set_table_update) (rule f(1))
  have other: "lookup db1 m' j = lookup db m' j" if "(m', j) \<noteq> (m, i)" for m' j
  proof (cases "lookup db m j")
    case (Some a)
    then have "m' = m \<Longrightarrow> \<not> P a" using that P [of a] lookup_SomeD [OF Some] by auto
    with Some show ?thesis by (auto simp: look1)
  qed (auto simp: look1)
  have "lookup db1 m i = Some (?g r0)" using look1 [of m i] old by simp
  then have row: "?g r0 \<in> set (tables db1 m)" by (blast dest: lookup_SomeD)
  have g: "?g r0 ''id'' = VUuid i" "?g r0 ''project_id'' = r0 ''project_id''"
    using lookup_SomeD [OF old] f by auto
  have adv: "feed_advances db db'"
    by (rule touched_update_advances [where P = P and f = f, OF _ _ _ _ _ inv1 row flush])
       (use P f keep g in \<open>simp_all add: db1 set_table_def\<close>)
  have inv': "db_inv db'"
    by (rule flush_update_inv [OF flush inv1 row]) (use keep g in simp_all)
  note look = flush_update_lookup [OF flush db_invD(2) [OF inv1]]
  have new: "lookup db' m i = Some r'" using look(2) [of m i] look1 [of m i] old keep(1) by simp
  have "r' ''version'' = VInt (version_of r0 + 1)" using look(1) keep(3) by simp
  then have "row_version db' (m, i) = Some (version_of r0 + 1)"
    using new by (simp add: row_version_def) (simp add: int_col_def)
  moreover have "lookup db' m' j = lookup db m' j" if "(m', j) \<noteq> (m, i)" for m' j
    using that look(2) [of m' j] other [OF that] keep(1) by auto
  ultimately show "row_written db m i (Some (version_of r0)) db'"
    using adv inv' old by (auto simp: row_written_def mutates_def row_version_def)
  show "flag_kept db m i db'" if "r ''is_deleted'' = r0 ''is_deleted''"
    using that look(1) old new by (simp add: flag_kept_def)
qed

lemma update_written:
  assumes inv: "db_inv db" and old: "lookup db m i = Some r0"
    and flush: "flush_update d m r db = Inr (r', db')"
    and keep: "r ''id'' = VUuid i" "r ''project_id'' = r0 ''project_id''"
      "r ''version'' = VInt (version_of r0 + 1)"
  shows "row_written db m i (Some (version_of r0)) db'"
proof -
  have same: "db = set_table m (update_where (\<lambda>_. False) (\<lambda>x. x) (tables db m)) db"
    by (simp add: set_table_def update_where_def)
  show ?thesis
    by (rule touched_written(1) [OF inv same _ _ _ _ inv old flush keep]) auto
qed

subsection \<open>Claims\<close>

lemma db_inv_id:
  assumes "db_inv db" "r \<in> set (tables db m)"
  obtains i where "r ''id'' = VUuid i" "lookup db m i = Some r"
proof -
  have "(''id'', TUuid, False) \<in> set (columns m)" by (cases m) simp_all
  with db_invD(4) [OF assms] have "type_ok SQLite TUuid (r ''id'')" "r ''id'' \<noteq> VNone"
    by (auto simp: row_ok_def types_ok_def not_null_ok_def list_all_iff)
  then obtain i where "r ''id'' = VUuid i" by (cases "r ''id''") auto
  with lookup_unique [OF db_invD(3) [OF assms(1)] assms(2)] show thesis by (intro that)
qed

lemma filter_update_where:
  "(\<And>x. Q (f x) = Q x) \<Longrightarrow>
   filter Q (update_where P f t) = map (\<lambda>x. if P x then f x else x) (filter Q t)"
  by (induction t) (auto simp: update_where_def)

lemma rest_claim_Inr:
  assumes inv: "db_inv db" and stable: "\<And>r. cond (claim_row (e_now e) r) = cond r"
    and claim: "rest_claim_base_version e db m cond v nf = Inr (r1, db1)"
  obtains r0 i where "lookup db m i = Some r0" "cond r0" "version_of r0 = v" "r0 ''id'' = VUuid i"
    "r1 = claim_row (e_now e) r0"
    "db1 = set_table m (update_where (\<lambda>x. x ''id'' = VUuid i) (claim_row (e_now e)) (tables db m)) db"
proof -
  let ?hit = "\<lambda>r. cond r \<and> version_of r = v" and ?f = "claim_row (e_now e)" and ?t = "tables db m"
  from claim have one: "count_where ?hit ?t = 1"
    and db1: "db1 = set_table m (update_where ?hit ?f ?t) db"
    and "filter cond (tables db1 m) = [r1]"
    by (simp_all add: rest_claim_base_version_def Let_def split: if_splits option.splits list.splits)
  then have sel: "filter cond (update_where ?hit ?f ?t) = [r1]" by (simp add: set_table_def)
  from one have "count_where ?hit ?t \<noteq> 0" by simp
  then obtain r0 where r0: "r0 \<in> set ?t" "?hit r0" unfolding count_where_zero_iff by blast
  have "filter cond (update_where ?hit ?f ?t) = map (\<lambda>x. if ?hit x then ?f x else x) (filter cond ?t)"
    by (rule filter_update_where) (rule stable)
  with sel obtain c where c: "filter cond ?t = [c]" "r1 = (if ?hit c then ?f c else c)"
    by (cases "filter cond ?t") auto
  have only: "x = c" if "x \<in> set ?t" "cond x" for x
    using that c(1) filter_set [of cond ?t] by fastforce
  from db_inv_id [OF inv r0(1)] obtain i where i: "r0 ''id'' = VUuid i" "lookup db m i = Some r0" .
  have "?hit x \<longleftrightarrow> x ''id'' = VUuid i" if "x \<in> set ?t" for x
    using that only [OF that] only [OF r0(1)] r0(2) i lookup_hit_elsewhere [OF db_invD(3) [OF inv] i(2) that]
    by auto
  then have "update_where ?hit ?f ?t = update_where (\<lambda>x. x ''id'' = VUuid i) ?f ?t"
    by (simp add: update_where_def)
  with c(2) only [OF r0(1)] r0(2) i db1 show thesis by (intro that [of i r0]) auto
qed

lemma claimed_written:
  assumes inv: "db_inv db" and stable: "\<And>r. cond (claim_row (e_now e) r) = cond r"
    and claim: "rest_claim_base_version e db m cond v nf = Inr (r1, db1)"
    and flush: "flush_update d m r db1 = Inr (r', db')"
    and keep: "r ''id'' = r1 ''id''" "r ''project_id'' = r1 ''project_id''" "r ''version'' = r1 ''version''"
  obtains i r0 where "lookup db m i = Some r0" "cond r0" "row_written db m i (Some v) db'"
    "r ''is_deleted'' = r1 ''is_deleted'' \<longrightarrow> flag_kept db m i db'"
proof -
  from inv stable claim obtain r0 i where old: "lookup db m i = Some r0" and c: "cond r0"
    and v: "version_of r0 = v" and i: "r0 ''id'' = VUuid i" and r1: "r1 = claim_row (e_now e) r0"
    and db1: "db1 = set_table m (update_where (\<lambda>x. x ''id'' = VUuid i) (claim_row (e_now e)) (tables db m)) db"
    by (rule rest_claim_Inr)
  have inv1: "db_inv db1" unfolding db1 by (rule claim_row_inv [OF inv])
  have k: "r ''id'' = VUuid i" "r ''project_id'' = r0 ''project_id''"
    "r ''version'' = VInt (version_of r0 + 1)" "r1 ''is_deleted'' = r0 ''is_deleted''"
    using keep i by (simp_all add: r1 claim_row_def)
  have "row_written db m i (Some (version_of r0)) db'"
    by (rule touched_written(1) [OF inv db1 _ _ _ _ inv1 old flush k(1-3)]) (simp_all add: claim_row_def)
  moreover have "flag_kept db m i db'" if "r ''is_deleted'' = r1 ''is_deleted''"
    by (rule touched_written(2) [OF inv db1 _ _ _ _ inv1 old flush k(1-3)])
       (use that k(4) in \<open>simp_all add: claim_row_def\<close>)
  ultimately show thesis using that [OF old c] by (simp add: v)
qed

subsection \<open>What payloads can set\<close>

definition row_keys :: "string set" where
  "row_keys = {''id'', ''project_id'', ''version'', ''is_deleted''}"

lemma validated_keys: "validated e n schema body = Inr payload \<Longrightarrow> fst ` set payload \<subseteq> fst ` set schema"
  by (force simp: validated_def split: option.splits dest: model_dump_mem)

lemma update_schema_keys:
  "fst ` set ItemUpdate \<inter> row_keys = {}" "fst ` set ActionUpdate \<inter> row_keys = {}"
  "fst ` set HelpDeskTicketUpdate \<inter> row_keys = {}"
  by (simp_all add: ItemUpdate_def ItemShared_fields_def ActionUpdate_def HelpDeskTicketUpdate_def row_keys_def)

lemma dict_keys:
  "fst ` set (dpop d k) \<subseteq> fst ` set d" "fst ` set (dset d k v) \<subseteq> insert k (fst ` set d)"
  using set_dpop [of d k] set_dset [of d k v] by auto

lemma keys_disjoint:
  "\<lbrakk>A \<subseteq> insert c B; B \<subseteq> S; S \<inter> K = {}; c \<notin> K\<rbrakk> \<Longrightarrow> A \<inter> K = {}"
  by blast

lemma on_integrity_error_Inr [simp]: "on_integrity_error err res = Inr x \<longleftrightarrow> res = Inr x"
  by (auto simp: on_integrity_error_def split: sum.splits exc.splits)

lemma validated_fields_keys: "validated_fields kvs = Inr cs \<Longrightarrow> map fst cs = map fst kvs"
  by (induction kvs arbitrary: cs rule: validated_fields.induct) (auto split: if_splits)

lemma validated_fields_status:
  "validated_fields kvs = Inr cs \<Longrightarrow>
   dget cs ''status'' = (if dhas kvs ''status'' then VStr (strip (lower (py_str (dget kvs ''status'')))) else VNone)"
  by (induction kvs arbitrary: cs rule: validated_fields.induct)
     (auto simp: dget_Cons dhas_Cons split: if_splits)

lemma status_value_deleted: "strip (lower (py_str v)) = ''deleted'' \<Longrightarrow> status_value v = ''deleted''"
proof (cases "truthy v")
  case False
  have zero: "nat_str 0 = ''0''" by code_simp
  have "strip (lower s) \<noteq> ''deleted''" if "s \<in> {''None'', ''False'', ''0'', [], ''[]'', ''{}''}" for s
    using that by (elim insertE emptyE; hypsubst; code_simp)
  moreover have "py_str v \<in> {''None'', ''False'', ''0'', [], ''[]'', ''{}''}"
    using False by (cases v) (auto simp: py_str_def int_str_def zero)
  ultimately show "strip (lower (py_str v)) = ''deleted'' \<Longrightarrow> ?thesis" by blast
qed (simp add: status_value_def str_or_empty_def)

lemma validated_changes_Inr:
  assumes "validated_changes payload = Inr (cs, del)"
  shows "fst ` set cs \<subseteq> insert ''code'' (fst ` set payload)"
    "del \<Longrightarrow> status_value (dget payload ''status'') = ''deleted''"
proof -
  from assms obtain data where f: "validated_fields data = Inr cs"
    and data: "data = dpop payload ''base_version'' \<or>
      (\<exists>c. data = dset (dpop payload ''base_version'') ''code'' c)"
    and del: "del = (dget cs ''status'' = VStr ''deleted'')"
    by (auto simp: validated_changes_def Let_def split: if_splits)
  have "fst ` set cs = fst ` set data" using validated_fields_keys [OF f] by (metis list.set_map)
  also have "\<dots> \<subseteq> insert ''code'' (fst ` set payload)"
    using data
  proof (elim disjE exE)
    fix c assume "data = dset (dpop payload ''base_version'') ''code'' c"
    with dict_keys(2) [of "dpop payload ''base_version''" "''code''" c]
      dict_keys(1) [of payload "''base_version''"] show ?thesis by (simp add: subset_iff) blast
  qed (use dict_keys(1) in blast)
  finally show "fst ` set cs \<subseteq> insert ''code'' (fst ` set payload)" .
  have "dget data ''status'' = dget payload ''status''" using data by auto
  then show "status_value (dget payload ''status'') = ''deleted''" if del
    using that del validated_fields_status [OF f] by (auto split: if_splits intro: status_value_deleted)
qed

lemma setattrs_append: "setattrs (a @ b) r = setattrs b (setattrs a r)"
  by (simp add: setattrs_def)

lemma setattrs_row_keys:
  "fst ` set kvs \<inter> row_keys = {} \<Longrightarrow> k \<in> row_keys \<Longrightarrow> setattrs kvs r k = r k"
  by (rule setattrs_other) blast

lemma update_fields_row_keys:
  "fst ` set kvs \<inter> row_keys = {} \<Longrightarrow> k \<in> row_keys \<Longrightarrow> update_fields m now kvs r k = r k"
  by (rule update_fields_const) (force simp: row_keys_def)+

subsection \<open>What each route writes\<close>

definition may_delete :: "sdb \<Rightarrow> uuid \<Rightarrow> uuid \<Rightarrow> bool" where
  "may_delete db p u = (\<exists>role. require_min_role db p u ''manager'' = Inr role)"

lemma create_obj_written:
  assumes "create_obj e ids db u t p body = Inr (r', db')" "db_inv db"
  shows "row_written db Item (fst ids) None db' \<and> flag_kept db Item (fst ids) db'"
proof -
  from assms(1) obtain item where f: "flush_insert (e_dialect e) (e_now e) Item item db = Inr (r', db')"
    and item: "item ''id'' = VUuid (fst ids)" "item ''version'' = VInt 1" "item ''is_deleted'' = VBool False"
    by (auto simp: create_obj_def create_item_def Let_def recalculate_other setattrs_append split: if_splits)
  show ?thesis using insert_written [OF f assms(2) item] by blast
qed

lemma where_stable [simp]:
  "item_where m p i t (claim_row now r) = item_where m p i t r"
  "live_where p i (claim_row now r) = live_where p i r"
  "my_assessment i u (claim_row now r) = my_assessment i u r"
  by (simp_all add: item_where_def live_where_def my_assessment_def claim_row_def split: option.split)

lemma where_id:
  "lookup db m j = Some r \<Longrightarrow> item_where m p i t r \<or> live_where p i r \<Longrightarrow> j = i"
  by (auto simp: item_where_def live_where_def dest: lookup_SomeD)

lemma update_item_Inr:
  assumes "update_item e db p i payload t = Inr (r', db')"
  obtains cs del item db1 where "validated_changes payload = Inr (cs, del)"
    "rest_claim_base_version e db Item (item_where Item p i t) (base_version_of payload)
      (Some ''Item not found'') = Inr (item, db1)"
    "(let item1 = (update_fields Item (e_now e) cs item)(''updated_at'' := VTime (e_now e)) in
      flush_update (e_dialect e) Item (if del then item1(''is_deleted'' := VBool True)
        else recalculate_item_scores Item item1) db1) = Inr (r', db')"
proof -
  from assms obtain cs del where ch: "validated_changes payload = Inr (cs, del)"
    unfolding update_item_def by (auto split: prod.splits)
  with assms obtain item db1 where
    claim: "rest_claim_base_version e db Item (item_where Item p i t) (base_version_of payload)
      (Some ''Item not found'') = Inr (item, db1)"
    unfolding update_item_def by (auto split: prod.splits)
  from assms ch claim show thesis
    by (intro that [OF ch claim]) (auto simp: update_item_def Let_def split: if_splits)
qed

lemma update_obj_written:
  assumes "update_obj e db u t p i body = Inr (r', db')" "db_inv db"
  shows "(\<exists>v. row_written db Item i (Some v) db') \<and> (flag_kept db Item i db' \<or> may_delete db p u)"
proof -
  from assms(1) obtain payload role where val: "validated e t ItemUpdate body = Inr payload"
    and role: "require_min_role db p u
      (if status_value (dget payload ''status'') = ''deleted'' then ''manager'' else ''member'') = Inr role"
    and upd: "update_item e db p i payload (Some t) = Inr (r', db')"
    unfolding update_obj_def Let_def by auto
  from upd obtain cs del item db1 where ch: "validated_changes payload = Inr (cs, del)"
    and claim: "rest_claim_base_version e db Item (item_where Item p i (Some t)) (base_version_of payload)
      (Some ''Item not found'') = Inr (item, db1)"
    and flush: "(let item1 = (update_fields Item (e_now e) cs item)(''updated_at'' := VTime (e_now e)) in
      flush_update (e_dialect e) Item (if del then item1(''is_deleted'' := VBool True)
        else recalculate_item_scores Item item1) db1) = Inr (r', db')"
    by (rule update_item_Inr)
  have "fst ` set cs \<inter> row_keys = {}"
    by (rule keys_disjoint [OF validated_changes_Inr(1) [OF ch] validated_keys [OF val] update_schema_keys(1)])
       (simp add: row_keys_def)
  note keys = update_fields_row_keys [OF this, of _ Item "e_now e" item]
  obtain r where flush': "flush_update (e_dialect e) Item r db1 = Inr (r', db')"
    and keep: "r ''id'' = item ''id''" "r ''project_id'' = item ''project_id''"
      "r ''version'' = item ''version''" and del: "\<not> del \<Longrightarrow> r ''is_deleted'' = item ''is_deleted''"
    using flush keys by (cases del) (auto simp: Let_def recalculate_other row_keys_def)
  from assms(2) where_stable(1) claim flush' keep obtain j r0 where
    j: "lookup db Item j = Some r0" "item_where Item p i (Some t) r0"
    and w: "row_written db Item j (Some (base_version_of payload)) db'"
    and fl: "r ''is_deleted'' = item ''is_deleted'' \<longrightarrow> flag_kept db Item j db'"
    by (rule claimed_written)
  have "del \<Longrightarrow> may_delete db p u" using validated_changes_Inr(2) [OF ch] role by (auto simp: may_delete_def)
  with w fl del where_id [OF j(1)] j(2) show ?thesis by blast
qed

lemma delete_item_written:
  assumes "delete_item e db p i m t = Inr db'" "db_inv db"
  shows "\<exists>v. row_written db m i (Some v) db'"
proof -
  from assms(1) obtain r0 r' where r0: "first_where (item_where m p i t) (tables db m) = Some r0"
    and flush: "flush_update (e_dialect e) m (soft_delete m (e_now e) r0) db = Inr (r', db')"
    by (auto simp: delete_item_def split: option.splits)
  have mem: "r0 \<in> set (tables db m)" "r0 ''id'' = VUuid i"
    using first_where_SomeD [OF r0] by (auto simp: item_where_def)
  show ?thesis
    using update_written [OF assms(2) lookup_unique [OF db_invD(3) [OF assms(2)] mem] flush] mem(2)
    by (auto simp: soft_delete_other soft_delete_version)
qed

lemma set_assessment_row:
  "k \<notin> {''probability'', ''impact'', ''notes'', ''is_deleted'', ''updated_at'', ''score''} \<Longrightarrow>
   set_assessment now payload r k = r k"
  "set_assessment now payload r ''is_deleted'' = VBool False"
  by (simp_all add: set_assessment_def recalculate_other)

lemma upsert_assessment_written:
  assumes "upsert_assessment e n db i u payload = Inr (r', db')" "db_inv db"
  shows "\<exists>j old. row_written db Assessment j old db'"
proof (cases "first_where (my_assessment i u) (tables db Assessment)")
  case None
  with assms(1) have "flush_insert (e_dialect e) (e_now e) Assessment (set_assessment (e_now e) payload
      (setattrs [(''id'', VUuid n), (''item_id'', VUuid i), (''assessor_user_id'', VUuid u),
        (''created_at'', VTime (e_now e)), (''updated_at'', VTime (e_now e)), (''version'', VInt 1),
        (''is_deleted'', VBool False)] (\<lambda>_. VNone))) db = Inr (r', db')"
    by (simp add: upsert_assessment_def Let_def split: if_splits)
  from insert_written(1) [OF this assms(2), of n] show ?thesis by (auto simp: set_assessment_row)
next
  case (Some x)
  with assms(1) obtain a db1 where
    claim: "rest_claim_base_version e db Assessment (my_assessment i u) (base_version_of payload) None = Inr (a, db1)"
    and flush: "flush_update (e_dialect e) Assessment (set_assessment (e_now e) payload a) db1 = Inr (r', db')"
    by (auto simp: upsert_assessment_def Let_def)
  from assms(2) where_stable(3) claim flush obtain j r0 where
    "row_written db Assessment j (Some (base_version_of payload)) db'"
    by (rule claimed_written) (simp_all add: set_assessment_row)
  then show ?thesis by blast
qed

lemma create_action_written:
  assumes "create_action e n db u p body = Inr (out, db')" "db_inv db"
  shows "row_written db Action n None db' \<and> flag_kept db Action n db'"
proof -
  from assms(1) obtain a r' where f: "flush_insert (e_dialect e) (e_now e) Action a db = Inr (r', db')"
    and a: "a ''id'' = VUuid n" "a ''version'' = VInt 1" "a ''is_deleted'' = VBool False"
    by (auto simp: create_action_def Let_def split: prod.splits)
  show ?thesis using insert_written [OF f assms(2) a] by blast
qed

lemma action_title_keys:
  assumes "action_title d = Inr d'"
  shows "fst ` set d' \<subseteq> insert ''title'' (fst ` set d)"
proof -
  from assms consider "d' = d" | c where "d' = dset d ''title'' c"
    by (auto simp: action_title_def Let_def split: if_splits)
  then show ?thesis by cases (blast, simp add: dict_keys(2))
qed

lemma retarget_action_Inr:
  assumes "retarget_action db p d a = Inr (a', d')"
  shows "fst ` set d' \<subseteq> fst ` set d" "k \<noteq> ''item_id'' \<Longrightarrow> a' k = a k"
proof -
  from assms consider "d' = d" "a' = a"
    | item where "d' = dpop (dpop d ''risk_id'') ''opportunity_id''" "a' = a(''item_id'' := item)"
    by (auto simp: retarget_action_def split: if_splits)
  then have "fst ` set d' \<subseteq> fst ` set d \<and> (k \<noteq> ''item_id'' \<longrightarrow> a' k = a k)"
    by cases (simp_all add: order_trans [OF dict_keys(1) dict_keys(1)])
  then show "fst ` set d' \<subseteq> fst ` set d" "k \<noteq> ''item_id'' \<Longrightarrow> a' k = a k" by blast+
qed

lemma update_action_Inr:
  assumes "update_action_route e db u p i body = Inr (out, db')"
  obtains payload data a db1 a1 data1 r' where
    "validated e ''action'' ActionUpdate body = Inr payload"
    "action_title (dpop payload ''base_version'') = Inr data"
    "rest_claim_base_version e db Action (live_where p i) (base_version_of payload)
       (Some ''Action not found'') = Inr (a, db1)"
    "retarget_action db1 p data a = Inr (a1, data1)"
    "flush_update (e_dialect e) Action ((setattrs data1 a1)(''updated_at'' := VTime (e_now e))) db1 = Inr (r', db')"
proof -
  have "validate_target e body x = Inr y \<Longrightarrow> y = x" for x y
    by (simp add: validate_target_def split: if_splits)
  with assms show thesis
    unfolding update_action_route_def Let_def rbind_Inr_iff split_paired_Ex prod.case
    by (elim exE conjE) (simp, blast intro: that)
qed

lemma update_action_written:
  assumes "update_action_route e db u p i body = Inr (out, db')" "db_inv db"
  shows "\<exists>v. row_written db Action i (Some v) db' \<and> flag_kept db Action i db'"
proof -
  from assms(1) obtain payload data a db1 a1 data1 r' where
    val: "validated e ''action'' ActionUpdate body = Inr payload"
    and t: "action_title (dpop payload ''base_version'') = Inr data"
    and claim: "rest_claim_base_version e db Action (live_where p i) (base_version_of payload)
       (Some ''Action not found'') = Inr (a, db1)"
    and re: "retarget_action db1 p data a = Inr (a1, data1)"
    and flush: "flush_update (e_dialect e) Action
       ((setattrs data1 a1)(''updated_at'' := VTime (e_now e))) db1 = Inr (r', db')"
    by (rule update_action_Inr)
  have "fst ` set data1 \<subseteq> insert ''title'' (fst ` set payload)"
    by (rule order_trans [OF retarget_action_Inr(1) [OF re]])
       (rule order_trans [OF action_title_keys [OF t] insert_mono [OF dict_keys(1)]])
  from keys_disjoint [OF this validated_keys [OF val] update_schema_keys(2)]
  have "fst ` set data1 \<inter> row_keys = {}" by (simp add: row_keys_def)
  note set = setattrs_row_keys [OF this, of _ a1]
  define r where "r = (setattrs data1 a1)(''updated_at'' := VTime (e_now e))"
  have keep: "r ''id'' = a ''id''" "r ''project_id'' = a ''project_id''" "r ''version'' = a ''version''"
    "r ''is_deleted'' = a ''is_deleted''"
    unfolding r_def using set retarget_action_Inr(2) [OF re] by (simp_all add: row_keys_def)
  from assms(2) where_stable(2) claim flush [folded r_def] keep(1-3) obtain j r0 where
    j: "lookup db Action j = Some r0" "live_where p i r0"
    and w: "row_written db Action j (Some (base_version_of payload)) db'"
      "r ''is_deleted'' = a ''is_deleted'' \<longrightarrow> flag_kept db Action j db'"
    by (rule claimed_written)
  with where_id [OF j(1)] keep(4) show ?thesis by blast
qed

lemma ticket_written:
  assumes "db_inv db"
  shows "create_helpdesk_ticket_route e n db u p body = Inr (r', db') \<Longrightarrow> row_written db HelpDeskTicket n None db'"
    "update_helpdesk_ticket_route e db u p i body = Inr (r', db') \<Longrightarrow> \<exists>v. row_written db HelpDeskTicket i (Some v) db'"
    "delete_helpdesk_ticket_route e db u p i = Inr db' \<Longrightarrow> \<exists>v. row_written db HelpDeskTicket i (Some v) db'"
proof -
  assume "create_helpdesk_ticket_route e n db u p body = Inr (r', db')"
  then obtain a where f: "flush_insert (e_dialect e) (e_now e) HelpDeskTicket a db = Inr (r', db')"
    and a: "a ''id'' = VUuid n" "a ''version'' = VInt 1" "a ''is_deleted'' = VBool False"
    by (auto simp: create_helpdesk_ticket_route_def Let_def)
  show "row_written db HelpDeskTicket n None db'" using insert_written(1) [OF f assms a] .
next
  assume "update_helpdesk_ticket_route e db u p i body = Inr (r', db')"
  then obtain payload a db1 where val: "validated e ''helpdesk_ticket'' HelpDeskTicketUpdate body = Inr payload"
    and claim: "rest_claim_base_version e db HelpDeskTicket (live_where p i) (base_version_of payload)
       (Some ''Help Desk ticket not found'') = Inr (a, db1)"
    and flush: "flush_update (e_dialect e) HelpDeskTicket
       ((setattrs (dpop payload ''base_version'') a)(''updated_at'' := VTime (e_now e))) db1 = Inr (r', db')"
    by (auto simp: update_helpdesk_ticket_route_def Let_def)
  have "fst ` set (dpop payload ''base_version'') \<inter> row_keys = {}"
    using dict_keys(1) [of payload] validated_keys [OF val] update_schema_keys(3) by blast
  note set = setattrs_row_keys [OF this, of _ a]
  define r where "r = (setattrs (dpop payload ''base_version'') a)(''updated_at'' := VTime (e_now e))"
  have keep: "r ''id'' = a ''id''" "r ''project_id'' = a ''project_id''" "r ''version'' = a ''version''"
    unfolding r_def using set by (simp_all add: row_keys_def)
  from assms where_stable(2) claim flush [folded r_def] keep obtain j r0 where
    j: "lookup db HelpDeskTicket j = Some r0" "live_where p i r0"
    and w: "row_written db HelpDeskTicket j (Some (base_version_of payload)) db'"
    by (rule claimed_written)
  with where_id [OF j(1)] show "\<exists>v. row_written db HelpDeskTicket i (Some v) db'" by blast
next
  assume "delete_helpdesk_ticket_route e db u p i = Inr db'"
  then obtain r0 r' where r0: "first_where (live_where p i) (tables db HelpDeskTicket) = Some r0"
    and flush: "flush_update (e_dialect e) HelpDeskTicket (soft_delete HelpDeskTicket (e_now e) r0) db = Inr (r', db')"
    by (auto simp: delete_helpdesk_ticket_route_def split: option.splits)
  have mem: "r0 \<in> set (tables db HelpDeskTicket)" "r0 ''id'' = VUuid i"
    using first_where_SomeD [OF r0] by (auto simp: live_where_def)
  show "\<exists>v. row_written db HelpDeskTicket i (Some v) db'"
    using update_written [OF assms lookup_unique [OF db_invD(3) [OF assms] mem] flush] mem(2)
    by (auto simp: soft_delete_other soft_delete_version)
qed

subsection \<open>Every REST write\<close>

fun request_project :: "rest_request \<Rightarrow> uuid" where
  "request_project (Post_item t p body) = p"
| "request_project (Patch_item t p i body) = p"
| "request_project (Delete_item t p i) = p"
| "request_project (Put_assessment t p i body) = p"
| "request_project (Post_action p body) = p"
| "request_project (Patch_action p i body) = p"
| "request_project (Delete_action p i) = p"
| "request_project (Post_ticket p body) = p"
| "request_project (Patch_ticket p i body) = p"
| "request_project (Delete_ticket p i) = p"

lemma stored_Inr [simp]: "stored res = Inr db \<longleftrightarrow> (\<exists>x. res = Inr (x, db))"
  by (auto simp: stored_def)

lemma rest_write_row:
  assumes "rest_write e ids u req db = Inr db'" "db_inv db"
  shows "\<exists>m i old. row_written db m i old db' \<and>
    (m \<in> {Item, Action} \<longrightarrow> flag_kept db m i db' \<or> may_delete db (request_project req) u)"
proof (cases req)
  case (Post_item t p body)
  with assms show ?thesis using create_obj_written by (fastforce simp del: fst_conv)
next
  case (Patch_item t p i body)
  with assms show ?thesis using update_obj_written by fastforce
next
  case (Delete_item t p i)
  with assms have "may_delete db p u" "delete_item e db p i Item (Some t) = Inr db'"
    by (auto simp: delete_obj_def may_delete_def)
  with delete_item_written [OF _ assms(2)] Delete_item show ?thesis by fastforce
next
  case (Put_assessment t p i body)
  with assms obtain payload r' where "upsert_assessment e (fst ids) db i u payload = Inr (r', db')"
    by (auto simp: upsert_my_assessment_route_def)
  from upsert_assessment_written [OF this assms(2)] show ?thesis by blast
next
  case (Post_action p body)
  with assms show ?thesis using create_action_written by fastforce
next
  case (Patch_action p i body)
  with assms show ?thesis using update_action_written by fastforce
next
  case (Delete_action p i)
  with assms have "may_delete db p u" "delete_item e db p i Action None = Inr db'"
    by (auto simp: delete_action_def may_delete_def)
  with delete_item_written [OF _ assms(2)] Delete_action show ?thesis by fastforce
next
  case (Post_ticket p body)
  with assms show ?thesis using ticket_written(1) [OF assms(2)] by fastforce
next
  case (Patch_ticket p i body)
  with assms show ?thesis using ticket_written(2) [OF assms(2)] by fastforce
next
  case (Delete_ticket p i)
  with assms show ?thesis using ticket_written(3) [OF assms(2)] by fastforce
qed

lemma rest_write_inv:
  assumes "rest_write e ids u req db = Inr db'" "db_inv db"
  shows "db_inv db'" "feed_advances db db'"
  using rest_write_row [OF assms] by (auto simp: row_written_def mutates_def)

lemma rest_write_flags:
  assumes "rest_write e ids u req db = Inr db'" "db_inv db" "\<not> may_delete db (request_project req) u"
  shows "flags_kept db db'"
proof -
  from rest_write_row [OF assms(1,2)] assms(3) obtain m i old where
    w: "row_written db m i old db'" and k: "m \<in> {Item, Action} \<longrightarrow> flag_kept db m i db'" by blast
  show ?thesis
    by (rule mutates_flags [OF conjunct1 [OF w [unfolded row_written_def]]])
       (use k in \<open>simp add: flag_kept_def\<close>)
qed

subsection \<open>Who may delete\<close>

text \<open>What one user does to one project: push a batch of JSON changes or send a REST write.\<close>

inductive user_write :: "uuid \<Rightarrow> uuid \<Rightarrow> sdb \<Rightarrow> sdb \<Rightarrow> bool" for u p where
  push: "push_changes e commit_ok db u p changes = Inr (db', results) \<Longrightarrow> coerce_ok (e_coerce e) \<Longrightarrow>
    \<forall>c \<in> set changes. \<forall>i. dget (c_record c) ''id'' \<noteq> VUuid i \<Longrightarrow> user_write u p db db'"
| rest: "rest_write e ids u req db = Inr db' \<Longrightarrow> request_project req = p \<Longrightarrow> user_write u p db db'"

lemma not_manager:
  assumes "\<not> may_delete db p u" "ensure_member db p u = Inr role"
  shows "rank_or 0 role < 3"
proof -
  have "require_min_role db p u (role_value Viewer) = Inr role" using assms(2) by (simp add: ensure_member_def)
  then obtain a where r: "get_member_role db p u = Some role" "role = role_value a"
    unfolding require_min_role_Inr by blast
  with assms(1) have "\<not> Manager \<le> a"
    using require_min_role_Inr [of db p u Manager role] by (auto simp: may_delete_def)
  then show ?thesis by (cases a) (simp_all add: r(2) less_eq_role_def role_rank_def rank_or_def ROLE_RANK_def)
qed

lemma user_write_flags:
  assumes "user_write u p db db'" "db_inv db" "\<not> may_delete db p u"
  shows "flags_kept db db'"
  using assms
proof (induction rule: user_write.induct)
  case (push e commit_ok db changes db' results)
  from push.hyps(1) obtain role ctx where role: "ensure_member db p u = Inr role"
    and loop: "push_loop e changes (initial_ctx db u p role changes) = Inr ctx" and "db' = px_db ctx"
    by (rule push_changes_Inr)
  with push_loop_flags [OF loop push_wf_initial] push not_manager [OF _ role] show ?case
    by (simp add: initial_ctx_def)
next
  case (rest e ids req db db')
  then show ?case using rest_write_flags by blast
qed

subsection \<open>Claims of both paths\<close>

text \<open>
  The sync engine and the routers claim versions of the same rows. A claimant is a user of one
  of the two paths with the rows its conditions can name.
\<close>

datatype claimant =
    Sync_client string uuid uuid
  | Item_client string uuid
  | Live_client uuid
  | Assessment_client uuid uuid

fun claim_cond :: "claimant \<Rightarrow> model \<Rightarrow> uuid \<Rightarrow> row \<Rightarrow> bool" where
  "claim_cond (Item_client t p) m i r = (m = Item \<and> item_where Item p i (Some t) r)"
| "claim_cond (Live_client p) m i r = (m \<in> {Action, HelpDeskTicket} \<and> live_where p i r)"
| "claim_cond (Assessment_client item u) m i r = (m = Assessment \<and> my_assessment item u r)"
| "claim_cond (Sync_client entity p u) m i r = False"

definition rest_claim :: "env \<Rightarrow> claimant \<Rightarrow> sdb \<Rightarrow> model \<times> uuid \<Rightarrow> int \<Rightarrow> sdb option" where
  "rest_claim e c db k v =
     (case rest_claim_base_version e db (fst k) (claim_cond c (fst k) (snd k)) v None of
        Inl _ \<Rightarrow> None
      | Inr (r, db') \<Rightarrow> if r ''id'' = VUuid (snd k) then Some db' else None)"

definition rest_visible :: "claimant \<Rightarrow> sdb \<Rightarrow> model \<times> uuid \<Rightarrow> bool" where
  "rest_visible c db k =
     (case lookup db (fst k) (snd k) of
        None \<Rightarrow> False
      | Some r \<Rightarrow> filter (claim_cond c (fst k) (snd k)) (tables db (fst k)) = [r])"

definition store_claim :: "env \<Rightarrow> claimant \<Rightarrow> sdb \<Rightarrow> model \<times> uuid \<Rightarrow> int \<Rightarrow> sdb option" where
  "store_claim e c db k v =
     (case c of Sync_client entity p u \<Rightarrow> sync_claim (e_now e) (entity, p, u) db k v
      | _ \<Rightarrow> rest_claim e c db k v)"

definition store_visible :: "claimant \<Rightarrow> sdb \<Rightarrow> model \<times> uuid \<Rightarrow> bool" where
  "store_visible c db k =
     (case c of Sync_client entity p u \<Rightarrow> sync_client_visible (entity, p, u) db k
      | _ \<Rightarrow> rest_visible c db k)"

lemma claim_cond_stable [simp]: "claim_cond c m i (claim_row now r) = claim_cond c m i r"
  by (cases c) simp_all

lemma rest_claim_Some:
  assumes inv: "db_inv db"
  shows "rest_claim e c db (m, i) v = Some db' \<longleftrightarrow>
    (\<exists>r. lookup db m i = Some r \<and> filter (claim_cond c m i) (tables db m) = [r] \<and> version_of r = v \<and>
      db' = set_table m (update_where (\<lambda>x. x ''id'' = VUuid i) (claim_row (e_now e)) (tables db m)) db)"
    (is "?L \<longleftrightarrow> (\<exists>r. ?R r)")
proof
  let ?cond = "claim_cond c m i" and ?f = "claim_row (e_now e)" and ?t = "tables db m"
  assume ?L
  then obtain r1 where claim: "rest_claim_base_version e db m ?cond v None = Inr (r1, db')"
    and id: "r1 ''id'' = VUuid i"
    by (auto simp: rest_claim_def split: sum.splits if_splits)
  from inv claim_cond_stable claim obtain r0 j where r0: "lookup db m j = Some r0" "?cond r0"
    "version_of r0 = v" "r0 ''id'' = VUuid j" and r1: "r1 = ?f r0"
    and db': "db' = set_table m (update_where (\<lambda>x. x ''id'' = VUuid j) ?f ?t) db"
    by (rule rest_claim_Inr)
  have "j = i" using r0(4) id by (simp add: r1)
  moreover have "filter ?cond ?t = [r0]"
  proof -
    have "filter ?cond (tables db' m) = [r1]"
      using claim by (simp add: rest_claim_base_version_def Let_def split: if_splits option.splits list.splits)
    moreover have "filter ?cond (tables db' m) = map (\<lambda>x. if x ''id'' = VUuid j then ?f x else x) (filter ?cond ?t)"
      unfolding db' by (simp add: set_table_def) (rule filter_update_where, rule claim_cond_stable)
    moreover have "r0 \<in> set (filter ?cond ?t)" using r0(1,2) lookup_SomeD by fastforce
    ultimately show ?thesis by (cases "filter ?cond ?t") auto
  qed
  ultimately show "\<exists>r. ?R r" using r0 db' by auto
next
  let ?cond = "claim_cond c m i" and ?f = "claim_row (e_now e)" and ?t = "tables db m"
  let ?hit = "\<lambda>r. ?cond r \<and> version_of r = v"
  assume "\<exists>r. ?R r"
  then obtain r where r: "lookup db m i = Some r" "filter ?cond ?t = [r]" "version_of r = v"
    and db': "db' = set_table m (update_where (\<lambda>x. x ''id'' = VUuid i) ?f ?t) db" by blast
  have "filter ?hit ?t = filter (\<lambda>r. version_of r = v) (filter ?cond ?t)" by (simp add: conj_commute)
  then have hits: "filter ?hit ?t = [r]" using r(2,3) by simp
  have "?hit x \<longleftrightarrow> x ''id'' = VUuid i" if "x \<in> set ?t" for x
  proof
    assume "?hit x"
    then have "x \<in> set (filter ?hit ?t)" using that by simp
    then show "x ''id'' = VUuid i" using lookup_SomeD [OF r(1)] by (simp add: hits)
  next
    assume "x ''id'' = VUuid i"
    then have "x = r" using lookup_hit_elsewhere [OF db_invD(3) [OF inv] r(1) that] by simp
    moreover have "r \<in> set (filter ?hit ?t)" by (simp add: hits)
    ultimately show "?hit x" by simp
  qed
  then have upd: "update_where ?hit ?f ?t = update_where (\<lambda>x. x ''id'' = VUuid i) ?f ?t"
    by (simp add: update_where_def)
  have "filter ?cond (update_where ?hit ?f ?t) = map (\<lambda>x. if ?hit x then ?f x else x) [r]"
    unfolding r(2) [symmetric] by (rule filter_update_where) (rule claim_cond_stable)
  moreover have "r \<in> set (filter ?hit ?t)" by (simp add: hits)
  then have "?hit r" unfolding set_filter by blast
  ultimately have sel: "filter ?cond (update_where ?hit ?f ?t) = [?f r]" by simp
  have "count_where ?hit ?t = 1" by (simp add: count_where_def hits)
  with sel have "rest_claim_base_version e db m ?cond v None = Inr (?f r, db')"
    unfolding rest_claim_base_version_def Let_def db' upd [symmetric] by (simp add: set_table_def)
  then show ?L using lookup_SomeD [OF r(1)] by (simp add: rest_claim_def)
qed

lemma store_claim_cases:
  assumes "store_claim e c db k v = Some db'" "db_inv db"
  shows "db_inv db'" "row_version db' k = Some (v + 1)"
    "k' \<noteq> k \<Longrightarrow> row_version db' k' = row_version db k'"
proof -
  obtain m i where k: "k = (m, i)" by (cases k)
  have rest: "db_inv db' \<and> row_version db' k = Some (v + 1) \<and> (k' \<noteq> k \<longrightarrow> row_version db' k' = row_version db k')"
    if "rest_claim e c db k v = Some db'"
  proof -
    from that obtain r where r: "lookup db m i = Some r" "version_of r = v"
      and db': "db' = set_table m (update_where (\<lambda>x. x ''id'' = VUuid i) (claim_row (e_now e)) (tables db m)) db"
      unfolding k rest_claim_Some [OF assms(2)] by blast
    have look: "lookup db' m' j = (if m' = m then map_option (\<lambda>r. if r ''id'' = VUuid i then
        claim_row (e_now e) r else r) (lookup db m j) else lookup db m' j)" for m' j
      unfolding db' by (rule lookup_set_table_update) simp
    have "row_version db' (m', j) = row_version db (m', j)" if "(m', j) \<noteq> (m, i)" for m' j
      using that lookup_SomeD [of db m j] by (cases "lookup db m j") (auto simp: row_version_def look)
    moreover have "row_version db' (m, i) = Some (v + 1)"
      using r lookup_SomeD [OF r(1)] by (simp add: row_version_def look)
    moreover have "db_inv db'" unfolding db' by (rule claim_row_inv [OF assms(2)])
    ultimately show ?thesis by (cases k') (auto simp: k)
  qed
  have sync: "db_inv db' \<and> row_version db' k = Some (v + 1) \<and> (k' \<noteq> k \<longrightarrow> row_version db' k' = row_version db k')"
    if "sync_claim (e_now e) (entity, p, u) db k v = Some db'" for entity p u
  proof -
    from that have "claim_base_version (e_now e) db entity i p u v = Inr db'"
      by (auto simp: sync_claim_def k split: sum.splits if_splits)
    with claim_base_version_inv [OF assms(2)] sync_claims.claim_advances [OF db_invD(3) [OF assms(2)] that]
      sync_claims.claim_frame [OF db_invD(3) [OF assms(2)] that] show ?thesis by blast
  qed
  from assms(1) rest sync
  have *: "db_inv db' \<and> row_version db' k = Some (v + 1) \<and> (k' \<noteq> k \<longrightarrow> row_version db' k' = row_version db k')"
    by (auto simp: store_claim_def split: claimant.splits)
  then show "db_inv db'" "row_version db' k = Some (v + 1)"
    "k' \<noteq> k \<Longrightarrow> row_version db' k' = row_version db k'" by blast+
qed

interpretation store_claims: versioned_store db_inv row_version store_visible "store_claim e" for e
proof
  fix db :: sdb and c :: claimant and k :: "model \<times> uuid" and v :: int
  assume inv: "db_inv db"
  obtain m i where k: "k = (m, i)" by (cases k)
  have rest: "(rest_claim e c db k v \<noteq> None) = (rest_visible c db k \<and> row_version db k = Some v)"
    unfolding k not_None_eq rest_claim_Some [OF inv]
    by (auto simp: rest_visible_def row_version_def split: option.splits)
  show "(store_claim e c db k v \<noteq> None) = (store_visible c db k \<and> row_version db k = Some v)"
    using rest sync_claims.claim_enabled [OF db_invD(3) [OF inv]]
    by (cases c) (simp_all add: store_claim_def store_visible_def)
qed (rule store_claim_cases; assumption)+

subsection \<open>The database under all writers\<close>

text \<open>Any user pushes any batch or sends any REST write.\<close>

definition write_trans :: "sdb \<Rightarrow> sdb \<Rightarrow> bool" where
  "write_trans db db' =
     (push_trans db db' \<or> (\<exists>e ids u req. rest_write e ids u req db = Inr db'))"

interpretation writes: invariant_system "\<lambda>db. db = db0 \<and> db_inv db0" write_trans
  "\<lambda>db. db_inv db \<and> feed_advances db0 db" for db0
proof
  fix s assume "s = db0 \<and> db_inv db0"
  then show "db_inv s \<and> feed_advances db0 s" by (auto intro: feed_advances_same)
next
  fix s t assume s: "db_inv s \<and> feed_advances db0 s" and "write_trans s t"
  then consider "push_trans s t" | e ids u req where "rest_write e ids u req s = Inr t"
    unfolding write_trans_def by blast
  then show "db_inv t \<and> feed_advances db0 t"
  proof cases
    case 1
    with s show ?thesis
      unfolding push_trans_def using push_changes_inv push_changes_advances feed_advances_trans by blast
  next
    case 2
    with s show ?thesis using rest_write_inv feed_advances_trans by blast
  qed
qed

end
