(* ===== verification/Server_Tokens.thy ===== *)
theory Server_Tokens
  imports Server_Models
begin

section \<open>Refresh tokens\<close>

text \<open>
  \<open>auth/service.py\<close>: issuing, rotating and revoking refresh tokens. The state is the pair of
  tables the functions read and write. Random tokens and identifiers, the clock and the
  configuration are arguments; \<open>hash_bearer_secret\<close> is a keyed SHA-256 of the standard library
  and a parameter of the model.

  PostgreSQL runs requests concurrently: between the read of an attempt and its conditional
  update other sessions may commit. An attempt therefore carries a function \<open>at_meanwhile\<close>, what
  the others commit in that window. Under SQLite \<open>BEGIN IMMEDIATE\<close> makes it the identity.
\<close>

record refresh_token =
  rt_id :: uuid
  rt_user_id :: uuid
  rt_token_hash :: string
  rt_issued_at :: time
  rt_expires_at :: time
  rt_revoked_at :: "time option"
  rt_replaced_by_id :: "uuid option"

record auth_db =
  accounts :: "user_row list"
  tokens :: "refresh_token list"

record auth_config =
  cf_hash :: "string \<Rightarrow> string"
  REFRESH_TOKEN_DAYS :: int
  REFRESH_TOKEN_REUSE_GRACE_SECONDS :: int

record attempt =
  at_now :: time
  at_new_id :: uuid
  at_new_raw :: string
  at_meanwhile :: "auth_db \<Rightarrow> auth_db"

definition second_us :: int where
  "second_us = 1000000"

definition new_refresh_token :: "auth_config \<Rightarrow> uuid \<Rightarrow> time \<Rightarrow> uuid \<Rightarrow> string \<Rightarrow> refresh_token" where
  "new_refresh_token cf user_id now new_id raw =
    \<lparr>rt_id = new_id, rt_user_id = user_id, rt_token_hash = cf_hash cf raw, rt_issued_at = now,
     rt_expires_at = now + REFRESH_TOKEN_DAYS cf * 86400 * second_us,
     rt_revoked_at = None, rt_replaced_by_id = None\<rparr>"

definition add_token :: "refresh_token \<Rightarrow> auth_db \<Rightarrow> auth_db" where
  "add_token t d = d\<lparr>tokens := tokens d @ [t]\<rparr>"

definition issue_refresh_token ::
  "auth_config \<Rightarrow> uuid \<Rightarrow> time \<Rightarrow> uuid \<Rightarrow> string \<Rightarrow> auth_db \<Rightarrow> string \<times> auth_db" where
  "issue_refresh_token cf user_id now new_id raw d =
    (raw, add_token (new_refresh_token cf user_id now new_id raw) d)"

text \<open>The conditional update; \<open>rowcount == 1\<close> says whether this session won the token.\<close>

definition claimable :: "uuid \<Rightarrow> time \<Rightarrow> refresh_token \<Rightarrow> bool" where
  "claimable token_id now t \<longleftrightarrow> rt_id t = token_id \<and> rt_revoked_at t = None \<and>
     rt_replaced_by_id t = None \<and> rt_expires_at t > now"

definition claim_refresh_token :: "auth_db \<Rightarrow> uuid \<Rightarrow> uuid \<Rightarrow> time \<Rightarrow> bool \<times> auth_db" where
  "claim_refresh_token d token_id replacement_id now =
    (count_where (claimable token_id now) (tokens d) = 1,
     d\<lparr>tokens := update_where (claimable token_id now)
         (\<lambda>t. t\<lparr>rt_revoked_at := Some now, rt_replaced_by_id := Some replacement_id\<rparr>) (tokens d)\<rparr>)"

subsection \<open>The replacement graph of one user\<close>

definition token_ids :: "refresh_token list \<Rightarrow> uuid list" where
  "token_ids ts = map rt_id ts"

definition missing_links :: "refresh_token list \<Rightarrow> refresh_token list \<Rightarrow> uuid list" where
  "missing_links frontier by_id =
     filter (\<lambda>i. i \<notin> set (token_ids by_id)) (List.map_filter rt_replaced_by_id frontier)"

definition linked_tokens :: "refresh_token list \<Rightarrow> uuid \<Rightarrow> uuid list \<Rightarrow> refresh_token list" where
  "linked_tokens table user_id ids =
     sort_key rt_id (filter (\<lambda>t. rt_user_id t = user_id \<and> rt_id t \<in> set ids) table)"

text \<open>
  The loop that follows replacement links to rows the first locking select could not see. Every
  round adds rows of the table that were not collected before, so it ends.
\<close>

function follow_links :: "refresh_token list \<Rightarrow> uuid \<Rightarrow> refresh_token list \<Rightarrow> refresh_token list \<Rightarrow> refresh_token list" where
  "follow_links table user_id frontier by_id =
    (let missing_ids = missing_links frontier by_id;
         linked = linked_tokens table user_id missing_ids
     in if missing_ids = [] \<or> linked = [] then by_id
        else follow_links table user_id linked (by_id @ linked))"
  by pat_completeness auto

termination
proof (relation "measure (\<lambda>(table, user_id, frontier, by_id).
    card (set (token_ids table) - set (token_ids by_id)))", goal_cases)
  case (2 table user_id frontier by_id missing_ids linked)
  then have "linked \<noteq> []" by simp
  then obtain t where t: "t \<in> set linked" by (meson list.set_sel(1))
  with 2 have "rt_id t \<in> set (token_ids table) - set (token_ids by_id)"
    by (auto simp: linked_tokens_def missing_links_def token_ids_def)
  with t have "card (set (token_ids table) - set (token_ids (by_id @ linked)))
      < card (set (token_ids table) - set (token_ids by_id))"
    by (intro psubset_card_mono) (auto simp: token_ids_def)
  then show ?case by simp
qed simp

declare follow_links.simps [simp del]

text \<open>
  The first select waits for row locks: it returns the rows its snapshot \<open>snap\<close> saw, with the
  values they have once the locks are granted (table \<open>d\<close>).
\<close>

definition snapshot_rows :: "auth_db \<Rightarrow> auth_db \<Rightarrow> uuid \<Rightarrow> refresh_token list" where
  "snapshot_rows snap d user_id =
    linked_tokens (tokens d) user_id (token_ids (filter (\<lambda>t. rt_user_id t = user_id) (tokens snap)))"

definition locked_user_refresh_tokens :: "auth_db \<Rightarrow> auth_db \<Rightarrow> uuid \<Rightarrow> refresh_token list" where
  "locked_user_refresh_tokens snap d user_id =
    follow_links (tokens d) user_id (snapshot_rows snap d user_id) (snapshot_rows snap d user_id)"

definition neighbors :: "refresh_token list \<Rightarrow> uuid \<Rightarrow> uuid list" where
  "neighbors ts i = concat (map (\<lambda>t. case rt_replaced_by_id t of
       None \<Rightarrow> []
     | Some r \<Rightarrow> if r \<notin> set (token_ids ts) then []
                 else (if rt_id t = i then [r] else []) @ (if r = i then [rt_id t] else [])) ts)"

lemma neighbors_ids: "set (neighbors ts i) \<subseteq> set (token_ids ts)"
  by (auto simp: neighbors_def token_ids_def split: option.splits if_splits)

text \<open>The work list loop; the end of Python's list, where \<open>pop\<close> and \<open>extend\<close> work, is the head.\<close>

function family_search :: "refresh_token list \<Rightarrow> uuid list \<Rightarrow> uuid list \<Rightarrow> uuid list" where
  "family_search ts family [] = family"
| "family_search ts family (c # remaining) =
    (if c \<in> set family then family_search ts family remaining
     else family_search ts (c # family)
            (filter (\<lambda>i. i \<notin> set (c # family)) (neighbors ts c) @ remaining))"
  by pat_completeness auto

termination
proof (relation "measures [\<lambda>(ts, family, remaining). card ((set (token_ids ts) \<union> set remaining) - set family),
    \<lambda>(ts, family, remaining). length remaining]", goal_cases)
  case 1 show ?case by simp
next
  case (2 ts family c remaining)
  then have "set (token_ids ts) \<union> set (c # remaining) - set family = set (token_ids ts) \<union> set remaining - set family"
    by auto
  then show ?case by simp
next
  case (3 ts family c remaining)
  have "card ((set (token_ids ts) \<union> set (filter (\<lambda>i. i \<notin> set (c # family)) (neighbors ts c) @ remaining)) - set (c # family))
      < card ((set (token_ids ts) \<union> set (c # remaining)) - set family)"
    using 3 neighbors_ids [of ts c] by (intro psubset_card_mono) auto
  then show ?case by simp
qed

definition refresh_family_ids :: "refresh_token list \<Rightarrow> uuid \<Rightarrow> uuid list" where
  "refresh_family_ids ts token_id =
    (if token_id \<notin> set (token_ids ts) then [] else family_search ts [] [token_id])"

subsection \<open>Rotation\<close>

definition invalid_refresh_token :: exc where
  "invalid_refresh_token = http_error 401 ''Invalid refresh token''"

text \<open>An attempt returns a token, asks for another attempt, or raises; each with the database.\<close>

datatype rotation =
    Rotated string uuid
  | Try_again
  | Rejected exc

definition by_id_get :: "refresh_token list \<Rightarrow> uuid \<Rightarrow> refresh_token option" where
  "by_id_get ts i = first_where (\<lambda>t. rt_id t = i) ts"

definition revoke_ids :: "uuid list \<Rightarrow> time \<Rightarrow> auth_db \<Rightarrow> auth_db" where
  "revoke_ids ids now d = d\<lparr>tokens := update_where
     (\<lambda>t. rt_id t \<in> set ids \<and> rt_revoked_at t = None) (\<lambda>t. t\<lparr>rt_revoked_at := Some now\<rparr>) (tokens d)\<rparr>"

definition grace_eligible :: "auth_config \<Rightarrow> time \<Rightarrow> time \<Rightarrow> refresh_token option \<Rightarrow> bool" where
  "grace_eligible cf now revoked_at replacement =
    (let grace = REFRESH_TOKEN_REUSE_GRACE_SECONDS cf in
     grace > 0 \<and> 0 \<le> now - revoked_at \<and> now - revoked_at \<le> grace * second_us \<and>
     (case replacement of None \<Rightarrow> False
      | Some r \<Rightarrow> rt_revoked_at r = None \<and> rt_replaced_by_id r = None \<and> rt_expires_at r > now))"

definition rotate_onto :: "auth_config \<Rightarrow> attempt \<Rightarrow> uuid \<Rightarrow> uuid \<Rightarrow> auth_db \<Rightarrow> rotation \<times> auth_db" where
  "rotate_onto cf att token_id user_id d =
    (case claim_refresh_token d token_id (at_new_id att) (at_now att) of
       (True, d1) \<Rightarrow> (Rotated (at_new_raw att) user_id,
          add_token (new_refresh_token cf user_id (at_now att) (at_new_id att) (at_new_raw att)) d1)
     | (False, _) \<Rightarrow> (Try_again, d))"

definition recover_or_revoke_refresh_family ::
  "auth_config \<Rightarrow> attempt \<Rightarrow> auth_db \<Rightarrow> auth_db \<Rightarrow> uuid \<Rightarrow> uuid \<Rightarrow> rotation \<times> auth_db" where
  "recover_or_revoke_refresh_family cf att snap d token_id user_id =
    (let ts = locked_user_refresh_tokens snap d user_id in
     case by_id_get ts token_id of
       None \<Rightarrow> (Try_again, d)
     | Some token \<Rightarrow>
         (case rt_revoked_at token of
            None \<Rightarrow> (Try_again, d)
          | Some revoked_at \<Rightarrow>
              let replacement = Option.bind (rt_replaced_by_id token) (by_id_get ts) in
              if grace_eligible cf (at_now att) revoked_at replacement
              then rotate_onto cf att (rt_id (the replacement)) user_id d
              else (Rejected invalid_refresh_token,
                    revoke_ids (refresh_family_ids ts token_id) (at_now att) d)))"

definition rotate_attempt :: "auth_config \<Rightarrow> attempt \<Rightarrow> string \<Rightarrow> auth_db \<Rightarrow> rotation \<times> auth_db" where
  "rotate_attempt cf att raw d =
    (case first_where (\<lambda>t. rt_token_hash t = cf_hash cf raw) (tokens d) of
       None \<Rightarrow> (Rejected invalid_refresh_token, d)
     | Some rt \<Rightarrow>
         (case first_where (\<lambda>u. u_id u = rt_user_id rt) (accounts d) of
            None \<Rightarrow> (Rejected invalid_refresh_token, d)
          | Some user \<Rightarrow>
              if \<not> u_is_active user then (Rejected invalid_refresh_token, d)
              else if rt_revoked_at rt \<noteq> None
              then recover_or_revoke_refresh_family cf att d (at_meanwhile att d) (rt_id rt) (rt_user_id rt)
              else if rt_expires_at rt \<le> at_now att then (Rejected invalid_refresh_token, d)
              else rotate_onto cf att (rt_id rt) (rt_user_id rt) (at_meanwhile att d)))"

fun rotate_attempts :: "auth_config \<Rightarrow> attempt list \<Rightarrow> string \<Rightarrow> auth_db \<Rightarrow> (string \<times> uuid) result \<times> auth_db" where
  "rotate_attempts cf [] raw d = (Inl invalid_refresh_token, d)"
| "rotate_attempts cf (att # atts) raw d =
    (case rotate_attempt cf att raw d of
       (Rotated new_raw user_id, d') \<Rightarrow> (Inr (new_raw, user_id), d')
     | (Rejected e, d') \<Rightarrow> (Inl e, d')
     | (Try_again, d') \<Rightarrow> rotate_attempts cf atts raw d')"

text \<open>\<open>for _attempt in range(3)\<close>.\<close>

definition rotate_refresh_token ::
  "auth_config \<Rightarrow> (nat \<Rightarrow> attempt) \<Rightarrow> string \<Rightarrow> auth_db \<Rightarrow> (string \<times> uuid) result \<times> auth_db" where
  "rotate_refresh_token cf att raw d = rotate_attempts cf (map att [0..<3]) raw d"

definition revoke_user_refresh_tokens :: "uuid \<Rightarrow> time \<Rightarrow> auth_db \<Rightarrow> nat \<times> auth_db" where
  "revoke_user_refresh_tokens user_id now d =
    (let active = (\<lambda>t. rt_user_id t = user_id \<and> rt_revoked_at t = None)
     in (count_where active (tokens d),
         d\<lparr>tokens := update_where active (\<lambda>t. t\<lparr>rt_revoked_at := Some now\<rparr>) (tokens d)\<rparr>))"


section \<open>Families\<close>

text \<open>
  Two tokens belong to one family when replacement links connect them, in either direction. The
  work list search computes exactly that connected component.
\<close>

definition links :: "refresh_token list \<Rightarrow> (uuid \<times> uuid) set" where
  "links ts = {(rt_id t, r) |t r. t \<in> set ts \<and> rt_replaced_by_id t = Some r \<and> r \<in> set (token_ids ts)}"

definition related :: "refresh_token list \<Rightarrow> (uuid \<times> uuid) set" where
  "related ts = links ts \<union> (links ts)\<inverse>"

definition family :: "refresh_token list \<Rightarrow> uuid \<Rightarrow> uuid set" where
  "family ts i = (related ts)\<^sup>* `` {i}"

lemma set_neighbors: "set (neighbors ts i) = related ts `` {i}"
  by (auto simp: neighbors_def related_def links_def split: option.splits if_splits) metis+

lemma related_ids: "(i, j) \<in> related ts \<Longrightarrow> i \<in> set (token_ids ts) \<and> j \<in> set (token_ids ts)"
  by (auto simp: related_def links_def token_ids_def)

lemma family_search_sound:
  "set (family_search ts fam rem) \<subseteq> set fam \<union> (related ts)\<^sup>* `` set rem"
proof (induction ts fam rem rule: family_search.induct)
  case (2 ts fam c rem)
  show ?case
  proof (cases "c \<in> set fam")
    case True with 2(1) show ?thesis by auto
  next
    case False
    have "(related ts)\<^sup>* `` set (neighbors ts c) \<subseteq> (related ts)\<^sup>* `` {c}"
      by (auto simp: set_neighbors intro: converse_rtrancl_into_rtrancl)
    with 2(2) [OF False] False show ?thesis by auto
  qed
qed simp

lemma family_search_closed:
  assumes "related ts `` set fam \<subseteq> set fam \<union> set rem"
  shows "set fam \<union> set rem \<subseteq> set (family_search ts fam rem) \<and>
    related ts `` set (family_search ts fam rem) \<subseteq> set (family_search ts fam rem)"
  using assms
proof (induction ts fam rem rule: family_search.induct)
  case (2 ts fam c rem)
  show ?case
  proof (cases "c \<in> set fam")
    case True
    with 2(3) have "related ts `` set fam \<subseteq> set fam \<union> set rem" by auto
    from 2(1) [OF True this] True show ?thesis by auto
  next
    case False
    have "related ts `` set (c # fam) \<subseteq> set (c # fam) \<union>
        set (filter (\<lambda>i. i \<notin> set (c # fam)) (neighbors ts c) @ rem)"
      using 2(3) by (auto simp: set_neighbors)
    from 2(2) [OF False this] False show ?thesis by auto
  qed
qed auto

lemma refresh_family_ids_family:
  "set (refresh_family_ids ts i) = (if i \<in> set (token_ids ts) then family ts i else {})"
proof -
  let ?F = "set (family_search ts [] [i])"
  have "i \<in> ?F" "related ts `` ?F \<subseteq> ?F"
    using family_search_closed [of ts "[]" "[i]"] by auto
  then have "(related ts)\<^sup>* `` {i} \<subseteq> ?F"
    using Image_closed_trancl [of "related ts" ?F] by auto
  with family_search_sound [of ts "[]" "[i]"] show ?thesis
    by (auto simp: refresh_family_ids_def family_def)
qed


section \<open>What any number of sessions can commit\<close>

text \<open>
  The commits that change the token table, in any order: a login or registration issues a token,
  a rotation claims one and inserts its replacement, a revocation marks some live tokens. The
  invariant holds in every state such commits reach.
\<close>

definition fresh_token :: "auth_db \<Rightarrow> refresh_token \<Rightarrow> bool" where
  "fresh_token d t \<longleftrightarrow> rt_id t \<notin> set (token_ids (tokens d)) \<and>
     rt_token_hash t \<notin> rt_token_hash ` set (tokens d) \<and>
     rt_revoked_at t = None \<and> rt_replaced_by_id t = None"

inductive auth_step :: "auth_db \<Rightarrow> auth_db \<Rightarrow> bool" where
  step_issue: "fresh_token d t \<Longrightarrow> auth_step d (add_token t d)"
| step_rotate: "claim_refresh_token d (rt_id t0) (rt_id t) now = (True, d1) \<Longrightarrow> t0 \<in> set (tokens d) \<Longrightarrow>
    fresh_token d t \<Longrightarrow> rt_user_id t = rt_user_id t0 \<Longrightarrow> auth_step d (add_token t d1)"
| step_revoke: "auth_step d (d\<lparr>tokens := update_where (\<lambda>t. P t \<and> rt_revoked_at t = None)
    (\<lambda>t. t\<lparr>rt_revoked_at := Some now\<rparr>) (tokens d)\<rparr>)"
| step_accounts: "auth_step d (d\<lparr>accounts := us\<rparr>)"

definition linked_ok :: "refresh_token list \<Rightarrow> bool" where
  "linked_ok ts \<longleftrightarrow> (\<forall>t \<in> set ts. \<forall>r. rt_replaced_by_id t = Some r \<longrightarrow> rt_revoked_at t \<noteq> None \<and>
     (\<exists>t' \<in> set ts. rt_id t' = r \<and> rt_user_id t' = rt_user_id t) \<and>
     (\<forall>t' \<in> set ts. rt_replaced_by_id t' = Some r \<longrightarrow> t' = t))"

definition auth_inv :: "auth_db \<Rightarrow> bool" where
  "auth_inv d \<longleftrightarrow> distinct (token_ids (tokens d)) \<and> distinct (map rt_token_hash (tokens d)) \<and> linked_ok (tokens d)"

definition same_token :: "refresh_token \<Rightarrow> refresh_token \<Rightarrow> bool" where
  "same_token t t' \<longleftrightarrow> rt_id t' = rt_id t \<and> rt_user_id t' = rt_user_id t \<and> rt_token_hash t' = rt_token_hash t \<and>
     rt_expires_at t' = rt_expires_at t \<and> (rt_revoked_at t \<noteq> None \<longrightarrow> rt_revoked_at t' = rt_revoked_at t) \<and>
     (rt_replaced_by_id t \<noteq> None \<longrightarrow> rt_replaced_by_id t' = rt_replaced_by_id t)"

text \<open>How the table grows: tokens stay, and no later link points at an earlier token.\<close>

definition evolves :: "auth_db \<Rightarrow> auth_db \<Rightarrow> bool" where
  "evolves d d' \<longleftrightarrow> (\<forall>t \<in> set (tokens d). \<exists>t' \<in> set (tokens d'). same_token t t') \<and>
     (\<forall>t' \<in> set (tokens d'). \<forall>r \<in> set (token_ids (tokens d)). rt_replaced_by_id t' = Some r \<longrightarrow>
        (\<exists>t \<in> set (tokens d). rt_id t = rt_id t' \<and> rt_replaced_by_id t = Some r))"

lemma same_token_trans: "same_token t u \<Longrightarrow> same_token u v \<Longrightarrow> same_token t v"
  by (auto simp: same_token_def)

lemma same_token_refl [simp]: "same_token t t"
  by (simp add: same_token_def)

lemma evolves_ids: "evolves d d' \<Longrightarrow> set (token_ids (tokens d)) \<subseteq> set (token_ids (tokens d'))"
proof
  fix i assume "evolves d d'" "i \<in> set (token_ids (tokens d))"
  moreover from this(2) obtain t where t: "t \<in> set (tokens d)" "rt_id t = i" by (auto simp: token_ids_def)
  ultimately obtain t' where "t' \<in> set (tokens d')" "same_token t t'" unfolding evolves_def by blast
  moreover from this(2) t(2) have "rt_id t' = i" by (simp add: same_token_def)
  ultimately show "i \<in> set (token_ids (tokens d'))" unfolding token_ids_def by auto
qed

lemma evolves_trans:
  assumes a: "evolves d d'" and b: "evolves d' d''"
  shows "evolves d d''"
  unfolding evolves_def
proof (intro conjI ballI impI)
  fix t assume "t \<in> set (tokens d)"
  then show "\<exists>t' \<in> set (tokens d''). same_token t t'"
    using a b by (meson evolves_def same_token_trans)
next
  fix t'' r assume t: "t'' \<in> set (tokens d'')" and r: "r \<in> set (token_ids (tokens d))"
    and l: "rt_replaced_by_id t'' = Some r"
  have "r \<in> set (token_ids (tokens d'))" using evolves_ids [OF a] r by blast
  then obtain t' where "t' \<in> set (tokens d')" "rt_id t' = rt_id t''" "rt_replaced_by_id t' = Some r"
    using b t l unfolding evolves_def by blast
  then show "\<exists>t \<in> set (tokens d). rt_id t = rt_id t'' \<and> rt_replaced_by_id t = Some r"
    using a r unfolding evolves_def by metis
qed

lemma evolves_refl [simp]: "evolves d d"
  unfolding evolves_def using same_token_refl by blast

lemma evolves_update:
  assumes "\<And>t. t \<in> set (tokens d) \<Longrightarrow> same_token t (f t)"
    and "\<And>t r. t \<in> set (tokens d) \<Longrightarrow> rt_replaced_by_id (f t) = Some r \<Longrightarrow>
           rt_replaced_by_id t = Some r \<or> r \<notin> set (token_ids (tokens d))"
  shows "evolves d (d\<lparr>tokens := map f (tokens d)\<rparr>)"
  using assms unfolding evolves_def by (auto simp: same_token_def) blast

lemma evolves_add: "rt_replaced_by_id t = None \<Longrightarrow> evolves d (add_token t d)"
proof -
  assume "rt_replaced_by_id t = None"
  moreover have "\<exists>t' \<in> set (tokens (add_token t d)). same_token u t'" if "u \<in> set (tokens d)" for u
    using that by (intro bexI [of _ u]) (auto simp: add_token_def)
  ultimately show ?thesis unfolding evolves_def by (auto simp: add_token_def)
qed

lemma auth_step_evolves: "auth_step d d' \<Longrightarrow> evolves d d'"
proof (induction rule: auth_step.induct)
  case (step_issue d t)
  then show ?case by (intro evolves_add) (simp add: fresh_token_def)
next
  case (step_rotate d t0 t now d1)
  have d1: "d1 = d\<lparr>tokens := map (\<lambda>u. if claimable (rt_id t0) now u
      then u\<lparr>rt_revoked_at := Some now, rt_replaced_by_id := Some (rt_id t)\<rparr> else u) (tokens d)\<rparr>"
    using step_rotate(1) by (simp add: claim_refresh_token_def update_where_def)
  have "evolves d d1" unfolding d1 using step_rotate(3)
    by (intro evolves_update) (auto simp: same_token_def claimable_def fresh_token_def split: if_splits)
  moreover have "evolves d1 (add_token t d1)"
    using step_rotate(3) by (intro evolves_add) (simp add: fresh_token_def)
  ultimately show ?case by (rule evolves_trans)
next
  case (step_revoke d P now)
  show ?case unfolding update_where_def
    by (intro evolves_update) (auto simp: same_token_def split: if_splits)
next
  case (step_accounts d us)
  have "evolves d (d\<lparr>accounts := us\<rparr>) = evolves d d" unfolding evolves_def by simp
  then show ?case by simp
qed

lemma auth_steps_evolve: "auth_step\<^sup>*\<^sup>* d d' \<Longrightarrow> evolves d d'"
  by (induction rule: rtranclp_induct) (auto intro: evolves_trans auth_step_evolves)


subsection \<open>The invariant\<close>

lemma linked_okD:
  assumes "linked_ok ts" "t \<in> set ts" "rt_replaced_by_id t = Some r"
  shows "rt_revoked_at t \<noteq> None" "\<exists>t' \<in> set ts. rt_id t' = r \<and> rt_user_id t' = rt_user_id t"
    "\<And>t'. t' \<in> set ts \<Longrightarrow> rt_replaced_by_id t' = Some r \<Longrightarrow> t' = t" "r \<in> set (token_ids ts)"
proof -
  show "rt_revoked_at t \<noteq> None" using assms unfolding linked_ok_def by blast
  show ex: "\<exists>t' \<in> set ts. rt_id t' = r \<and> rt_user_id t' = rt_user_id t"
    using assms unfolding linked_ok_def by blast
  show "\<And>t'. t' \<in> set ts \<Longrightarrow> rt_replaced_by_id t' = Some r \<Longrightarrow> t' = t"
    using assms unfolding linked_ok_def by blast
  show "r \<in> set (token_ids ts)" using ex by (auto simp: token_ids_def)
qed

lemma linked_ok_add:
  assumes "linked_ok (tokens d)" "rt_replaced_by_id t = None"
  shows "linked_ok (tokens (add_token t d))"
  using assms unfolding linked_ok_def add_token_def by auto

lemma linked_ok_revoke:
  assumes "linked_ok ts"
  shows "linked_ok (update_where P (\<lambda>t. t\<lparr>rt_revoked_at := Some now\<rparr>) ts)"
  unfolding linked_ok_def
proof (intro ballI allI impI)
  fix u r
  let ?f = "\<lambda>t. if P t then t\<lparr>rt_revoked_at := Some now\<rparr> else t"
  assume "u \<in> set (update_where P (\<lambda>t. t\<lparr>rt_revoked_at := Some now\<rparr>) ts)" and r: "rt_replaced_by_id u = Some r"
  then obtain t where t: "t \<in> set ts" "u = ?f t" by (auto simp: update_where_def)
  then have r': "rt_replaced_by_id t = Some r" using r by (auto split: if_splits)
  note l = linked_okD [OF assms t(1) r']
  obtain t' where t': "t' \<in> set ts" "rt_id t' = r" "rt_user_id t' = rt_user_id t" using l(2) by blast
  have "?f t' \<in> set (update_where P (\<lambda>t. t\<lparr>rt_revoked_at := Some now\<rparr>) ts)" "rt_id (?f t') = r"
    "rt_user_id (?f t') = rt_user_id u" using t t' by (auto simp: update_where_def)
  moreover have uniq: "w = u" if "w \<in> set (update_where P (\<lambda>t. t\<lparr>rt_revoked_at := Some now\<rparr>) ts)"
    "rt_replaced_by_id w = Some r" for w
  proof -
    from that obtain t2 where "t2 \<in> set ts" "w = ?f t2" by (auto simp: update_where_def)
    moreover with that(2) have "rt_replaced_by_id t2 = Some r" by (simp split: if_splits)
    ultimately show ?thesis using l(3) t(2) by blast
  qed
  moreover have revoked: "rt_revoked_at u \<noteq> None" using l(1) t(2) by simp
  ultimately show "rt_revoked_at u \<noteq> None \<and>
     (\<exists>t' \<in> set (update_where P (\<lambda>t. t\<lparr>rt_revoked_at := Some now\<rparr>) ts). rt_id t' = r \<and> rt_user_id t' = rt_user_id u) \<and>
     (\<forall>t' \<in> set (update_where P (\<lambda>t. t\<lparr>rt_revoked_at := Some now\<rparr>) ts). rt_replaced_by_id t' = Some r \<longrightarrow> t' = u)"
    using revoked uniq by blast
qed

lemma linked_ok_rotate:
  assumes ok: "linked_ok ts" and d: "distinct (token_ids ts)"
    and t0: "t0 \<in> set ts" "claimable (rt_id t0) now t0"
    and new: "rt_id t \<notin> set (token_ids ts)" "rt_user_id t = rt_user_id t0" "rt_replaced_by_id t = None"
  shows "linked_ok (update_where (claimable (rt_id t0) now)
     (\<lambda>u. u\<lparr>rt_revoked_at := Some now, rt_replaced_by_id := Some (rt_id t)\<rparr>) ts @ [t])"
    (is "linked_ok ?ts'")
proof -
  let ?g = "\<lambda>u. u\<lparr>rt_revoked_at := Some now, rt_replaced_by_id := Some (rt_id t)\<rparr>"
  have only: "u = t0" if "u \<in> set ts" "claimable (rt_id t0) now u" for u
    using that t0(1) d by (auto simp: claimable_def token_ids_def distinct_map dest: inj_onD)
  have mem: "u \<in> set ?ts' \<longleftrightarrow> u = t \<or> u = ?g t0 \<or> u \<in> set ts \<and> u \<noteq> t0" for u
  proof -
    have "(if claimable (rt_id t0) now u then ?g u else u) = (if u = t0 then ?g t0 else u)" if "u \<in> set ts" for u
      using only [OF that] t0(2) by (cases "u = t0") auto
    then have "set ?ts' = insert t ((\<lambda>u. if u = t0 then ?g t0 else u) ` set ts)"
      by (simp add: update_where_def cong: image_cong)
    with t0(1) show ?thesis by auto
  qed
  have old: "r \<in> set (token_ids ts)" if "u \<in> set ts" "rt_replaced_by_id u = Some r" for u r
    using linked_okD(4) [OF ok that] .
  show ?thesis unfolding linked_ok_def
  proof (intro ballI allI impI)
    fix u r assume u: "u \<in> set ?ts'" and r: "rt_replaced_by_id u = Some r"
    show "rt_revoked_at u \<noteq> None \<and> (\<exists>t' \<in> set ?ts'. rt_id t' = r \<and> rt_user_id t' = rt_user_id u) \<and>
       (\<forall>t' \<in> set ?ts'. rt_replaced_by_id t' = Some r \<longrightarrow> t' = u)"
    proof (cases "u = ?g t0")
      case True
      then have "r = rt_id t" using r by simp
      moreover have "w = u" if "w \<in> set ?ts'" "rt_replaced_by_id w = Some (rt_id t)" for w
        using that(1) [unfolded mem] that(2) True new old by auto
      moreover have "t \<in> set ?ts'" by simp
      ultimately show ?thesis using True new(2) by (intro conjI bexI [of _ t]) auto
    next
      case False
      then have us: "u \<in> set ts" using u r new(3) mem by auto
      note l = linked_okD [OF ok us r]
      obtain t' where t': "t' \<in> set ts" "rt_id t' = r" "rt_user_id t' = rt_user_id u" using l(2) by blast
      have "\<exists>t'' \<in> set ?ts'. rt_id t'' = r \<and> rt_user_id t'' = rt_user_id u"
        using t' by (intro bexI [of _ "if t' = t0 then ?g t0 else t'"]) (simp_all only: mem, auto)
      moreover have "w = u" if "w \<in> set ?ts'" "rt_replaced_by_id w = Some r" for w
        using that(1) [unfolded mem] that(2) l(3,4) new by auto
      ultimately show ?thesis using l(1) by blast
    qed
  qed
qed

lemma claimed_token:
  assumes "claim_refresh_token d i r now = (True, d1)"
  obtains u where "u \<in> set (tokens d)" "claimable i now u"
proof -
  from assms have "filter (claimable i now) (tokens d) \<noteq> []"
    by (auto simp: claim_refresh_token_def count_where_def)
  then have "hd (filter (claimable i now) (tokens d)) \<in> set (filter (claimable i now) (tokens d))"
    by (rule list.set_sel(1))
  then show thesis by (intro that) auto
qed

lemma token_ids_update [simp]:
  "(\<And>t. rt_id (f t) = rt_id t) \<Longrightarrow> token_ids (update_where P f ts) = token_ids ts"
  "(\<And>t. rt_token_hash (f t) = rt_token_hash t) \<Longrightarrow>
     map rt_token_hash (update_where P f ts) = map rt_token_hash ts"
  by (simp_all add: update_where_def token_ids_def)

lemma auth_step_inv: "auth_step d d' \<Longrightarrow> auth_inv d \<Longrightarrow> auth_inv d'"
proof (induction rule: auth_step.induct)
  case (step_issue d t)
  then have "linked_ok (tokens (add_token t d))" by (intro linked_ok_add) (auto simp: auth_inv_def fresh_token_def)
  with step_issue show ?case by (auto simp: auth_inv_def fresh_token_def add_token_def token_ids_def)
next
  case (step_rotate d t0 t now d1)
  obtain u where u: "u \<in> set (tokens d)" "claimable (rt_id t0) now u" by (rule claimed_token [OF step_rotate(1)])
  then have "u = t0"
    using step_rotate(2,5) by (auto simp: claimable_def auth_inv_def token_ids_def distinct_map dest: inj_onD)
  with u have c: "claimable (rt_id t0) now t0" by simp
  have d1: "tokens d1 = update_where (claimable (rt_id t0) now)
     (\<lambda>u. u\<lparr>rt_revoked_at := Some now, rt_replaced_by_id := Some (rt_id t)\<rparr>) (tokens d)"
    using step_rotate(1) by (auto simp: claim_refresh_token_def)
  have "linked_ok (tokens d1 @ [t])" unfolding d1
    using step_rotate(2-5) c by (intro linked_ok_rotate) (auto simp: auth_inv_def fresh_token_def)
  moreover have "token_ids (tokens d1) = token_ids (tokens d)"
    "map rt_token_hash (tokens d1) = map rt_token_hash (tokens d)" by (simp_all add: d1)
  ultimately show ?case using step_rotate(3,5)
    by (auto simp: auth_inv_def add_token_def fresh_token_def token_ids_def simp flip: set_map)
next
  case (step_revoke d P now)
  then show ?case by (simp add: auth_inv_def linked_ok_revoke)
qed (simp add: auth_inv_def)

definition no_tokens :: "auth_db \<Rightarrow> bool" where
  "no_tokens d \<longleftrightarrow> tokens d = []"

interpretation token_table: invariant_system no_tokens auth_step auth_inv
proof
  show "no_tokens d \<Longrightarrow> auth_inv d" for d by (simp add: no_tokens_def auth_inv_def linked_ok_def token_ids_def)
  show "auth_inv d \<Longrightarrow> auth_step d d' \<Longrightarrow> auth_inv d'" for d d' by (rule auth_step_inv)
qed

lemma auth_steps_inv: "auth_step\<^sup>*\<^sup>* d d' \<Longrightarrow> auth_inv d \<Longrightarrow> auth_inv d'"
  by (induction rule: rtranclp_induct) (auto intro: auth_step_inv)

lemma inv_same_id: "auth_inv d \<Longrightarrow> t \<in> set (tokens d) \<Longrightarrow> t' \<in> set (tokens d) \<Longrightarrow> rt_id t = rt_id t' \<Longrightarrow> t = t'"
  by (auto simp: auth_inv_def token_ids_def distinct_map dest: inj_onD)


subsection \<open>Families have one live token\<close>

text \<open>Links are a partial function, so connected tokens lead to one common end.\<close>

lemma links_token: "(x, y) \<in> links ts \<Longrightarrow> \<exists>t \<in> set ts. rt_id t = x \<and> rt_replaced_by_id t = Some y"
  by (auto simp: links_def)

lemma links_functional: "auth_inv d \<Longrightarrow> (x, y) \<in> links (tokens d) \<Longrightarrow> (x, z) \<in> links (tokens d) \<Longrightarrow> y = z"
proof -
  assume inv: "auth_inv d" and xy: "(x, y) \<in> links (tokens d)" and xz: "(x, z) \<in> links (tokens d)"
  obtain t where "t \<in> set (tokens d)" "rt_id t = x" "rt_replaced_by_id t = Some y" using links_token [OF xy] by blast
  moreover obtain t' where "t' \<in> set (tokens d)" "rt_id t' = x" "rt_replaced_by_id t' = Some z"
    using links_token [OF xz] by blast
  moreover from calculation have "t = t'" by (intro inv_same_id [OF inv]) simp_all
  ultimately show ?thesis by simp
qed

lemma related_common_end:
  assumes inv: "auth_inv d" and xy: "(x, y) \<in> (related (tokens d))\<^sup>*"
  shows "\<exists>z. (x, z) \<in> (links (tokens d))\<^sup>* \<and> (y, z) \<in> (links (tokens d))\<^sup>*"
  using xy
proof (induction rule: rtrancl_induct)
  case (step y y')
  then obtain z where z: "(x, z) \<in> (links (tokens d))\<^sup>*" "(y, z) \<in> (links (tokens d))\<^sup>*" by blast
  show ?case
  proof (cases "(y, y') \<in> links (tokens d)")
    case True
    show ?thesis
    proof (cases "y = z")
      case True with z \<open>(y, y') \<in> links (tokens d)\<close> show ?thesis by (meson rtrancl.rtrancl_into_rtrancl rtrancl.rtrancl_refl)
    next
      case False
      with z(2) obtain w where "(y, w) \<in> links (tokens d)" "(w, z) \<in> (links (tokens d))\<^sup>*"
        by (meson converse_rtranclE)
      with links_functional [OF inv True] z(1) show ?thesis by blast
    qed
  next
    case False
    with step(2) have "(y', y) \<in> links (tokens d)" by (auto simp: related_def)
    with z show ?thesis by (meson converse_rtrancl_into_rtrancl)
  qed
qed blast

lemma live_is_end:
  assumes "auth_inv d" "t \<in> set (tokens d)" "rt_revoked_at t = None" "(rt_id t, z) \<in> (links (tokens d))\<^sup>*"
  shows "z = rt_id t"
proof -
  have "(rt_id t, w) \<notin> links (tokens d)" for w
  proof
    assume "(rt_id t, w) \<in> links (tokens d)"
    then obtain t' where "t' \<in> set (tokens d)" "rt_id t' = rt_id t" "rt_replaced_by_id t' = Some w"
      by (auto simp: links_def)
    moreover from this have "t' = t" by (intro inv_same_id [OF assms(1)]) (simp_all add: assms(2))
    ultimately show False using assms(1,3) linked_okD(1) unfolding auth_inv_def by blast
  qed
  with assms(4) show ?thesis by (blast elim: converse_rtranclE)
qed

lemma one_live:
  assumes inv: "auth_inv d" and t: "t \<in> set (tokens d)" "rt_revoked_at t = None"
    and u: "u \<in> set (tokens d)" "rt_revoked_at u = None" "rt_id u \<in> family (tokens d) (rt_id t)"
  shows "u = t"
proof -
  have "(rt_id t, rt_id u) \<in> (related (tokens d))\<^sup>*" using u(3) by (simp add: family_def)
  then obtain z where z: "(rt_id t, z) \<in> (links (tokens d))\<^sup>*" "(rt_id u, z) \<in> (links (tokens d))\<^sup>*"
    using related_common_end [OF inv] by blast
  have "z = rt_id t" "z = rt_id u" using live_is_end [OF inv t z(1)] live_is_end [OF inv u(1,2) z(2)] .
  then have "rt_id u = rt_id t" by simp
  with inv u(1) t(1) show ?thesis by (rule inv_same_id)
qed

subsection \<open>The locked rows hold the whole family\<close>

definition closed_links :: "refresh_token list \<Rightarrow> uuid \<Rightarrow> refresh_token set \<Rightarrow> refresh_token set \<Rightarrow> bool" where
  "closed_links table u A B \<longleftrightarrow> (\<forall>t \<in> A. \<forall>t' \<in> set table.
     rt_replaced_by_id t = Some (rt_id t') \<longrightarrow> rt_user_id t' = u \<longrightarrow> t' \<in> B)"

lemma set_linked: "set (linked_tokens table u ids) = {t \<in> set table. rt_user_id t = u \<and> rt_id t \<in> set ids}"
  by (simp add: linked_tokens_def)

lemma set_missing:
  "i \<in> set (missing_links frontier by_id) \<longleftrightarrow>
     i \<notin> rt_id ` set by_id \<and> (\<exists>t \<in> set frontier. rt_replaced_by_id t = Some i)"
  by (auto simp: missing_links_def token_ids_def map_filter_def image_iff)

lemma follow_links_closed:
  assumes "inj_on rt_id (set table)" "set by_id \<subseteq> {t \<in> set table. rt_user_id t = u}" "set frontier \<subseteq> set by_id"
    "closed_links table u (set by_id - set frontier) (set by_id)"
  shows "set by_id \<subseteq> set (follow_links table u frontier by_id) \<and>
    set (follow_links table u frontier by_id) \<subseteq> {t \<in> set table. rt_user_id t = u} \<and>
    closed_links table u (set (follow_links table u frontier by_id)) (set (follow_links table u frontier by_id)) \<and>
    (\<forall>t \<in> set (follow_links table u frontier by_id) - set by_id.
       \<exists>p \<in> set (follow_links table u frontier by_id). rt_replaced_by_id p = Some (rt_id t))"
  using assms
proof (induction table u frontier by_id rule: follow_links.induct)
  case (1 table u frontier by_id)
  define linked where "linked = linked_tokens table u (missing_links frontier by_id)"
  have step: "t' \<in> set by_id \<union> set linked"
    if t: "t \<in> set by_id" "t' \<in> set table" "rt_replaced_by_id t = Some (rt_id t')" "rt_user_id t' = u" for t t'
  proof (cases "t \<in> set frontier \<and> rt_id t' \<notin> rt_id ` set by_id")
    case True
    then have "rt_id t' \<in> set (missing_links frontier by_id)" using t(3) set_missing by blast
    then show ?thesis using t by (simp add: linked_def set_linked)
  next
    case False
    then show ?thesis
    proof (cases "t \<in> set frontier")
      case True
      with False obtain s where s: "s \<in> set by_id" "rt_id s = rt_id t'" by auto
      with 1(2,3) t(2) have "s = t'" by (auto dest: inj_onD)
      with s show ?thesis by simp
    next
      case False with 1(5) t show ?thesis unfolding closed_links_def by blast
    qed
  qed
  show ?case
  proof (cases "missing_links frontier by_id = [] \<or> linked = []")
    case True
    then have l: "set linked = {}" by (elim disjE) (simp_all add: linked_def set_linked)
    have "follow_links table u frontier by_id = by_id"
      using True by (simp add: follow_links.simps [of table u frontier] Let_def linked_def)
    with 1(3) step l show ?thesis by (auto simp: closed_links_def)
  next
    case False
    have rec: "follow_links table u frontier by_id = follow_links table u linked (by_id @ linked)"
      using False by (simp add: follow_links.simps [of table u frontier] Let_def linked_def)
    have "closed_links table u (set (by_id @ linked) - set linked) (set (by_id @ linked))"
      using step unfolding closed_links_def by auto
    moreover have sub: "set (by_id @ linked) \<subseteq> {t \<in> set table. rt_user_id t = u}"
      using 1(3) by (auto simp: linked_def set_linked)
    ultimately have ih: "set (by_id @ linked) \<subseteq> set (follow_links table u linked (by_id @ linked)) \<and>
      set (follow_links table u linked (by_id @ linked)) \<subseteq> {t \<in> set table. rt_user_id t = u} \<and>
      closed_links table u (set (follow_links table u linked (by_id @ linked))) (set (follow_links table u linked (by_id @ linked))) \<and>
      (\<forall>t \<in> set (follow_links table u linked (by_id @ linked)) - set (by_id @ linked).
         \<exists>p \<in> set (follow_links table u linked (by_id @ linked)). rt_replaced_by_id p = Some (rt_id t))"
      using 1(1) [OF refl linked_def False [unfolded linked_def [symmetric]] 1(2)] by simp
    have parent: "\<exists>p \<in> set by_id. rt_replaced_by_id p = Some (rt_id t)" if "t \<in> set linked" for t
      using that 1(4) set_missing by (fastforce simp: linked_def set_linked)
    note ih = conjunct1 [OF ih] ih [THEN conjunct2, THEN conjunct1]
      ih [THEN conjunct2, THEN conjunct2, THEN conjunct1] ih [THEN conjunct2, THEN conjunct2, THEN conjunct2]
    have "\<exists>p \<in> set (follow_links table u linked (by_id @ linked)). rt_replaced_by_id p = Some (rt_id t)"
      if t: "t \<in> set (follow_links table u linked (by_id @ linked)) - set by_id" for t
    proof (cases "t \<in> set linked")
      case True
      from parent [OF this] ih(1) show ?thesis by auto
    next
      case False
      with t have "t \<in> set (follow_links table u linked (by_id @ linked)) - set (by_id @ linked)" by simp
      with ih(4) show ?thesis by (rule bspec)
    qed
    with ih(1-3) show ?thesis unfolding rec by simp
  qed
qed


lemma links_mono: "set L \<subseteq> set ts \<Longrightarrow> links L \<subseteq> links ts"
proof
  fix e assume sub: "set L \<subseteq> set ts" and "e \<in> links L"
  then obtain t r where "e = (rt_id t, r)" "t \<in> set ts" "rt_replaced_by_id t = Some r" "r \<in> rt_id ` set L"
    by (auto simp: links_def token_ids_def)
  with sub show "e \<in> links ts" by (auto simp: links_def token_ids_def)
qed

lemma related_mono: "set L \<subseteq> set ts \<Longrightarrow> related L \<subseteq> related ts"
  using links_mono unfolding related_def by blast

lemma locked_rows:
  assumes inv: "auth_inv d"
  shows "set (snapshot_rows snap d u) \<subseteq> set (locked_user_refresh_tokens snap d u)"
    and "set (locked_user_refresh_tokens snap d u) \<subseteq> {t \<in> set (tokens d). rt_user_id t = u}"
    and "closed_links (tokens d) u (set (locked_user_refresh_tokens snap d u)) (set (locked_user_refresh_tokens snap d u))"
    and "\<forall>t \<in> set (locked_user_refresh_tokens snap d u) - set (snapshot_rows snap d u).
      \<exists>p \<in> set (locked_user_refresh_tokens snap d u). rt_replaced_by_id p = Some (rt_id t)"
proof -
  let ?first = "snapshot_rows snap d u"
  have i: "inj_on rt_id (set (tokens d))" using inv by (simp add: auth_inv_def token_ids_def distinct_map)
  have f: "set ?first \<subseteq> {t \<in> set (tokens d). rt_user_id t = u}" by (auto simp: set_linked snapshot_rows_def)
  have c: "closed_links (tokens d) u (set ?first - set ?first) (set ?first)" by (simp add: closed_links_def)
  note a = follow_links_closed [OF i f subset_refl c, folded locked_user_refresh_tokens_def]
  show "set ?first \<subseteq> set (locked_user_refresh_tokens snap d u)" using a by (rule conjunct1)
  show "set (locked_user_refresh_tokens snap d u) \<subseteq> {t \<in> set (tokens d). rt_user_id t = u}" using a by (elim conjE)
  show "closed_links (tokens d) u (set (locked_user_refresh_tokens snap d u)) (set (locked_user_refresh_tokens snap d u))"
    using a by (elim conjE)
  show "\<forall>t \<in> set (locked_user_refresh_tokens snap d u) - set ?first.
      \<exists>p \<in> set (locked_user_refresh_tokens snap d u). rt_replaced_by_id p = Some (rt_id t)" using a by (elim conjE)
qed

text \<open>The predecessor of a locked row is locked too: rows of the snapshot have their
  predecessors there, and a row the loop followed was reached from its only predecessor.\<close>

lemma locked_predecessor:
  assumes inv: "auth_inv d" and ev: "evolves snap d"
    and c: "c \<in> set (locked_user_refresh_tokens snap d u)"
    and t: "t \<in> set (tokens d)" "rt_replaced_by_id t = Some (rt_id c)"
  shows "t \<in> set (locked_user_refresh_tokens snap d u)"
proof -
  let ?first = "snapshot_rows snap d u"
  note L = locked_rows [OF inv, where u = u and snap = snap]
  have cd: "c \<in> set (tokens d)" "rt_user_id c = u" using c L(2) by auto
  have lk: "linked_ok (tokens d)" using inv by (simp add: auth_inv_def)
  obtain c' where c': "c' \<in> set (tokens d)" "rt_id c' = rt_id c" "rt_user_id c' = rt_user_id t"
    using linked_okD(2) [OF lk t] by blast
  have "c' = c" by (rule inv_same_id [OF inv c'(1) cd(1) c'(2)])
  then have tu: "rt_user_id t = u" using c'(3) cd(2) by simp
  show ?thesis
  proof (cases "c \<in> set ?first")
    case True
    then have "rt_id c \<in> set (token_ids (tokens snap))" by (auto simp: set_linked snapshot_rows_def token_ids_def)
    then obtain s where s: "s \<in> set (tokens snap)" "rt_id s = rt_id t"
      using ev t unfolding evolves_def by blast
    then obtain s' where s': "s' \<in> set (tokens d)" "same_token s s'" using ev unfolding evolves_def by blast
    have "s' = t" using s(2) s' t(1) by (intro inv_same_id [OF inv]) (auto simp: same_token_def)
    then have "rt_user_id s = u" using s'(2) tu by (simp add: same_token_def)
    then have "t \<in> set ?first" using s t(1) tu by (auto simp: set_linked snapshot_rows_def token_ids_def intro!: rev_image_eqI)
    then show ?thesis using L(1) by blast
  next
    case False
    then obtain p where p: "p \<in> set (locked_user_refresh_tokens snap d u)" "rt_replaced_by_id p = Some (rt_id c)"
      using L(4) c by blast
    then have "p \<in> set (tokens d)" using L(2) by blast
    with p(2) have "p = t" using linked_okD(3) [OF lk t] by blast
    with p(1) show ?thesis by simp
  qed
qed

lemma locked_related:
  assumes inv: "auth_inv d" and ev: "evolves snap d"
    and i: "i \<in> set (token_ids (locked_user_refresh_tokens snap d u))" and ij: "(i, j) \<in> related (tokens d)"
  shows "(i, j) \<in> related (locked_user_refresh_tokens snap d u)"
proof -
  let ?L = "locked_user_refresh_tokens snap d u"
  note L = locked_rows [OF inv, where u = u and snap = snap]
  have lk: "linked_ok (tokens d)" using inv by (simp add: auth_inv_def)
  obtain c where c: "c \<in> set ?L" "rt_id c = i" using i by (auto simp: token_ids_def)
  have cd: "c \<in> set (tokens d)" "rt_user_id c = u" using c L(2) by auto
  have link: "(rt_id a, rt_id b) \<in> links ?L" if "a \<in> set ?L" "b \<in> set ?L" "rt_replaced_by_id a = Some (rt_id b)" for a b
    using that by (auto simp: links_def token_ids_def)
  consider "(i, j) \<in> links (tokens d)" | "(j, i) \<in> links (tokens d)" using ij by (auto simp: related_def)
  then show ?thesis
  proof cases
    case 1
    obtain t where t: "t \<in> set (tokens d)" "rt_id t = i" "rt_replaced_by_id t = Some j" using links_token [OF 1] by blast
    then have "t = c" using c(2) cd(1) by (intro inv_same_id [OF inv]) simp_all
    then obtain b where b: "b \<in> set (tokens d)" "rt_id b = j" "rt_user_id b = u"
      using linked_okD(2) [OF lk t(1,3)] cd(2) by blast
    with L(3) c(1) t(3) \<open>t = c\<close> have "b \<in> set ?L" unfolding closed_links_def by blast
    with link [OF c(1)] b(2) t(3) \<open>t = c\<close> c(2) show ?thesis by (auto simp: related_def)
  next
    case 2
    obtain t where t: "t \<in> set (tokens d)" "rt_id t = j" "rt_replaced_by_id t = Some i" using links_token [OF 2] by blast
    with c(2) have "t \<in> set ?L" by (intro locked_predecessor [OF inv ev c(1)]) simp_all
    with link [OF _ c(1)] t c(2) show ?thesis by (auto simp: related_def)
  qed
qed

lemma locked_family:
  assumes inv: "auth_inv d" and ev: "evolves snap d"
    and i: "i \<in> set (token_ids (locked_user_refresh_tokens snap d u))"
  shows "family (locked_user_refresh_tokens snap d u) i = family (tokens d) i"
proof
  let ?L = "locked_user_refresh_tokens snap d u"
  have sub: "set ?L \<subseteq> set (tokens d)" using locked_rows(2) [OF inv] by blast
  show "family ?L i \<subseteq> family (tokens d) i"
    unfolding family_def using rtrancl_mono [OF related_mono [OF sub]] by (rule Image_mono) simp
  have "(i, j) \<in> (related (tokens d))\<^sup>* \<Longrightarrow> (i, j) \<in> (related ?L)\<^sup>* \<and> j \<in> set (token_ids ?L)" for j
  proof (induction rule: rtrancl_induct)
    case (step y z)
    then have "(y, z) \<in> related ?L" using locked_related [OF inv ev] by blast
    with step related_ids show ?case by (blast intro: rtrancl.rtrancl_into_rtrancl)
  qed (simp add: i)
  then show "family (tokens d) i \<subseteq> family ?L i" by (auto simp: family_def)
qed


section \<open>Rotation outcomes\<close>

definition fresh_attempt :: "auth_config \<Rightarrow> attempt \<Rightarrow> auth_db \<Rightarrow> bool" where
  "fresh_attempt cf att d \<longleftrightarrow> at_new_id att \<notin> set (token_ids (tokens d)) \<and>
     cf_hash cf (at_new_raw att) \<notin> rt_token_hash ` set (tokens d)"

lemma fresh_attempt_token:
  "fresh_attempt cf att d \<Longrightarrow> fresh_token d (new_refresh_token cf u (at_now att) (at_new_id att) (at_new_raw att))"
  by (simp add: fresh_attempt_def fresh_token_def new_refresh_token_def)

lemma rotate_onto_cases:
  assumes "rotate_onto cf att i u d = (res, d')"
  obtains (won) d1 where "claim_refresh_token d i (at_new_id att) (at_now att) = (True, d1)"
      "res = Rotated (at_new_raw att) u"
      "d' = add_token (new_refresh_token cf u (at_now att) (at_new_id att) (at_new_raw att)) d1"
  | (lost) "res = Try_again" "d' = d"
  using assms by (auto simp: rotate_onto_def split: prod.splits bool.splits)

lemma rotate_onto_steps:
  assumes "rotate_onto cf att (rt_id t) (rt_user_id t) d = (res, d')" "t \<in> set (tokens d)" "fresh_attempt cf att d"
  shows "auth_step\<^sup>*\<^sup>* d d'"
  using assms(1)
proof (cases rule: rotate_onto_cases)
  case (won d1)
  have "auth_step d d'" unfolding won(3)
    using won(1) assms(2) fresh_attempt_token [OF assms(3), of "rt_user_id t"]
    by (intro step_rotate [of d t _ "at_now att"]) (simp_all add: new_refresh_token_def)
  then show ?thesis by blast
qed simp

lemma by_id_get_Some: "by_id_get ts i = Some t \<Longrightarrow> t \<in> set ts \<and> rt_id t = i"
  unfolding by_id_get_def by (auto dest: first_where_SomeD)

lemma revoke_ids_step: "auth_step\<^sup>*\<^sup>* d (revoke_ids ids now d)"
  unfolding revoke_ids_def by (intro r_into_rtranclp step_revoke)

lemma recover_steps:
  assumes r: "recover_or_revoke_refresh_family cf att snap d i u = (res, d')"
    and inv: "auth_inv d" and fr: "fresh_attempt cf att d"
  shows "auth_step\<^sup>*\<^sup>* d d'"
proof -
  let ?L = "locked_user_refresh_tokens snap d u"
  consider "d' = d" | "d' = revoke_ids (refresh_family_ids ?L i) (at_now att) d"
    | rp where "rp \<in> set ?L" "rotate_onto cf att (rt_id rp) u d = (res, d')"
    using r
    by (auto simp: recover_or_revoke_refresh_family_def Let_def grace_eligible_def
        split: option.splits if_splits Option.bind_splits dest: by_id_get_Some)
  then show ?thesis
  proof cases
    case 3
    then have "rp \<in> set (tokens d)" "rt_user_id rp = u" using locked_rows(2) [OF inv] by blast+
    with 3(2) fr show ?thesis by (auto intro: rotate_onto_steps)
  qed (use revoke_ids_step in auto)
qed

lemma rotate_attempt_steps:
  assumes r: "rotate_attempt cf att raw d = (res, d')" and inv: "auth_inv d"
    and env: "auth_step\<^sup>*\<^sup>* d (at_meanwhile att d)" "fresh_attempt cf att (at_meanwhile att d)"
  shows "auth_step\<^sup>*\<^sup>* d d'"
proof -
  let ?m = "at_meanwhile att d"
  have inv': "auth_inv ?m" by (rule auth_steps_inv [OF env(1) inv])
  consider "d' = d"
    | rt :: refresh_token where "recover_or_revoke_refresh_family cf att d ?m (rt_id rt) (rt_user_id rt) = (res, d')"
    | rt where "rt \<in> set (tokens d)" "rotate_onto cf att (rt_id rt) (rt_user_id rt) ?m = (res, d')"
    using r
    by (auto simp: rotate_attempt_def split: option.splits if_splits dest: first_where_SomeD)
  then show ?thesis
  proof cases
    case 2
    from env(1) recover_steps [OF 2 inv' env(2)] show ?thesis by (rule rtranclp_trans)
  next
    case 3
    obtain rt' where rt': "rt' \<in> set (tokens ?m)" "same_token rt rt'"
      using auth_steps_evolve [OF env(1)] 3(1) unfolding evolves_def by blast
    with 3(2) have "auth_step\<^sup>*\<^sup>* ?m d'"
      by (intro rotate_onto_steps [OF _ rt'(1) env(2), of res]) (simp add: same_token_def)
    with env(1) show ?thesis by (rule rtranclp_trans)
  qed simp
qed

text \<open>The environment of a run: the others only commit, and new tokens are new.\<close>

fun attempts_ok :: "auth_config \<Rightarrow> attempt list \<Rightarrow> string \<Rightarrow> auth_db \<Rightarrow> bool" where
  "attempts_ok cf [] raw d = True"
| "attempts_ok cf (att # atts) raw d \<longleftrightarrow>
     auth_step\<^sup>*\<^sup>* d (at_meanwhile att d) \<and> fresh_attempt cf att (at_meanwhile att d) \<and>
     (case rotate_attempt cf att raw d of (Try_again, d') \<Rightarrow> attempts_ok cf atts raw d' | _ \<Rightarrow> True)"

lemma rotate_attempts_steps:
  "attempts_ok cf atts raw d \<Longrightarrow> auth_inv d \<Longrightarrow> rotate_attempts cf atts raw d = (res, d') \<Longrightarrow> auth_step\<^sup>*\<^sup>* d d'"
proof (induction cf atts raw d rule: rotate_attempts.induct)
  case (2 cf att atts raw d)
  obtain r d1 where a: "rotate_attempt cf att raw d = (r, d1)" by (cases "rotate_attempt cf att raw d")
  have s: "auth_step\<^sup>*\<^sup>* d d1" using 2(2,3) by (intro rotate_attempt_steps [OF a]) auto
  show ?case
  proof (cases r)
    case Try_again
    then have "auth_step\<^sup>*\<^sup>* d1 d'" using 2 a auth_steps_inv [OF s] by auto
    with s show ?thesis by (rule rtranclp_trans)
  qed (use 2(4) a s in auto)
qed simp


lemma first_where_only:
  assumes "r \<in> set t" "P r" "\<forall>x \<in> set t. P x \<longrightarrow> x = r"
  shows "first_where P t = Some r"
proof (cases "first_where P t")
  case None with assms(1,2) show ?thesis by (auto simp: first_where_None_iff)
next
  case (Some x) with assms(3) first_where_SomeD [OF Some] show ?thesis by blast
qed

text \<open>Presenting a token that was revoked longer ago than the grace period.\<close>

lemma revoked_family_dead:
  assumes "t \<in> set (tokens (revoke_ids ids now d))" "rt_id t \<in> set ids"
  shows "rt_revoked_at t \<noteq> None"
  using assms by (auto simp: revoke_ids_def update_where_def)

lemma revoke_ids_links [simp]:
  "token_ids (tokens (revoke_ids ids now d)) = token_ids (tokens d)"
  "family (tokens (revoke_ids ids now d)) i = family (tokens d) i"
proof -
  show ids: "token_ids (tokens (revoke_ids ids now d)) = token_ids (tokens d)" by (simp add: revoke_ids_def)
  have e: "{(rt_id t, rt_replaced_by_id t) |t. t \<in> set (tokens (revoke_ids ids now d))} =
      {(rt_id t, rt_replaced_by_id t) |t. t \<in> set (tokens d)}"
    proof -
    have "map (\<lambda>t. (rt_id t, rt_replaced_by_id t)) (tokens (revoke_ids ids now d)) =
        map (\<lambda>t. (rt_id t, rt_replaced_by_id t)) (tokens d)"
      by (simp add: revoke_ids_def update_where_def)
    then show ?thesis unfolding setcompr_eq_image Collect_mem_eq set_map [symmetric] by simp
  qed
  have l: "links ts = {(i, r). (i, Some r) \<in> {(rt_id t, rt_replaced_by_id t) |t. t \<in> set ts} \<and> r \<in> set (token_ids ts)}" for ts
    by (auto simp: links_def)
  have "links (tokens (revoke_ids ids now d)) = links (tokens d)" unfolding l e ids ..
  then show "family (tokens (revoke_ids ids now d)) i = family (tokens d) i" by (simp add: family_def related_def)
qed

definition presents :: "auth_config \<Rightarrow> auth_db \<Rightarrow> string \<Rightarrow> refresh_token \<Rightarrow> bool" where
  "presents cf d raw rt \<longleftrightarrow> rt \<in> set (tokens d) \<and> rt_token_hash rt = cf_hash cf raw \<and>
     (\<exists>user. first_where (\<lambda>u. u_id u = rt_user_id rt) (accounts d) = Some user \<and> u_is_active user)"

lemma presents_found:
  assumes "auth_inv d" "presents cf d raw rt"
  shows "first_where (\<lambda>t. rt_token_hash t = cf_hash cf raw) (tokens d) = Some rt"
proof (rule first_where_only)
  show "rt \<in> set (tokens d)" "rt_token_hash rt = cf_hash cf raw" using assms(2) by (auto simp: presents_def)
  show "\<forall>t \<in> set (tokens d). rt_token_hash t = cf_hash cf raw \<longrightarrow> t = rt"
  proof (intro ballI impI)
    fix t assume "t \<in> set (tokens d)" "rt_token_hash t = cf_hash cf raw"
    moreover have "inj_on rt_token_hash (set (tokens d))" using assms(1) by (simp add: auth_inv_def distinct_map)
    ultimately show "t = rt" using assms(2) by (simp add: presents_def inj_on_def)
  qed
qed

lemma reuse_outcome:
  assumes inv: "auth_inv d" and env: "auth_step\<^sup>*\<^sup>* d m" and m: "m = at_meanwhile att d"
    and rt: "presents cf d raw rt" "rt_revoked_at rt = Some r"
    and late: "REFRESH_TOKEN_REUSE_GRACE_SECONDS cf * second_us < at_now att - r"
  shows "\<exists>ids. rotate_attempt cf att raw d = (Rejected invalid_refresh_token, revoke_ids ids (at_now att) m) \<and>
    set ids = family (tokens m) (rt_id rt)"
proof -
  have ev: "evolves d m" by (rule auth_steps_evolve [OF env])
  have invm: "auth_inv m" by (rule auth_steps_inv [OF env inv])
  let ?L = "locked_user_refresh_tokens d m (rt_user_id rt)"
  obtain t where t: "t \<in> set (tokens m)" "same_token rt t"
    using ev rt(1) unfolding evolves_def presents_def by blast
  have "t \<in> set (snapshot_rows d m (rt_user_id rt))"
    using t rt(1) by (auto simp: snapshot_rows_def set_linked same_token_def token_ids_def presents_def)
  then have tL: "t \<in> set ?L" using locked_rows(1) [OF invm] by blast
  have idt: "rt_id t = rt_id rt" "rt_revoked_at t = Some r" using t(2) rt(2) by (auto simp: same_token_def)
  have "by_id_get ?L (rt_id rt) = Some t" unfolding by_id_get_def
  proof (rule first_where_only)
    show "\<forall>u \<in> set ?L. rt_id u = rt_id rt \<longrightarrow> u = t"
      using locked_rows(2) [OF invm, of d "rt_user_id rt"] t(1) idt(1) by (auto intro: inv_same_id [OF invm])
  qed (use tL idt in simp_all)
  moreover have "\<not> grace_eligible cf (at_now att) r rp" for rp
    using late by (simp add: grace_eligible_def Let_def)
  ultimately have "recover_or_revoke_refresh_family cf att d m (rt_id rt) (rt_user_id rt) =
      (Rejected invalid_refresh_token, revoke_ids (refresh_family_ids ?L (rt_id rt)) (at_now att) m)"
    using idt(2) by (simp add: recover_or_revoke_refresh_family_def Let_def)
  moreover have "rt_id rt \<in> set (token_ids ?L)" 
    unfolding token_ids_def set_map idt(1) [symmetric] using tL by (rule imageI)
  then have "set (refresh_family_ids ?L (rt_id rt)) = family (tokens m) (rt_id rt)"
    using locked_family [OF invm ev] by (simp add: refresh_family_ids_family)
  ultimately show ?thesis
    using presents_found [OF inv rt(1)] rt by (auto simp: rotate_attempt_def presents_def m)
qed


text \<open>Presenting a live token without interference.\<close>

lemma live_outcome:
  assumes inv: "auth_inv d" and m: "at_meanwhile att d = d" and rt: "presents cf d raw rt"
    and live: "rt_revoked_at rt = None" "at_now att < rt_expires_at rt"
  obtains d1 where "claim_refresh_token d (rt_id rt) (at_new_id att) (at_now att) = (True, d1)"
    "rotate_attempt cf att raw d = (Rotated (at_new_raw att) (rt_user_id rt),
      add_token (new_refresh_token cf (rt_user_id rt) (at_now att) (at_new_id att) (at_new_raw att)) d1)"
proof -
  have mem: "rt \<in> set (tokens d)" using rt by (simp add: presents_def)
  have nolink: "rt_replaced_by_id rt = None"
    using linked_okD(1) [of "tokens d" rt] inv mem live(1) by (cases "rt_replaced_by_id rt") (auto simp: auth_inv_def)
  have c: "claimable (rt_id rt) (at_now att) rt" using live nolink by (simp add: claimable_def)
  have "count_where (claimable (rt_id rt) (at_now att)) (tokens d) = 1"
  proof (rule antisym)
    show "count_where (claimable (rt_id rt) (at_now att)) (tokens d) \<le> 1"
      using inv by (intro count_where_unique [of rt_id _ _ "rt_id rt"])
        (auto simp: auth_inv_def token_ids_def claimable_def)
    have "count_where (claimable (rt_id rt) (at_now att)) (tokens d) \<noteq> 0"
      using mem c by (auto simp: count_where_zero_iff)
    then show "1 \<le> count_where (claimable (rt_id rt) (at_now att)) (tokens d)" by simp
  qed
  then obtain d1 where d1: "claim_refresh_token d (rt_id rt) (at_new_id att) (at_now att) = (True, d1)"
    by (simp add: claim_refresh_token_def)
  have "rotate_attempt cf att raw d = rotate_onto cf att (rt_id rt) (rt_user_id rt) d"
    using presents_found [OF inv rt] rt live m by (auto simp: rotate_attempt_def presents_def)
  with d1 show thesis by (intro that) (auto simp: rotate_onto_def)
qed


section \<open>A concrete session\<close>

definition demo_config :: auth_config where
  "demo_config = \<lparr>cf_hash = (\<lambda>s. s), REFRESH_TOKEN_DAYS = 30, REFRESH_TOKEN_REUSE_GRACE_SECONDS = 30\<rparr>"

definition demo_user :: user_row where
  "demo_user = \<lparr>u_id = 1, u_email = ''a@b.cz'', u_password_hash = ''h'', u_is_active = True,
     u_is_superuser = False, u_deactivated_at = None\<rparr>"

definition demo_logged_in :: auth_db where
  "demo_logged_in = snd (issue_refresh_token demo_config 1 0 10 ''first'' \<lparr>accounts = [demo_user], tokens = []\<rparr>)"

definition demo_attempt :: "time \<Rightarrow> uuid \<Rightarrow> string \<Rightarrow> attempt" where
  "demo_attempt now i raw = \<lparr>at_now = now, at_new_id = i, at_new_raw = raw, at_meanwhile = (\<lambda>d. d)\<rparr>"

definition demo_rotated :: auth_db where
  "demo_rotated = snd (rotate_refresh_token demo_config (\<lambda>i. demo_attempt 1000000 11 ''second'') ''first'' demo_logged_in)"

lemmas demo_token_defs = demo_config_def demo_user_def demo_attempt_def new_refresh_token_def second_us_def
  add_token_def

definition demo_old :: refresh_token where
  "demo_old = \<lparr>rt_id = 10, rt_user_id = 1, rt_token_hash = ''first'', rt_issued_at = 0,
     rt_expires_at = 2592000000000, rt_revoked_at = Some 1000000, rt_replaced_by_id = Some 11\<rparr>"

definition demo_new :: refresh_token where
  "demo_new = \<lparr>rt_id = 11, rt_user_id = 1, rt_token_hash = ''second'', rt_issued_at = 1000000,
     rt_expires_at = 2592001000000, rt_revoked_at = None, rt_replaced_by_id = None\<rparr>"

lemma demo_logged_in_eq:
  "demo_logged_in = \<lparr>accounts = [demo_user], tokens = [demo_old\<lparr>rt_revoked_at := None, rt_replaced_by_id := None\<rparr>]\<rparr>"
  by (simp add: demo_logged_in_def issue_refresh_token_def demo_token_defs demo_old_def)

lemma demo_rotated_eq: "demo_rotated = \<lparr>accounts = [demo_user], tokens = [demo_old, demo_new]\<rparr>"
  by (simp add: demo_rotated_def demo_logged_in_eq rotate_refresh_token_def upt_rec numeral_3_eq_3
      rotate_attempt_def first_where_def rotate_onto_def claim_refresh_token_def claimable_def
      count_where_def update_where_def demo_token_defs demo_old_def demo_new_def)

lemma demo_logged_in_reach: "reach no_tokens auth_step demo_logged_in"
proof -
  have "no_tokens \<lparr>accounts = [demo_user], tokens = []\<rparr>" by (simp add: no_tokens_def)
  moreover have "auth_step \<lparr>accounts = [demo_user], tokens = []\<rparr> demo_logged_in"
    unfolding demo_logged_in_def issue_refresh_token_def snd_conv
    by (rule step_issue) (simp add: fresh_token_def new_refresh_token_def token_ids_def)
  ultimately show ?thesis by (blast intro: reach.intros)
qed

lemma demo_logged_in_presents:
  "presents demo_config demo_logged_in ''first'' (demo_old\<lparr>rt_revoked_at := None, rt_replaced_by_id := None\<rparr>)"
  by (simp add: presents_def demo_logged_in_eq demo_old_def demo_config_def demo_user_def first_where_def)

lemma demo_attempts_ok: "attempts_ok demo_config (map (\<lambda>i. demo_attempt 1000000 11 ''second'') [0..<3]) ''first'' demo_logged_in"
  by (simp add: upt_rec numeral_3_eq_3 demo_logged_in_eq fresh_attempt_def token_ids_def
      rotate_attempt_def first_where_def rotate_onto_def claim_refresh_token_def claimable_def
      count_where_def demo_token_defs demo_old_def)

lemma reach_steps: "auth_step\<^sup>*\<^sup>* d d' \<Longrightarrow> reach no_tokens auth_step d \<Longrightarrow> reach no_tokens auth_step d'"
  by (induction rule: rtranclp_induct) (auto intro: reach_step)

lemma demo_rotated_reach: "reach no_tokens auth_step demo_rotated"
proof -
  obtain r where "rotate_attempts demo_config (map (\<lambda>i. demo_attempt 1000000 11 ''second'') [0..<3]) ''first''
      demo_logged_in = (r, demo_rotated)"
    unfolding demo_rotated_def rotate_refresh_token_def by (metis prod.collapse)
  then have "auth_step\<^sup>*\<^sup>* demo_logged_in demo_rotated"
    by (rule rotate_attempts_steps [OF demo_attempts_ok token_table.reach_inv [OF demo_logged_in_reach]])
  then show ?thesis using demo_logged_in_reach by (rule reach_steps)
qed

section \<open>What rotation guarantees\<close>

text \<open>C5: However logins, rotations, recoveries and revocations of any number of sessions interleave,
  the replacement family of a token, as \<open>_refresh_family_ids\<close> computes it, never holds two live
  tokens: one login has at most one usable refresh token.\<close>

theorem one_live_token_per_family:
  assumes "reach no_tokens auth_step d" "t \<in> set (tokens d)" "u \<in> set (tokens d)"
    "rt_revoked_at t = None" "rt_revoked_at u = None"
    "rt_id u \<in> set (refresh_family_ids (tokens d) (rt_id t))"
  shows "u = t"
proof -
  have "rt_id u \<in> family (tokens d) (rt_id t)"
    using assms(6) by (simp add: refresh_family_ids_family split: if_splits)
  then show ?thesis by (intro one_live [OF token_table.reach_inv [OF assms(1)] assms(2,4,3,5)])
qed

theorem one_live_token_per_family_witness:
  "{u \<in> set (tokens demo_rotated). rt_revoked_at u = None \<and>
     rt_id u \<in> set (refresh_family_ids (tokens demo_rotated) 11)} = {demo_new}"
proof -
  have n: "demo_new \<in> set (tokens demo_rotated)" "rt_revoked_at demo_new = None" "rt_id demo_new = 11"
    by (simp_all add: demo_rotated_eq demo_new_def)
  then have "11 \<in> set (refresh_family_ids (tokens demo_rotated) 11)"
    by (auto simp: refresh_family_ids_family family_def token_ids_def intro: rev_image_eqI)
  with n one_live_token_per_family [OF demo_rotated_reach n(1) _ n(2)] show ?thesis by auto
qed

text \<open>C32: A run of \<open>rotate_refresh_token\<close>, retries and the interference of other sessions included,
  only makes commits of the transition system above: it refines the abstract token table, so
  every state it leaves satisfies the table's invariant.\<close>

theorem rotation_refines_token_table:
  assumes "attempts_ok cf (map att [0..<3]) raw d" "auth_inv d" "rotate_refresh_token cf att raw d = (res, d')"
  shows "auth_step\<^sup>*\<^sup>* d d' \<and> auth_inv d'"
proof -
  have "auth_step\<^sup>*\<^sup>* d d'"
    using rotate_attempts_steps [OF assms(1,2)] assms(3) by (simp add: rotate_refresh_token_def)
  with auth_steps_inv assms(2) show ?thesis by blast
qed

theorem rotation_refines_token_table_witness: "auth_step\<^sup>*\<^sup>* demo_logged_in demo_rotated \<and> auth_inv demo_rotated"
proof -
  obtain res where "rotate_refresh_token demo_config (\<lambda>i. demo_attempt 1000000 11 ''second'') ''first''
      demo_logged_in = (res, demo_rotated)"
    unfolding demo_rotated_def by (metis prod.collapse)
  then show ?thesis
    by (rule rotation_refines_token_table [OF demo_attempts_ok token_table.reach_inv [OF demo_logged_in_reach]])
qed

text \<open>C22: Presenting a refresh token that was revoked longer ago than the grace period is refused with
  401 and, whatever other sessions committed since the token was read, leaves no live token in the
  token's whole replacement family; tokens of other families are untouched.\<close>

theorem reuse_revokes_family:
  assumes "auth_inv d" "auth_step\<^sup>*\<^sup>* d (at_meanwhile (att 0) d)" "presents cf d raw rt"
    "rt_revoked_at rt = Some r" "REFRESH_TOKEN_REUSE_GRACE_SECONDS cf * second_us < at_now (att 0) - r"
  shows "\<exists>d'. rotate_refresh_token cf att raw d = (Inl invalid_refresh_token, d') \<and>
    (\<forall>t \<in> set (tokens d'). rt_id t \<in> set (refresh_family_ids (tokens d') (rt_id rt)) \<longrightarrow> rt_revoked_at t \<noteq> None) \<and>
    (\<forall>t \<in> set (tokens (at_meanwhile (att 0) d)).
       rt_id t \<notin> set (refresh_family_ids (tokens d') (rt_id rt)) \<longrightarrow> t \<in> set (tokens d'))"
proof -
  let ?m = "at_meanwhile (att 0) d"
  obtain ids where ids: "rotate_attempt cf (att 0) raw d = (Rejected invalid_refresh_token, revoke_ids ids (at_now (att 0)) ?m)"
    "set ids = family (tokens ?m) (rt_id rt)"
    using reuse_outcome [OF assms(1,2) refl assms(3-5)] by blast
  let ?d = "revoke_ids ids (at_now (att 0)) ?m"
  obtain t where "t \<in> set (tokens ?m)" "same_token rt t"
    using auth_steps_evolve [OF assms(2)] assms(3) unfolding evolves_def presents_def by blast
  then have "rt_id rt \<in> set (token_ids (tokens ?m))" by (metis same_token_def token_ids_def imageI set_map)
  then have f: "set (refresh_family_ids (tokens ?d) (rt_id rt)) = set ids"
    by (simp add: refresh_family_ids_family ids(2))
  have "rotate_refresh_token cf att raw d = (Inl invalid_refresh_token, ?d)"
    using ids(1) by (simp add: rotate_refresh_token_def upt_rec numeral_3_eq_3)
  moreover have "\<forall>t \<in> set (tokens ?d). rt_id t \<in> set ids \<longrightarrow> rt_revoked_at t \<noteq> None"
    using revoked_family_dead by blast
  moreover have "\<forall>t \<in> set (tokens ?m). rt_id t \<notin> set ids \<longrightarrow> t \<in> set (tokens ?d)"
    by (auto simp: revoke_ids_def update_where_def image_iff)
  ultimately show ?thesis unfolding f [symmetric] by blast
qed


theorem reuse_revokes_family_witness:
  "\<exists>d'. rotate_refresh_token demo_config (\<lambda>i. demo_attempt 60000000 12 ''third'') ''first'' demo_rotated =
      (Inl invalid_refresh_token, d') \<and>
    (\<forall>t \<in> set (tokens d'). rt_id t \<in> set (refresh_family_ids (tokens d') 10) \<longrightarrow> rt_revoked_at t \<noteq> None)"
proof -
  let ?att = "\<lambda>i :: nat. demo_attempt 60000000 12 ''third''"
  have p: "presents demo_config demo_rotated ''first'' demo_old"
    by (simp add: presents_def demo_rotated_eq demo_config_def demo_old_def demo_user_def first_where_def)
  have m: "auth_step\<^sup>*\<^sup>* demo_rotated (at_meanwhile (?att 0) demo_rotated)" by (simp add: demo_attempt_def)
  have r: "rt_revoked_at demo_old = Some 1000000" "rt_id demo_old = 10" by (simp_all add: demo_old_def)
  have g: "REFRESH_TOKEN_REUSE_GRACE_SECONDS demo_config * second_us < at_now (?att 0) - 1000000"
    by (simp add: demo_config_def second_us_def demo_attempt_def)
  from reuse_revokes_family [OF token_table.reach_inv [OF demo_rotated_reach], where att = ?att, OF m p r(1) g]
  show ?thesis unfolding r(2) by blast
qed



end
