(* ===== verification/Rate_Limit.thy ===== *)
theory Rate_Limit
  imports Prelude
begin

section \<open>The sliding-window rate limiter\<close>

text \<open>
  \<open>core/rate_limit.py\<close>: the in-memory limiter in front of login, registration and token
  refresh. Its lock makes one check one atomic step, so a run of the limiter is the sequence
  of its checks. The monotonic clock is read in microseconds; the window is configured in
  seconds. An index error of the source (the last element of an empty deque) is \<open>None\<close>.
\<close>

abbreviation second :: int where
  "second \<equiv> 1000000"

record limiter =
  lim_limit :: int
  lim_window_s :: int
  lim_max_keys :: int
  lim_hits :: "(string \<times> time list) list"
  lim_checks :: nat

definition limiter_init :: "int \<Rightarrow> int \<Rightarrow> int \<Rightarrow> limiter option" where
  "limiter_init limit window_s max_keys =
    (if limit < 1 \<or> window_s < 1 \<or> max_keys < 1 then None
     else Some \<lparr>lim_limit = limit, lim_window_s = window_s, lim_max_keys = max_keys,
                lim_hits = [], lim_checks = 0\<rparr>)"

definition limiter_reset :: "limiter \<Rightarrow> limiter" where
  "limiter_reset lim = lim\<lparr>lim_hits := [], lim_checks := 0\<rparr>"

definition stale :: "time \<Rightarrow> string \<times> time list \<Rightarrow> bool" where
  "stale cutoff e = (snd e = [] \<or> last (snd e) < cutoff)"

definition prune_stale_keys :: "time \<Rightarrow> limiter \<Rightarrow> limiter" where
  "prune_stale_keys cutoff lim = lim\<lparr>lim_hits := filter (\<lambda>e. \<not> stale cutoff e) (lim_hits lim)\<rparr>"

text \<open>\<open>min(self._hits, key=...)\<close>: the first key whose newest hit is the oldest.\<close>

fun oldest_key :: "(string \<times> time list) list \<Rightarrow> (string \<times> time) option" where
  "oldest_key [] = None"
| "oldest_key ((k, q) # h) =
    (if q = [] then None
     else if h = [] then Some (k, last q)
     else case oldest_key h of
            None \<Rightarrow> None
          | Some (k', t) \<Rightarrow> Some (if t < last q then (k', t) else (k, last q)))"

definition make_room_for :: "string \<Rightarrow> time \<Rightarrow> limiter \<Rightarrow> limiter option" where
  "make_room_for key cutoff lim =
    (if map_of (lim_hits lim) key \<noteq> None then Some lim
     else let lim = prune_stale_keys cutoff lim in
       map_option (\<lambda>hits. lim\<lparr>lim_hits := hits @ [(key, [])]\<rparr>)
         (if lim_max_keys lim \<le> int (length (lim_hits lim))
          then map_option (\<lambda>(oldest, _). AList.delete oldest (lim_hits lim)) (oldest_key (lim_hits lim))
          else Some (lim_hits lim)))"

text \<open>\<open>math.ceil\<close> of a span in seconds.\<close>

definition ceil_seconds :: "int \<Rightarrow> int" where
  "ceil_seconds us = - ((- us) div second)"

definition limiter_check :: "time \<Rightarrow> string \<Rightarrow> limiter \<Rightarrow> (bool \<times> int \<times> limiter) option" where
  "limiter_check now key lim =
    (let cutoff = now - lim_window_s lim * second;
         lim = lim\<lparr>lim_checks := lim_checks lim + 1\<rparr>;
         lim = (if lim_checks lim mod 256 = 0 then prune_stale_keys cutoff lim else lim)
     in case make_room_for key cutoff lim of
          None \<Rightarrow> None
        | Some lim \<Rightarrow>
            (case map_of (lim_hits lim) key of
               None \<Rightarrow> None
             | Some q \<Rightarrow>
                 let q = dropWhile (\<lambda>t. t < cutoff) q in
                 if lim_limit lim \<le> int (length q)
                 then Some (False, max 1 (ceil_seconds (hd q + lim_window_s lim * second - now)),
                            lim\<lparr>lim_hits := AList.update key q (lim_hits lim)\<rparr>)
                 else Some (True, 0, lim\<lparr>lim_hits := AList.update key (q @ [now]) (lim_hits lim)\<rparr>)))"

subsection \<open>Well-formed limiters\<close>

text \<open>
  The invariant between two checks: one bucket per key, no more than \<open>max_keys\<close> of them,
  each with at least one and at most \<open>limit\<close> hits in the order of the clock.
\<close>

definition bucket_ok :: "int \<Rightarrow> time \<Rightarrow> time list \<Rightarrow> bool" where
  "bucket_ok limit now q \<longleftrightarrow> q \<noteq> [] \<and> sorted q \<and> last q \<le> now \<and> int (length q) \<le> limit"

definition lim_inv :: "time \<Rightarrow> limiter \<Rightarrow> bool" where
  "lim_inv now lim \<longleftrightarrow> 1 \<le> lim_limit lim \<and> 1 \<le> lim_window_s lim \<and> 1 \<le> lim_max_keys lim \<and>
     distinct (map fst (lim_hits lim)) \<and> int (length (lim_hits lim)) \<le> lim_max_keys lim \<and>
     (\<forall>e \<in> set (lim_hits lim). bucket_ok (lim_limit lim) now (snd e))"

text \<open>The hits a key still has inside the window that ends now.\<close>

definition live_hits :: "time \<Rightarrow> limiter \<Rightarrow> string \<Rightarrow> time list" where
  "live_hits now lim k =
    (case map_of (lim_hits lim) k of None \<Rightarrow> []
     | Some q \<Rightarrow> filter (\<lambda>t. now - lim_window_s lim * second \<le> t) q)"

lemma lim_inv_init: "limiter_init l w m = Some lim \<Longrightarrow> lim_inv now lim"
  by (auto simp: limiter_init_def lim_inv_def split: if_splits)

lemma lim_inv_later: "lim_inv now lim \<Longrightarrow> now \<le> now' \<Longrightarrow> lim_inv now' lim"
  by (auto simp: lim_inv_def bucket_ok_def)

lemma dropWhile_sorted: "sorted q \<Longrightarrow> dropWhile (\<lambda>t. t < c) q = filter (\<lambda>t. c \<le> t) (q :: time list)"
proof (induction q)
  case (Cons a q)
  then show ?case
    by (cases "a < c") (auto simp: filter_id_conv intro!: filter_True [symmetric])
qed simp

lemma oldest_key_total:
  assumes "\<forall>e \<in> set h. snd e \<noteq> []" "h \<noteq> []"
  obtains k t where "oldest_key h = Some (k, t)" "k \<in> fst ` set h"
  using assms
proof (induction h arbitrary: thesis rule: oldest_key.induct)
  case (2 k q h)
  show ?case
  proof (cases "h = []")
    case True with 2(2,3) show ?thesis by (auto intro: 2(2))
  next
    case False
    with 2(3) obtain k' t where "oldest_key h = Some (k', t)" "k' \<in> fst ` set h"
      using 2(1) by (metis list.set_intros(1,2) snd_conv)
    with False 2(2,3) show ?thesis by (cases "t < last q") (auto intro: 2(2))
  qed
qed simp

lemma length_delete_key:
  "distinct (map fst h) \<Longrightarrow> k \<in> fst ` set h \<Longrightarrow> length (AList.delete k h) = length h - 1"
proof (induction h)
  case (Cons e h)
  show ?case
  proof (cases "fst e = k")
    case True
    with Cons.prems have "AList.delete k h = h" by (intro delete_id) auto
    with True show ?thesis by (cases e) simp
  next
    case False
    with Cons have "length (AList.delete k h) = length h - 1" "h \<noteq> []" by auto
    with False show ?thesis by (cases e; cases h) auto
  qed
qed simp

lemma set_prune: "set (lim_hits (prune_stale_keys c lim)) \<subseteq> set (lim_hits lim)"
  by (auto simp: prune_stale_keys_def)

lemma prune_simps [simp]:
  "lim_limit (prune_stale_keys c lim) = lim_limit lim"
  "lim_window_s (prune_stale_keys c lim) = lim_window_s lim"
  "lim_max_keys (prune_stale_keys c lim) = lim_max_keys lim"
  "lim_checks (prune_stale_keys c lim) = lim_checks lim"
  by (simp_all add: prune_stale_keys_def)

lemma prune_inv: "lim_inv now lim \<Longrightarrow> lim_inv now (prune_stale_keys c lim)"
  by (auto simp: lim_inv_def prune_stale_keys_def distinct_map_filter
      intro: order_trans [OF of_nat_mono [OF length_filter_le]])

lemma stale_no_live: "bucket_ok l now q \<Longrightarrow> stale c (k, q) \<Longrightarrow> filter (\<lambda>t. c \<le> t) q = []"
proof -
  assume "bucket_ok l now q" "stale c (k, q)"
  then have "sorted q" "last q < c" "q \<noteq> []" by (auto simp: bucket_ok_def stale_def)
  then have "\<forall>t \<in> set q. t < c" by (cases q rule: rev_cases) (auto simp: sorted_append)
  then show ?thesis by (auto simp: filter_empty_conv)
qed

lemma map_of_filter_distinct:
  "distinct (map fst h) \<Longrightarrow> map_of (filter P h) k =
    (case map_of h k of None \<Rightarrow> None | Some q \<Rightarrow> if P (k, q) then Some q else None)"
  by (induction h) (auto split: option.splits dest: map_of_SomeD intro: rev_image_eqI)

lemma map_of_prune:
  "distinct (map fst (lim_hits lim)) \<Longrightarrow> map_of (lim_hits (prune_stale_keys c lim)) k =
    (case map_of (lim_hits lim) k of None \<Rightarrow> None
     | Some q \<Rightarrow> if stale c (k, q) then None else Some q)"
  by (auto simp: prune_stale_keys_def map_of_filter_distinct split: option.splits)

lemma prune_live:
  assumes "lim_inv now0 lim"
  shows "live_hits now (prune_stale_keys (now - lim_window_s lim * second) lim) k = live_hits now lim k"
proof (cases "map_of (lim_hits lim) k")
  case None
  with assms show ?thesis by (simp add: live_hits_def map_of_prune lim_inv_def)
next
  case (Some q)
  then have "bucket_ok (lim_limit lim) now0 q"
    using assms by (auto simp: lim_inv_def dest: map_of_SomeD)
  with Some assms show ?thesis
    by (auto simp: live_hits_def map_of_prune lim_inv_def dest: stale_no_live)
qed


subsection \<open>One check\<close>

lemma set_alist_update:
  "distinct (map fst h) \<Longrightarrow> set (AList.update k v h) = insert (k, v) {e \<in> set h. fst e \<noteq> k}"
  by (induction h) (auto intro: rev_image_eqI)

lemma length_alist_update: "k \<in> fst ` set h \<Longrightarrow> length (AList.update k v h) = length h"
  by (induction h) auto

lemma lim_inv_checks [simp]: "lim_inv now (lim\<lparr>lim_checks := n\<rparr>) = lim_inv now lim"
  by (simp add: lim_inv_def)

lemma live_hits_checks [simp]: "live_hits now (lim\<lparr>lim_checks := n\<rparr>) k = live_hits now lim k"
  by (simp add: live_hits_def cong: option.case_cong)

text \<open>
  What \<open>_make_room_for\<close> leaves: the bucket of the key, empty when it is new, beside the
  buckets that were kept. Only a full table of active buckets loses one.
\<close>

definition roomy :: "string \<Rightarrow> limiter \<Rightarrow> bool" where
  "roomy key lim \<longleftrightarrow> key \<in> fst ` set (lim_hits lim) \<or> int (length (lim_hits lim)) < lim_max_keys lim"

definition made_room :: "time \<Rightarrow> string \<Rightarrow> limiter \<Rightarrow> limiter \<Rightarrow> bool" where
  "made_room now key lim lim' \<longleftrightarrow>
     lim_limit lim' = lim_limit lim \<and> lim_window_s lim' = lim_window_s lim \<and>
     lim_max_keys lim' = lim_max_keys lim \<and>
     distinct (map fst (lim_hits lim')) \<and> int (length (lim_hits lim')) \<le> lim_max_keys lim \<and>
     (\<exists>q. map_of (lim_hits lim') key = Some q \<and> sorted q \<and> (q \<noteq> [] \<longrightarrow> last q \<le> now) \<and>
          int (length q) \<le> lim_limit lim) \<and>
     (\<forall>e \<in> set (lim_hits lim'). fst e \<noteq> key \<longrightarrow> bucket_ok (lim_limit lim) now (snd e)) \<and>
     fst ` set (lim_hits lim') \<subseteq> insert key (fst ` set (lim_hits lim))"

lemma make_room_new_bucket:
  assumes inv: "lim_inv now lim" and new: "key \<notin> fst ` set (lim_hits lim)"
    and h: "set h \<subseteq> set (lim_hits lim)" "distinct (map fst h)" "int (length h) < lim_max_keys lim"
  shows "made_room now key lim (lim\<lparr>lim_hits := h @ [(key, [])]\<rparr>)"
proof -
  have k: "key \<notin> fst ` set h" using new h(1) by auto
  then have "map_of h key = None" by (simp add: map_of_eq_None_iff)
  with k h inv show ?thesis by (auto simp: made_room_def lim_inv_def map_add_def)
qed

lemma oldest_bucket_evicted:
  assumes inv: "lim_inv now lim" and full: "lim_max_keys lim \<le> int (length (lim_hits lim))"
  obtains k t where "oldest_key (lim_hits lim) = Some (k, t)"
    "int (length (AList.delete k (lim_hits lim))) < lim_max_keys lim"
proof -
  have ne: "\<forall>e \<in> set (lim_hits lim). snd e \<noteq> []" "lim_hits lim \<noteq> []"
    using inv full by (auto simp: lim_inv_def bucket_ok_def)
  obtain k t where o: "oldest_key (lim_hits lim) = Some (k, t)" "k \<in> fst ` set (lim_hits lim)"
    using oldest_key_total [OF ne] by blast
  have "length (AList.delete k (lim_hits lim)) = length (lim_hits lim) - 1"
    using inv o(2) by (intro length_delete_key) (auto simp: lim_inv_def)
  moreover have "0 < length (lim_hits lim)" using ne(2) by simp
  ultimately show thesis using o(1) inv by (intro that) (auto simp: lim_inv_def)
qed

lemma make_room_for_ok:
  assumes inv: "lim_inv now lim"
  shows "\<exists>lim'. make_room_for key c lim = Some lim' \<and> made_room now key lim lim'"
proof (cases "map_of (lim_hits lim) key")
  case (Some q)
  then have "bucket_ok (lim_limit lim) now q" using inv by (auto simp: lim_inv_def dest: map_of_SomeD)
  with Some inv show ?thesis by (auto simp: make_room_for_def made_room_def lim_inv_def bucket_ok_def)
next
  case None
  define pr where "pr = prune_stale_keys c lim"
  have pinv: "lim_inv now pr" using inv unfolding pr_def by (rule prune_inv)
  have k: "key \<notin> fst ` set (lim_hits pr)"
    using None set_prune [of c lim] by (auto simp: pr_def map_of_eq_None_iff)
  have "fst ` set (lim_hits pr) \<subseteq> fst ` set (lim_hits lim)"
    using set_prune [of c lim] unfolding pr_def by (rule image_mono)
  then have sub: "insert key (fst ` set (lim_hits pr)) \<subseteq> insert key (fst ` set (lim_hits lim))"
    by (rule insert_mono)
  have made: "made_room now key pr l \<Longrightarrow> made_room now key lim l" for l
    unfolding made_room_def pr_def prune_simps
    by (elim conjE, intro conjI; (assumption | erule subset_trans, rule sub [unfolded pr_def]))
  show ?thesis
  proof (cases "lim_max_keys pr \<le> int (length (lim_hits pr))")
    case True
    obtain o' t where o: "oldest_key (lim_hits pr) = Some (o', t)"
      "int (length (AList.delete o' (lim_hits pr))) < lim_max_keys pr"
      using oldest_bucket_evicted [OF pinv True] by blast
    have "made_room now key pr (pr\<lparr>lim_hits := AList.delete o' (lim_hits pr) @ [(key, [])]\<rparr>)"
      using o(2) pinv by (intro make_room_new_bucket [OF pinv k])
        (auto simp: lim_inv_def AList.delete_eq distinct_map_filter)
    with True None o(1) made show ?thesis by (auto simp: make_room_for_def pr_def [symmetric])
  next
    case False
    have "made_room now key pr (pr\<lparr>lim_hits := lim_hits pr @ [(key, [])]\<rparr>)"
      using False pinv by (intro make_room_new_bucket [OF pinv k]) (auto simp: lim_inv_def)
    with False None made show ?thesis by (auto simp: make_room_for_def pr_def [symmetric])
  qed
qed

lemma make_room_live:
  assumes inv: "lim_inv now0 lim" and room: "roomy key lim"
    and m: "make_room_for key (now - lim_window_s lim * second) lim = Some lim'"
  shows "live_hits now lim' k = live_hits now lim k"
proof (cases "map_of (lim_hits lim) key")
  case (Some q)
  with m show ?thesis by (simp add: make_room_for_def)
next
  case None
  let ?pr = "prune_stale_keys (now - lim_window_s lim * second) lim"
  have "length (lim_hits ?pr) \<le> length (lim_hits lim)" by (simp add: prune_stale_keys_def)
  then have "int (length (lim_hits ?pr)) < lim_max_keys lim"
    using None room by (auto simp: roomy_def map_of_eq_None_iff)
  with m None have l: "lim' = ?pr\<lparr>lim_hits := lim_hits ?pr @ [(key, [])]\<rparr>"
    by (simp add: make_room_for_def Let_def)
  have "live_hits now lim' k = live_hits now ?pr k"
    by (auto simp: l live_hits_def map_add_def split: option.splits)
  then show ?thesis by (simp add: prune_live [OF inv])
qed


definition check_hits :: "time \<Rightarrow> string \<Rightarrow> limiter \<Rightarrow> limiter \<Rightarrow> bool \<Rightarrow> int \<Rightarrow> limiter \<Rightarrow> bool" where
  "check_hits now key lim room ok retry lim' \<longleftrightarrow>
    (\<exists>q. map_of (lim_hits room) key = Some q \<and>
      (let q = dropWhile (\<lambda>t. t < now - lim_window_s lim * second) q in
       ok = (int (length q) < lim_limit lim) \<and>
       retry = (if ok then 0 else max 1 (ceil_seconds (hd q + lim_window_s lim * second - now))) \<and>
       lim' = room\<lparr>lim_hits := AList.update key (if ok then q @ [now] else q) (lim_hits room)\<rparr>))"

lemma limiter_check_room:
  assumes inv: "lim_inv now0 lim" and t: "now0 \<le> now"
  obtains lim1 room ok retry lim' where
    "lim_inv now lim1" "\<forall>k. live_hits now lim1 k = live_hits now lim k"
    "lim_window_s lim1 = lim_window_s lim" "lim_limit lim1 = lim_limit lim"
    "lim_max_keys lim1 = lim_max_keys lim" "set (lim_hits lim1) \<subseteq> set (lim_hits lim)"
    "make_room_for key (now - lim_window_s lim * second) lim1 = Some room"
    "made_room now key lim1 room" "check_hits now key lim1 room ok retry lim'"
    "limiter_check now key lim = Some (ok, retry, lim')"
proof -
  let ?c = "now - lim_window_s lim * second"
  define lim1 where "lim1 = (let l = lim\<lparr>lim_checks := lim_checks lim + 1\<rparr> in
    if lim_checks l mod 256 = 0 then prune_stale_keys ?c l else l)"
  have inv': "lim_inv now lim" using inv t by (rule lim_inv_later)
  have i1: "lim_inv now lim1" using inv' by (auto simp: lim1_def Let_def intro: prune_inv)
  have l1: "live_hits now lim1 k = live_hits now lim k" for k
    using prune_live [of now "lim\<lparr>lim_checks := Suc (lim_checks lim)\<rparr>" now k] inv'
    by (simp add: lim1_def Let_def)
  have c1: "lim_window_s lim1 = lim_window_s lim" "lim_limit lim1 = lim_limit lim"
    "lim_max_keys lim1 = lim_max_keys lim" by (simp_all add: lim1_def Let_def)
  have s1: "set (lim_hits lim1) \<subseteq> set (lim_hits lim)"
    by (auto simp: lim1_def Let_def prune_stale_keys_def)
  obtain room where room: "make_room_for key ?c lim1 = Some room" "made_room now key lim1 room"
    using make_room_for_ok [OF i1] by blast
  then obtain q where q: "map_of (lim_hits room) key = Some q" by (auto simp: made_room_def)
  have rc: "lim_window_s room = lim_window_s lim" "lim_limit room = lim_limit lim"
    using room(2) c1 by (auto simp: made_room_def)
  define q' where "q' = dropWhile (\<lambda>t. t < ?c) q"
  define ok where "ok = (int (length q') < lim_limit lim)"
  define retry where "retry = (if ok then 0 else max 1 (ceil_seconds (hd q' + lim_window_s lim * second - now)))"
  define lim' where "lim' = room\<lparr>lim_hits := AList.update key (if ok then q' @ [now] else q') (lim_hits room)\<rparr>"
  have "check_hits now key lim1 room ok retry lim'"
    unfolding check_hits_def using q c1
    by (auto simp: q'_def ok_def retry_def lim'_def Let_def)
  moreover have "limiter_check now key lim = Some (ok, retry, lim')"
    using room(1) q rc
    by (cases "Suc (lim_checks lim) mod 256 = 0")
      (simp_all add: limiter_check_def lim1_def Let_def q'_def ok_def retry_def lim'_def)
  ultimately show thesis using that i1 l1 c1 s1 room by blast
qed


lemma ceil_seconds_bounds: "0 \<le> us \<Longrightarrow> us \<le> w * second \<Longrightarrow> 0 \<le> ceil_seconds us \<and> ceil_seconds us \<le> w"
  unfolding ceil_seconds_def by auto

lemma check_hits_inv:
  assumes inv: "lim_inv now lim" and m: "made_room now key lim room"
    and h: "check_hits now key lim room ok retry lim'"
  shows "lim_inv now lim'" "ok \<Longrightarrow> retry = 0" "\<not> ok \<Longrightarrow> 1 \<le> retry \<and> retry \<le> lim_window_s lim"
    "fst ` set (lim_hits lim') \<subseteq> insert key (fst ` set (lim_hits lim))"
    "lim_limit lim' = lim_limit lim" "lim_window_s lim' = lim_window_s lim"
    "lim_max_keys lim' = lim_max_keys lim"
proof -
  let ?c = "now - lim_window_s lim * second"
  from m obtain q where q: "map_of (lim_hits room) key = Some q" "sorted q" "q \<noteq> [] \<longrightarrow> last q \<le> now"
    "int (length q) \<le> lim_limit lim" unfolding made_room_def by blast
  define q' where "q' = dropWhile (\<lambda>t. t < ?c) q"
  have qf: "q' = filter (\<lambda>t. ?c \<le> t) q" by (simp add: q'_def dropWhile_sorted [OF q(2)])
  have le: "\<forall>t \<in> set q. t \<le> now"
    using q(2,3) by (cases q rule: rev_cases) (auto simp: sorted_append)
  have bounds: "\<forall>t \<in> set q'. ?c \<le> t \<and> t \<le> now" "sorted q'" "length q' \<le> length q"
    using le q(2) sorted_filter [of id q] by (auto simp: qf)
  have ok: "ok = (int (length q') < lim_limit lim)"
    and retry: "retry = (if ok then 0 else max 1 (ceil_seconds (hd q' + lim_window_s lim * second - now)))"
    and lim': "lim' = room\<lparr>lim_hits := AList.update key (if ok then q' @ [now] else q') (lim_hits room)\<rparr>"
    using h q(1) by (auto simp: check_hits_def q'_def Let_def)
  have d: "distinct (map fst (lim_hits room))" and k: "key \<in> fst ` set (lim_hits room)"
    using m by (auto simp: made_room_def map_of_eq_Some_iff intro: rev_image_eqI)
  have b: "bucket_ok (lim_limit lim) now (if ok then q' @ [now] else q')"
  proof (cases "q' = []")
    case True with inv show ?thesis by (auto simp: bucket_ok_def ok lim_inv_def)
  next
    case False
    with bounds(1) have "last q' \<le> now" by simp
    with False bounds q(4) show ?thesis by (auto simp: bucket_ok_def ok sorted_append)
  qed
  show "lim_inv now lim'"
    using inv m b d k
    by (auto simp: lim_inv_def made_room_def lim' set_alist_update length_alist_update distinct_update)
  show "ok \<Longrightarrow> retry = 0" by (simp add: retry)
  show "1 \<le> retry \<and> retry \<le> lim_window_s lim" if "\<not> ok"
  proof -
    from that ok inv have "q' \<noteq> []" by (auto simp: lim_inv_def)
    then have "?c \<le> hd q' \<and> hd q' \<le> now" using bounds(1) by simp
    then have "ceil_seconds (hd q' + lim_window_s lim * second - now) \<le> lim_window_s lim"
      using ceil_seconds_bounds [of "hd q' + lim_window_s lim * second - now" "lim_window_s lim"] by simp
    with that inv show ?thesis by (auto simp: retry lim_inv_def)
  qed
  show "fst ` set (lim_hits lim') \<subseteq> insert key (fst ` set (lim_hits lim))"
    using m k by (simp add: lim' dom_update made_room_def)
  show "lim_limit lim' = lim_limit lim" "lim_window_s lim' = lim_window_s lim"
    "lim_max_keys lim' = lim_max_keys lim" using m by (auto simp: lim' made_room_def)
qed

lemma check_hits_live:
  assumes inv: "lim_inv now lim" and m: "made_room now key lim room"
    and h: "check_hits now key lim room ok retry lim'"
    and live: "\<And>k. live_hits now room k = live_hits now lim k"
  shows "ok = (int (length (live_hits now lim key)) < lim_limit lim)"
    "live_hits now lim' k = (if ok \<and> k = key then live_hits now lim k @ [now] else live_hits now lim k)"
proof -
  let ?c = "now - lim_window_s lim * second"
  from m obtain q where q: "map_of (lim_hits room) key = Some q" "sorted q"
    unfolding made_room_def by blast
  have w: "lim_window_s room = lim_window_s lim" using m by (simp add: made_room_def)
  have lq: "live_hits now lim key = dropWhile (\<lambda>t. t < ?c) q"
    using live [of key] by (simp add: live_hits_def [of now room] q(1) w dropWhile_sorted [OF q(2)])
  show ok: "ok = (int (length (live_hits now lim key)) < lim_limit lim)"
    using h q(1) by (auto simp: check_hits_def lq Let_def)
  have lim': "lim' = room\<lparr>lim_hits := AList.update key
      (if ok then live_hits now lim key @ [now] else live_hits now lim key) (lim_hits room)\<rparr>"
    using h q(1) by (auto simp: check_hits_def lq Let_def)
  have f: "filter (\<lambda>t. ?c \<le> t) (live_hits now lim key) = live_hits now lim key"
    by (simp add: lq dropWhile_sorted [OF q(2)])
  have win: "?c \<le> now" using inv by (simp add: lim_inv_def)
  show "live_hits now lim' k = (if ok \<and> k = key then live_hits now lim k @ [now] else live_hits now lim k)"
  proof (cases "k = key")
    case True
    then show ?thesis using f win by (simp add: lim' live_hits_def [of now lim'] w update_conv' live_hits_def [of _ "room\<lparr>lim_hits := _\<rparr>"])
  next
    case False
    then have "live_hits now lim' k = live_hits now room k"
      by (simp add: lim' live_hits_def update_conv' cong: option.case_cong)
    with False show ?thesis by (simp add: live)
  qed
qed


subsection \<open>Runs and the window they enforce\<close>

text \<open>
  The contract in one definition: keep the log of every hit that was allowed, and allow a hit
  when the log has fewer than \<open>limit\<close> of the key's hits in the window that ends now.
\<close>

definition log_hits :: "time \<Rightarrow> string \<Rightarrow> (time \<times> string) list \<Rightarrow> time list" where
  "log_hits from k log = map fst (filter (\<lambda>(t, k'). k' = k \<and> from \<le> t) log)"

fun window_spec :: "int \<Rightarrow> int \<Rightarrow> (time \<times> string) list \<Rightarrow> (time \<times> string) list \<Rightarrow> bool list" where
  "window_spec limit window_s log [] = []"
| "window_spec limit window_s log ((now, k) # tr) =
    (let ok = int (length (log_hits (now - window_s * second) k log)) < limit
     in ok # window_spec limit window_s (if ok then log @ [(now, k)] else log) tr)"

fun run_checks :: "limiter \<Rightarrow> (time \<times> string) list \<Rightarrow> (bool list \<times> limiter) option" where
  "run_checks lim [] = Some ([], lim)"
| "run_checks lim ((now, k) # tr) =
    (case limiter_check now k lim of
       None \<Rightarrow> None
     | Some (ok, _, lim) \<Rightarrow>
         (case run_checks lim tr of None \<Rightarrow> None | Some (oks, lim) \<Rightarrow> Some (ok # oks, lim)))"

definition allowed :: "(time \<times> string) list \<Rightarrow> bool list \<Rightarrow> (time \<times> string) list" where
  "allowed tr oks = map fst (filter snd (zip tr oks))"

text \<open>The limiter and the log agree on the hits inside the current window.\<close>

definition tracks :: "time \<Rightarrow> limiter \<Rightarrow> (time \<times> string) list \<Rightarrow> bool" where
  "tracks now lim log \<longleftrightarrow> (\<forall>k. live_hits now lim k = log_hits (now - lim_window_s lim * second) k log)"

lemma tracks_later:
  assumes "tracks now0 lim log" "now0 \<le> now"
  shows "tracks now lim log"
proof -
  have a: "live_hits now lim k = filter (\<lambda>t. now - lim_window_s lim * second \<le> t) (live_hits now0 lim k)" for k
    using assms(2) by (auto simp: live_hits_def intro!: filter_cong split: option.splits)
  have b: "log_hits (now - w) k log = filter (\<lambda>t. now - w \<le> t) (log_hits (now0 - w) k log)" for k w
    using assms(2) by (auto simp: log_hits_def filter_map o_def intro!: arg_cong [of _ _ "map fst"] filter_cong)
  show ?thesis using assms(1) by (simp add: tracks_def a b [of "lim_window_s lim * second"])
qed

lemma log_hits_snoc [simp]:
  "log_hits a k (log @ [(t, k')]) = log_hits a k log @ (if k' = k \<and> a \<le> t then [t] else [])"
  by (simp add: log_hits_def)

lemma check_refines:
  assumes inv: "lim_inv now0 lim" and t: "now0 \<le> now" and tr: "tracks now0 lim log"
    and K: "fst ` set (lim_hits lim) \<subseteq> K" "key \<in> K" "finite K" "int (card K) \<le> lim_max_keys lim"
  obtains ok retry lim' where "limiter_check now key lim = Some (ok, retry, lim')" "lim_inv now lim'"
    "ok = (int (length (log_hits (now - lim_window_s lim * second) key log)) < lim_limit lim)"
    "tracks now lim' (if ok then log @ [(now, key)] else log)" "fst ` set (lim_hits lim') \<subseteq> K"
    "lim_limit lim' = lim_limit lim" "lim_window_s lim' = lim_window_s lim"
    "lim_max_keys lim' = lim_max_keys lim"
proof -
  obtain lim1 room ok retry lim' where c:
    "lim_inv now lim1" "\<forall>k. live_hits now lim1 k = live_hits now lim k"
    "lim_window_s lim1 = lim_window_s lim" "lim_limit lim1 = lim_limit lim"
    "lim_max_keys lim1 = lim_max_keys lim" "set (lim_hits lim1) \<subseteq> set (lim_hits lim)"
    "make_room_for key (now - lim_window_s lim * second) lim1 = Some room"
    "made_room now key lim1 room" "check_hits now key lim1 room ok retry lim'"
    "limiter_check now key lim = Some (ok, retry, lim')"
    by (rule limiter_check_room [OF inv t])
  have K1: "fst ` set (lim_hits lim1) \<subseteq> K" using c(6) K(1) by auto
  have d1: "distinct (map fst (lim_hits lim1))" using c(1) by (simp add: lim_inv_def)
  have "length (lim_hits lim1) < card K" if "key \<notin> fst ` set (lim_hits lim1)"
  proof -
    have "fst ` set (lim_hits lim1) \<subset> K" using K1 K(2) that by blast
    then have "card (fst ` set (lim_hits lim1)) < card K" by (rule psubset_card_mono [OF K(3)])
    with distinct_card [OF d1] show ?thesis by simp
  qed
  then have roomy: "roomy key lim1"
    using K(4) c(5) by (cases "key \<in> fst ` set (lim_hits lim1)") (simp_all add: roomy_def)
  have live: "live_hits now room k = live_hits now lim1 k" for k
    using make_room_live [OF c(1) roomy] c(3,7) by simp
  note tn = tracks_later [OF tr t, unfolded tracks_def, rule_format]
  note h = check_hits_inv [OF c(1,8,9)] check_hits_live [OF c(1,8,9) live]
  have ok: "ok = (int (length (log_hits (now - lim_window_s lim * second) key log)) < lim_limit lim)"
    using h(8) c(2,4) by (simp add: tn)
  have win: "now - lim_window_s lim * second \<le> now" using inv by (simp add: lim_inv_def)
  have tracks: "tracks now lim' (if ok then log @ [(now, key)] else log)"
    using h(6,9) c(2,3) win by (auto simp: tracks_def tn)
  have "insert key (fst ` set (lim_hits lim1)) \<subseteq> K" using K1 K(2) by simp
  with h(4) have sub: "fst ` set (lim_hits lim') \<subseteq> K" by (rule order_trans)
  show thesis by (rule that [OF c(10) h(1) ok tracks sub]) (simp_all add: h(5-7) c(3-5))
qed

lemma run_refines:
  assumes "lim_inv now0 lim" "tracks now0 lim log" "sorted (map fst tr)" "\<forall>e \<in> set tr. now0 \<le> fst e"
    "fst ` set (lim_hits lim) \<subseteq> K" "snd ` set tr \<subseteq> K" "finite K" "int (card K) \<le> lim_max_keys lim"
  shows "\<exists>lim'. run_checks lim tr = Some (window_spec (lim_limit lim) (lim_window_s lim) log tr, lim')"
  using assms
proof (induction tr arbitrary: now0 lim log)
  case (Cons e tr)
  obtain now key where e: "e = (now, key)" by (cases e)
  have prems: "now0 \<le> now" "key \<in> K" "\<forall>e \<in> set tr. now \<le> fst e" "sorted (map fst tr)" "snd ` set tr \<subseteq> K"
    using Cons.prems(3,4,6) by (auto simp: e)
  obtain ok retry lim' where c: "limiter_check now key lim = Some (ok, retry, lim')" "lim_inv now lim'"
    "ok = (int (length (log_hits (now - lim_window_s lim * second) key log)) < lim_limit lim)"
    "tracks now lim' (if ok then log @ [(now, key)] else log)" "fst ` set (lim_hits lim') \<subseteq> K"
    "lim_limit lim' = lim_limit lim" "lim_window_s lim' = lim_window_s lim"
    "lim_max_keys lim' = lim_max_keys lim"
    by (rule check_refines [OF Cons.prems(1) prems(1) Cons.prems(2,5) prems(2) Cons.prems(7,8)])
  have "int (card K) \<le> lim_max_keys lim'" using Cons.prems(8) c(8) by simp
  then have "\<exists>l. run_checks lim' tr = Some (window_spec (lim_limit lim') (lim_window_s lim')
      (if ok then log @ [(now, key)] else log) tr, l)"
    by (rule Cons.IH [OF c(2,4) prems(4,3) c(5) prems(5) Cons.prems(7)])
  with c show ?case by (auto simp: e Let_def)
qed simp

definition hits_within :: "time \<Rightarrow> time \<Rightarrow> string \<Rightarrow> (time \<times> string) list \<Rightarrow> nat" where
  "hits_within a b k log = length (filter (\<lambda>(t, k'). k' = k \<and> a \<le> t \<and> t \<le> b) log)"

lemma hits_within_snoc:
  "hits_within a b k (log @ [(t, k')]) = hits_within a b k log + (if k' = k \<and> a \<le> t \<and> t \<le> b then 1 else 0)"
  by (simp add: hits_within_def)

lemma hits_within_log: "a' \<le> a \<Longrightarrow> hits_within a b k log \<le> length (log_hits a' k log)"
  by (induction log) (auto simp: hits_within_def log_hits_def)

lemma allowed_Cons [simp]: "allowed (e # tr) (ok # oks) = (if ok then e # allowed tr oks else allowed tr oks)"
  by (simp add: allowed_def)

lemma window_spec_bound:
  assumes "0 \<le> limit" "sorted (map fst tr)" "\<forall>a. int (hits_within a (a + w * second) k log) \<le> limit"
  shows "int (hits_within a (a + w * second) k (log @ allowed tr (window_spec limit w log tr))) \<le> limit"
  using assms
proof (induction tr arbitrary: log)
  case Nil then show ?case by (simp add: allowed_def)
next
  case (Cons e tr)
  obtain now key where e: "e = (now, key)" by (cases e)
  define ok where "ok = (int (length (log_hits (now - w * second) key log)) < limit)"
  define log' where "log' = (if ok then log @ [(now, key)] else log)"
  have "int (hits_within b (b + w * second) k log') \<le> limit" for b
  proof (cases "ok \<and> key = k \<and> b \<le> now \<and> now \<le> b + w * second")
    case True
    then have "hits_within b (b + w * second) k log \<le> length (log_hits (now - w * second) k log)"
      by (intro hits_within_log) simp
    with True show ?thesis by (auto simp: log'_def hits_within_snoc ok_def)
  next
    case False
    with Cons.prems(3) show ?thesis by (auto simp: log'_def hits_within_snoc)
  qed
  then have "int (hits_within a (a + w * second) k (log' @ allowed tr (window_spec limit w log' tr))) \<le> limit"
    using Cons.prems(1,2) by (intro Cons.IH) auto
  moreover have "log @ allowed (e # tr) (window_spec limit w log (e # tr)) = log' @ allowed tr (window_spec limit w log' tr)"
    by (simp add: e log'_def ok_def Let_def)
  ultimately show ?case by simp
qed

lemma fresh_run:
  assumes "limiter_init limit window_s max_keys = Some lim" "sorted (map fst tr)"
    "int (card (snd ` set tr)) \<le> max_keys"
  shows "\<exists>lim'. run_checks lim tr = Some (window_spec limit window_s [] tr, lim')"
proof (cases tr)
  case (Cons e es)
  have l: "lim_limit lim = limit" "lim_window_s lim = window_s" "lim_max_keys lim = max_keys" "lim_hits lim = []"
    using assms(1) by (auto simp: limiter_init_def split: if_splits)
  have "tracks (fst e) lim []" by (simp add: tracks_def live_hits_def log_hits_def l)
  moreover have "\<forall>x \<in> set tr. fst e \<le> fst x" using assms(2) Cons by auto
  ultimately show ?thesis
    using run_refines [OF lim_inv_init [OF assms(1)], of "fst e" "[]" tr "snd ` set tr"] assms(2,3)
    by (simp add: l)
qed simp

subsection \<open>The limiter's guarantees\<close>

text \<open>Every check of a well-formed limiter returns (no index error on an empty bucket), keeps
  at most \<open>max_keys\<close> buckets of at most \<open>limit\<close> hits each, and a refusal asks the client to wait
  at least one second and never longer than the window.\<close>

lemma limiter_check_bounded:
  assumes "lim_inv now0 lim" "now0 \<le> now"
  shows "\<exists>ok retry lim'. limiter_check now key lim = Some (ok, retry, lim') \<and> lim_inv now lim' \<and>
    int (length (lim_hits lim')) \<le> lim_max_keys lim \<and>
    (ok \<longrightarrow> retry = 0) \<and> (\<not> ok \<longrightarrow> 1 \<le> retry \<and> retry \<le> lim_window_s lim)"
proof -
  obtain lim1 room ok retry lim' where c:
    "lim_inv now lim1" "lim_window_s lim1 = lim_window_s lim" "lim_max_keys lim1 = lim_max_keys lim"
    "made_room now key lim1 room" "check_hits now key lim1 room ok retry lim'"
    "limiter_check now key lim = Some (ok, retry, lim')"
    by (rule limiter_check_room [OF assms])
  note h = check_hits_inv [OF c(1,4,5)]
  have "int (length (lim_hits lim')) \<le> lim_max_keys lim" using h(1,7) c(3) by (simp add: lim_inv_def)
  moreover have "\<not> ok \<longrightarrow> 1 \<le> retry \<and> retry \<le> lim_window_s lim" "ok \<longrightarrow> retry = 0"
    using h(2,3) c(2) by simp_all
  ultimately show ?thesis using c(6) h(1) by blast
qed

text \<open>C31: As long as no more than \<open>max_keys\<close> identities appear, a fresh limiter decides every
  check of a run exactly as the log of allowed hits demands: a hit is allowed when fewer than
  \<open>limit\<close> of the key's allowed hits lie in the window that ends now. Pruning stale buckets
  and dropping old hits never change a decision.\<close>

theorem limiter_refines_window:
  assumes "limiter_init limit window_s max_keys = Some lim" "sorted (map fst tr)"
    "int (card (snd ` set tr)) \<le> max_keys"
  shows "\<exists>lim'. run_checks lim tr = Some (window_spec limit window_s [] tr, lim')"
  using assms by (rule fresh_run)

definition fresh_limiter :: limiter where
  "fresh_limiter = \<lparr>lim_limit = 1, lim_window_s = 60, lim_max_keys = 2, lim_hits = [], lim_checks = 0\<rparr>"

definition login_burst :: "(time \<times> string) list" where
  "login_burst = [(0, ''a''), (1, ''a''), (2, ''b''), (60000001, ''a'')]"

lemma fresh_limiter_init: "limiter_init 1 60 2 = Some fresh_limiter"
  by (simp add: limiter_init_def fresh_limiter_def)

lemma login_burst_facts:
  "sorted (map fst login_burst)" "int (card (snd ` set login_burst)) \<le> 2"
  "window_spec 1 60 [] login_burst = [True, False, True, True]"
  by (simp_all add: login_burst_def card_insert_if log_hits_def Let_def)

theorem limiter_refines_window_witness:
  "\<exists>lim'. run_checks fresh_limiter login_burst = Some ([True, False, True, True], lim')"
  using limiter_refines_window [OF fresh_limiter_init login_burst_facts(1,2)]
  by (simp only: login_burst_facts(3))

text \<open>In a run with at most \<open>max_keys\<close> identities no window of \<open>window_s\<close> seconds, wherever it
  starts, holds more than \<open>limit\<close> allowed hits of one key.\<close>

lemma limiter_window_bound:
  assumes "limiter_init limit window_s max_keys = Some lim" "sorted (map fst tr)"
    "int (card (snd ` set tr)) \<le> max_keys" "run_checks lim tr = Some (oks, lim')"
  shows "int (hits_within a (a + window_s * second) k (allowed tr oks)) \<le> limit"
proof -
  from assms(1) have "0 \<le> limit" by (auto simp: limiter_init_def split: if_splits)
  moreover have "oks = window_spec limit window_s [] tr" using fresh_run [OF assms(1-3)] assms(4) by auto
  ultimately show ?thesis
    using window_spec_bound [of limit tr window_s k "[]" a] assms(2) by (simp add: hits_within_def)
qed

end
