(* ===== verification/Server_Auth.thy ===== *)
theory Server_Auth
  imports Server_Tokens Rate_Limit
begin

section \<open>Accounts, logins and password resets\<close>

text \<open>
  \<open>api/routers/auth_routes.py\<close>, \<open>users.py\<close> and the account routes of \<open>admin.py\<close>, with the password
  policy (\<open>core/password_policy.py\<close>) and the account functions of \<open>auth/service.py\<close>. A handler
  takes the server state and returns its response or exception with the new state: the limiters keep
  what a refused request did to them, the database is rolled back when the handler raises.

  Argon2 hashing and JWT signing are third-party code: the settings carry them as functions.
\<close>

subsection \<open>Password policy\<close>

record password_policy =
  PASSWORD_MIN_LENGTH :: int
  PASSWORD_MAX_LENGTH :: int
  PASSWORD_REQUIRE_UPPER :: bool
  PASSWORD_REQUIRE_LOWER :: bool
  PASSWORD_REQUIRE_DIGIT :: bool
  PASSWORD_REQUIRE_SYMBOL :: bool

definition char_between :: "nat \<Rightarrow> nat \<Rightarrow> char \<Rightarrow> bool" where
  "char_between a b c \<longleftrightarrow> a \<le> of_char c \<and> of_char c \<le> b"

definition is_upper_az :: "char \<Rightarrow> bool" where
  "is_upper_az = char_between 65 90"

definition is_lower_az :: "char \<Rightarrow> bool" where
  "is_lower_az = char_between 97 122"

definition is_ascii_digit :: "char \<Rightarrow> bool" where
  "is_ascii_digit = char_between 48 57"

definition is_symbol :: "char \<Rightarrow> bool" where
  "is_symbol c = (\<not> is_upper_az c \<and> \<not> is_lower_az c \<and> \<not> is_ascii_digit c)"

definition validate_password :: "password_policy \<Rightarrow> string \<Rightarrow> string list" where
  "validate_password pp p =
    (if int (length p) < PASSWORD_MIN_LENGTH pp
       then [''Password must be at least '' @ int_str (PASSWORD_MIN_LENGTH pp) @ '' characters''] else []) @
    (if int (length p) > PASSWORD_MAX_LENGTH pp
       then [''Password must be at most '' @ int_str (PASSWORD_MAX_LENGTH pp) @ '' characters''] else []) @
    (if PASSWORD_REQUIRE_UPPER pp \<and> \<not> list_ex is_upper_az p
       then [''Password must include an uppercase letter''] else []) @
    (if PASSWORD_REQUIRE_LOWER pp \<and> \<not> list_ex is_lower_az p
       then [''Password must include a lowercase letter''] else []) @
    (if PASSWORD_REQUIRE_DIGIT pp \<and> \<not> list_ex is_ascii_digit p
       then [''Password must include a digit''] else []) @
    (if PASSWORD_REQUIRE_SYMBOL pp \<and> \<not> list_ex is_symbol p
       then [''Password must include a symbol''] else [])"

subsection \<open>The server's authentication state\<close>

record reset_token =
  pr_user_id :: uuid
  pr_token_hash :: string
  pr_created_at :: time
  pr_expires_at :: time
  pr_used_at :: "time option"
  pr_request_ip :: string

record auth_server =
  s_db :: auth_db
  s_resets :: "reset_token list"
  s_login_limiter :: limiter
  s_login_ip_limiter :: limiter
  s_register_limiter :: limiter
  s_refresh_limiter :: limiter
  s_reset_limiter :: limiter

record auth_settings =
  st_tokens :: auth_config
  st_policy :: password_policy
  st_hash_pw :: "string \<Rightarrow> string"
  st_verify_pw :: "string \<Rightarrow> string \<Rightarrow> bool"
  st_needs_rehash :: "string \<Rightarrow> bool"
  st_access_token :: "uuid \<Rightarrow> string"
  st_jwt_decode :: "string \<Rightarrow> dict option"
  ACCESS_TOKEN_MINUTES :: int
  PASSWORD_RESET_TOKEN_MINUTES :: int
  PASSWORD_RESET_RETURN_TOKEN :: bool

text \<open>
  What one request brings: the client address (empty when unknown), the monotonic and the wall
  clock, the identifiers and the secret drawn for it, and what other sessions commit between its
  reads and its first write.
\<close>

record request =
  rq_ip :: string
  rq_mono :: time
  rq_now :: time
  rq_user_id :: uuid
  rq_token_id :: uuid
  rq_raw :: string
  rq_meanwhile :: "auth_db \<Rightarrow> auth_db"

record token_out =
  to_user_id :: uuid
  to_access_token :: string
  to_refresh_token :: string
  to_expires_in :: int

definition client_ip :: "request \<Rightarrow> string" where
  "client_ip rq = (if rq_ip rq = [] then ''unknown'' else rq_ip rq)"

text \<open>
  One limiter check in a handler: 429 when refused. A crash of the limiter, which
  \<open>limiter_check_bounded\<close> excludes, is an internal error.
\<close>

definition limited :: "limiter \<Rightarrow> time \<Rightarrow> string \<Rightarrow> string \<Rightarrow> unit result \<times> limiter" where
  "limited lim now key detail =
    (case limiter_check now key lim of
       None \<Rightarrow> (Inl PyRuntimeError, lim)
     | Some (True, _, lim') \<Rightarrow> (Inr (), lim')
     | Some (False, _, lim') \<Rightarrow> (Inl (http_error 429 detail), lim'))"

definition token_response :: "auth_settings \<Rightarrow> uuid \<Rightarrow> string \<Rightarrow> token_out" where
  "token_response st user_id refresh =
    \<lparr>to_user_id = user_id, to_access_token = st_access_token st user_id, to_refresh_token = refresh,
     to_expires_in = ACCESS_TOKEN_MINUTES st * 60\<rparr>"

definition find_account :: "auth_db \<Rightarrow> uuid \<Rightarrow> user_row option" where
  "find_account d i = first_where (\<lambda>u. u_id u = i) (accounts d)"

definition find_email :: "auth_db \<Rightarrow> string \<Rightarrow> user_row option" where
  "find_email d email = first_where (\<lambda>u. u_email u = email) (accounts d)"

definition set_account :: "uuid \<Rightarrow> (user_row \<Rightarrow> user_row) \<Rightarrow> auth_db \<Rightarrow> auth_db" where
  "set_account i f d = d\<lparr>accounts := update_where (\<lambda>u. u_id u = i) f (accounts d)\<rparr>"

definition password_issues :: "string list \<Rightarrow> exc" where
  "password_issues issues = HTTPException 400 (VDict [(''password'', VList (map VStr issues))])"

subsection \<open>Registration, login and refresh\<close>

text \<open>
  The duplicate-email race: the pre-check reads the database, the insert meets what other sessions
  committed since, and the unique index turns a duplicate into an integrity error.
\<close>

definition register :: "auth_settings \<Rightarrow> request \<Rightarrow> string \<Rightarrow> string \<Rightarrow> auth_server \<Rightarrow> token_out result \<times> auth_server" where
  "register st rq payload_email password s =
    (case limited (s_register_limiter s) (rq_mono rq) (client_ip rq)
            ''Too many registration attempts. Try again later.'' of
       (Inl e, lim) \<Rightarrow> (Inl e, s\<lparr>s_register_limiter := lim\<rparr>)
     | (Inr _, lim) \<Rightarrow>
         let s = s\<lparr>s_register_limiter := lim\<rparr>; email = lower payload_email in
         if find_email (s_db s) email \<noteq> None then (Inl (http_error 409 ''Email already registered''), s)
         else let issues = validate_password (st_policy st) password in
         if issues \<noteq> [] then (Inl (password_issues issues), s)
         else let d = rq_meanwhile rq (s_db s);
                  user = \<lparr>u_id = rq_user_id rq, u_email = email, u_password_hash = st_hash_pw st password,
                          u_is_active = True, u_is_superuser = False, u_deactivated_at = None\<rparr> in
         if find_email d email \<noteq> None
         then (Inl (http_error 409 ''Email already registered''), s\<lparr>s_db := d\<rparr>)
         else let (refresh, d') = issue_refresh_token (st_tokens st) (rq_user_id rq) (rq_now rq)
                                    (rq_token_id rq) (rq_raw rq) (d\<lparr>accounts := accounts d @ [user]\<rparr>)
              in (Inr (token_response st (rq_user_id rq) refresh), s\<lparr>s_db := d'\<rparr>))"

definition login_user :: "auth_settings \<Rightarrow> request \<Rightarrow> string \<Rightarrow> string \<Rightarrow> auth_db \<Rightarrow> token_out result \<times> auth_db" where
  "login_user st rq email password d =
    (case find_email d email of
       None \<Rightarrow> (Inl (http_error 401 ''Invalid credentials''), d)
     | Some user \<Rightarrow>
         if \<not> u_is_active user then (Inl (http_error 401 ''Invalid credentials''), d)
         else if \<not> st_verify_pw st password (u_password_hash user)
         then (Inl (http_error 401 ''Invalid credentials''), d)
         else let d = (if st_needs_rehash st (u_password_hash user)
                       then set_account (u_id user) (\<lambda>u. u\<lparr>u_password_hash := st_hash_pw st password\<rparr>) d else d);
                  (refresh, d') = issue_refresh_token (st_tokens st) (u_id user) (rq_now rq)
                                    (rq_token_id rq) (rq_raw rq) d
              in (Inr (token_response st (u_id user) refresh), d'))"

definition login :: "auth_settings \<Rightarrow> request \<Rightarrow> string \<Rightarrow> string \<Rightarrow> auth_server \<Rightarrow> token_out result \<times> auth_server" where
  "login st rq username password s =
    (let email = lower username; detail = ''Too many login attempts. Try again later.'' in
     case limited (s_login_ip_limiter s) (rq_mono rq) (client_ip rq) detail of
       (Inl e, lim) \<Rightarrow> (Inl e, s\<lparr>s_login_ip_limiter := lim\<rparr>)
     | (Inr _, lim) \<Rightarrow>
         let s = s\<lparr>s_login_ip_limiter := lim\<rparr> in
         (case limited (s_login_limiter s) (rq_mono rq) (client_ip rq @ '':'' @ email) detail of
            (Inl e, lim) \<Rightarrow> (Inl e, s\<lparr>s_login_limiter := lim\<rparr>)
          | (Inr _, lim) \<Rightarrow>
              let s = s\<lparr>s_login_limiter := lim\<rparr>;
                  (res, d) = login_user st rq email password (s_db s)
              in (res, s\<lparr>s_db := d\<rparr>)))"

definition refresh :: "auth_settings \<Rightarrow> request \<Rightarrow> (nat \<Rightarrow> attempt) \<Rightarrow> string \<Rightarrow> auth_server \<Rightarrow> token_out result \<times> auth_server" where
  "refresh st rq att raw s =
    (case limited (s_refresh_limiter s) (rq_mono rq) (client_ip rq)
            ''Too many refresh attempts. Try again later.'' of
       (Inl e, lim) \<Rightarrow> (Inl e, s\<lparr>s_refresh_limiter := lim\<rparr>)
     | (Inr _, lim) \<Rightarrow>
         let (res, d) = rotate_refresh_token (st_tokens st) att raw (s_db s);
             s = s\<lparr>s_refresh_limiter := lim, s_db := d\<rparr>
         in (rbind res (\<lambda>(new_refresh, user_id). Inr (token_response st user_id new_refresh)), s))"

subsection \<open>The current user\<close>

text \<open>\<open>jwt.decode\<close> also refuses a \<open>sub\<close> claim that is not a string.\<close>

definition get_current_user :: "auth_settings \<Rightarrow> string \<Rightarrow> auth_db \<Rightarrow> user_row result" where
  "get_current_user st token d =
    (case Option.bind (st_jwt_decode st token)
            (\<lambda>payload. case dget payload ''sub'' of VStr sub \<Rightarrow> if sub = [] then None else uuid_of_str sub | _ \<Rightarrow> None) of
       None \<Rightarrow> Inl (http_error 401 ''Invalid token'')
     | Some user_id \<Rightarrow>
         (case find_account d user_id of
            None \<Rightarrow> Inl (http_error 401 ''Inactive user'')
          | Some user \<Rightarrow> if u_is_active user then Inr user else Inl (http_error 401 ''Inactive user'')))"

definition require_superuser :: "user_row \<Rightarrow> user_row result" where
  "require_superuser user =
    (if u_is_superuser user then Inr user else Inl (http_error 403 ''Superadmin privileges required''))"

subsection \<open>Changing credentials\<close>

definition set_user_password :: "auth_settings \<Rightarrow> time \<Rightarrow> uuid \<Rightarrow> string \<Rightarrow> auth_db \<Rightarrow> auth_db result" where
  "set_user_password st now user_id new_password d =
    (let issues = validate_password (st_policy st) new_password in
     if issues \<noteq> [] then Inl (password_issues issues)
     else let d = set_account user_id (\<lambda>u. u\<lparr>u_password_hash := st_hash_pw st new_password\<rparr>) d
          in Inr (snd (revoke_user_refresh_tokens user_id now d)))"

definition commit_db :: "auth_server \<Rightarrow> auth_db result \<Rightarrow> unit result \<times> auth_server" where
  "commit_db s r = (case r of Inl e \<Rightarrow> (Inl e, s) | Inr d \<Rightarrow> (Inr (), s\<lparr>s_db := d\<rparr>))"

definition change_password :: "auth_settings \<Rightarrow> time \<Rightarrow> user_row \<Rightarrow> string \<Rightarrow> string \<Rightarrow> auth_server \<Rightarrow> unit result \<times> auth_server" where
  "change_password st now user old_password new_password s =
    (if \<not> st_verify_pw st old_password (u_password_hash user)
     then (Inl (http_error 401 ''Invalid current password''), s)
     else commit_db s (set_user_password st now (u_id user) new_password (s_db s)))"

definition request_password_reset :: "auth_settings \<Rightarrow> request \<Rightarrow> string \<Rightarrow> auth_server \<Rightarrow> dict result \<times> auth_server" where
  "request_password_reset st rq payload_email s =
    (let email = lower payload_email in
     case limited (s_reset_limiter s) (rq_mono rq) (client_ip rq @ '':'' @ email)
            ''Too many password reset attempts. Try again later.'' of
       (Inl e, lim) \<Rightarrow> (Inl e, s\<lparr>s_reset_limiter := lim\<rparr>)
     | (Inr _, lim) \<Rightarrow>
         let s = s\<lparr>s_reset_limiter := lim\<rparr>;
             issued = (\<lambda>user. s\<lparr>s_resets :=
               update_where (\<lambda>p. pr_user_id p = u_id user \<and> pr_used_at p = None)
                 (\<lambda>p. p\<lparr>pr_used_at := Some (rq_now rq)\<rparr>) (s_resets s) @
               [\<lparr>pr_user_id = u_id user, pr_token_hash = cf_hash (st_tokens st) (rq_raw rq),
                 pr_created_at = rq_now rq,
                 pr_expires_at = rq_now rq + PASSWORD_RESET_TOKEN_MINUTES st * 60 * second_us,
                 pr_used_at = None, pr_request_ip = client_ip rq\<rparr>]\<rparr>);
             neutral = [(''detail'', VStr ''If the account exists, reset instructions were issued.'')]
         in case find_email (s_db s) email of
              None \<Rightarrow> (Inr neutral, s)
            | Some user \<Rightarrow>
                if \<not> u_is_active user then (Inr neutral, s)
                else (Inr (if rq_raw rq \<noteq> [] \<and> PASSWORD_RESET_RETURN_TOKEN st
                           then [(''detail'', VStr ''Password reset token created''), (''token'', VStr (rq_raw rq))]
                           else neutral), issued user))"

definition confirm_password_reset :: "auth_settings \<Rightarrow> time \<Rightarrow> string \<Rightarrow> string \<Rightarrow> auth_server \<Rightarrow> unit result \<times> auth_server" where
  "confirm_password_reset st now token new_password s =
    (let h = cf_hash (st_tokens st) token in
     case first_where (\<lambda>p. pr_token_hash p = h) (s_resets s) of
       None \<Rightarrow> (Inl (http_error 400 ''Invalid or expired reset token''), s)
     | Some pr \<Rightarrow>
         if pr_used_at pr \<noteq> None \<or> pr_expires_at pr \<le> now
         then (Inl (http_error 400 ''Invalid or expired reset token''), s)
         else (case find_account (s_db s) (pr_user_id pr) of
                 None \<Rightarrow> (Inl (http_error 400 ''Account is inactive''), s)
               | Some user \<Rightarrow>
                   if \<not> u_is_active user then (Inl (http_error 400 ''Account is inactive''), s)
                   else (case set_user_password st now (u_id user) new_password (s_db s) of
                           Inl e \<Rightarrow> (Inl e, s)
                         | Inr d \<Rightarrow> (Inr (), s\<lparr>s_db := d, s_resets :=
                             update_where (\<lambda>p. pr_token_hash p = h) (\<lambda>p. p\<lparr>pr_used_at := Some now\<rparr>) (s_resets s)\<rparr>))))"

text \<open>The account routes under \<open>/admin\<close>; their router requires a superuser.\<close>

definition with_target :: "auth_server \<Rightarrow> uuid \<Rightarrow> (user_row \<Rightarrow> auth_db result) \<Rightarrow> unit result \<times> auth_server" where
  "with_target s user_id f =
    (case find_account (s_db s) user_id of
       None \<Rightarrow> (Inl (http_error 404 ''User not found''), s)
     | Some target \<Rightarrow> commit_db s (f target))"

definition admin_deactivate_user :: "time \<Rightarrow> uuid \<Rightarrow> auth_server \<Rightarrow> unit result \<times> auth_server" where
  "admin_deactivate_user now user_id s = with_target s user_id (\<lambda>target.
     Inr (snd (revoke_user_refresh_tokens (u_id target) now
       (set_account (u_id target) (\<lambda>u. u\<lparr>u_is_active := False, u_deactivated_at := Some now\<rparr>) (s_db s)))))"

definition admin_activate_user :: "uuid \<Rightarrow> auth_server \<Rightarrow> unit result \<times> auth_server" where
  "admin_activate_user user_id s = with_target s user_id (\<lambda>target.
     Inr (set_account (u_id target) (\<lambda>u. u\<lparr>u_is_active := True, u_deactivated_at := None\<rparr>) (s_db s)))"

definition admin_set_password :: "auth_settings \<Rightarrow> time \<Rightarrow> uuid \<Rightarrow> string \<Rightarrow> auth_server \<Rightarrow> unit result \<times> auth_server" where
  "admin_set_password st now user_id new_password s = with_target s user_id (\<lambda>target.
     set_user_password st now (u_id target) new_password (s_db s))"

definition admin_only :: "user_row \<Rightarrow> (auth_server \<Rightarrow> unit result \<times> auth_server) \<Rightarrow> auth_server \<Rightarrow> unit result \<times> auth_server" where
  "admin_only user route s = (case require_superuser user of Inl e \<Rightarrow> (Inl e, s) | Inr _ \<Rightarrow> route s)"


section \<open>Facts about the handlers\<close>

lemma limited_ok: "limited lim now key detail = (Inr (), lim') \<Longrightarrow> \<exists>retry. limiter_check now key lim = Some (True, retry, lim')"
  by (auto simp: limited_def split: option.splits bool.splits)

text \<open>The account functions act on the token table as steps of its transition system.\<close>

lemma set_account_steps: "auth_step\<^sup>*\<^sup>* d (set_account i f d)"
  unfolding set_account_def by (intro r_into_rtranclp step_accounts)

lemma revoke_user_steps: "auth_step\<^sup>*\<^sup>* d (snd (revoke_user_refresh_tokens u now d))"
  unfolding revoke_user_refresh_tokens_def Let_def snd_conv by (intro r_into_rtranclp step_revoke)

lemma revoke_user_dead:
  "t \<in> set (tokens (snd (revoke_user_refresh_tokens u now d))) \<Longrightarrow> rt_user_id t = u \<Longrightarrow> rt_revoked_at t \<noteq> None"
proof -
  assume t: "t \<in> set (tokens (snd (revoke_user_refresh_tokens u now d)))" and u: "rt_user_id t = u"
  have "tokens (snd (revoke_user_refresh_tokens u now d)) =
      map (\<lambda>x. if rt_user_id x = u \<and> rt_revoked_at x = None then x\<lparr>rt_revoked_at := Some now\<rparr> else x) (tokens d)"
    by (simp add: revoke_user_refresh_tokens_def update_where_def Let_def)
  with t have "t \<in> (\<lambda>x. if rt_user_id x = u \<and> rt_revoked_at x = None then x\<lparr>rt_revoked_at := Some now\<rparr> else x) ` set (tokens d)"
    by (simp only: set_map)
  then obtain x where "t = (if rt_user_id x = u \<and> rt_revoked_at x = None then x\<lparr>rt_revoked_at := Some now\<rparr> else x)"
    by (rule imageE)
  with u show ?thesis by (cases "rt_revoked_at x") (auto split: if_splits)
qed

lemma set_user_password_Inr:
  assumes "set_user_password st now u pw d = Inr d'"
  shows "auth_step\<^sup>*\<^sup>* d d'" "\<forall>t \<in> set (tokens d'). rt_user_id t = u \<longrightarrow> rt_revoked_at t \<noteq> None"
    "validate_password (st_policy st) pw = []"
proof -
  let ?d = "set_account u (\<lambda>x. x\<lparr>u_password_hash := st_hash_pw st pw\<rparr>) d"
  have d': "d' = snd (revoke_user_refresh_tokens u now ?d)" "validate_password (st_policy st) pw = []"
    using assms by (auto simp: set_user_password_def Let_def split: if_splits)
  show "auth_step\<^sup>*\<^sup>* d d'" unfolding d' using set_account_steps revoke_user_steps by (rule rtranclp_trans)
  show "\<forall>t \<in> set (tokens d'). rt_user_id t = u \<longrightarrow> rt_revoked_at t \<noteq> None" unfolding d' using revoke_user_dead by blast
  show "validate_password (st_policy st) pw = []" by (rule d')
qed

lemma no_live_rotation_refused:
  assumes inv: "auth_inv d" and quiet: "at_meanwhile (att 0) d = d"
    and dead: "\<forall>t \<in> set (tokens d). rt_user_id t = rt_user_id rt \<longrightarrow> rt_revoked_at t \<noteq> None"
    and rt: "rt \<in> set (tokens d)" "rt_token_hash rt = cf_hash cf raw"
  shows "\<exists>d'. rotate_refresh_token cf att raw d = (Inl invalid_refresh_token, d')"
proof -
  let ?L = "locked_user_refresh_tokens d d (rt_user_id rt)"
  note L = locked_rows [OF inv, where u = "rt_user_id rt" and snap = d]
  have h: "inj_on rt_token_hash (set (tokens d))" using inv by (simp add: auth_inv_def distinct_map)
  have f: "first_where (\<lambda>t. rt_token_hash t = cf_hash cf raw) (tokens d) = Some rt"
    using rt h by (intro first_where_only) (auto simp: inj_on_def)
  have "rt \<in> set (snapshot_rows d d (rt_user_id rt))"
    using rt(1) by (auto simp: snapshot_rows_def set_linked token_ids_def)
  then have rL: "rt \<in> set ?L" using L(1) by blast
  have sub: "set ?L \<subseteq> set (tokens d)" using L(2) by blast
  have g: "by_id_get ?L (rt_id rt) = Some rt" unfolding by_id_get_def
  proof (rule first_where_only [OF rL refl], intro ballI impI)
    fix x assume "x \<in> set ?L" "rt_id x = rt_id rt"
    then show "x = rt" using sub rt(1) inv_same_id [OF inv] by blast
  qed
  obtain r where r: "rt_revoked_at rt = Some r" using dead rt(1) by auto
  have "\<not> grace_eligible cf (at_now (att 0)) r (Option.bind (rt_replaced_by_id rt) (by_id_get ?L))"
  proof
    assume e: "grace_eligible cf (at_now (att 0)) r (Option.bind (rt_replaced_by_id rt) (by_id_get ?L))"
    then obtain x where x: "Option.bind (rt_replaced_by_id rt) (by_id_get ?L) = Some x" "rt_revoked_at x = None"
      by (auto simp: grace_eligible_def Let_def split: option.splits)
    then have "x \<in> set ?L" by (auto simp: bind_eq_Some_conv dest: by_id_get_Some)
    with L(2) dead x(2) show False by auto
  qed
  then have "\<exists>d'. rotate_attempt cf (att 0) raw d = (Rejected invalid_refresh_token, d')"
    using f g r quiet
    by (auto simp: rotate_attempt_def recover_or_revoke_refresh_family_def Let_def split: option.splits)
  then show ?thesis by (auto simp: rotate_refresh_token_def upt_rec numeral_3_eq_3)
qed

definition sessions_ended :: "auth_settings \<Rightarrow> uuid \<Rightarrow> auth_db \<Rightarrow> bool" where
  "sessions_ended st u d \<longleftrightarrow> (\<forall>t \<in> set (tokens d). rt_user_id t = u \<longrightarrow>
     rt_revoked_at t \<noteq> None \<and>
     (\<forall>att raw. at_meanwhile (att 0) d = d \<longrightarrow> cf_hash (st_tokens st) raw = rt_token_hash t \<longrightarrow>
        (\<exists>d'. rotate_refresh_token (st_tokens st) att raw d = (Inl invalid_refresh_token, d'))))"

lemma sessions_endedI:
  assumes "auth_inv d" "\<forall>t \<in> set (tokens d). rt_user_id t = u \<longrightarrow> rt_revoked_at t \<noteq> None"
  shows "sessions_ended st u d"
  unfolding sessions_ended_def using assms by (auto intro!: no_live_rotation_refused)

lemma password_set_ends:
  assumes "auth_inv d" "set_user_password st now u pw d = Inr d'"
  shows "sessions_ended st u d'"
  using set_user_password_Inr [OF assms(2)] auth_steps_inv [OF _ assms(1)] by (intro sessions_endedI) auto

lemma commit_db_Inr: "commit_db s r = (Inr (), s') \<longleftrightarrow> (\<exists>d. r = Inr d \<and> s' = s\<lparr>s_db := d\<rparr>)"
  by (auto simp: commit_db_def split: sum.splits)

lemma find_account_id: "find_account d i = Some u \<Longrightarrow> u_id u = i"
  by (auto simp: find_account_def dest: first_where_SomeD)

lemma deactivate_ends:
  assumes inv: "auth_inv (s_db s)" and r: "admin_deactivate_user now u s = (Inr (), s')"
  shows "sessions_ended st u (s_db s')"
proof -
  obtain t where t: "find_account (s_db s) u = Some t"
    and s': "s_db s' = snd (revoke_user_refresh_tokens (u_id t) now
       (set_account (u_id t) (\<lambda>u. u\<lparr>u_is_active := False, u_deactivated_at := Some now\<rparr>) (s_db s)))"
    using r by (auto simp: admin_deactivate_user_def with_target_def commit_db_Inr split: option.splits)
  have "auth_inv (s_db s')" unfolding s'
    by (rule auth_steps_inv [OF rtranclp_trans [OF set_account_steps revoke_user_steps] inv])
  then show ?thesis using revoke_user_dead find_account_id [OF t] by (intro sessions_endedI) (auto simp: s')
qed

section \<open>What the handlers guarantee\<close>



definition demo_policy :: password_policy where
  "demo_policy = \<lparr>PASSWORD_MIN_LENGTH = 12, PASSWORD_MAX_LENGTH = 128, PASSWORD_REQUIRE_UPPER = True,
     PASSWORD_REQUIRE_LOWER = True, PASSWORD_REQUIRE_DIGIT = True, PASSWORD_REQUIRE_SYMBOL = True\<rparr>"

definition demo_settings :: auth_settings where
  "demo_settings = \<lparr>st_tokens = demo_config, st_policy = demo_policy, st_hash_pw = (\<lambda>p. CHR ''$'' # p),
     st_verify_pw = (\<lambda>p h. h = CHR ''$'' # p), st_needs_rehash = (\<lambda>h. False), st_access_token = uuid_str,
     st_jwt_decode = (\<lambda>t. Some [(''sub'', VStr t)]), ACCESS_TOKEN_MINUTES = 15,
     PASSWORD_RESET_TOKEN_MINUTES = 15, PASSWORD_RESET_RETURN_TOKEN = False\<rparr>"

definition demo_server :: "auth_db \<Rightarrow> auth_server" where
  "demo_server d = \<lparr>s_db = d, s_resets = [], s_login_limiter = fresh_limiter, s_login_ip_limiter = fresh_limiter,
     s_register_limiter = fresh_limiter, s_refresh_limiter = fresh_limiter, s_reset_limiter = fresh_limiter\<rparr>"

definition demo_request :: request where
  "demo_request = \<lparr>rq_ip = ''::1'', rq_mono = 0, rq_now = 0, rq_user_id = 2, rq_token_id = 20,
     rq_raw = ''secret'', rq_meanwhile = (\<lambda>d. d)\<rparr>"


text \<open>C34: A login returns tokens only when both limiters allowed the attempt and an active account with
  the lower-cased address exists whose stored hash the password verifies against; it then adds exactly
  one live refresh token, of that account and with the hash of the secret it returns.\<close>

theorem login_sound:
  assumes "login st rq username password s = (Inr out, s')"
  shows "\<exists>user retry1 retry2 lim1 lim2 d. find_email (s_db s) (lower username) = Some user \<and> u_is_active user \<and>
    st_verify_pw st password (u_password_hash user) \<and> to_user_id out = u_id user \<and>
    limiter_check (rq_mono rq) (client_ip rq) (s_login_ip_limiter s) = Some (True, retry1, lim1) \<and>
    limiter_check (rq_mono rq) (client_ip rq @ '':'' @ lower username) (s_login_limiter s) = Some (True, retry2, lim2) \<and>
    tokens (s_db s') = tokens (s_db s) @
      [new_refresh_token (st_tokens st) (u_id user) (rq_now rq) (rq_token_id rq) (to_refresh_token out)]"
proof -
  let ?detail = "''Too many login attempts. Try again later.''"
  obtain lim1 lim2 d where l: "limited (s_login_ip_limiter s) (rq_mono rq) (client_ip rq) ?detail = (Inr (), lim1)"
    "limited (s_login_limiter s) (rq_mono rq) (client_ip rq @ '':'' @ lower username) ?detail = (Inr (), lim2)"
    and u: "login_user st rq (lower username) password (s_db s) = (Inr out, d)" "s_db s' = d"
    using assms by (auto simp: login_def Let_def split: prod.splits sum.splits)
  obtain user where user: "find_email (s_db s) (lower username) = Some user" "u_is_active user"
    "st_verify_pw st password (u_password_hash user)"
    using u(1) by (auto simp: login_user_def split: option.splits if_splits)
  have d: "tokens d = tokens (s_db s) @ [new_refresh_token (st_tokens st) (u_id user) (rq_now rq) (rq_token_id rq) (rq_raw rq)]"
    "out = token_response st (u_id user) (rq_raw rq)"
    using u(1) user
    by (auto simp: login_user_def issue_refresh_token_def add_token_def set_account_def Let_def split: if_splits)
  from limited_ok [OF l(1)] limited_ok [OF l(2)] user d u(2) show ?thesis by (auto simp: token_response_def)
qed

lemma fresh_limiter_check:
  "limiter_check 0 k fresh_limiter = Some (True, 0, fresh_limiter\<lparr>lim_checks := 1, lim_hits := [(k, [0])]\<rparr>)"
  by (simp add: limiter_check_def fresh_limiter_def make_room_for_def prune_stale_keys_def Let_def)

lemma fresh_limited: "limited fresh_limiter 0 k detail = (Inr (), fresh_limiter\<lparr>lim_checks := 1, lim_hits := [(k, [0])]\<rparr>)"
  by (simp add: limited_def fresh_limiter_check)

definition demo_account :: user_row where
  "demo_account = demo_user\<lparr>u_password_hash := ''$Correct1-Horse''\<rparr>"

lemma demo_login:
  "\<exists>out s'. login demo_settings demo_request ''A@b.cz'' ''Correct1-Horse'' (demo_server \<lparr>accounts = [demo_account], tokens = []\<rparr>) =
     (Inr out, s') \<and> s_db s' = \<lparr>accounts = [demo_account],
       tokens = [new_refresh_token demo_config 1 0 20 ''secret'']\<rparr>"
proof -
  have lo: "lower ''A@b.cz'' = ''a@b.cz''" by code_simp
  have "login_user demo_settings demo_request ''a@b.cz'' ''Correct1-Horse'' \<lparr>accounts = [demo_account], tokens = []\<rparr> =
    (Inr (token_response demo_settings 1 ''secret''), \<lparr>accounts = [demo_account],
       tokens = [new_refresh_token demo_config 1 0 20 ''secret'']\<rparr>)"
    by (simp add: login_user_def find_email_def first_where_def demo_account_def demo_user_def demo_settings_def
        issue_refresh_token_def add_token_def demo_request_def Let_def)
  then show ?thesis
    by (simp add: login_def lo demo_server_def demo_request_def fresh_limited Let_def client_ip_def)
qed

theorem login_sound_witness:
  "\<exists>out s' user. login demo_settings demo_request ''A@b.cz'' ''Correct1-Horse''
       (demo_server \<lparr>accounts = [demo_account], tokens = []\<rparr>) = (Inr out, s') \<and>
     find_email \<lparr>accounts = [demo_account], tokens = []\<rparr> (lower ''A@b.cz'') = Some user \<and>
     st_verify_pw demo_settings ''Correct1-Horse'' (u_password_hash user)"
proof -
  obtain out s' where l: "login demo_settings demo_request ''A@b.cz'' ''Correct1-Horse''
       (demo_server \<lparr>accounts = [demo_account], tokens = []\<rparr>) = (Inr out, s')"
    using demo_login by blast
  from login_sound [OF l] l show ?thesis by (auto simp: demo_server_def)
qed

text \<open>Registration keeps email addresses unique even when another session registers the same
  address between the check and the insert, and an account is created only with a password that
  meets the policy.\<close>

lemma register_keeps_emails_unique:
  assumes "distinct (map u_email (accounts (s_db s)))" "distinct (map u_email (accounts (rq_meanwhile rq (s_db s))))"
    "register st rq email password s = (res, s')"
  shows "distinct (map u_email (accounts (s_db s'))) \<and>
    (\<forall>out. res = Inr out \<longrightarrow> validate_password (st_policy st) password = [] \<and>
      (\<forall>u \<in> set (accounts (rq_meanwhile rq (s_db s))). u_email u \<noteq> lower email) \<and>
      (\<exists>u \<in> set (accounts (s_db s')). u_id u = to_user_id out \<and> u_email u = lower email \<and> u_is_active u \<and> \<not> u_is_superuser u))"
  using assms
  by (auto simp: register_def Let_def issue_refresh_token_def add_token_def find_email_def first_where_None_iff
      token_response_def split: prod.splits sum.splits if_splits) blast

definition usable_resets :: "uuid \<Rightarrow> auth_server \<Rightarrow> reset_token list" where
  "usable_resets u s = filter (\<lambda>p. pr_user_id p = u \<and> pr_used_at p = None) (s_resets s)"

lemma usable_after_update:
  assumes "\<And>p. pr_user_id (f p) = pr_user_id p" "\<And>p. pr_used_at (f p) \<noteq> None"
  shows "filter (\<lambda>p. pr_user_id p = u \<and> pr_used_at p = None) (update_where P f ps) =
    filter (\<lambda>p. \<not> P p) (filter (\<lambda>p. pr_user_id p = u \<and> pr_used_at p = None) ps)"
  using assms by (induction ps) (auto simp: update_where_def)

lemma request_usable:
  assumes "request_password_reset st rq email s = (res, s')"
  shows "length (usable_resets u s') \<le> max 1 (length (usable_resets u s))"
proof -
  consider "s_resets s' = s_resets s"
    | v p where "pr_user_id p = v" "s_resets s' =
        update_where (\<lambda>p. pr_user_id p = v \<and> pr_used_at p = None) (\<lambda>p. p\<lparr>pr_used_at := Some (rq_now rq)\<rparr>) (s_resets s) @ [p]"
    using assms by (auto simp: request_password_reset_def Let_def split: prod.splits sum.splits option.splits if_splits)
  then show ?thesis
  proof cases
    case 1 then show ?thesis by (simp add: usable_resets_def)
  next
    case 2
    have "usable_resets u s' = filter (\<lambda>p. \<not> (pr_user_id p = v \<and> pr_used_at p = None)) (usable_resets u s) @
        (if v = u \<and> pr_used_at p = None then [p] else [])"
      using 2 by (simp add: usable_resets_def usable_after_update)
    moreover have "filter (\<lambda>p. \<not> (pr_user_id p = u \<and> pr_used_at p = None)) (usable_resets u s) = []"
      by (auto simp: filter_empty_conv usable_resets_def)
    moreover have "length (filter Q (usable_resets u s)) \<le> length (usable_resets u s)" for Q by simp
    ultimately show ?thesis by (cases "v = u") (auto simp: le_max_iff_disj)
  qed
qed

lemma confirm_used:
  assumes "confirm_password_reset st now token new s = (Inr (), s')"
  shows "s_resets s' = update_where (\<lambda>p. pr_token_hash p = cf_hash (st_tokens st) token) (\<lambda>p. p\<lparr>pr_used_at := Some now\<rparr>) (s_resets s)"
  using assms by (auto simp: confirm_password_reset_def Let_def split: option.splits if_splits sum.splits)


definition demo_reset_server :: auth_server where
  "demo_reset_server = (demo_server \<lparr>accounts = [demo_account], tokens = []\<rparr>)\<lparr>s_resets :=
     [\<lparr>pr_user_id = 1, pr_token_hash = ''reset'', pr_created_at = 0, pr_expires_at = 100, pr_used_at = None, pr_request_ip = ''::1''\<rparr>]\<rparr>"


end
