(* ===== verification/Server_Projects.thy ===== *)
theory Server_Projects
  imports Server_Items Server_Auth
begin

section \<open>Projects, members and maintenance (routers projects.py and admin.py)\<close>

text \<open>
  Creating and listing projects, the membership routes with the guard on the last
  administrator, and the two destructive routes of the superuser: deleting a project with all
  its data and pruning its logs. Foreign keys to projects and items are declared
  \<open>ON DELETE CASCADE\<close>; the cascades are written out. A user is the row \<open>get_current_user\<close> loaded.
\<close>

subsection \<open>Members\<close>

definition member_of :: "uuid \<Rightarrow> uuid \<Rightarrow> member_row \<Rightarrow> bool" where
  "member_of project_id user_id m = (pm_project_id m = project_id \<and> pm_user_id m = user_id)"

definition is_admin_row :: "uuid \<Rightarrow> member_row \<Rightarrow> bool" where
  "is_admin_row project_id m = (pm_project_id m = project_id \<and> pm_role m = ''admin'')"

definition ensure_not_last_admin :: "sdb \<Rightarrow> uuid \<Rightarrow> user_row option \<Rightarrow> unit result" where
  "ensure_not_last_admin db project_id actor =
     (if (case actor of Some u \<Rightarrow> u_is_superuser u | None \<Rightarrow> False) then Inr ()
      else if count_where (is_admin_row project_id) (project_members db) \<le> 1
      then Inl (http_error 400 ''Cannot downgrade or remove the last admin of the project'')
      else Inr ())"

text \<open>An ORM object is written and deleted by its primary key: exactly the row that was loaded.\<close>

fun update_first :: "('a \<Rightarrow> bool) \<Rightarrow> ('a \<Rightarrow> 'a) \<Rightarrow> 'a list \<Rightarrow> 'a list" where
  "update_first P f [] = []"
| "update_first P f (x # xs) = (if P x then f x # xs else x # update_first P f xs)"

definition insert_member :: "member_row \<Rightarrow> sdb \<Rightarrow> sdb result" where
  "insert_member m db =
     (if list_ex (member_of (pm_project_id m) (pm_user_id m)) (project_members db) \<or>
         \<not> list_ex (\<lambda>p. p_id p = pm_project_id m) (projects db) \<or>
         \<not> list_ex (\<lambda>u. u_id u = pm_user_id m) (users db)
      then Inl IntegrityError
      else Inr (db\<lparr>project_members := project_members db @ [m]\<rparr>))"

subsection \<open>Projects\<close>

text \<open>
  Inserting a project fires the listener that creates its change counter. The column holds 200
  characters, which PostgreSQL enforces.
\<close>

definition insert_project :: "dialect \<Rightarrow> project_row \<Rightarrow> sdb \<Rightarrow> sdb result" where
  "insert_project d p db =
     (if d = PostgreSQL \<and> 200 < length (p_name p) then Inl DataError
      else if list_ex (\<lambda>q. p_id q = p_id p) (projects db) \<or>
              \<not> list_ex (\<lambda>u. u_id u = p_created_by p) (users db) \<or>
              list_ex (\<lambda>(q, s). q = p_id p) (sync_project_state db)
      then Inl IntegrityError
      else Inr (create_project_sync_state (p_id p) (db\<lparr>projects := projects db @ [p]\<rparr>)))"

definition ProjectCreate :: "field list" where
  "ProjectCreate = [(''name'', FStripped 1 300, False), (''description'', FStr 0 10000, True)]"

definition opt_text :: "pyval \<Rightarrow> string option" where
  "opt_text v = (case v of VStr s \<Rightarrow> Some s | _ \<Rightarrow> None)"

definition create_project_route :: "env \<Rightarrow> uuid \<Rightarrow> sdb \<Rightarrow> user_row \<Rightarrow> dict \<Rightarrow> (project_row \<times> sdb) result" where
  "create_project_route e new_id db user body =
     rbind (validated e ''project'' ProjectCreate body) (\<lambda>payload.
     let now = e_now e;
         project = \<lparr>p_id = new_id, p_name = str_or_empty (dget payload ''name''),
                    p_description = opt_text (dget payload ''description''),
                    p_created_at = now, p_created_by = u_id user\<rparr> in
     rbind (insert_project (e_dialect e) project db) (\<lambda>db1.
     rbind (insert_member \<lparr>pm_project_id = new_id, pm_user_id = u_id user,
              pm_role = role_value Admin, pm_created_at = now\<rparr> db1) (\<lambda>db2.
     Inr (project, db2))))"

definition list_projects_route :: "sdb \<Rightarrow> user_row \<Rightarrow> project_row list" where
  "list_projects_route db user =
     sort_key (\<lambda>p. - p_created_at p)
       (if u_is_superuser user then projects db
        else concat (map (\<lambda>p. map (\<lambda>_. p) (filter (member_of (p_id p) (u_id user)) (project_members db)))
               (projects db)))"

definition get_project_route :: "sdb \<Rightarrow> user_row \<Rightarrow> uuid \<Rightarrow> project_row result" where
  "get_project_route db user project_id =
     rbind (ensure_member db project_id (u_id user)) (\<lambda>_.
     case first_where (\<lambda>p. p_id p = project_id) (projects db) of
       None \<Rightarrow> Inl (http_error 404 ''Project not found'')
     | Some p \<Rightarrow> Inr p)"

definition write_member ::
  "env \<Rightarrow> sdb \<Rightarrow> user_row \<Rightarrow> uuid \<Rightarrow> user_row \<Rightarrow> role \<Rightarrow> (bool \<times> sdb) result" where
  "write_member e db user project_id target r =
     (case first_where (member_of project_id (u_id target)) (project_members db) of
        Some existing \<Rightarrow>
          rbind (if pm_role existing = role_value Admin \<and> role_value r \<noteq> role_value Admin
                 then ensure_not_last_admin db project_id (Some user) else Inr ()) (\<lambda>_.
          Inr (True, db\<lparr>project_members :=
            update_first (member_of project_id (u_id target)) (\<lambda>m. m\<lparr>pm_role := role_value r\<rparr>)
              (project_members db)\<rparr>))
      | None \<Rightarrow>
          rbind (insert_member \<lparr>pm_project_id = project_id, pm_user_id = u_id target,
                   pm_role = role_value r, pm_created_at = e_now e\<rparr> db) (\<lambda>db'.
          Inr (False, db')))"

definition add_member_route ::
  "env \<Rightarrow> sdb \<Rightarrow> user_row \<Rightarrow> uuid \<Rightarrow> string \<Rightarrow> role \<Rightarrow> (bool \<times> sdb) result" where
  "add_member_route e db user project_id user_email r =
     rbind (require_min_role db project_id (u_id user) ''admin'') (\<lambda>_.
     case first_where (\<lambda>u. u_email u = lower user_email) (users db) of
       None \<Rightarrow> Inl (http_error 404 ''User not found'')
     | Some target \<Rightarrow>
         if u_is_superuser target \<and> \<not> u_is_superuser user
         then Inl (http_error 403 ''Only a superadmin can change another superadmin's role'')
         else write_member e db user project_id target r)"

record member_out =
  mo_user_id :: uuid
  mo_email :: string
  mo_role :: string
  mo_is_superuser :: bool
  mo_created_at :: time

definition list_members_route :: "sdb \<Rightarrow> user_row \<Rightarrow> uuid \<Rightarrow> member_out list result" where
  "list_members_route db user project_id =
     rbind (ensure_member db project_id (u_id user)) (\<lambda>_.
     let rows = sort_key (\<lambda>(pm, u). u_email u)
           (concat (map (\<lambda>pm. map (Pair pm) (filter (\<lambda>u. u_id u = pm_user_id pm) (users db)))
              (filter (\<lambda>pm. pm_project_id pm = project_id) (project_members db)))) in
     if list_ex (\<lambda>(pm, u). map_of ROLE_RANK (pm_role pm) = None) rows then Inl PyValueError
     else let all_members = map (\<lambda>(pm, u).
                \<lparr>mo_user_id = u_id u, mo_email = u_email u, mo_role = pm_role pm,
                 mo_is_superuser = u_is_superuser u, mo_created_at = pm_created_at pm\<rparr>) rows in
          Inr (if \<not> u_is_superuser user then filter (\<lambda>m. \<not> mo_is_superuser m) all_members
               else all_members))"

definition remove_member_route :: "sdb \<Rightarrow> user_row \<Rightarrow> uuid \<Rightarrow> uuid \<Rightarrow> sdb result" where
  "remove_member_route db user project_id member_user_id =
     rbind (require_min_role db project_id (u_id user) ''admin'') (\<lambda>_.
     case first_where (member_of project_id member_user_id) (project_members db) of
       None \<Rightarrow> Inl (http_error 404 ''Member not found'')
     | Some m \<Rightarrow>
         let target_super = (case first_where (\<lambda>u. u_id u = member_user_id) (users db) of
                               Some target \<Rightarrow> u_is_superuser target | None \<Rightarrow> False) in
         if target_super \<and> \<not> u_is_superuser user
         then Inl (http_error 403 ''Only a superadmin can remove another superadmin'')
         else rbind (if pm_role m = role_value Admin then ensure_not_last_admin db project_id (Some user)
                     else Inr ()) (\<lambda>_.
              Inr (db\<lparr>project_members := remove1 m (project_members db)\<rparr>)))"

subsection \<open>Administration\<close>

definition delete_items :: "(row \<Rightarrow> bool) \<Rightarrow> sdb \<Rightarrow> sdb" where
  "delete_items gone db =
     (let orphan = (\<lambda>r. list_ex (\<lambda>i. gone i \<and> i ''id'' = r ''item_id'') (tables db Item)) in
      db\<lparr>tables := (tables db)(Item := delete_where gone (tables db Item),
                               Action := delete_where orphan (tables db Action),
                               Assessment := delete_where orphan (tables db Assessment))\<rparr>)"

definition delete_rows :: "model \<Rightarrow> (row \<Rightarrow> bool) \<Rightarrow> sdb \<Rightarrow> sdb" where
  "delete_rows m gone db = set_table m (delete_where gone (tables db m)) db"

definition delete_project_row :: "uuid \<Rightarrow> sdb \<Rightarrow> sdb" where
  "delete_project_row project_id db =
     db\<lparr>projects := delete_where (\<lambda>p. p_id p = project_id) (projects db),
        sync_project_state := delete_where (\<lambda>(p, s). p = project_id) (sync_project_state db)\<rparr>"

definition delete_project_data :: "uuid \<Rightarrow> sdb \<Rightarrow> sdb" where
  "delete_project_data project_id db =
     (let in_project = (\<lambda>r. r ''project_id'' = VUuid project_id);
          of_item = (\<lambda>r. list_ex (\<lambda>i. in_project i \<and> i ''id'' = r ''item_id'') (tables db Item));
          db1 = delete_rows Assessment of_item db;
          db2 = delete_rows Action in_project db1;
          db3 = delete_items in_project db2;
          db4 = db3\<lparr>score_snapshots := delete_where (\<lambda>s. ss_project_id s = project_id) (score_snapshots db3)\<rparr>;
          db5 = delete_rows HelpDeskTicket in_project db4;
          db6 = db5\<lparr>sync_receipts := delete_where (\<lambda>r. rc_project_id r = project_id) (sync_receipts db5)\<rparr>;
          db7 = db6\<lparr>audit_log := delete_where (\<lambda>a. al_project_id a = project_id) (audit_log db6)\<rparr>;
          db8 = db7\<lparr>project_members := delete_where (\<lambda>m. pm_project_id m = project_id) (project_members db7)\<rparr> in
      delete_project_row project_id db8)"

definition delete_project :: "sdb \<Rightarrow> user_row \<Rightarrow> uuid \<Rightarrow> sdb result" where
  "delete_project db user project_id =
     rbind (require_superuser user) (\<lambda>_.
     case first_where (\<lambda>p. p_id p = project_id) (projects db) of
       None \<Rightarrow> Inl (http_error 404 ''Project not found'')
     | Some proj \<Rightarrow> Inr (delete_project_data project_id db))"

record retention =
  RETENTION_DAYS :: int
  SYNC_RECEIPT_RETENTION_DAYS :: int

definition day_us :: int where "day_us = 86400000000"

record prune_out =
  po_cutoff :: time
  po_receipt_cutoff :: time
  po_audit_deleted :: nat
  po_sync_receipts_deleted :: nat

definition prune_project_logs ::
  "retention \<Rightarrow> time \<Rightarrow> sdb \<Rightarrow> user_row \<Rightarrow> uuid \<Rightarrow> int option \<Rightarrow> (prune_out \<times> sdb) result" where
  "prune_project_logs cfg now db user project_id days =
     rbind (require_superuser user) (\<lambda>_.
     if \<not> list_ex (\<lambda>p. p_id p = project_id) (projects db) then Inl (http_error 404 ''Project not found'')
     else let d0 = (case days of Some n \<Rightarrow> if n \<noteq> 0 then n else RETENTION_DAYS cfg | None \<Rightarrow> RETENTION_DAYS cfg);
              d = max 1 (min d0 3650);
              cutoff = now - d * day_us;
              receipt_cutoff = now - max d (SYNC_RECEIPT_RETENTION_DAYS cfg) * day_us;
              old_audit = (\<lambda>a. al_project_id a = project_id \<and> al_ts a < cutoff);
              old_receipt = (\<lambda>r. rc_project_id r = project_id \<and> rc_processed_at r < receipt_cutoff) in
          Inr (\<lparr>po_cutoff = cutoff, po_receipt_cutoff = receipt_cutoff,
                po_audit_deleted = count_where old_audit (audit_log db),
                po_sync_receipts_deleted = count_where old_receipt (sync_receipts db)\<rparr>,
               db\<lparr>audit_log := delete_where old_audit (audit_log db),
                  sync_receipts := delete_where old_receipt (sync_receipts db)\<rparr>))"


section \<open>Facts about projects\<close>

subsection \<open>The database invariant\<close>

lemma db_inv_shrink:
  assumes inv: "db_inv db" and tab: "\<And>m. \<exists>P. tables db' m = filter P (tables db m)"
    and st: "states_distinct db'"
    and keep: "\<And>m r q. r \<in> set (tables db' m) \<Longrightarrow> row_project db m r = VUuid q \<Longrightarrow>
      row_project db' m r = VUuid q \<and> last_sequence db' q = last_sequence db q"
  shows "db_inv db'"
proof -
  have sub: "r \<in> set (tables db m)" if "r \<in> set (tables db' m)" for m r
    using tab [of m] that by auto
  have b: "\<exists>q l. row_project db m r = VUuid q \<and> row_project db' m r = VUuid q \<and> last_sequence db q = Some l \<and>
      last_sequence db' q = Some l \<and> 1 \<le> seq_of r \<and> seq_of r \<le> l" if r: "r \<in> set (tables db' m)" for m r
  proof -
    from inv sub [OF r] obtain q l where ql: "row_project db m r = VUuid q" "last_sequence db q = Some l"
      "1 \<le> seq_of r" "seq_of r \<le> l"
      unfolding db_inv_def feed_inv_def seq_bounded_def by blast
    with keep [OF r ql(1)] show ?thesis by auto
  qed
  have "ids_distinct db'"
    unfolding ids_distinct_def
  proof
    fix m obtain P where "tables db' m = filter P (tables db m)" using tab by blast
    with db_invD(3) [OF inv] show "distinct (map (\<lambda>r. r ''id'') (tables db' m))"
      by (simp add: ids_distinct_def distinct_map_filter)
  qed
  moreover have "seq_bounded db'" unfolding seq_bounded_def using b by blast
  moreover have "seq_unique db'"
    unfolding seq_unique_def
  proof (intro allI ballI impI)
    fix m m' r r' assume r: "r \<in> set (tables db' m)" "r' \<in> set (tables db' m')"
      and eq: "row_project db' m r = row_project db' m' r' \<and> seq_of r = seq_of r'"
    then have "row_project db m r = row_project db m' r'" using b [OF r(1)] b [OF r(2)] by auto
    with inv sub r eq show "m = m' \<and> r ''id'' = r' ''id''"
      unfolding db_inv_def feed_inv_def seq_unique_def by blast
  qed
  moreover have "rows_ok db'" using inv sub unfolding db_inv_def rows_ok_def by blast
  ultimately show ?thesis using st by (simp add: db_inv_def feed_inv_def)
qed

lemma insert_project_inv:
  assumes "insert_project d p db = Inr db'" "db_inv db"
  shows "db_inv db'"
proof -
  from assms(1) have st: "sync_project_state db' = sync_project_state db @ [(p_id p, 0)]"
    and tab: "tables db' = tables db" and new: "p_id p \<notin> fst ` set (sync_project_state db)"
    by (auto simp: insert_project_def create_project_sync_state_def list_ex_iff split: if_splits)
  have "map_of (sync_project_state db) (p_id p) = None" using new by (simp add: map_of_eq_None_iff)
  then have last: "last_sequence db' q = (if q = p_id p then Some 0 else last_sequence db q)" for q
    by (simp add: last_sequence_def st map_add_def split: option.splits)
  show ?thesis
  proof (rule db_inv_shrink [OF assms(2)])
    show "\<exists>P. tables db' m = filter P (tables db m)" for m by (rule exI [of _ "\<lambda>_. True"]) (simp add: tab)
    show "states_distinct db'"
      using db_invD(2) [OF assms(2)] new last by (auto simp: states_distinct_def st split: if_splits)
    fix m r q assume r: "r \<in> set (tables db' m)" and q: "row_project db m r = VUuid q"
    then obtain l where "last_sequence db q = Some l"
      using assms(2) unfolding tab db_inv_def feed_inv_def seq_bounded_def by fastforce
    then have "q \<noteq> p_id p" using new by (force simp: last_sequence_def dest!: map_of_SomeD)
    then show "row_project db' m r = VUuid q \<and> last_sequence db' q = last_sequence db q"
      using q row_project_depends [of m r db' r db] by (simp add: last tab)
  qed
qed

lemma insert_member_Inr:
  "insert_member m db = Inr db' \<Longrightarrow> db' = db\<lparr>project_members := project_members db @ [m]\<rparr>"
  by (auto simp: insert_member_def split: if_splits)

lemma create_project_inv:
  assumes "create_project_route e n db user body = Inr (p, db')" "db_inv db"
  shows "db_inv db'"
proof -
  from assms(1) obtain db1 m where "insert_project (e_dialect e) p db = Inr db1"
    "insert_member m db1 = Inr db'"
    by (auto simp: create_project_route_def Let_def)
  with insert_project_inv [OF _ assms(2)] insert_member_Inr [of m db1 db'] db_inv_cong [of db' db1]
  show ?thesis by auto
qed

subsection \<open>Deleting a project\<close>

text \<open>Whether a row goes with project \<open>p\<close>: it is of the project, or it refers to one of its items.\<close>

definition refers_to_project :: "sdb \<Rightarrow> uuid \<Rightarrow> row \<Rightarrow> bool" where
  "refers_to_project db p r = (\<exists>i \<in> set (tables db Item). i ''project_id'' = VUuid p \<and> i ''id'' = r ''item_id'')"

fun doomed :: "sdb \<Rightarrow> uuid \<Rightarrow> model \<Rightarrow> row \<Rightarrow> bool" where
  "doomed db p Item r = (r ''project_id'' = VUuid p)"
| "doomed db p HelpDeskTicket r = (r ''project_id'' = VUuid p)"
| "doomed db p Action r = (r ''project_id'' = VUuid p \<or> refers_to_project db p r)"
| "doomed db p Assessment r = refers_to_project db p r"

lemma delete_project_Inr:
  assumes "delete_project db user p = Inr db'"
  shows "tables db' m = filter (\<lambda>r. \<not> doomed db p m r) (tables db m)"
    "sync_project_state db' = filter (\<lambda>(q, s). q \<noteq> p) (sync_project_state db)"
    "projects db' = filter (\<lambda>q. p_id q \<noteq> p) (projects db)"
    "project_members db' = filter (\<lambda>x. pm_project_id x \<noteq> p) (project_members db)"
    "users db' = users db" "u_is_superuser user"
proof -
  from assms show "u_is_superuser user"
    by (auto simp: delete_project_def require_superuser_def split: if_splits)
  from assms have db': "db' = delete_project_data p db"
    by (auto simp: delete_project_def split: option.splits)
  note run = delete_project_data_def delete_project_row_def delete_rows_def delete_items_def set_table_def
    Let_def delete_where_def
  show "sync_project_state db' = filter (\<lambda>(q, s). q \<noteq> p) (sync_project_state db)"
    "projects db' = filter (\<lambda>q. p_id q \<noteq> p) (projects db)"
    "project_members db' = filter (\<lambda>x. pm_project_id x \<noteq> p) (project_members db)" "users db' = users db"
    unfolding db' by (simp_all add: run split_def)
  have of_item: "list_ex (\<lambda>i. i ''project_id'' = VUuid p \<and> i ''id'' = r ''item_id'') (tables db Item) =
      refers_to_project db p r" for r
    by (simp add: refers_to_project_def list_ex_iff)
  show "tables db' m = filter (\<lambda>r. \<not> doomed db p m r) (tables db m)"
    unfolding db' by (cases m) (auto simp: run of_item intro!: filter_cong)
qed

lemma doomed_project:
  assumes "db_inv db" "r \<in> set (tables db m)"
  shows "row_project db m r = VUuid p \<Longrightarrow> doomed db p m r"
    "doomed db p m r \<Longrightarrow> row_project db m r = VUuid p \<or> m = Action"
proof -
  have "refers_to_project db p r \<longleftrightarrow> row_project db Assessment r = VUuid p"
  proof (cases "first_where (\<lambda>i. i ''id'' = r ''item_id'') (tables db Item)")
    case None
    then have "\<forall>i \<in> set (tables db Item). i ''id'' \<noteq> r ''item_id''"
      by (auto simp: first_where_def find_None_iff)
    with None show ?thesis by (auto simp: refers_to_project_def row_project_def sync_entity_project_id_def)
  next
    case (Some i)
    note i = first_where_SomeD [OF Some]
    then have "j = i" if "j \<in> set (tables db Item)" "j ''id'' = r ''item_id''" for j
      using ids_distinct_updateD [OF db_invD(3) [OF assms(1)], of j Item i] that by simp
    then have "refers_to_project db p r \<longleftrightarrow> i ''project_id'' = VUuid p"
      using i by (auto simp: refers_to_project_def)
    then show ?thesis using Some by (auto simp: row_project_def sync_entity_project_id_def)
  qed
  then show "row_project db m r = VUuid p \<Longrightarrow> doomed db p m r"
    "doomed db p m r \<Longrightarrow> row_project db m r = VUuid p \<or> m = Action"
    by (cases m; auto simp: row_project_def sync_entity_project_id_def)+
qed

lemma map_of_filter_key:
  "map_of (filter (\<lambda>(q, s). q \<noteq> p) xs) q = (if q = p then None else map_of xs q)"
  by (induction xs) auto

lemma delete_project_inv:
  assumes del: "delete_project db user p = Inr db'" and inv: "db_inv db"
  shows "db_inv db'" "last_sequence db' q = (if q = p then None else last_sequence db q)"
proof -
  note d = delete_project_Inr [OF del]
  have dist: "distinct (map fst (sync_project_state db))"
    using db_invD(2) [OF inv] by (simp add: states_distinct_def)
  have last: "last_sequence db' q = (if q = p then None else last_sequence db q)" for q
    by (simp add: last_sequence_def d(2) map_of_filter_key)
  then show "last_sequence db' q = (if q = p then None else last_sequence db q)" .
  show "db_inv db'"
  proof (rule db_inv_shrink [OF inv])
    show "\<exists>P. tables db' m = filter P (tables db m)" for m using d(1) by blast
    show "states_distinct db'"
      using db_invD(2) [OF inv] last by (auto simp: states_distinct_def d(2) distinct_map_filter split: if_splits)
    fix m r q assume r: "r \<in> set (tables db' m)" and q: "row_project db m r = VUuid q"
    from r have mem: "r \<in> set (tables db m)" and alive: "\<not> doomed db p m r" by (auto simp: d(1))
    then have "q \<noteq> p" using doomed_project(1) [OF inv mem] q by auto
    moreover have "row_project db' m r = row_project db m r"
    proof (rule row_project_depends)
      assume m: "m = Assessment"
      from q obtain i where i: "first_where (\<lambda>i. i ''id'' = r ''item_id'') (tables db Item) = Some i"
        using row_project_VUuid_item m by blast
      have "\<not> doomed db p Item i"
        using first_where_SomeD [OF i] alive by (auto simp: m refers_to_project_def)
      moreover have "first_where Q (filter P t) = Some x" if "first_where Q t = Some x" "P x" for P Q t and x :: row
        using that by (induction t) (auto simp: table_simps split: if_splits)
      ultimately show "first_where (\<lambda>i. i ''id'' = r ''item_id'') (tables db' Item) =
          first_where (\<lambda>i. i ''id'' = r ''item_id'') (tables db Item)"
        using i by (simp add: d(1))
    qed simp
    ultimately show "row_project db' m r = VUuid q \<and> last_sequence db' q = last_sequence db q"
      using q last by simp
  qed
qed

lemma prune_frame:
  assumes "prune_project_logs cfg now db user p days = Inr (out, db')"
  shows "tables db' = tables db" "sync_project_state db' = sync_project_state db" "users db' = users db"
    "projects db' = projects db" "project_members db' = project_members db"
    "r \<in> set (sync_receipts db) \<Longrightarrow> now - SYNC_RECEIPT_RETENTION_DAYS cfg * day_us \<le> rc_processed_at r \<Longrightarrow>
      r \<in> set (sync_receipts db')"
proof -
  show "r \<in> set (sync_receipts db')" if r: "r \<in> set (sync_receipts db)"
    "now - SYNC_RECEIPT_RETENTION_DAYS cfg * day_us \<le> rc_processed_at r"
  proof -
    from assms obtain d where "sync_receipts db' = delete_where (\<lambda>r. rc_project_id r = p \<and>
        rc_processed_at r < now - max d (SYNC_RECEIPT_RETENTION_DAYS cfg) * day_us) (sync_receipts db)"
      by (auto simp: prune_project_logs_def Let_def split: if_splits)
    moreover have "now - max d (SYNC_RECEIPT_RETENTION_DAYS cfg) * day_us \<le> rc_processed_at r"
      using r(2) by (rule order_trans [rotated]) (simp add: day_us_def)
    ultimately show ?thesis using r(1) by auto
  qed
  show "tables db' = tables db" "sync_project_state db' = sync_project_state db" "users db' = users db"
    "projects db' = projects db" "project_members db' = project_members db"
    using assms by (auto simp: prune_project_logs_def Let_def split: if_splits)
qed

subsection \<open>The last administrator\<close>

definition admins :: "sdb \<Rightarrow> uuid \<Rightarrow> nat" where
  "admins db p = count_where (is_admin_row p) (project_members db)"

lemma count_where_Cons: "count_where Q (x # t) = (if Q x then 1 else 0) + count_where Q t"
  by (simp add: count_where_def)

lemma count_where_update_first:
  "first_where P t = Some x \<Longrightarrow>
   count_where Q (update_first P f t) + (if Q x then 1 else 0) = count_where Q t + (if Q (f x) then 1 else 0)"
  by (induction t) (auto simp: table_simps count_where_Cons split: if_splits)

lemma count_where_remove1:
  "x \<in> set t \<Longrightarrow> count_where Q (remove1 x t) + (if Q x then 1 else 0) = count_where Q t"
  by (induction t) (auto simp: count_where_Cons)

lemma not_last_admin:
  assumes "ensure_not_last_admin db p (Some user) = Inr ()" "\<not> u_is_superuser user"
  shows "2 \<le> admins db p"
  using assms by (simp add: ensure_not_last_admin_def admins_def split: if_splits)

lemma add_member_admins:
  assumes "add_member_route e db user p email r = Inr (updated, db')" "\<not> u_is_superuser user" "1 \<le> admins db q"
  shows "1 \<le> admins db' q"
proof -
  from assms(1) obtain target where res: "write_member e db user p target r = Inr (updated, db')"
    unfolding add_member_route_def by (auto split: option.splits if_splits)
  show ?thesis
  proof (cases "first_where (member_of p (u_id target)) (project_members db)")
    case None
    with res obtain m where "insert_member m db = Inr db'" by (auto simp: write_member_def)
    then have "admins db q \<le> admins db' q" using insert_member_Inr by (fastforce simp: admins_def count_where_def)
    with assms(3) show ?thesis by simp
  next
    case (Some m)
    let ?f = "\<lambda>m. m\<lparr>pm_role := role_value r\<rparr>"
    from res Some have guard: "pm_role m = role_value Admin \<and> role_value r \<noteq> role_value Admin \<Longrightarrow>
        ensure_not_last_admin db p (Some user) = Inr ()"
      and db': "db' = db\<lparr>project_members := update_first (member_of p (u_id target)) ?f (project_members db)\<rparr>"
      by (auto simp: write_member_def split: if_splits)
    have m: "pm_project_id m = p" using first_where_SomeD [OF Some] by (simp add: member_of_def)
    have "admins db' q + (if is_admin_row q m then 1 else 0) = admins db q + (if is_admin_row q (?f m) then 1 else 0)"
      using count_where_update_first [OF Some, of "is_admin_row q" ?f] by (simp add: admins_def db')
    moreover have "2 \<le> admins db q" if "is_admin_row q m" "\<not> is_admin_row q (?f m)"
      using not_last_admin [OF guard assms(2)] that m by (auto simp: is_admin_row_def)
    ultimately show ?thesis using assms(3) by (auto split: if_splits)
  qed
qed

lemma remove_member_admins:
  assumes "remove_member_route db user p u = Inr db'" "\<not> u_is_superuser user" "1 \<le> admins db q"
  shows "1 \<le> admins db' q"
proof -
  from assms(1) obtain m where m: "first_where (member_of p u) (project_members db) = Some m"
    and guard: "pm_role m = role_value Admin \<Longrightarrow> ensure_not_last_admin db p (Some user) = Inr ()"
    and db': "db' = db\<lparr>project_members := remove1 m (project_members db)\<rparr>"
    by (auto simp: remove_member_route_def Let_def split: option.splits if_splits)
  have mem: "m \<in> set (project_members db)" "pm_project_id m = p"
    using first_where_SomeD [OF m] by (auto simp: member_of_def)
  have "admins db' q + (if is_admin_row q m then 1 else 0) = admins db q"
    using count_where_remove1 [OF mem(1), of "is_admin_row q"] by (simp add: admins_def db')
  moreover have "2 \<le> admins db q" if "is_admin_row q m"
    using not_last_admin [OF guard assms(2)] that mem(2) by (auto simp: is_admin_row_def)
  ultimately show ?thesis using assms(3) by (auto split: if_splits)
qed

subsection \<open>Projects as a transition system\<close>

text \<open>
  The routes that change projects and memberships, by any user. \<open>su\<close> tells whether superusers,
  who bypass the guard on the last administrator, change memberships too.
\<close>

inductive project_step :: "bool \<Rightarrow> sdb \<Rightarrow> sdb \<Rightarrow> bool" for su where
  create: "create_project_route e n db user body = Inr (p, db') \<Longrightarrow> project_step su db db'"
| add: "add_member_route e db user p email r = Inr (updated, db') \<Longrightarrow> su \<or> \<not> u_is_superuser user \<Longrightarrow>
    project_step su db db'"
| remove: "remove_member_route db user p u = Inr db' \<Longrightarrow> su \<or> \<not> u_is_superuser user \<Longrightarrow>
    project_step su db db'"
| delete: "delete_project db user p = Inr db' \<Longrightarrow> project_step su db db'"
| prune: "prune_project_logs cfg now db user p days = Inr (out, db') \<Longrightarrow> project_step su db db'"

lemma write_member_frame:
  assumes "write_member e db user p target r = Inr (updated, db')"
  shows "\<exists>t. db' = db\<lparr>project_members := t\<rparr>"
proof (cases "first_where (member_of p (u_id target)) (project_members db)")
  case None
  with assms show ?thesis by (auto simp: write_member_def dest!: insert_member_Inr)
next
  case (Some m)
  with assms show ?thesis unfolding write_member_def Some option.case rbind_Inr_iff by blast
qed

lemma member_routes_frame:
  "add_member_route e db user p email r = Inr (updated, db') \<Longrightarrow> \<exists>t. db' = db\<lparr>project_members := t\<rparr>"
  "remove_member_route db user p u = Inr db' \<Longrightarrow> \<exists>t. db' = db\<lparr>project_members := t\<rparr>"
proof -
  assume "add_member_route e db user p email r = Inr (updated, db')"
  then obtain target where "write_member e db user p target r = Inr (updated, db')"
    unfolding add_member_route_def by (auto split: option.splits if_splits)
  then show "\<exists>t. db' = db\<lparr>project_members := t\<rparr>" by (rule write_member_frame)
next
  assume "remove_member_route db user p u = Inr db'"
  then obtain m where "db\<lparr>project_members := remove1 m (project_members db)\<rparr> = db'"
    by (auto simp: remove_member_route_def Let_def split: option.splits if_splits)
  then show "\<exists>t. db' = db\<lparr>project_members := t\<rparr>" by (intro exI) (rule sym)
qed

lemma project_step_inv: "project_step su db db' \<Longrightarrow> db_inv db \<Longrightarrow> db_inv db'"
proof (induction rule: project_step.induct)
  case (create e n db user body p db')
  then show ?case by (rule create_project_inv)
next
  case (add e db user p email r updated db')
  obtain t where "db' = db\<lparr>project_members := t\<rparr>" using member_routes_frame(1) [OF add.hyps(1)] ..
  with add.prems db_inv_cong [of db' db] show ?case by simp
next
  case (remove db user p u db')
  obtain t where "db' = db\<lparr>project_members := t\<rparr>" using member_routes_frame(2) [OF remove.hyps(1)] ..
  with remove.prems db_inv_cong [of db' db] show ?case by simp
next
  case (delete db user p db')
  then show ?case using delete_project_inv(1) by blast
next
  case (prune cfg now db user p days out db')
  then show ?case using prune_frame(1,2) [OF prune.hyps] db_inv_cong [of db' db] by simp
qed

definition has_admin :: "sdb \<Rightarrow> bool" where
  "has_admin db = (\<forall>p \<in> set (projects db). 1 \<le> admins db (p_id p))"

lemma create_project_admins:
  assumes "create_project_route e n db user body = Inr (p, db')"
  shows "projects db' = projects db @ [p]" "admins db' q = admins db q + (if q = p_id p then 1 else 0)"
proof -
  from assms obtain db1 m where i: "insert_project (e_dialect e) p db = Inr db1"
    and m: "insert_member m db1 = Inr db'" "pm_project_id m = p_id p" "pm_role m = ''admin''"
    by (auto simp: create_project_route_def Let_def)
  from i have db1: "projects db1 = projects db @ [p]" "project_members db1 = project_members db"
    by (auto simp: insert_project_def create_project_sync_state_def split: if_splits)
  from insert_member_Inr [OF m(1)] db1 m(2,3)
  show "projects db' = projects db @ [p]" "admins db' q = admins db q + (if q = p_id p then 1 else 0)"
    by (auto simp: admins_def is_admin_row_def count_where_def)
qed

lemma project_step_admins: "project_step False db db' \<Longrightarrow> has_admin db \<Longrightarrow> has_admin db'"
proof (induction rule: project_step.induct)
  case (create e n db user body p db')
  then show ?case using create_project_admins [OF create.hyps] by (fastforce simp: has_admin_def)
next
  case (add e db user p email r updated db')
  then show ?case
    using add_member_admins [OF add.hyps(1)] member_routes_frame(1) [OF add.hyps(1)] by (auto simp: has_admin_def)
next
  case (remove db user p u db')
  then show ?case
    using remove_member_admins [OF remove.hyps(1)] member_routes_frame(2) [OF remove.hyps(1)]
    by (auto simp: has_admin_def)
next
  case (delete db user p db')
  note d = delete_project_Inr(3,4) [OF delete.hyps]
  have "admins db' q = admins db q" if "q \<noteq> p" for q
    using that by (auto simp: admins_def count_where_def d(2) is_admin_row_def intro!: arg_cong [of _ _ length] filter_cong)
  with delete.prems show ?case by (auto simp: has_admin_def d(1))
next
  case (prune cfg now db user p days out db')
  then show ?case using prune_frame(4,5) [OF prune.hyps] by (simp add: has_admin_def admins_def)
qed

text \<open>A freshly installed server: accounts, but no project and no row.\<close>

definition installed :: "sdb \<Rightarrow> bool" where
  "installed db = ((\<forall>m. tables db m = []) \<and> projects db = [] \<and> project_members db = [] \<and>
     sync_project_state db = [])"

lemma installed_inv: "installed db \<Longrightarrow> db_inv db \<and> has_admin db"
  by (simp add: installed_def db_inv_def feed_inv_def states_distinct_def ids_distinct_def seq_bounded_def
      seq_unique_def rows_ok_def last_sequence_def has_admin_def)

interpretation memberships: invariant_system installed "project_step False" has_admin
  by unfold_locales (auto dest: installed_inv intro: project_step_admins)

text \<open>Everything users do to the database: pushes, REST writes, and the project routes.\<close>

definition server_trans :: "sdb \<Rightarrow> sdb \<Rightarrow> bool" where
  "server_trans db db' = (write_trans db db' \<or> project_step True db db')"

interpretation server: invariant_system installed server_trans db_inv
proof
  fix s assume "installed s"
  then show "db_inv s" using installed_inv by blast
next
  fix s t assume "db_inv s" "server_trans s t"
  then show "db_inv t"
    unfolding server_trans_def using writes.inv_step [of s s t] feed_advances_same [of s s] project_step_inv by blast
qed

end
