(* ===== verification/Sync_Properties.thy ===== *)
theory Sync_Properties
  imports Sync_Demo Server_Projects
begin

section \<open>Properties of the synchronisation server\<close>

text \<open>
  The promises of the push and pull endpoints, over the definitions of the component theories,
  each with a witness on the small project of \<open>Sync_Demo\<close>.
\<close>

subsection \<open>Push\<close>

text \<open>C19: a push by a project member whose commit succeeds always returns, with exactly one
  result per change, in request order, each naming its change id; no lookup in the batch's
  bookkeeping can fail, whatever the changes contain.\<close>

theorem push_one_result_per_change:
  assumes "ensure_member db project_id user_id = Inr role" "last_sequence db project_id \<noteq> None"
  shows "\<exists>db' results. push_changes e True db user_id project_id changes = Inr (db', results) \<and>
    map (\<lambda>d. dget d ''change_id'') results = map (\<lambda>c. VStr (uuid_str (c_change_id c))) changes"
  using assms by (rule push_changes_total)

theorem push_one_result_per_change_witness:
  "\<exists>db' results. push_changes demo_env True demo_db 2 10
      [demo_change 5 3 [(''title'', VStr ''Fire'')], demo_change 6 3 [(''title'', VStr ''Fire'')]] =
      Inr (db', results) \<and>
    map (\<lambda>d. dget d ''change_id'') results = [VStr (uuid_str 5), VStr (uuid_str 6)]"
  using push_one_result_per_change [OF demo_members(2), of demo_env
      "[demo_change 5 3 [(''title'', VStr ''Fire'')], demo_change 6 3 [(''title'', VStr ''Fire'')]]"]
  by (simp add: last_sequence_def)

text \<open>C1: retrying a push is safe. If no change of a batch failed transiently, sending the same
  batch again leaves the database exactly as it is and reports the same status for every
  change, whatever the time and the validation wording of the second run.\<close>

theorem push_retry_is_idempotent:
  assumes "push_changes e True db user_id project_id changes = Inr (db', results)"
    and "receipts_distinct db"
    and "\<forall>d \<in> set results. dget d ''retryable'' \<noteq> VBool True"
    and "e_digest e' = e_digest e"
  shows "\<exists>results'. push_changes e' True db' user_id project_id changes = Inr (db', results') \<and>
    map (\<lambda>d. dget d ''status'') results' = map (\<lambda>d. dget d ''status'') results"
  using assms by (rule push_changes_retry)

theorem push_retry_is_idempotent_witness:
  "\<exists>db' d results'. push_changes demo_env True demo_db 2 10 [demo_change 5 3 [(''title'', VStr ''Fire'')]] =
      Inr (db', [d]) \<and> dget d ''status'' = VStr ''accepted'' \<and>
    push_changes (demo_env\<lparr>e_now := 99\<rparr>) True db' 2 10 [demo_change 5 3 [(''title'', VStr ''Fire'')]] =
      Inr (db', results') \<and>
    map (\<lambda>d. dget d ''status'') results' = [VStr ''accepted'']"
proof -
  let ?cs = "[demo_change 5 3 [(''title'', VStr ''Fire'')]]"
  from demo_batch obtain db' d where run: "push_changes demo_env True demo_db 2 10 ?cs = Inr (db', [d])"
    and d: "dget d ''status'' = VStr ''accepted''" "dget d ''retryable'' = VNone" by blast
  from push_retry_is_idempotent [OF run, of "demo_env\<lparr>e_now := 99\<rparr>"] d run show ?thesis
    by (simp add: receipts_distinct_def)
qed

text \<open>C2: no lost updates. An upsert of an existing row is accepted only if the client's base
  version is the row's current version; the row's version then grows by exactly one and no
  other row of any synchronised table changes.\<close>

theorem accepted_upsert_is_compare_and_swap:
  assumes "push_step e c ctx = Inr ctx'" "\<not> seen ctx (c_change_id c)"
    and "db_inv (px_db ctx)" "coerce_ok (e_coerce e)"
    and "px_results ctx' = px_results ctx @ [d]" "dget d ''status'' = VStr ''accepted''"
    and "entity = lower (strip (c_entity c))" "lower (strip (c_op c)) = ''upsert''"
    and "parse_uuid (dget (c_record c) ''id'') ''record.id'' = Inr i"
    and "fetch_obj (px_db ctx) entity i (px_project_id ctx) = Some obj"
  shows "c_base_version c = Some (version_of obj) \<and>
    row_version (px_db ctx') (model_of entity, i) = Some (version_of obj + 1) \<and>
    (\<forall>m j. (m, j) \<noteq> (model_of entity, i) \<longrightarrow> lookup (px_db ctx') m j = lookup (px_db ctx) m j)"
proof -
  let ?ctx = "ctx\<lparr>px_batch_hashes := (px_batch_hashes ctx)(c_change_id c \<mapsto> payload_hash e c)\<rparr>"
  obtain d' where out: "new_outcome e ?ctx c d' (process_new_push_change e ?ctx c)"
    using process_new_outcome by blast
  have ctx': "ctx' = process_new_push_change e ?ctx c" using assms(1,2) by (simp add: push_step_def)
  with out assms(5) have "d' = d" by (simp add: new_outcome_def)
  with out ctx' assms(6) have "accepted_outcome e ?ctx c d ctx'"
    by (auto simp: new_outcome_def refused_outcome_def)
  from accepted_upsert_mutates [OF this _ assms(4,7,8)] assms(3,9,10) show ?thesis
    by (auto simp: mutates_def)
qed

theorem accepted_upsert_is_compare_and_swap_witness:
  "\<exists>ctx'. push_step demo_env (demo_change 5 3 [(''title'', VStr ''Fire'')]) (demo_ctx ''member'') = Inr ctx' \<and>
     row_version (px_db ctx') (Item, 100) = Some 4"
proof -
  let ?c = "demo_change 5 3 [(''title'', VStr ''Fire'')]"
  from demo_accepted obtain ctx' d where run: "push_step demo_env ?c (demo_ctx ''member'') = Inr ctx'"
    and d: "px_results ctx' = [d]" "dget d ''status'' = VStr ''accepted''" by blast
  have c: "px_db (demo_ctx ''member'') = demo_db" "px_project_id (demo_ctx ''member'') = 10"
    "px_results (demo_ctx ''member'') = []"
    by (simp_all add: initial_ctx_def)
  have "row_version (px_db ctx') (model_of ''risk'', 100) = Some (version_of demo_item + 1)"
    using accepted_upsert_is_compare_and_swap [OF run demo_not_seen _ _ _ d(2), of "''risk''" 100 demo_item]
      demo_inv strict_coerce_ok d(1) demo_id demo_fetch
    by (simp add: c)
  with run show ?thesis by simp
qed

text \<open>C20: a stale write is refused. When the base version is not the current one, an otherwise
  permissible upsert or delete yields a conflict carrying the server's version, and the
  entity tables and the feed counter are left as they were.\<close>

theorem stale_push_conflicts:
  assumes "\<not> seen ctx (c_change_id c)" "entity = lower (strip (c_entity c))" "op = lower (strip (c_op c))"
    and "ENTITY_MODELS entity \<noteq> None" "op \<in> set OPS"
    and "ensure_role_at_least (px_role ctx)
        (if requires_manager ctx entity op (c_record c) then ''manager'' else ''member'') = Inr ()"
    and "parse_uuid (dget (c_record c) ''id'') ''record.id'' = Inr i"
    and "fetch_obj (px_db ctx) entity i (px_project_id ctx) = Some obj"
    and "is_item_entity entity \<Longrightarrow> obj ''type'' = VStr entity"
    and "entity = ''assessment'' \<Longrightarrow> obj ''assessor_user_id'' = VUuid (px_user_id ctx)"
    and "c_base_version c = Some v" "1 \<le> v" "v \<noteq> version_of obj"
  shows "\<exists>ctx' d. push_step e c ctx = Inr ctx' \<and> px_results ctx' = px_results ctx @ [d] \<and>
    dget d ''status'' = VStr ''conflict'' \<and> dget d ''reason'' = VStr ''version_mismatch'' \<and>
    dget d ''server_version'' = VInt (version_of obj) \<and>
    tables (px_db ctx') = tables (px_db ctx) \<and>
    sync_project_state (px_db ctx') = sync_project_state (px_db ctx)"
proof -
  let ?ctx = "ctx\<lparr>px_batch_hashes := (px_batch_hashes ctx)(c_change_id c \<mapsto> payload_hash e c)\<rparr>"
  have rm: "requires_manager ?ctx entity op (c_record c) = requires_manager ctx entity op (c_record c)"
    by (simp add: requires_manager_def cong: option.case_cong)
  have "\<exists>d. new_outcome e ?ctx c d (process_new_push_change e ?ctx c) \<and>
    refused_outcome e ?ctx c d (process_new_push_change e ?ctx c) \<and>
    dget d ''status'' = VStr ''conflict'' \<and> dget d ''reason'' = VStr ''version_mismatch'' \<and>
    dget d ''server_version'' = VInt (version_of obj)"
    by (rule stale_change_conflicts [where i = i]) (use assms rm in \<open>simp_all del: not_None_eq\<close>)
  with assms(1) show ?thesis
    by (auto simp: push_step_def new_outcome_def refused_outcome_def)
qed

theorem stale_push_conflicts_witness:
  "\<exists>ctx' d. push_step demo_env (demo_change 5 2 [(''title'', VStr ''Fire'')]) (demo_ctx ''member'') = Inr ctx' \<and>
    px_results ctx' = [d] \<and> dget d ''status'' = VStr ''conflict'' \<and>
    dget d ''server_version'' = VInt 3 \<and> tables (px_db ctx') = tables demo_db"
proof -
  have c: "px_db (demo_ctx ''member'') = demo_db" "px_project_id (demo_ctx ''member'') = 10"
    "px_results (demo_ctx ''member'') = []" "px_role (demo_ctx ''member'') = ''member''"
    by (simp_all add: initial_ctx_def)
  have "\<exists>ctx' d. push_step demo_env (demo_change 5 2 [(''title'', VStr ''Fire'')]) (demo_ctx ''member'') = Inr ctx' \<and>
    px_results ctx' = px_results (demo_ctx ''member'') @ [d] \<and>
    dget d ''status'' = VStr ''conflict'' \<and> dget d ''reason'' = VStr ''version_mismatch'' \<and>
    dget d ''server_version'' = VInt (version_of demo_item) \<and>
    tables (px_db ctx') = tables (px_db (demo_ctx ''member'')) \<and>
    sync_project_state (px_db ctx') = sync_project_state (px_db (demo_ctx ''member''))"
    by (rule stale_push_conflicts [where i = 100 and entity = "''risk''" and op = "''upsert''" and v = 2])
       (use demo_not_seen demo_id demo_fetch in
        \<open>simp_all add: c ENTITY_MODELS_def ENTITY_REGISTRY_def OPS_def demo_no_manager
           ensure_role_at_least_def rank_or_def ROLE_RANK_def\<close>)
  then show ?thesis by (auto simp: c)
qed


text \<open>C4: deletion needs a manager. A user below manager, whether pushing a batch of JSON changes or
  sending any REST write, neither deletes nor restores an existing risk, opportunity or action
  of any project, and every such row the user creates is live.\<close>

theorem members_cannot_delete:
  assumes "user_write user_id project_id db db'" "db_inv db" "\<not> may_delete db project_id user_id"
  shows "flags_kept db db'"
  using assms by (rule user_write_flags)

theorem members_cannot_delete_witness:
  "\<exists>db' results. push_changes demo_env True demo_db 2 10 [demo_change 5 3 [(''title'', VStr ''Fire'')]] =
     Inr (db', results) \<and> (\<exists>r. lookup db' Item 100 = Some r \<and> r ''is_deleted'' = VBool False)"
proof -
  let ?cs = "[demo_change 5 3 [(''title'', VStr ''Fire'')]]"
  obtain db' results where run: "push_changes demo_env True demo_db 2 10 ?cs = Inr (db', results)"
    using demo_batch by blast
  have "user_write 2 10 demo_db db'"
    by (rule user_write.push [OF run]) (simp_all add: strict_coerce_ok demo_record_def dget_Cons)
  moreover have "\<not> may_delete demo_db 10 2"
    by (simp add: may_delete_def require_min_role_def get_member_role_def demo_db_def first_where_Cons
        normalize_role_def starts_with_def ensure_role_at_least_def rank_or_def ROLE_RANK_def)
  ultimately have "flags_kept demo_db db'"
    using demo_inv by (intro members_cannot_delete)
  moreover have "lookup demo_db Item 100 = Some demo_item" by (simp add: lookup_def first_where_Cons)
  ultimately have "\<exists>r'. lookup db' Item 100 = Some r' \<and> r' ''is_deleted'' = VBool False"
    unfolding flags_kept_def by (force split: option.splits)
  with run show ?thesis by blast
qed

text \<open>C21: a change that is not accepted changes no entity row and consumes no sequence number.\<close>

theorem refused_change_has_no_effect:
  assumes "push_step e c ctx = Inr ctx'" "push_wf ctx" "px_results ctx' = px_results ctx @ [d]"
    and "dget d ''status'' \<noteq> VStr ''accepted''"
  shows "tables (px_db ctx') = tables (px_db ctx) \<and>
    sync_project_state (px_db ctx') = sync_project_state (px_db ctx)"
proof (cases "seen ctx (c_change_id c)")
  case True
  from record_duplicate_outcome [OF assms(2) this, of e] assms(1) True show ?thesis
    by (auto simp: push_step_def dup_outcome_def)
next
  case False
  let ?ctx = "ctx\<lparr>px_batch_hashes := (px_batch_hashes ctx)(c_change_id c \<mapsto> payload_hash e c)\<rparr>"
  obtain d' where out: "new_outcome e ?ctx c d' (process_new_push_change e ?ctx c)"
    using process_new_outcome by blast
  have ctx': "ctx' = process_new_push_change e ?ctx c" using assms(1) False by (simp add: push_step_def)
  with out assms(3) have "d' = d" by (simp add: new_outcome_def)
  with out assms(4) show ?thesis
    by (auto simp: ctx' new_outcome_def accepted_outcome_def refused_outcome_def Let_def)
qed

lemma demo_viewer:
  "\<exists>ctx' d. push_step demo_env (demo_change 5 3 [(''title'', VStr ''Fire'')]) (demo_ctx ''viewer'') = Inr ctx' \<and>
     px_results ctx' = [d] \<and> dget d ''status'' = VStr ''error''"
proof -
  let ?c = "demo_change 5 3 [(''title'', VStr ''Fire'')]"
  have "ensure_role_at_least ''viewer'' ''member'' = Inl insufficient_permissions"
    by (simp add: ensure_role_at_least_def rank_or_def ROLE_RANK_def)
  moreover have "ENTITY_MODELS ''risk'' = Some Item" by (simp add: ENTITY_MODELS_def ENTITY_REGISTRY_def)
  ultimately show ?thesis using demo_not_seen [of "''viewer''" 5]
    by (auto simp: push_step_def process_new_push_change_def authorize_push_change_def Let_def OPS_def
        demo_no_manager initial_ctx_def reject_push_change_def record_result_def)
qed

theorem refused_change_has_no_effect_witness:
  "\<exists>ctx'. push_step demo_env (demo_change 5 3 [(''title'', VStr ''Fire'')]) (demo_ctx ''viewer'') = Inr ctx' \<and>
     tables (px_db ctx') = tables demo_db"
proof -
  from demo_viewer obtain ctx' d where
    run: "push_step demo_env (demo_change 5 3 [(''title'', VStr ''Fire'')]) (demo_ctx ''viewer'') = Inr ctx'"
    and d: "px_results ctx' = [d]" "dget d ''status'' = VStr ''error''" by blast
  have "px_results ctx' = px_results (demo_ctx ''viewer'') @ [d]" using d(1) by (simp add: initial_ctx_def)
  from refused_change_has_no_effect [OF run push_wf_initial this] d(2) run show ?thesis
    by (simp add: initial_ctx_def)
qed

text \<open>C13: of any sequence of version claims, on the sync path and on the REST routes and by whatever
  users, each base version of a row is won at most once.\<close>

theorem base_version_won_once:
  assumes "db_inv db" "store_claims.run e db claims = (won, db')"
  shows "distinct won"
  using assms by (rule store_claims.run_distinct)

theorem base_version_won_once_witness:
  "fst (store_claims.run demo_env demo_db
     [(Sync_client ''risk'' 10 1, (Item, 100), 3), (Item_client ''risk'' 10, (Item, 100), 3)]) =
     [((Item, 100), 3)] \<and>
   distinct (fst (store_claims.run demo_env demo_db
     [(Sync_client ''risk'' 10 1, (Item, 100), 3), (Item_client ''risk'' 10, (Item, 100), 3)]))"
proof -
  let ?reqs = "[(Sync_client ''risk'' 10 1, (Item, 100), 3), (Item_client ''risk'' 10, (Item, 100), 3)] ::
    (claimant \<times> (model \<times> uuid) \<times> int) list"
  have one: "store_claim demo_env (Sync_client ''risk'' 10 1) demo_db (Item, 100) 3 = Some demo_claimed"
    by (simp add: store_claim_def sync_claim_def demo_claim)
  note one' = one [simplified]
  have two: "store_claim demo_env (Item_client ''risk'' 10) demo_claimed (Item, 100) 3 = None"
    using store_claims.second_claim_fails [OF demo_inv one] .
  have run: "store_claims.run demo_env demo_db ?reqs = ([((Item, 100), 3)], demo_claimed)"
    by (simp add: one' two)
  from base_version_won_once [OF demo_inv run] run show ?thesis by simp
qed


subsection \<open>REST writes\<close>

text \<open>A PATCH of the risk's title by the plain member.\<close>

definition demo_patch :: rest_request where
  "demo_patch = Patch_item ''risk'' 10 100 [(''base_version'', VInt 3), (''title'', VStr ''Fire'')]"

lemma demo_patch_run: "\<exists>db'. rest_write demo_env (1, 2) 2 demo_patch demo_db = Inr db'"
proof -
  let ?p = "[(''base_version'', VInt 3), (''title'', VStr ''Fire'')]"
  have val: "validated demo_env ''risk'' ItemUpdate ?p = Inr ?p"
    by (simp add: validated_def ItemUpdate_def ItemShared_fields_def dhas_Cons dget_Cons strict_coerce_def)
  have role: "require_min_role demo_db 10 2 ''member'' = Inr ''member''"
    by (simp add: require_min_role_def get_member_role_def first_where_Cons demo_db_def ROLE_RANK_def
        normalize_role_def starts_with_def ensure_role_at_least_def rank_or_def)
  have nodel: "status_value VNone \<noteq> ''deleted''" by code_simp
  have ch: "validated_changes ?p = Inr ([(''title'', VStr ''Fire'')], False)" by code_simp
  have bv: "base_version_of ?p = 3" by code_simp
  have claim: "rest_claim_base_version demo_env demo_db Item (item_where Item 10 100 (Some ''risk'')) 3
      (Some ''Item not found'') = Inr (claim_row 7 demo_item, demo_claimed)"
    by (simp add: rest_claim_base_version_def Let_def item_where_def count_where_def update_where_def
        set_table_def claim_row_def demo_claimed_def)
  have row: "recalculate_item_scores Item ((claim_row 7 demo_item)(''title'' := VStr ''Fire'', ''updated_at'' := VTime 7))
      = Sync_Demo.demo_new"
    by (rule ext) (simp add: recalculate_item_scores_def Let_def hasattr_def column_names_def
        ItemBaseMixin_columns_def IMPACT_DIMENSIONS_def getattr_def List.map_filter_def int_or_one_def
        py_int_def Sync_Demo.demo_new_def claim_row_def)
  obtain db' where "flush_update SQLite Item Sync_Demo.demo_new demo_claimed = Inr (demo_stored, db')"
    using demo_flush [of demo_claimed] by (auto simp: demo_claimed_def set_table_def)
  then show ?thesis
    by (simp add: demo_patch_def update_obj_def val role update_item_def ch bv claim Let_def row nodel dget_Cons)
qed

text \<open>C16: a REST write that succeeds changes exactly one row: the row appears at version 1 or its
  version grows by one, no other row of any synchronised table changes, the database invariant
  holds on, and the written row enters the change feed, so that every synchronising client will
  download it.\<close>

theorem rest_write_is_one_row:
  assumes "rest_write e ids user_id request db = Inr db'" "db_inv db"
  shows "\<exists>m i old. row_version db (m, i) = old \<and>
    row_version db' (m, i) = Some (case old of None \<Rightarrow> 1 | Some v \<Rightarrow> v + 1) \<and>
    (\<forall>m' j. (m', j) \<noteq> (m, i) \<longrightarrow> lookup db' m' j = lookup db m' j) \<and> feed_advances db db' \<and> db_inv db'"
  using rest_write_row [OF assms] by (auto simp: row_written_def mutates_def)

theorem rest_write_is_one_row_witness:
  "\<exists>db' m i old. rest_write demo_env (1, 2) 2 demo_patch demo_db = Inr db' \<and>
     row_version demo_db (m, i) = old \<and>
     row_version db' (m, i) = Some (case old of None \<Rightarrow> 1 | Some v \<Rightarrow> v + 1)"
proof -
  obtain db' where run: "rest_write demo_env (1, 2) 2 demo_patch demo_db = Inr db'" using demo_patch_run by blast
  from rest_write_is_one_row [OF run demo_inv] run show ?thesis by blast
qed

subsection \<open>Invariants of the database\<close>

abbreviation reached :: "sdb \<Rightarrow> bool" where
  "reached \<equiv> reach installed server_trans"

text \<open>A fresh server on which an account creates a project and then a risk.\<close>

definition demo_install :: sdb where
  "demo_install = \<lparr>users = [\<lparr>u_id = 1, u_email = ''a@b.cz'', u_password_hash = [], u_is_active = True,
        u_is_superuser = False, u_deactivated_at = None\<rparr>],
     projects = [], project_members = [], tables = (\<lambda>m. []),
     sync_project_state = [], sync_receipts = [], audit_log = [], score_snapshots = []\<rparr>"

definition demo_project :: "(project_row \<times> sdb) result" where
  "demo_project =
     create_project_route demo_env 10 demo_install (hd (users demo_install)) [(''name'', VStr ''Dam'')]"

definition demo_risk :: "sdb result" where
  "demo_risk = rbind demo_project (\<lambda>(p, db). rest_write demo_env (100, 101) 1
     (Post_item ''risk'' 10 [(''title'', VStr ''Flood''), (''probability'', VInt 2), (''impact'', VInt 4)]) db)"

lemma demo_risk_run: "(case demo_risk of Inr db \<Rightarrow> length (tables db Item) = 1 | Inl _ \<Rightarrow> False)"
  by code_simp

lemma demo_reached: "\<exists>db r. demo_risk = Inr db \<and> reached db \<and> r \<in> set (tables db Item)"
proof -
  obtain db where db: "demo_risk = Inr db" "length (tables db Item) = 1"
    using demo_risk_run by (auto split: sum.splits)
  then obtain p db1 where
    p: "create_project_route demo_env 10 demo_install (hd (users demo_install)) [(''name'', VStr ''Dam'')] = Inr (p, db1)"
    and r: "rest_write demo_env (100, 101) 1
     (Post_item ''risk'' 10 [(''title'', VStr ''Flood''), (''probability'', VInt 2), (''impact'', VInt 4)]) db1 = Inr db"
    by (auto simp: demo_risk_def demo_project_def simp del: rest_write.simps)
  have "reached demo_install" by (rule reach_init) (simp add: installed_def demo_install_def)
  moreover have "server_trans demo_install db1" unfolding server_trans_def using project_step.create [OF p] by blast
  moreover have "server_trans db1 db" unfolding server_trans_def write_trans_def using r by blast
  ultimately have "reached db" by (blast intro: reach_step)
  moreover obtain r where "r \<in> set (tables db Item)" using db(2) by (cases "tables db Item") auto
  ultimately show ?thesis using db(1) by blast
qed

text \<open>C15: types are kept. From a fresh installation, whatever users push, write through the REST
  routes or do to projects, every stored row has in every column a value of the column's type
  and no null where none is allowed; and the score of a risk, opportunity or assessment is the
  product of a probability and an impact between 1 and 5.\<close>

theorem stored_rows_are_typed:
  assumes "reached db" "r \<in> set (tables db m)"
  shows "(\<forall>k t nullable. (k, t, nullable) \<in> set (columns m) \<longrightarrow>
      type_ok SQLite t (r k) \<and> (nullable \<or> r k \<noteq> VNone)) \<and>
    (m = Item \<or> m = Assessment \<longrightarrow>
      (\<exists>p i. r ''probability'' = VInt p \<and> r ''impact'' = VInt i \<and> 1 \<le> p \<and> p \<le> 5 \<and> 1 \<le> i \<and> i \<le> 5 \<and>
         r ''score'' = VInt (p * i)))"
proof -
  have "row_ok m r" using db_invD(4) [OF server.reach_inv [OF assms(1)] assms(2)] .
  then show ?thesis
    by (fastforce simp: row_ok_def types_ok_def not_null_ok_def score_ok_def scored_model_def list_all_iff)
qed

theorem stored_rows_are_typed_witness:
  "\<exists>db r p i. demo_risk = Inr db \<and> r \<in> set (tables db Item) \<and> r ''title'' \<noteq> VNone \<and>
     1 \<le> p \<and> p \<le> 5 \<and> 1 \<le> i \<and> i \<le> 5 \<and> r ''score'' = VInt (p * i)"
proof -
  obtain db r where r: "demo_risk = Inr db" "reached db" "r \<in> set (tables db Item)" using demo_reached by blast
  note typed = stored_rows_are_typed [OF r(2,3)]
  have "(''title'', TString 300, False) \<in> set (columns Item)" by (simp add: ItemBaseMixin_columns_def)
  with typed have "r ''title'' \<noteq> VNone" by blast
  with typed r show ?thesis by blast
qed

text \<open>C14: from a fresh installation, whatever users push, write through the REST routes or do to
  projects, within a project no two rows of any synchronised tables carry the same change
  sequence, and none exceeds the project's counter.\<close>

theorem change_sequences_are_unique:
  assumes "reached db" "r \<in> set (tables db m)" "r' \<in> set (tables db m')"
    and "row_project db m r = row_project db m' r'" "seq_of r = seq_of r'"
  shows "m = m' \<and> r = r' \<and> (\<exists>p l. row_project db m r = VUuid p \<and> last_sequence db p = Some l \<and>
    1 \<le> seq_of r \<and> seq_of r \<le> l)"
proof -
  have inv: "db_inv db" using server.reach_inv [OF assms(1)] .
  then have "seq_unique db" "seq_bounded db" by (simp_all add: db_inv_def feed_inv_def)
  then have "m = m' \<and> r ''id'' = r' ''id''"
    and "\<exists>p l. row_project db m r = VUuid p \<and> last_sequence db p = Some l \<and> 1 \<le> seq_of r \<and> seq_of r \<le> l"
    using assms(2-5) unfolding seq_unique_def seq_bounded_def by blast+
  with ids_distinct_updateD [OF db_invD(3) [OF inv] assms(2)] assms(3) show ?thesis by blast
qed

theorem change_sequences_are_unique_witness:
  "\<exists>db r. demo_risk = Inr db \<and> r \<in> set (tables db Item) \<and>
     (\<exists>p l. row_project db Item r = VUuid p \<and> last_sequence db p = Some l \<and> 1 \<le> seq_of r \<and> seq_of r \<le> l)"
proof -
  obtain db r where r: "demo_risk = Inr db" "reached db" "r \<in> set (tables db Item)" using demo_reached by blast
  from change_sequences_are_unique [OF r(2,3,3) refl refl] r show ?thesis by blast
qed

subsection \<open>Projects and members\<close>


lemma demo_project_run: "(case demo_project of Inr (p, db) \<Rightarrow> length (projects db) = 1 | Inl _ \<Rightarrow> False)"
  by code_simp



definition demo_superuser :: user_row where
  "demo_superuser = \<lparr>u_id = 9, u_email = ''s@b.cz'', u_password_hash = [], u_is_active = True,
     u_is_superuser = True, u_deactivated_at = None\<rparr>"


subsection \<open>Pull\<close>

abbreviation written_from :: "sdb \<Rightarrow> sdb \<Rightarrow> bool" where
  "written_from db0 \<equiv> reach (\<lambda>db. db = db0 \<and> db_inv db0) write_trans"



text \<open>C40: a cursor survives its trip through the client: the server reads back the sequence it wrote.\<close>

theorem cursor_roundtrip:
  assumes "0 \<le> since" "since \<le> c" "c \<le> snapshot"
  shows "parse_sequence_cursor (Some (seq_cursor c)) since snapshot = Inr c"
  using assms by (intro cursor_parses) auto

theorem cursor_roundtrip_witness:
  "parse_sequence_cursor (Some (seq_cursor 42)) 10 50 = Inr 42"
  using cursor_roundtrip [of 10 42 50] by simp


subsection \<open>Codes, hashes and error paths\<close>

lemma used_numbers_Inl: "c \<in> set cs \<Longrightarrow> used_number prefix c = Inl x \<Longrightarrow> used_numbers prefix cs = Inl PyValueError"
proof (induction cs)
  case (Cons a cs)
  have "used_number prefix a = Inl y \<Longrightarrow> y = PyValueError" for y
    by (auto simp: used_number_def split: prod.splits option.splits if_splits)
  with Cons show ?case by (cases "used_number prefix a") auto
qed simp

text \<open>One stored code can block code allocation. \<open>str.isdigit\<close> accepts superscript digits that
  \<open>int()\<close> rejects: once an item of the project has a code such as R- followed by a
  superscript two, every collision-resolving allocation for that prefix raises
  \<open>ValueError\<close>.\<close>

lemma superscript_code_blocks_allocation:
  assumes "filter (\<lambda>i. i ''project_id'' = VUuid project_id \<and> i ''code'' = VStr ''R-001'') (tables db Item) = [x]"
    and "item \<in> set (tables db Item)" "item ''project_id'' = VUuid project_id"
    and "item ''code'' = VStr (''R-'' @ [char_of (178 :: nat)])"
  shows "canonical_item_code dialect db project_id ''risk'' (VStr ''R-001'') = Inl PyValueError"
proof -
  let ?bad = "''R-'' @ [char_of (178 :: nat)]"
  let ?mine = "filter (\<lambda>i. i ''project_id'' = VUuid project_id) (tables db Item)"
  have bad: "used_number ''R'' (VStr ?bad) = Inl PyValueError" by code_simp
  have like: "code_like d ''R'' (VStr ?bad)" for d
    using code_like_allocated [of "''R''" d "[char_of (178 :: nat)]"] by simp
  have s: "strip (str_or_empty (VStr ''R-001'')) = ''R-001''" by code_simp
  have like': "code_like dialect ''R'' (item ''code'')" unfolding assms(4) by (rule like)
  have "item ''code'' \<in> set (filter (code_like dialect ''R'') (map (\<lambda>i. i ''code'') ?mine))"
    using assms(2,3) like' by auto
  from used_numbers_Inl [OF this, of "''R''" PyValueError] bad assms(4)
  have "used_numbers ''R'' (filter (code_like dialect ''R'') (map (\<lambda>i. i ''code'') ?mine)) = Inl PyValueError"
    by simp
  moreover have "filter (\<lambda>i. i ''code'' = VStr ''R-001'') ?mine = [x]"
    using assms(1) by (simp add: conj_commute)
  ultimately show ?thesis
    by (simp add: canonical_item_code_def Let_def s code_prefix_def)
qed

definition null_record :: dict where
  "null_record = [(''id'', VStr (uuid_str 100)), (''probability'', VNone)]"

lemma null_parse: "parse_record demo_env ''risk'' null_record = Inr [(''id'', VUuid 100), (''probability'', VNone)]"
  by code_simp

lemma null_id: "parse_uuid (dget null_record ''id'') ''record.id'' = Inr 100"
  by code_simp

lemma null_no_manager: "\<not> requires_manager ctx ''risk'' ''upsert'' null_record"
  by (simp add: requires_manager_def null_record_def dget_Cons dhas_Cons str_or_empty_def strip_def
      lower_def rstrip_def lstrip_def)

lemma null_update: "\<exists>obj'. update_existing demo_env db 10 ''risk'' demo_item null_record = Inr obj' \<and>
   obj' ''probability'' = VNone"
proof -
  have cf: "client_fields Item [(''id'', VUuid 100), (''probability'', VNone)] =
      [(''id'', VUuid 100), (''probability'', VNone)]"
    by (simp add: client_fields_def starts_with_def hasattr_def column_names_def ItemBaseMixin_columns_def)
  have val: "validate_relationships db 10 ''risk'' [(''id'', VUuid 100), (''probability'', VNone)] (Some demo_item) = Inr ()"
    by (simp add: validate_relationships_def)
  show ?thesis by (simp add: update_existing_def Let_def null_parse val cf dget_Cons recalculate_other)
qed

text \<open>A null probability is accepted by the record schema but refused by the score listener,
  as an unexpected error: the client is told to retry, no receipt is stored, and the retry
  meets the same error.\<close>

lemma null_probability_is_retried:
  "\<exists>ctx' d. push_step demo_env (demo_change 5 3 [(''probability'', VNone)]) (demo_ctx ''member'') = Inr ctx' \<and>
     px_results ctx' = [d] \<and> dget d ''reason'' = VStr ''internal_error'' \<and>
     dget d ''failure_kind'' = VStr ''transient'' \<and> dget d ''retryable'' = VBool True \<and>
     px_db ctx' = demo_db"
proof -
  let ?c = "demo_change 5 3 [(''probability'', VNone)]"
  let ?ctx = "(demo_ctx ''member'')\<lparr>px_batch_hashes := [5 \<mapsto> payload_hash demo_env ?c]\<rparr>"
  have rcd: "c_record ?c = null_record" by (simp add: demo_change_def null_record_def)
  have auth: "authorize_push_change demo_env ?ctx ?c ''risk'' ''upsert'' null_record = (True, ?ctx)"
    by (simp add: authorize_push_change_def null_no_manager ensure_role_at_least_def rank_or_def
        ROLE_RANK_def initial_ctx_def)
  have cl: "claim_existing 7 demo_db demo_item ''risk'' 100 10 2 (Some 3) =
      Inr (model_to_dict Item demo_item, demo_claimed)"
    by (simp add: claim_existing_def check_base_version_def demo_claim)
  obtain obj' where upd: "update_existing demo_env demo_claimed 10 ''risk'' demo_item null_record = Inr obj'"
    "obj' ''probability'' = VNone" using null_update by blast
  have "flush_update SQLite Item obj' db = Inl PyValueError" for db
    by (simp add: flush_update_def compute_score_def scored_model_def validate_scale_1_5_def upd)
  then have "apply_push_change demo_env ?ctx ?c ''risk'' ''upsert'' null_record = Inl PyValueError"
    by (simp add: apply_push_change_def apply_upsert_def initial_ctx_def null_id demo_fetch cl upd)
  moreover have "ENTITY_MODELS ''risk'' = Some Item" by (simp add: ENTITY_MODELS_def ENTITY_REGISTRY_def)
  ultimately have "process_new_push_change demo_env ?ctx ?c =
      reject_push_change demo_env ?ctx ?c ''internal_error'' [] ''transient'' True False"
    using auth by (simp add: process_new_push_change_def Let_def OPS_def rcd)
  then show ?thesis using demo_not_seen [of "''member''" 5]
    by (simp add: push_step_def initial_ctx_def reject_push_change_def record_result_def Let_def
        change_result_key RESULT_KEYS_def dget_Cons)
qed

end
