(* ===== verification/Client_Store.thy ===== *)
theory Client_Store
  imports Prelude
begin

section \<open>The client's local store\<close>

text \<open>
  The offline copy of a project: \<open>local_storage/sqlite_base.py\<close> (transactions and upserts),
  \<open>server_state.py\<close> (pulled rows, acknowledgements, watermarks), the row mappers of
  \<open>mappers/action_assessment_mapper.py\<close> and the field lists of \<open>domain/scored_entity_fields.py\<close>,
  \<open>conflict_fields.py\<close> and \<open>sync_protocol.py\<close>.

  A row is a dictionary from column to value; JSON columns are kept decoded. A write transaction is a
  function from the store to an error or the new store: an exception rolls the transaction back, so no
  store comes with it.
\<close>

subsection \<open>Shared names\<close>

definition SCORED_ENTITY_META_KEYS :: "string list" where
  "SCORED_ENTITY_META_KEYS =
    [''code'', ''description'', ''category'', ''threat'', ''triggers'', ''mitigation_plan'', ''document_url'',
     ''owner_user_id'', ''status'', ''identified_at'', ''status_changed_at'', ''response_at'', ''occurred_at'',
     ''impact_cost'', ''impact_time'', ''impact_scope'', ''impact_quality'']"

definition INT_META_KEYS :: "string list" where
  "INT_META_KEYS = [''impact_cost'', ''impact_time'', ''impact_scope'', ''impact_quality'']"

definition SCORED_ENTITY_OUTBOX_ALLOWED_KEYS :: "string list" where
  "SCORED_ENTITY_OUTBOX_ALLOWED_KEYS =
    [''id'', ''title'', ''probability'', ''impact''] @ SCORED_ENTITY_META_KEYS @
    [''is_deleted'', ''created_at'', ''created_by'']"

definition scored_merge_fields :: "string list" where
  "scored_merge_fields =
    [''title'', ''code'', ''description'', ''category'', ''threat'', ''triggers'', ''mitigation_plan'',
     ''document_url'', ''owner_user_id'', ''status'', ''identified_at'', ''response_at'', ''occurred_at'',
     ''probability'', ''impact'', ''impact_cost'', ''impact_time'', ''impact_scope'', ''impact_quality'']"

definition MERGE_FIELDS :: "(string \<times> string list) list" where
  "MERGE_FIELDS =
    [(''risk'', scored_merge_fields), (''opportunity'', scored_merge_fields),
     (''action'', [''kind'', ''title'', ''description'', ''status'', ''owner_user_id'']),
     (''assessment'', [''probability'', ''impact'', ''notes'']),
     (''helpdesk_ticket'', [''title'', ''description'', ''category'', ''priority'', ''status'', ''reporter_email''])]"

definition TABLE_BY_ENTITY :: "(string \<times> string) list" where
  "TABLE_BY_ENTITY =
    [(''risk'', ''risks''), (''opportunity'', ''opportunities''), (''action'', ''actions''),
     (''assessment'', ''assessments''), (''helpdesk_ticket'', ''helpdesk_tickets'')]"

definition is_scored_entity :: "string \<Rightarrow> bool" where
  "is_scored_entity entity \<longleftrightarrow> entity = ''risk'' \<or> entity = ''opportunity''"

definition is_scored_table :: "string \<Rightarrow> bool" where
  "is_scored_table table \<longleftrightarrow> table = ''risks'' \<or> table = ''opportunities''"

text \<open>\<open>FailureKind\<close> and \<open>SyncState\<close>; both are string enumerations.\<close>

datatype failure_kind = TRANSIENT | AUTHENTICATION | PERMISSION | VALIDATION | CONFLICT | ERROR

fun kind_value :: "failure_kind \<Rightarrow> string" where
  "kind_value TRANSIENT = ''transient''"
| "kind_value AUTHENTICATION = ''authentication''"
| "kind_value PERMISSION = ''permission''"
| "kind_value VALIDATION = ''validation''"
| "kind_value CONFLICT = ''conflict''"
| "kind_value ERROR = ''error''"

datatype sync_state = COMPLETE | CANCELLED | RETRY_WAIT | ATTENTION_REQUIRED | AUTHENTICATION_REQUIRED | PERMISSION_DENIED

definition sync_state_for_failure :: "string \<Rightarrow> sync_state" where
  "sync_state_for_failure kind =
    (if kind = kind_value TRANSIENT then RETRY_WAIT
     else if kind = kind_value AUTHENTICATION then AUTHENTICATION_REQUIRED
     else if kind = kind_value PERMISSION then PERMISSION_DENIED
     else ATTENTION_REQUIRED)"

definition classify_http_status :: "int \<Rightarrow> failure_kind \<times> bool" where
  "classify_http_status status =
    (if status = 401 then (AUTHENTICATION, False)
     else if status = 403 then (PERMISSION, False)
     else if status = 0 \<or> status \<in> {408, 425, 429} \<or> status \<ge> 500 then (TRANSIENT, True)
     else (VALIDATION, False))"

text \<open>\<open>isinstance(value, int) and not isinstance(value, bool)\<close>.\<close>

definition strict_int :: "pyval \<Rightarrow> int option" where
  "strict_int v = (case v of VInt i \<Rightarrow> Some i | _ \<Rightarrow> None)"

definition acknowledged_version :: "dict \<Rightarrow> int option" where
  "acknowledged_version result =
    (let receipt_version = strict_int (dget result ''receipt_server_version'') in
     if truthy (dget result ''replayed'') \<and> receipt_version \<noteq> None then receipt_version
     else strict_int (dget result ''server_version''))"

subsection \<open>The database\<close>

datatype cexc =
    CKeyError string
  | CValueError string
  | CRuntimeError string
  | CConversionError
  | CIntegrityError

type_synonym 'a cresult = "cexc + 'a"

datatype outbox_status = Pending | Retry | Blocked

record outbox_row =
  ob_change_id :: string
  ob_project_id :: string
  ob_entity :: string
  ob_op :: string
  ob_entity_id :: string
  ob_base_version :: "int option"
  ob_record :: dict
  ob_status :: outbox_status
  ob_last_error :: string
  ob_failure_kind :: string
  ob_result :: dict
  ob_retry_count :: int
  ob_next_retry_at :: string
  ob_last_attempt_at :: string
  ob_created_at :: string

record ldb =
  l_rows :: "string \<Rightarrow> dict list"
  l_outbox :: "outbox_row list"
  l_sync_state :: "(string \<times> string \<times> int) list"

definition col_str :: "dict \<Rightarrow> string \<Rightarrow> string" where
  "col_str r k = str_or_empty (dget r k)"

definition row_id :: "dict \<Rightarrow> string" where
  "row_id r = col_str r ''id''"

definition find_row :: "ldb \<Rightarrow> string \<Rightarrow> string \<Rightarrow> dict option" where
  "find_row db table i = first_where (\<lambda>r. row_id r = i) (l_rows db table)"

definition set_rows :: "string \<Rightarrow> dict list \<Rightarrow> ldb \<Rightarrow> ldb" where
  "set_rows table rs db = db\<lparr>l_rows := (l_rows db)(table := rs)\<rparr>"

text \<open>
  \<open>_upsert_row\<close>: \<open>INSERT ... ON CONFLICT(id) DO UPDATE\<close> of the given columns, under the schema's unique
  code per project, its foreign key to the project and \<open>foreign_keys=ON\<close>. \<open>actions\<close> has no foreign key.
\<close>

definition project_known :: "ldb \<Rightarrow> string \<Rightarrow> bool" where
  "project_known db p \<longleftrightarrow> find_row db ''projects'' p \<noteq> None"

definition code_clash :: "dict \<Rightarrow> dict \<Rightarrow> bool" where
  "code_clash r r' \<longleftrightarrow> row_id r \<noteq> row_id r' \<and> \<not> is_none (dget r ''code'') \<and>
     dget r ''code'' = dget r' ''code'' \<and> dget r ''project_id'' = dget r' ''project_id''"

definition upsert_row :: "string \<Rightarrow> dict \<Rightarrow> ldb \<Rightarrow> ldb cresult" where
  "upsert_row table rec db =
    (let existing = find_row db table (row_id rec);
         new = (case existing of None \<Rightarrow> rec | Some r \<Rightarrow> dupdate r rec);
         rs = (case existing of None \<Rightarrow> l_rows db table @ [new]
               | Some _ \<Rightarrow> update_where (\<lambda>r. row_id r = row_id rec) (\<lambda>r. dupdate r rec) (l_rows db table))
     in if is_scored_table table \<and> (\<exists>r \<in> set (l_rows db table). code_clash new r) then Inl CIntegrityError
        else if table \<noteq> ''actions'' \<and> \<not> project_known db (col_str new ''project_id'') then Inl CIntegrityError
        else Inr (set_rows table rs db))"

definition cint :: "pyval \<Rightarrow> int cresult" where
  "cint v = (case py_int v of None \<Rightarrow> Inl CConversionError | Some i \<Rightarrow> Inr i)"

text \<open>\<open>int(value or dflt)\<close>.\<close>

definition int_or :: "pyval \<Rightarrow> int \<Rightarrow> int cresult" where
  "int_or v n = (if truthy v then cint v else Inr n)"

definition norm_text :: "pyval \<Rightarrow> pyval" where
  "norm_text v = (if is_none v then VNone else let s = strip (py_str v) in if s = [] then VNone else VStr s)"

fun norm_keys :: "string list \<Rightarrow> dict \<Rightarrow> dict cresult" where
  "norm_keys [] meta = Inr []"
| "norm_keys (k # ks) meta =
    rbind (if k \<in> set INT_META_KEYS
           then (if is_none (dget meta k) then Inr VNone else rbind (cint (dget meta k)) (\<lambda>i. Inr (VInt i)))
           else Inr (norm_text (dget meta k)))
      (\<lambda>v. rbind (norm_keys ks meta) (\<lambda>out. Inr ((k, v) # out)))"

definition norm_scored_meta :: "dict \<Rightarrow> dict cresult" where
  "norm_scored_meta meta = norm_keys SCORED_ENTITY_META_KEYS meta"

subsection \<open>Mappers\<close>

definition req_str :: "dict \<Rightarrow> string \<Rightarrow> string cresult" where
  "req_str d k = (let s = (if is_none (dget d k) then [] else strip (py_str (dget d k)))
     in if s = [] then Inl (CKeyError (''Missing required field: '' @ k)) else Inr s)"

definition opt_str :: "dict \<Rightarrow> string \<Rightarrow> pyval \<Rightarrow> pyval" where
  "opt_str d k dflt = (if is_none (dget d k) then dflt
     else let s = strip (py_str (dget d k)) in if s = [] then dflt else VStr s)"

definition opt_int_field :: "dict \<Rightarrow> string \<Rightarrow> int \<Rightarrow> int" where
  "opt_int_field d k dflt = (case dget d k of
       VNone \<Rightarrow> dflt
     | VBool _ \<Rightarrow> dflt
     | v \<Rightarrow> let s = strip (py_str v) in
            if s = [] then dflt else case int_parse 10 s of None \<Rightarrow> dflt | Some i \<Rightarrow> i)"

definition flag :: "pyval \<Rightarrow> pyval" where
  "flag v = VInt (if truthy v then 1 else 0)"

text \<open>
  \<open>action_from_mapping\<close> and \<open>assessment_from_mapping\<close>: the dataclass as a dictionary of its fields.
  \<open>Assessment.__post_init__\<close> recomputes the score.
\<close>

definition action_from_mapping :: "dict \<Rightarrow> dict cresult" where
  "action_from_mapping d = rbind (req_str d ''id'') (\<lambda>i. rbind (req_str d ''project_id'') (\<lambda>p.
    Inr [(''id'', VStr i), (''project_id'', VStr p),
         (''risk_id'', opt_str d ''risk_id'' VNone), (''opportunity_id'', opt_str d ''opportunity_id'' VNone),
         (''kind'', opt_str d ''kind'' (VStr [])), (''title'', opt_str d ''title'' (VStr [])),
         (''description'', VStr (str_or_empty (dget d ''description''))),
         (''status'', opt_str d ''status'' (VStr ''open'')),
         (''owner_user_id'', opt_str d ''owner_user_id'' VNone),
         (''version'', VInt (opt_int_field d ''version'' 0)),
         (''is_deleted'', VBool (truthy (dget d ''is_deleted''))),
         (''updated_at'', VStr (str_or_empty (dget d ''updated_at'')))]))"

definition at_least_one :: "int \<Rightarrow> int" where
  "at_least_one i = (if i = 0 then 1 else i)"

definition assessment_from_mapping :: "dict \<Rightarrow> dict cresult" where
  "assessment_from_mapping d =
    (let item_id = py_or (opt_str d ''item_id'' VNone) (py_or (opt_str d ''risk_id'' VNone)
                     (py_or (opt_str d ''opportunity_id'' VNone) (VStr [])));
         probability = at_least_one (opt_int_field d ''probability'' 1);
         impact = at_least_one (opt_int_field d ''impact'' 1)
     in if \<not> truthy item_id then Inl (CKeyError ''Missing required field: item_id'')
        else rbind (req_str d ''id'') (\<lambda>i.
          Inr [(''id'', VStr i), (''item_id'', item_id),
               (''assessor_user_id'', opt_str d ''assessor_user_id'' (VStr [])),
               (''probability'', VInt probability), (''impact'', VInt impact),
               (''notes'', VStr (str_or_empty (dget d ''notes''))),
               (''version'', VInt (opt_int_field d ''version'' 0)),
               (''is_deleted'', VBool (truthy (dget d ''is_deleted''))),
               (''updated_at'', VStr (str_or_empty (dget d ''updated_at''))),
               (''score'', VInt (probability * impact))]))"


subsection \<open>Pulled rows\<close>

definition same_entity :: "string \<Rightarrow> string \<Rightarrow> string \<Rightarrow> outbox_row \<Rightarrow> bool" where
  "same_entity project_id entity entity_id e \<longleftrightarrow>
     ob_project_id e = project_id \<and> ob_entity e = entity \<and> ob_entity_id e = entity_id"

text \<open>Every status an entry can have is open (\<open>pending\<close>, \<open>retry\<close>, \<open>blocked\<close>).\<close>

definition pending_outbox_ids :: "ldb \<Rightarrow> string \<Rightarrow> string \<Rightarrow> string list" where
  "pending_outbox_ids db project_id entity =
     map ob_entity_id (filter (\<lambda>e. ob_project_id e = project_id \<and> ob_entity e = entity \<and>
       ob_status e \<in> {Pending, Retry, Blocked}) (l_outbox db))"

definition remember_conflict_server_record :: "string \<Rightarrow> string \<Rightarrow> string \<Rightarrow> dict \<Rightarrow> ldb \<Rightarrow> ldb cresult" where
  "remember_conflict_server_record project_id entity entity_id server_record db =
    (case first_where (\<lambda>e. same_entity project_id entity entity_id e \<and> ob_status e = Blocked \<and>
             ob_failure_kind e = ''conflict'') (l_outbox db) of
       None \<Rightarrow> Inr db
     | Some row \<Rightarrow> rbind (int_or (dget server_record ''version'') 0) (\<lambda>v.
         let outcome = dset (dset (dset (ob_result row) ''server_version'' (VInt v))
                         ''server_record'' (VDict server_record))
                         ''server_updated_at'' (VStr (str_or_empty (dget server_record ''updated_at'')))
         in Inr (db\<lparr>l_outbox := update_where (\<lambda>e. ob_change_id e = ob_change_id row)
                     (\<lambda>e. e\<lparr>ob_result := outcome\<rparr>) (l_outbox db)\<rparr>)))"

text \<open>A loop over server rows that stops at the first error.\<close>

fun each :: "('r \<Rightarrow> ldb \<Rightarrow> ldb cresult) \<Rightarrow> 'r list \<Rightarrow> ldb \<Rightarrow> ldb cresult" where
  "each f [] db = Inr db"
| "each f (r # rs) db = rbind (f r db) (each f rs)"

definition obj_str :: "dict \<Rightarrow> string \<Rightarrow> pyval" where
  "obj_str obj k = VStr (str_or_empty (dget obj k))"

definition apply_pull_entity ::
  "string \<Rightarrow> string list \<Rightarrow> string \<Rightarrow> string \<Rightarrow> (dict \<Rightarrow> dict cresult) \<Rightarrow> (ldb \<Rightarrow> dict \<Rightarrow> dict \<Rightarrow> dict) \<Rightarrow> dict \<Rightarrow> ldb \<Rightarrow> ldb cresult" where
  "apply_pull_entity project_id pending_ids entity table mapper build raw db =
    rbind (mapper raw) (\<lambda>obj. let i = row_id obj in
      if i \<in> set pending_ids then remember_conflict_server_record project_id entity i raw db
      else upsert_row table (dupdate (build db obj raw)
             [(''project_id'', VStr project_id), (''id'', VStr i), (''version'', dget obj ''version''),
              (''updated_at'', obj_str obj ''updated_at''), (''dirty'', VInt 0)]) db)"

definition apply_pull_entities ::
  "string \<Rightarrow> dict list \<Rightarrow> string \<Rightarrow> string \<Rightarrow> (dict \<Rightarrow> dict cresult) \<Rightarrow> (ldb \<Rightarrow> dict \<Rightarrow> dict \<Rightarrow> dict) \<Rightarrow> ldb \<Rightarrow> ldb cresult" where
  "apply_pull_entities project_id items entity table mapper build db =
     each (apply_pull_entity project_id (pending_outbox_ids db project_id entity) entity table mapper build) items db"

definition build_action_record :: "ldb \<Rightarrow> dict \<Rightarrow> dict \<Rightarrow> dict" where
  "build_action_record db a raw =
    [(''risk_id'', dget a ''risk_id''), (''opportunity_id'', dget a ''opportunity_id''),
     (''kind'', obj_str a ''kind''), (''title'', obj_str a ''title''), (''description'', obj_str a ''description''),
     (''status'', if truthy (dget a ''status'') then obj_str a ''status'' else VStr ''open''),
     (''owner_user_id'', dget a ''owner_user_id''), (''is_deleted'', flag (dget a ''is_deleted''))]"

definition apply_pull_actions :: "string \<Rightarrow> dict list \<Rightarrow> ldb \<Rightarrow> ldb cresult" where
  "apply_pull_actions project_id items =
     apply_pull_entities project_id items ''action'' ''actions'' action_from_mapping build_action_record"

definition has_row :: "ldb \<Rightarrow> string \<Rightarrow> string \<Rightarrow> string \<Rightarrow> bool" where
  "has_row db table project_id i \<longleftrightarrow>
     first_where (\<lambda>r. col_str r ''project_id'' = project_id \<and> row_id r = i) (l_rows db table) \<noteq> None"

definition infer_assessment_item_type :: "ldb \<Rightarrow> string \<Rightarrow> string \<Rightarrow> dict \<Rightarrow> string" where
  "infer_assessment_item_type db project_id item_id raw =
    (if truthy (dget raw ''opportunity_id'') then ''opportunity''
     else if truthy (dget raw ''risk_id'') then ''risk''
     else if has_row db ''opportunities'' project_id item_id then ''opportunity''
     else ''risk'')"

definition build_assessment_record :: "string \<Rightarrow> ldb \<Rightarrow> dict \<Rightarrow> dict \<Rightarrow> dict" where
  "build_assessment_record project_id db a raw =
    (let item_id = col_str a ''item_id''; item_type = infer_assessment_item_type db project_id item_id raw in
     [(''risk_id'', if item_type = ''risk'' then VStr item_id else VNone),
      (''opportunity_id'', if item_type = ''opportunity'' then VStr item_id else VNone),
      (''item_id'', VStr item_id), (''item_type'', VStr item_type),
      (''assessor_user_id'', obj_str a ''assessor_user_id''),
      (''probability'', dget a ''probability''), (''impact'', dget a ''impact''), (''score'', dget a ''score''),
      (''notes'', obj_str a ''notes''), (''is_deleted'', flag (dget a ''is_deleted''))])"

definition apply_pull_assessments :: "string \<Rightarrow> dict list \<Rightarrow> ldb \<Rightarrow> ldb cresult" where
  "apply_pull_assessments project_id items =
     apply_pull_entities project_id items ''assessment'' ''assessments'' assessment_from_mapping
       (build_assessment_record project_id)"

definition release_code :: "string \<Rightarrow> string \<Rightarrow> pyval \<Rightarrow> string \<Rightarrow> ldb \<Rightarrow> ldb" where
  "release_code table project_id code eid db =
     set_rows table (update_where (\<lambda>r. col_str r ''project_id'' = project_id \<and> \<not> is_none code \<and>
         dget r ''code'' = code \<and> row_id r \<noteq> eid) (\<lambda>r. dset r ''code'' VNone) (l_rows db table)) db"

text \<open>One pulled risk or opportunity that has no queued local change.\<close>

definition scored_record :: "string \<Rightarrow> dict \<Rightarrow> dict cresult" where
  "scored_record project_id ent =
    (let meta = map (\<lambda>k. (k, dget ent k)) SCORED_ENTITY_META_KEYS;
         meta = (if truthy (dget meta ''status'') then meta else dset meta ''status'' (VStr ''concept''))
     in rbind (int_or (dget ent ''version'') 0) (\<lambda>ver.
        rbind (norm_scored_meta meta) (\<lambda>m.
        rbind (int_or (dget ent ''probability'') 1) (\<lambda>probability.
        rbind (int_or (dget ent ''impact'') 1) (\<lambda>impact.
        Inr (dupdate [(''id'', VStr (py_str (dget ent ''id''))), (''project_id'', VStr project_id),
                      (''title'', VStr (str_or_empty (dget ent ''title''))),
                      (''probability'', VInt probability), (''impact'', VInt impact)]
               (m @ [(''version'', VInt ver), (''is_deleted'', flag (dget ent ''is_deleted'')),
                     (''updated_at'', VStr (str_or_empty (dget ent ''updated_at''))), (''dirty'', VInt 0)])))))))"

definition apply_pull_scored :: "string \<Rightarrow> string list \<Rightarrow> string \<Rightarrow> string \<Rightarrow> dict \<Rightarrow> ldb \<Rightarrow> ldb cresult" where
  "apply_pull_scored project_id pending_ids table entity ent db =
    (if \<not> dhas ent ''id'' then Inl (CKeyError ''id'')
     else let eid = py_str (dget ent ''id'') in
       rbind (int_or (dget ent ''version'') 0) (\<lambda>_.
       if eid \<in> set pending_ids then remember_conflict_server_record project_id entity eid ent db
       else rbind (scored_record project_id ent) (\<lambda>rec.
              upsert_row table rec (release_code table project_id (dget rec ''code'') eid db))))"

definition apply_pull_scored_entities :: "string \<Rightarrow> dict list \<Rightarrow> string \<Rightarrow> string \<Rightarrow> ldb \<Rightarrow> ldb cresult" where
  "apply_pull_scored_entities project_id items table entity db =
     each (apply_pull_scored project_id (pending_outbox_ids db project_id entity) table entity) items db"

definition apply_pull_risks :: "string \<Rightarrow> dict list \<Rightarrow> ldb \<Rightarrow> ldb cresult" where
  "apply_pull_risks project_id items = apply_pull_scored_entities project_id items ''risks'' ''risk''"

definition apply_pull_opportunities :: "string \<Rightarrow> dict list \<Rightarrow> ldb \<Rightarrow> ldb cresult" where
  "apply_pull_opportunities project_id items =
     apply_pull_scored_entities project_id items ''opportunities'' ''opportunity''"

definition or_str :: "dict \<Rightarrow> string \<Rightarrow> string \<Rightarrow> pyval" where
  "or_str d k dflt = VStr (if truthy (dget d k) then py_str (dget d k) else dflt)"

definition apply_pull_ticket :: "string \<Rightarrow> string list \<Rightarrow> dict \<Rightarrow> ldb \<Rightarrow> ldb cresult" where
  "apply_pull_ticket project_id pending_ids item db =
    (let i = str_or_empty (dget item ''id'') in
     if i = [] then Inr db
     else if i \<in> set pending_ids then remember_conflict_server_record project_id ''helpdesk_ticket'' i item db
     else rbind (int_or (dget item ''version'') 0) (\<lambda>ver.
       upsert_row ''helpdesk_tickets''
         [(''id'', VStr i), (''project_id'', or_str item ''project_id'' project_id),
          (''title'', or_str item ''title'' []), (''description'', or_str item ''description'' []),
          (''category'', or_str item ''category'' ''other''), (''priority'', or_str item ''priority'' ''medium''),
          (''status'', or_str item ''status'' ''open''), (''reporter_email'', or_str item ''reporter_email'' []),
          (''version'', VInt ver), (''is_deleted'', flag (dget item ''is_deleted'')), (''dirty'', VInt 0),
          (''created_at'', or_str item ''created_at'' []), (''updated_at'', or_str item ''updated_at'' [])] db))"

definition apply_pull_helpdesk_tickets :: "string \<Rightarrow> dict list \<Rightarrow> ldb \<Rightarrow> ldb cresult" where
  "apply_pull_helpdesk_tickets project_id items db =
     each (apply_pull_ticket project_id (pending_outbox_ids db project_id ''helpdesk_ticket'')) items db"

subsection \<open>Push acknowledgements\<close>

definition check_ack_identity :: "dict \<Rightarrow> string \<Rightarrow> string \<Rightarrow> unit cresult" where
  "check_ack_identity rec entity_id project_id =
    (let record_id = str_or_empty (dget rec ''id''); record_project = str_or_empty (dget rec ''project_id'') in
     if record_id \<noteq> [] \<and> record_id \<noteq> entity_id
     then Inl (CRuntimeError ''Push acknowledgement returned another entity'')
     else if record_project \<noteq> [] \<and> record_project \<noteq> project_id
     then Inl (CRuntimeError ''Push acknowledgement returned another project'')
     else Inr ())"

definition sync_table :: "string \<Rightarrow> string cresult" where
  "sync_table entity = (case map_of TABLE_BY_ENTITY entity of
     None \<Rightarrow> Inl (CValueError (''Unsupported sync entity: '' @ repr_str entity)) | Some t \<Rightarrow> Inr t)"

definition apply_record :: "string \<Rightarrow> string \<Rightarrow> dict \<Rightarrow> ldb \<Rightarrow> ldb cresult" where
  "apply_record entity project_id rec db =
    (if entity = ''risk'' then apply_pull_risks project_id [rec] db
     else if entity = ''opportunity'' then apply_pull_opportunities project_id [rec] db
     else if entity = ''action'' then apply_pull_actions project_id [rec] db
     else if entity = ''assessment'' then apply_pull_assessments project_id [rec] db
     else if entity = ''helpdesk_ticket'' then apply_pull_helpdesk_tickets project_id [rec] db
     else Inl (CValueError (''Unsupported sync entity: '' @ repr_str entity)))"

definition at_entity :: "string \<Rightarrow> string \<Rightarrow> dict \<Rightarrow> bool" where
  "at_entity entity_id project_id r \<longleftrightarrow> row_id r = entity_id \<and> col_str r ''project_id'' = project_id"

definition apply_push_acknowledgement ::
  "string \<Rightarrow> string \<Rightarrow> string \<Rightarrow> int option \<Rightarrow> dict option \<Rightarrow> ldb \<Rightarrow> ldb cresult" where
  "apply_push_acknowledgement project_id entity entity_id server_version server_record db =
    (case server_record of
       Some raw \<Rightarrow>
         rbind (check_ack_identity raw entity_id project_id) (\<lambda>_.
         let rec = dset (dset raw ''id'' (VStr entity_id)) ''project_id'' (VStr project_id) in
         rbind (case server_version of
                  None \<Rightarrow> Inr ()
                | Some v \<Rightarrow> rbind (int_or (dget rec ''version'') 0) (\<lambda>record_version.
                    if record_version \<noteq> v then Inl (CRuntimeError ''Push acknowledgement version mismatch'')
                    else Inr ()))
           (\<lambda>_. apply_record entity project_id rec db))
     | None \<Rightarrow>
         (case server_version of
            None \<Rightarrow> Inr db
          | Some v \<Rightarrow> rbind (sync_table entity) (\<lambda>table.
              Inr (set_rows table (update_where (at_entity entity_id project_id)
                     (\<lambda>r. dset (dset r ''version'' (VInt v)) ''dirty'' (VInt 0)) (l_rows db table)) db))))"

text \<open>Entity, id and code of every accepted scored result that carries a server record.\<close>

fun ack_codes :: "string \<Rightarrow> dict list \<Rightarrow> ((string \<times> string \<times> string) list) cresult" where
  "ack_codes project_id [] = Inr []"
| "ack_codes project_id (r # rs) =
    (let entity = str_or_empty (dget r ''entity'') in
     if \<not> is_scored_entity entity \<or> dget r ''status'' \<noteq> VStr ''accepted'' then ack_codes project_id rs
     else case dget r ''server_record'' of
            VDict rec \<Rightarrow>
              (let entity_id = str_or_empty (py_or (dget r ''entity_id'') (dget rec ''id''));
                   code = strip (str_or_empty (dget rec ''code''))
               in rbind (check_ack_identity rec entity_id project_id) (\<lambda>_.
                  rbind (ack_codes project_id rs) (\<lambda>acc. Inr ((entity, entity_id, code) # acc))))
          | _ \<Rightarrow> ack_codes project_id rs)"

definition release_codes :: "string \<Rightarrow> string \<Rightarrow> string list \<Rightarrow> string list \<Rightarrow> ldb \<Rightarrow> ldb" where
  "release_codes table project_id ids codes db =
    (if ids = [] \<and> codes = [] then db
     else set_rows table (update_where (\<lambda>r. col_str r ''project_id'' = project_id \<and>
         (row_id r \<in> set ids \<or> dget r ''code'' \<in> VStr ` set codes)) (\<lambda>r. dset r ''code'' VNone) (l_rows db table)) db)"

definition release_entity_codes :: "string \<Rightarrow> string \<Rightarrow> string \<Rightarrow> (string \<times> string \<times> string) list \<Rightarrow> ldb \<Rightarrow> ldb" where
  "release_entity_codes entity table project_id acks =
    (let mine = filter (\<lambda>(e, _, _). e = entity) acks in
     release_codes table project_id (filter (\<lambda>i. i \<noteq> []) (map (\<lambda>(_, i, _). i) mine))
       (filter (\<lambda>c. c \<noteq> []) (map (\<lambda>(_, _, c). c) mine)))"

definition release_scored_codes_for_acknowledgements :: "string \<Rightarrow> dict list \<Rightarrow> ldb \<Rightarrow> ldb cresult" where
  "release_scored_codes_for_acknowledgements project_id results db =
    rbind (ack_codes project_id results) (\<lambda>acks.
      Inr (release_entity_codes ''opportunity'' ''opportunities'' project_id acks
            (release_entity_codes ''risk'' ''risks'' project_id acks db)))"

definition advance_push_acknowledgement ::
  "string \<Rightarrow> string \<Rightarrow> string \<Rightarrow> int option \<Rightarrow> dict option \<Rightarrow> ldb \<Rightarrow> ldb cresult" where
  "advance_push_acknowledgement project_id entity entity_id server_version server_record db =
    rbind (sync_table entity) (\<lambda>table.
      let rec = (case server_record of None \<Rightarrow> [] | Some d \<Rightarrow> d);
          record_version = strict_int (dget rec ''version'') in
      rbind (check_ack_identity rec entity_id project_id) (\<lambda>_.
      if server_version \<noteq> None \<and> record_version \<noteq> None \<and> server_version \<noteq> record_version
      then Inl (CRuntimeError ''Push acknowledgement version mismatch'')
      else let version = (if server_version \<noteq> None then server_version else record_version);
               set_version = (\<lambda>r. case version of None \<Rightarrow> r
                 | Some v \<Rightarrow> dset r ''version'' (VInt (max (case py_int (dget r ''version'') of None \<Rightarrow> 0 | Some i \<Rightarrow> i) v)));
               set_code = (\<lambda>r. if is_scored_entity entity \<and> dhas rec ''code'' then dset r ''code'' (dget rec ''code'') else r);
               rs = update_where (at_entity entity_id project_id) (\<lambda>r. set_code (set_version r)) (l_rows db table)
           in if is_scored_entity entity \<and> dhas rec ''code'' \<and> \<not> is_none (dget rec ''code'') \<and>
                 (\<exists>r \<in> set (l_rows db table). row_id r \<noteq> entity_id \<and> col_str r ''project_id'' = project_id \<and>
                    dget r ''code'' = dget rec ''code'') \<and>
                 (\<exists>r \<in> set (l_rows db table). at_entity entity_id project_id r)
              then Inl CIntegrityError
              else Inr (set_rows table rs db)))"

subsection \<open>Watermarks and merges\<close>

definition get_last_server_time :: "ldb \<Rightarrow> string \<Rightarrow> string" where
  "get_last_server_time db project_id =
    (case map_of (l_sync_state db) project_id of None \<Rightarrow> ''1970-01-01T00:00:00'' | Some (t, _) \<Rightarrow> t)"

definition get_last_server_sequence :: "ldb \<Rightarrow> string \<Rightarrow> int" where
  "get_last_server_sequence db project_id =
    (case map_of (l_sync_state db) project_id of None \<Rightarrow> 0 | Some (_, n) \<Rightarrow> n)"

definition set_sync_watermark :: "string \<Rightarrow> string \<Rightarrow> int option \<Rightarrow> ldb \<Rightarrow> ldb cresult" where
  "set_sync_watermark project_id server_time server_sequence db =
    (let n = (case server_sequence of None \<Rightarrow> 0 | Some i \<Rightarrow> i) in
     if n < 0 then Inl (CValueError ''server_sequence must be nonnegative'')
     else Inr (db\<lparr>l_sync_state := AList.update project_id (server_time, n) (l_sync_state db)\<rparr>))"

definition set_last_server_time :: "string \<Rightarrow> string \<Rightarrow> ldb \<Rightarrow> ldb cresult" where
  "set_last_server_time project_id server_time db =
     set_sync_watermark project_id server_time (Some (get_last_server_sequence db project_id)) db"

definition reset_sync_watermark :: "string \<Rightarrow> string \<Rightarrow> ldb \<Rightarrow> ldb cresult" where
  "reset_sync_watermark project_id server_time = set_sync_watermark project_id server_time (Some 0)"

definition apply_merged_fields :: "string \<Rightarrow> string \<Rightarrow> string \<Rightarrow> dict \<Rightarrow> ldb \<Rightarrow> ldb cresult" where
  "apply_merged_fields entity project_id entity_id rec db =
    (case map_of TABLE_BY_ENTITY entity of
       None \<Rightarrow> Inl (CValueError ''Unsupported merge entity'')
     | Some table \<Rightarrow>
         let names = filter (dhas rec) (the (map_of MERGE_FIELDS entity));
             fields = map (\<lambda>k. (k, dget rec k)) names in
         rbind (if entity = ''assessment''
                then (if \<not> dhas rec ''probability'' then Inl (CKeyError ''probability'')
                      else if \<not> dhas rec ''impact'' then Inl (CKeyError ''impact'')
                      else rbind (cint (dget rec ''probability'')) (\<lambda>p. rbind (cint (dget rec ''impact'')) (\<lambda>i.
                        Inr [(''score'', VInt (p * i))])))
                else Inr []) (\<lambda>score.
         if count_where (at_entity entity_id project_id) (l_rows db table) \<noteq> 1
         then Inl (CRuntimeError ''The merged local item is unavailable'')
         else if is_scored_table table \<and> (\<exists>r \<in> set (l_rows db table). \<exists>r' \<in> set (l_rows db table).
                at_entity entity_id project_id r' \<and> code_clash (dupdate r' fields) r)
         then Inl CIntegrityError
         else Inr (set_rows table (update_where (at_entity entity_id project_id)
                (\<lambda>r. dupdate r (fields @ score @ [(''dirty'', VInt 1)])) (l_rows db table)) db)))"


section \<open>Facts about the store\<close>

text \<open>What a pull may change of the outbox: the saved server copy of a conflict, nothing else.\<close>

definition ob_core :: "outbox_row \<Rightarrow> outbox_row" where
  "ob_core e = e\<lparr>ob_result := []\<rparr>"

definition same_but_code :: "dict \<Rightarrow> dict \<Rightarrow> bool" where
  "same_but_code r r' \<longleftrightarrow> (\<forall>k. k \<noteq> ''code'' \<longrightarrow> dget r' k = dget r k)"

lemma same_but_code_refl [simp]: "same_but_code r r"
  by (simp add: same_but_code_def)

lemma same_but_code_trans: "same_but_code a b \<Longrightarrow> same_but_code b c \<Longrightarrow> same_but_code a c"
  by (simp add: same_but_code_def)

lemma rel_option_trans:
  "rel_option same_but_code x y \<Longrightarrow> rel_option same_but_code y z \<Longrightarrow> rel_option same_but_code x z"
  by (cases x; cases y; cases z) (auto intro: same_but_code_trans)

lemma rel_option_same [simp]: "rel_option same_but_code x x"
  by (cases x) auto

lemma set_rows_simps [simp]:
  "l_rows (set_rows t rs db) t = rs" "t' \<noteq> t \<Longrightarrow> l_rows (set_rows t rs db) t' = l_rows db t'"
  "l_outbox (set_rows t rs db) = l_outbox db" "l_sync_state (set_rows t rs db) = l_sync_state db"
  by (simp_all add: set_rows_def)

lemma remember_frame:
  assumes "remember_conflict_server_record p en i rec db = Inr db'"
  shows "l_rows db' = l_rows db" "l_sync_state db' = l_sync_state db"
    "map ob_core (l_outbox db') = map ob_core (l_outbox db)"
  using assms by (auto simp: remember_conflict_server_record_def Let_def update_where_def ob_core_def
      split: option.splits)

lemma upsert_row_Inr:
  assumes "upsert_row t rec db = Inr db'"
  shows "l_outbox db' = l_outbox db" "l_sync_state db' = l_sync_state db"
    "\<And>t'. t' \<noteq> t \<Longrightarrow> l_rows db' t' = l_rows db t'"
  using assms by (auto simp: upsert_row_def Let_def split: if_splits)

lemma find_update_other:
  "(\<And>r. P r \<Longrightarrow> row_id r \<noteq> i \<and> row_id (f r) \<noteq> i) \<Longrightarrow>
    first_where (\<lambda>r. row_id r = i) (update_where P f rs) = first_where (\<lambda>r. row_id r = i) rs"
  by (induction rs) (auto simp: update_where_def first_where_Cons)

lemma find_update_same:
  "(\<And>r. row_id r = i \<Longrightarrow> row_id (f r) = i) \<Longrightarrow>
    first_where (\<lambda>r. row_id r = i) (update_where (\<lambda>r. row_id r = i) f rs) =
      map_option f (first_where (\<lambda>r. row_id r = i) rs)"
  by (induction rs) (auto simp: update_where_def first_where_Cons)

lemma row_id_dupdate: "dhas rec ''id'' \<Longrightarrow> distinct (map fst rec) \<Longrightarrow> row_id (dupdate r rec) = row_id rec"
  by (simp add: row_id_def col_str_def dget_dupdate)

lemma upsert_row_other:
  assumes u: "upsert_row t rec db = Inr db'" and i: "row_id rec \<noteq> i" and rec: "dhas rec ''id''" "distinct (map fst rec)"
  shows "find_row db' t i = find_row db t i"
proof (cases "find_row db t (row_id rec)")
  case None
  with u have "l_rows db' t = l_rows db t @ [rec]" by (auto simp: upsert_row_def Let_def split: if_splits)
  with i show ?thesis by (auto simp: find_row_def first_where_append first_where_Cons split: option.splits)
next
  case (Some r)
  with u have "l_rows db' t = update_where (\<lambda>r. row_id r = row_id rec) (\<lambda>r. dupdate r rec) (l_rows db t)"
    by (auto simp: upsert_row_def Let_def split: if_splits)
  with i rec show ?thesis by (simp add: find_row_def find_update_other row_id_dupdate)
qed

lemma upsert_row_self:
  assumes u: "upsert_row t rec db = Inr db'" and rec: "dhas rec ''id''" "distinct (map fst rec)"
  shows "\<exists>r. find_row db' t (row_id rec) = Some r \<and> (\<forall>k. dhas rec k \<longrightarrow> dget r k = dget rec k)"
proof (cases "find_row db t (row_id rec)")
  case None
  with u have "l_rows db' t = l_rows db t @ [rec]" by (auto simp: upsert_row_def Let_def split: if_splits)
  with None show ?thesis by (simp add: find_row_def first_where_append first_where_Cons)
next
  case (Some r)
  with u have "l_rows db' t = update_where (\<lambda>r. row_id r = row_id rec) (\<lambda>r. dupdate r rec) (l_rows db t)"
    by (auto simp: upsert_row_def Let_def split: if_splits)
  with Some rec have "find_row db' t (row_id rec) = Some (dupdate r rec)"
    by (simp add: find_row_def find_update_same row_id_dupdate)
  then show ?thesis using rec(2) by (simp add: dget_dupdate)
qed


lemma dhas_dupdate: "dhas (dupdate d new) k \<longleftrightarrow> dhas new k \<or> dhas d k"
  by (induction new arbitrary: d) (auto simp: dhas_Cons)

lemma distinct_dupdate: "distinct (map fst d) \<Longrightarrow> distinct (map fst (dupdate d new))"
  by (induction new arbitrary: d) (auto simp: dset_def distinct_update)

lemma norm_keys_fst: "norm_keys ks meta = Inr m \<Longrightarrow> map fst m = ks"
  by (induction ks arbitrary: m) auto

lemma norm_keys_no_integrity: "norm_keys ks meta \<noteq> Inl CIntegrityError"
  by (induction ks) (auto simp: rbind_Inl_iff cint_def split: if_splits option.splits)

lemma scored_record_keys:
  assumes "scored_record p ent = Inr rec"
  shows "dhas rec ''id''" "distinct (map fst rec)" "row_id rec = py_str (dget ent ''id'')"
    "dget rec ''project_id'' = VStr p" "dget rec ''dirty'' = VInt 0" "dhas rec ''version''" "dhas rec ''dirty''" "dhas rec ''project_id''"
    "int_or (dget ent ''version'') 0 = Inr v \<Longrightarrow> dget rec ''version'' = VInt v"
proof -
  obtain m ver probability impact meta where m: "norm_keys SCORED_ENTITY_META_KEYS meta = Inr m"
    and v: "int_or (dget ent ''version'') 0 = Inr ver"
    and rec: "rec = dupdate [(''id'', VStr (py_str (dget ent ''id''))), (''project_id'', VStr p),
                      (''title'', VStr (str_or_empty (dget ent ''title''))),
                      (''probability'', VInt probability), (''impact'', VInt impact)]
               (m @ [(''version'', VInt ver), (''is_deleted'', flag (dget ent ''is_deleted'')),
                     (''updated_at'', VStr (str_or_empty (dget ent ''updated_at''))), (''dirty'', VInt 0)])"
    using assms unfolding scored_record_def norm_scored_meta_def Let_def by auto
  have f: "map fst m = SCORED_ENTITY_META_KEYS" by (rule norm_keys_fst [OF m])
  define tail where "tail = m @ [(''version'', VInt ver), (''is_deleted'', flag (dget ent ''is_deleted'')),
                     (''updated_at'', VStr (str_or_empty (dget ent ''updated_at''))), (''dirty'', VInt 0)]"
  have ks: "map fst tail = SCORED_ENTITY_META_KEYS @ [''version'', ''is_deleted'', ''updated_at'', ''dirty'']"
    by (simp add: tail_def f)
  have d: "distinct (map fst tail)" unfolding ks by (simp add: SCORED_ENTITY_META_KEYS_def)
  have h: "dhas tail k \<longleftrightarrow> k \<in> set (SCORED_ENTITY_META_KEYS @ [''version'', ''is_deleted'', ''updated_at'', ''dirty''])" for k
    unfolding dhas_fst ks [symmetric] by simp
  have nk: "k \<notin> set SCORED_ENTITY_META_KEYS \<Longrightarrow> map_of m k = None" for k using f by (metis list.set_map map_of_eq_None_iff)
  have dv: "dget tail ''version'' = VInt ver" "dget tail ''dirty'' = VInt 0"
    by (simp_all add: tail_def dget_def map_add_def nk SCORED_ENTITY_META_KEYS_def)
  note g = dget_dupdate [OF d]
  show "dhas rec ''id''" "dhas rec ''version''" "dhas rec ''dirty''" "dhas rec ''project_id''"
    unfolding rec tail_def [symmetric] by (simp_all add: dhas_dupdate h dhas_Cons)
  show "distinct (map fst rec)" unfolding rec by (rule distinct_dupdate) simp
  show "row_id rec = py_str (dget ent ''id'')"
    unfolding rec tail_def [symmetric]
    by (simp add: row_id_def col_str_def g h SCORED_ENTITY_META_KEYS_def dget_Cons str_or_empty_def py_str_def)
  show "dget rec ''project_id'' = VStr p"
    unfolding rec tail_def [symmetric] by (simp add: g h SCORED_ENTITY_META_KEYS_def dget_Cons)
  show "dget rec ''dirty'' = VInt 0" unfolding rec tail_def [symmetric] by (simp add: g h dv)
  show "int_or (dget ent ''version'') 0 = Inr v \<Longrightarrow> dget rec ''version'' = VInt v"
    unfolding rec tail_def [symmetric] using v by (simp add: g h dv)
qed

subsection \<open>Applying server rows\<close>

text \<open>
  The contract the five pull appliers share: a server row is written only where no local change is
  queued. A row with a queued change keeps every column but a code another record now owns, and an
  outbox entry keeps everything but the saved server copy of its conflict.
\<close>

locale pull_applier =
  fixes one :: "string list \<Rightarrow> dict \<Rightarrow> ldb \<Rightarrow> ldb cresult" and table :: string
  assumes one_core: "one ids raw db = Inr db' \<Longrightarrow> map ob_core (l_outbox db') = map ob_core (l_outbox db)"
    and one_state: "one ids raw db = Inr db' \<Longrightarrow> l_sync_state db' = l_sync_state db"
    and one_others: "one ids raw db = Inr db' \<Longrightarrow> t \<noteq> table \<Longrightarrow> l_rows db' t = l_rows db t"
    and one_queued: "one ids raw db = Inr db' \<Longrightarrow> i \<in> set ids \<Longrightarrow>
      rel_option same_but_code (find_row db table i) (find_row db' table i)"
begin

lemma each_core: "each (one ids) raws db = Inr db' \<Longrightarrow> map ob_core (l_outbox db') = map ob_core (l_outbox db)"
  by (induction raws arbitrary: db) (auto dest: one_core)

lemma each_state: "each (one ids) raws db = Inr db' \<Longrightarrow> l_sync_state db' = l_sync_state db"
  by (induction raws arbitrary: db) (auto dest: one_state)

lemma each_others: "each (one ids) raws db = Inr db' \<Longrightarrow> t \<noteq> table \<Longrightarrow> l_rows db' t = l_rows db t"
  by (induction raws arbitrary: db) (auto dest: one_others)

lemma each_queued:
  "each (one ids) raws db = Inr db' \<Longrightarrow> i \<in> set ids \<Longrightarrow>
    rel_option same_but_code (find_row db table i) (find_row db' table i)"
proof (induction raws arbitrary: db)
  case (Cons r rs)
  then obtain db1 where "one ids r db = Inr db1" "each (one ids) rs db1 = Inr db'" by auto
  with Cons one_queued [of ids r db db1 i] show ?case by (blast intro: rel_option_trans)
qed simp

end


lemma find_update_id:
  "(\<And>r. row_id (f r) = row_id r) \<Longrightarrow> first_where (\<lambda>r. row_id r = i) (update_where P f rs) =
    map_option (\<lambda>r. if P r then f r else r) (first_where (\<lambda>r. row_id r = i) rs)"
  by (induction rs) (auto simp: update_where_def first_where_Cons)

lemma row_id_dset [simp]: "k \<noteq> ''id'' \<Longrightarrow> row_id (dset r k v) = row_id r"
  by (simp add: row_id_def col_str_def)

lemma release_code_frame:
  "l_outbox (release_code t p c e db) = l_outbox db" "l_sync_state (release_code t p c e db) = l_sync_state db"
  "t' \<noteq> t \<Longrightarrow> l_rows (release_code t p c e db) t' = l_rows db t'"
  "rel_option same_but_code (find_row db t i) (find_row (release_code t p c e db) t i)"
proof -
  show "rel_option same_but_code (find_row db t i) (find_row (release_code t p c e db) t i)"
    by (cases "find_row db t i") (auto simp: release_code_def find_row_def find_update_id same_but_code_def)
qed (simp_all add: release_code_def)

lemma apply_pull_scored_Inr:
  assumes "apply_pull_scored p ids t en ent db = Inr db'"
  obtains (queued) "py_str (dget ent ''id'') \<in> set ids"
      "remember_conflict_server_record p en (py_str (dget ent ''id'')) ent db = Inr db'"
  | (stored) rec where "py_str (dget ent ''id'') \<notin> set ids" "scored_record p ent = Inr rec"
      "upsert_row t rec (release_code t p (dget rec ''code'') (py_str (dget ent ''id'')) db) = Inr db'"
  using assms by (auto simp: apply_pull_scored_def Let_def split: if_splits)

interpretation scored_pull: pull_applier "\<lambda>ids. apply_pull_scored p ids t en" t for p t en
proof
  fix ids raw db db' t' i
  assume a: "apply_pull_scored p ids t en raw db = Inr db'"
  show "map ob_core (l_outbox db') = map ob_core (l_outbox db)" using a
    by (cases rule: apply_pull_scored_Inr) (auto dest: remember_frame upsert_row_Inr simp: release_code_frame)
  show "l_sync_state db' = l_sync_state db" using a
    by (cases rule: apply_pull_scored_Inr) (auto dest: remember_frame upsert_row_Inr simp: release_code_frame)
  show "t' \<noteq> t \<Longrightarrow> l_rows db' t' = l_rows db t'" using a
    by (cases rule: apply_pull_scored_Inr) (auto dest: remember_frame upsert_row_Inr simp: release_code_frame)
  show "i \<in> set ids \<Longrightarrow> rel_option same_but_code (find_row db t i) (find_row db' t i)"
    using a
  proof (cases rule: apply_pull_scored_Inr)
    case queued
    then show ?thesis by (simp add: find_row_def remember_frame(1))
  next
    case (stored rec)
    assume "i \<in> set ids"
    then have "row_id rec \<noteq> i" using stored(1) scored_record_keys(3) [OF stored(2)] by auto
    then have "find_row db' t i = find_row (release_code t p (dget rec ''code'') (py_str (dget raw ''id'')) db) t i"
      using upsert_row_other [OF stored(3)] scored_record_keys(1,2) [OF stored(2)] by blast
    then show ?thesis by (simp add: release_code_frame(4))
  qed
qed

text \<open>Actions and assessments share \<open>_apply_pull_entities\<close>; their builders set distinct columns.\<close>

lemma apply_pull_entity_Inr:
  assumes "apply_pull_entity p ids en t mapper build raw db = Inr db'"
  obtains (queued) obj where "mapper raw = Inr obj" "row_id obj \<in> set ids"
      "remember_conflict_server_record p en (row_id obj) raw db = Inr db'"
  | (stored) obj where "mapper raw = Inr obj" "row_id obj \<notin> set ids"
      "upsert_row t (dupdate (build db obj raw)
             [(''project_id'', VStr p), (''id'', VStr (row_id obj)), (''version'', dget obj ''version''),
              (''updated_at'', obj_str obj ''updated_at''), (''dirty'', VInt 0)]) db = Inr db'"
  using assms by (auto simp: apply_pull_entity_def Let_def split: if_splits)

lemma entity_record_keys:
  assumes "distinct (map fst (build :: dict))"
  shows "dhas (dupdate build [(''project_id'', VStr p), (''id'', VStr i), (''version'', v), (''updated_at'', u), (''dirty'', VInt 0)]) ''id''"
    "distinct (map fst (dupdate build [(''project_id'', VStr p), (''id'', VStr i), (''version'', v), (''updated_at'', u), (''dirty'', VInt 0)]))"
    "row_id (dupdate build [(''project_id'', VStr p), (''id'', VStr i), (''version'', v), (''updated_at'', u), (''dirty'', VInt 0)]) = i"
  using assms by (simp_all add: dhas_dupdate dhas_Cons distinct_dupdate row_id_def col_str_def str_or_empty_def py_str_def del: dupdate_Cons)
    (simp add: dget_dupdate dhas_Cons dget_Cons)

lemma entity_pull_applier:
  assumes b: "\<And>db obj raw. distinct (map fst (build db obj raw))"
  shows "pull_applier (\<lambda>ids. apply_pull_entity p ids en t mapper build) t"
proof
  fix ids raw db db' t' i
  assume a: "apply_pull_entity p ids en t mapper build raw db = Inr db'"
  show "map ob_core (l_outbox db') = map ob_core (l_outbox db)" using a
    by (cases rule: apply_pull_entity_Inr) (auto dest: remember_frame upsert_row_Inr)
  show "l_sync_state db' = l_sync_state db" using a
    by (cases rule: apply_pull_entity_Inr) (auto dest: remember_frame upsert_row_Inr)
  show "t' \<noteq> t \<Longrightarrow> l_rows db' t' = l_rows db t'" using a
    by (cases rule: apply_pull_entity_Inr) (auto dest: remember_frame upsert_row_Inr)
  show "i \<in> set ids \<Longrightarrow> rel_option same_but_code (find_row db t i) (find_row db' t i)"
    using a
  proof (cases rule: apply_pull_entity_Inr)
    case queued
    then show ?thesis by (simp add: find_row_def remember_frame(1))
  next
    case (stored obj)
    assume "i \<in> set ids"
    then have "row_id obj \<noteq> i" using stored(2) by auto
    then have "find_row db' t i = find_row db t i"
      using upsert_row_other [OF stored(3)] entity_record_keys [OF b] by simp
    then show ?thesis by simp
  qed
qed

interpretation action_pull: pull_applier
  "\<lambda>ids. apply_pull_entity p ids ''action'' ''actions'' action_from_mapping build_action_record" "''actions''" for p
  by (rule entity_pull_applier) (simp add: build_action_record_def)

interpretation assessment_pull: pull_applier
  "\<lambda>ids. apply_pull_entity p ids ''assessment'' ''assessments'' assessment_from_mapping (build_assessment_record p)"
  "''assessments''" for p
  by (rule entity_pull_applier) (simp add: build_assessment_record_def Let_def)

interpretation ticket_pull: pull_applier "\<lambda>ids. apply_pull_ticket p ids" "''helpdesk_tickets''" for p
proof
  fix ids raw db db' t' i
  assume a: "apply_pull_ticket p ids raw db = Inr db'"
  let ?i = "str_or_empty (dget raw ''id'')"
  consider "db' = db" | "?i \<in> set ids" "remember_conflict_server_record p ''helpdesk_ticket'' ?i raw db = Inr db'"
    | rec where "?i \<notin> set ids" "upsert_row ''helpdesk_tickets'' rec db = Inr db'" "row_id rec = ?i"
        "dhas rec ''id''" "distinct (map fst rec)"
    using a by (auto simp: apply_pull_ticket_def Let_def row_id_def col_str_def dget_Cons dhas_Cons
        str_or_empty_def py_str_def split: if_splits)
  note cases = this
  show "map ob_core (l_outbox db') = map ob_core (l_outbox db)"
    by (rule cases) (auto dest: remember_frame upsert_row_Inr)
  show "l_sync_state db' = l_sync_state db" by (rule cases) (auto dest: remember_frame upsert_row_Inr)
  show "t' \<noteq> ''helpdesk_tickets'' \<Longrightarrow> l_rows db' t' = l_rows db t'"
    by (rule cases) (auto dest: remember_frame upsert_row_Inr)
  show "i \<in> set ids \<Longrightarrow> rel_option same_but_code (find_row db ''helpdesk_tickets'' i) (find_row db' ''helpdesk_tickets'' i)"
  proof (rule cases, goal_cases)
    case (3 rec)
    then have "row_id rec \<noteq> i" by auto
    with 3 have "find_row db' ''helpdesk_tickets'' i = find_row db ''helpdesk_tickets'' i"
      by (intro upsert_row_other) auto
    then show ?case by simp
  qed (simp_all add: find_row_def remember_frame(1))
qed


subsection \<open>Whole pulls\<close>

text \<open>The rows of one project that have a queued change, as the appliers see them.\<close>

lemma pending_ids_queued:
  "e \<in> set (l_outbox db) \<Longrightarrow> ob_project_id e = p \<Longrightarrow> ob_entity e = en \<Longrightarrow> ob_entity_id e \<in> set (pending_outbox_ids db p en)"
  by (cases "ob_status e") (auto simp: pending_outbox_ids_def)

definition pull_entity :: "string \<Rightarrow> string \<Rightarrow> dict list \<Rightarrow> ldb \<Rightarrow> ldb cresult" where
  "pull_entity entity p items =
    (if entity = ''risk'' then apply_pull_risks p items
     else if entity = ''opportunity'' then apply_pull_opportunities p items
     else if entity = ''action'' then apply_pull_actions p items
     else if entity = ''assessment'' then apply_pull_assessments p items
     else apply_pull_helpdesk_tickets p items)"

lemmas pull_entity_defs = pull_entity_def apply_pull_risks_def apply_pull_opportunities_def
  apply_pull_actions_def apply_pull_assessments_def apply_pull_helpdesk_tickets_def
  apply_pull_scored_entities_def apply_pull_entities_def

lemma pull_entity_frame:
  assumes "pull_entity en p items db = Inr db'" "map_of TABLE_BY_ENTITY en = Some t"
  shows "map ob_core (l_outbox db') = map ob_core (l_outbox db)" "l_sync_state db' = l_sync_state db"
    "\<And>t'. t' \<noteq> t \<Longrightarrow> l_rows db' t' = l_rows db t'"
    "\<And>i. i \<in> set (pending_outbox_ids db p en) \<Longrightarrow> rel_option same_but_code (find_row db t i) (find_row db' t i)"
  using assms
  by (auto simp: pull_entity_defs TABLE_BY_ENTITY_def split: if_splits
      dest: scored_pull.each_core action_pull.each_core assessment_pull.each_core ticket_pull.each_core
        scored_pull.each_state action_pull.each_state assessment_pull.each_state ticket_pull.each_state
        scored_pull.each_others action_pull.each_others assessment_pull.each_others ticket_pull.each_others
        scored_pull.each_queued action_pull.each_queued assessment_pull.each_queued ticket_pull.each_queued)

text \<open>C11: Pulling server rows never overwrites local work: whatever the server sends for any of the five
  entities, a local row with a queued change keeps every column except a code that now belongs to another
  record, every outbox entry keeps its receipt id, operation, base version, payload and status, and rows of
  the other tables are untouched.\<close>

theorem pull_keeps_queued_rows:
  assumes "pull_entity entity p items db = Inr db'" "map_of TABLE_BY_ENTITY entity = Some t"
  shows "(\<forall>e \<in> set (l_outbox db). ob_project_id e = p \<longrightarrow> ob_entity e = entity \<longrightarrow>
      rel_option same_but_code (find_row db t (ob_entity_id e)) (find_row db' t (ob_entity_id e))) \<and>
    map ob_core (l_outbox db') = map ob_core (l_outbox db) \<and> (\<forall>t'. t' \<noteq> t \<longrightarrow> l_rows db' t' = l_rows db t')"
  using pull_entity_frame [OF assms] by (auto intro: pending_ids_queued)


theorem pull_keeps_queued_rows_witness:
  "\<exists>db'. pull_entity ''risk'' ''p'' [[(''id'', VStr ''r''), (''title'', VStr ''server''), (''version'', VInt 5)]]
      \<lparr>l_rows = (\<lambda>t. if t = ''risks'' then [[(''id'', VStr ''r''), (''project_id'', VStr ''p''), (''title'', VStr ''mine'')]] else []),
       l_outbox = [\<lparr>ob_change_id = ''c'', ob_project_id = ''p'', ob_entity = ''risk'', ob_op = ''upsert'', ob_entity_id = ''r'',
         ob_base_version = Some 4, ob_record = [], ob_status = Pending, ob_last_error = [], ob_failure_kind = [],
         ob_result = [], ob_retry_count = 0, ob_next_retry_at = [], ob_last_attempt_at = [], ob_created_at = ''t''\<rparr>],
       l_sync_state = []\<rparr> = Inr db' \<and>
     (\<exists>r. find_row db' ''risks'' ''r'' = Some r \<and> dget r ''title'' = VStr ''mine'')"
    (is "\<exists>db'. pull_entity _ _ ?items ?db = Inr db' \<and> _")
proof -
  have run: "pull_entity ''risk'' ''p'' ?items ?db = Inr ?db"
    by (simp add: pull_entity_defs pending_outbox_ids_def apply_pull_scored_def dhas_Cons dget_Cons
        remember_conflict_server_record_def first_where_def int_or_def cint_def py_int_def py_str_def Let_def)
  have t: "map_of TABLE_BY_ENTITY ''risk'' = Some ''risks''" by (simp add: TABLE_BY_ENTITY_def)
  from pull_keeps_queued_rows [OF run t]
  have "rel_option same_but_code (find_row ?db ''risks'' ''r'') (find_row ?db ''risks'' ''r'')" by simp
  then show ?thesis using run
    by (simp add: find_row_def first_where_def row_id_def col_str_def dget_Cons str_or_empty_def py_str_def)
qed

definition codes_unique :: "string \<Rightarrow> ldb \<Rightarrow> bool" where
  "codes_unique t db \<longleftrightarrow> (\<forall>r \<in> set (l_rows db t). \<forall>r' \<in> set (l_rows db t). \<not> code_clash r r')"

lemma code_clash_cong:
  "row_id a = row_id b \<Longrightarrow> dget a ''code'' = dget b ''code'' \<Longrightarrow> dget a ''project_id'' = dget b ''project_id'' \<Longrightarrow>
    code_clash a r = code_clash b r"
  by (simp add: code_clash_def)

lemma code_clash_sym: "code_clash a b = code_clash b a"
  by (auto simp: code_clash_def)

lemma code_clash_self [simp]: "row_id a = row_id b \<Longrightarrow> \<not> code_clash a b"
  by (simp add: code_clash_def)

lemma upsert_codes_unique:
  assumes cu: "codes_unique t db" and u: "upsert_row t rec db = Inr db'" and st: "is_scored_table t"
    and rec: "dhas rec ''id''" "distinct (map fst rec)" "dhas rec ''code''" "dhas rec ''project_id''"
  shows "codes_unique t db'"
proof -
  have same: "row_id (dupdate r rec) = row_id rec" "dget (dupdate r rec) ''code'' = dget rec ''code''"
    "dget (dupdate r rec) ''project_id'' = dget rec ''project_id''" for r
    using rec by (simp_all add: row_id_dupdate dget_dupdate)
  have clash: "code_clash (dupdate r rec) x = code_clash rec x" for r x
    by (rule code_clash_cong) (simp_all add: same)
  have new: "\<not> code_clash rec r" if "r \<in> set (l_rows db t)" for r
    using u st that clash by (auto simp: upsert_row_def Let_def split: if_splits option.splits)
  have mem: "x \<in> set (l_rows db t) \<or> (\<forall>y. code_clash x y = code_clash rec y)" if "x \<in> set (l_rows db' t)" for x
    using u that clash by (auto simp: upsert_row_def Let_def update_where_def split: if_splits option.splits)
  show ?thesis unfolding codes_unique_def
  proof (intro ballI)
    fix x y assume xy: "x \<in> set (l_rows db' t)" "y \<in> set (l_rows db' t)"
    consider "x \<in> set (l_rows db t)" "y \<in> set (l_rows db t)"
      | "\<forall>z. code_clash x z = code_clash rec z" "y \<in> set (l_rows db t)"
      | "x \<in> set (l_rows db t)" "\<forall>z. code_clash y z = code_clash rec z"
      | "\<forall>z. code_clash x z = code_clash rec z" "\<forall>z. code_clash y z = code_clash rec z"
      using mem [OF xy(1)] mem [OF xy(2)] by blast
    then show "\<not> code_clash x y"
    proof cases
      case 1 with cu show ?thesis by (auto simp: codes_unique_def)
    next
      case 2 with new show ?thesis by simp
    next
      case 3 with new show ?thesis by (simp add: code_clash_sym [of x y])
    next
      case 4
      then have "code_clash x y = code_clash rec rec" by (metis code_clash_sym)
      then show ?thesis by simp
    qed
  qed
qed

lemma release_codes_unique:
  assumes cu: "codes_unique t db"
  shows "codes_unique t (release_code t p c e db)"
  unfolding codes_unique_def
proof (intro ballI)
  fix x y assume xy: "x \<in> set (l_rows (release_code t p c e db) t)" "y \<in> set (l_rows (release_code t p c e db) t)"
  have orig: "\<exists>o' \<in> set (l_rows db t). z = o' \<or> z = dset o' ''code'' VNone"
    if "z \<in> set (l_rows (release_code t p c e db) t)" for z
    using that by (auto simp: release_code_def update_where_def)
  obtain a b where "a \<in> set (l_rows db t)" "x = a \<or> x = dset a ''code'' VNone"
    "b \<in> set (l_rows db t)" "y = b \<or> y = dset b ''code'' VNone"
    using orig [OF xy(1)] orig [OF xy(2)] by blast
  moreover from this(1,3) cu have "\<not> code_clash a b" by (simp add: codes_unique_def)
  ultimately show "\<not> code_clash x y" by (auto simp: code_clash_def)
qed

lemma scored_record_code:
  assumes "scored_record p ent = Inr rec"
  shows "dhas rec ''code''"
proof -
  obtain base m tail meta where m: "norm_keys SCORED_ENTITY_META_KEYS meta = Inr m" and rec: "rec = dupdate base (m @ tail)"
    using assms unfolding scored_record_def norm_scored_meta_def Let_def by auto
  have "map fst m = SCORED_ENTITY_META_KEYS" by (rule norm_keys_fst [OF m])
  then have "''code'' \<in> set (map fst m)" by (simp only: SCORED_ENTITY_META_KEYS_def) simp
  then have "dhas (m @ tail) ''code''" by (simp only: dhas_fst set_append image_Un set_map) blast
  then show ?thesis by (simp only: rec dhas_dupdate simp_thms)
qed

lemma released_no_clash:
  assumes "row_id rec = e" "dget rec ''project_id'' = VStr p" "r \<in> set (l_rows (release_code t p (dget rec ''code'') e db) t)"
  shows "\<not> code_clash rec r"
proof
  assume c: "code_clash rec r"
  from assms(3) have "r \<in> (\<lambda>x. if col_str x ''project_id'' = p \<and> \<not> is_none (dget rec ''code'') \<and>
      dget x ''code'' = dget rec ''code'' \<and> row_id x \<noteq> e then dset x ''code'' VNone else x) ` set (l_rows db t)"
    by (simp only: release_code_def update_where_def set_rows_simps set_map)
  then obtain x where x: "r = (if col_str x ''project_id'' = p \<and> \<not> is_none (dget rec ''code'') \<and>
      dget x ''code'' = dget rec ''code'' \<and> row_id x \<noteq> e then dset x ''code'' VNone else x)"
    by (rule imageE)
  from c have r: "row_id r \<noteq> e" "\<not> is_none (dget rec ''code'')" "dget r ''code'' = dget rec ''code''" "dget r ''project_id'' = VStr p"
    using assms(1,2) by (auto simp: code_clash_def)
  then have "col_str r ''project_id'' = p" by (simp add: col_str_def str_or_empty_def py_str_def)
  with r x show False by (auto simp: is_none_iff split: if_splits)
qed

lemma no_integrity:
  "int_or v n \<noteq> Inl CIntegrityError" "scored_record p ent \<noteq> Inl CIntegrityError"
  "remember_conflict_server_record p en i rec db \<noteq> Inl CIntegrityError"
proof -
  show i: "int_or v n \<noteq> Inl CIntegrityError" for v n by (simp add: int_or_def cint_def split: option.splits)
  show "scored_record p ent \<noteq> Inl CIntegrityError"
    unfolding scored_record_def norm_scored_meta_def Let_def by (simp add: rbind_Inl_iff i norm_keys_no_integrity)
  show "remember_conflict_server_record p en i rec db \<noteq> Inl CIntegrityError"
    by (simp add: remember_conflict_server_record_def Let_def rbind_Inl_iff i split: option.splits)
qed

lemma apply_pull_scored_codes:
  assumes cu: "codes_unique t db" and pk: "project_known db p" and st: "is_scored_table t"
  shows "apply_pull_scored p ids t en ent db \<noteq> Inl CIntegrityError"
    and "apply_pull_scored p ids t en ent db = Inr db' \<Longrightarrow> codes_unique t db' \<and> project_known db' p"
proof -
  have pj: "l_rows db' ''projects'' = l_rows db ''projects'' \<Longrightarrow> project_known db' p" for db'
    using pk by (simp add: project_known_def find_row_def)
  have tp: "t \<noteq> ''projects''" using st by (auto simp: is_scored_table_def)
  show "apply_pull_scored p ids t en ent db \<noteq> Inl CIntegrityError"
  proof
    assume a: "apply_pull_scored p ids t en ent db = Inl CIntegrityError"
    then obtain rec where rec: "scored_record p ent = Inr rec"
      and u: "upsert_row t rec (release_code t p (dget rec ''code'') (py_str (dget ent ''id'')) db) = Inl CIntegrityError"
      by (auto simp: apply_pull_scored_def Let_def rbind_Inl_iff no_integrity split: if_splits)
    note k = scored_record_keys [OF rec] scored_record_code [OF rec]
    let ?db = "release_code t p (dget rec ''code'') (py_str (dget ent ''id'')) db"
    have same: "row_id (dupdate r rec) = row_id rec" "dget (dupdate r rec) ''code'' = dget rec ''code''"
      "dget (dupdate r rec) ''project_id'' = dget rec ''project_id''" for r
      using k by (simp_all add: row_id_dupdate dget_dupdate)
    have clash: "code_clash (dupdate r rec) x = code_clash rec x" for r x
      by (rule code_clash_cong) (simp_all add: same)
    have "\<not> code_clash rec r" if "r \<in> set (l_rows ?db t)" for r
      using released_no_clash [OF k(3,4) that] .
    moreover have "project_known ?db p" by (rule pj) (simp add: release_code_frame(3) tp [symmetric])
    moreover have "col_str rec ''project_id'' = p" "\<And>r. col_str (dupdate r rec) ''project_id'' = p"
      using k(4) same(3) by (simp_all add: col_str_def str_or_empty_def py_str_def)
    ultimately show False using u clash by (auto simp: upsert_row_def Let_def split: if_splits option.splits)
  qed
  assume a: "apply_pull_scored p ids t en ent db = Inr db'"
  have "l_rows db' ''projects'' = l_rows db ''projects''" using scored_pull.one_others [OF a] tp by metis
  moreover from a have "codes_unique t db'"
  proof (cases rule: apply_pull_scored_Inr)
    case queued
    then show ?thesis using cu by (simp add: codes_unique_def remember_frame(1))
  next
    case (stored rec)
    note k = scored_record_keys [OF stored(2)] scored_record_code [OF stored(2)]
    show ?thesis by (rule upsert_codes_unique [OF release_codes_unique [OF cu] stored(3) st k(1,2,10,8)])
  qed
  ultimately show "codes_unique t db' \<and> project_known db' p" using pj by blast
qed


lemma scored_pull_codes:
  assumes "codes_unique t db" "project_known db p" "is_scored_table t"
  shows "each (apply_pull_scored p ids t en) items db \<noteq> Inl CIntegrityError \<and>
    (\<forall>db'. each (apply_pull_scored p ids t en) items db = Inr db' \<longrightarrow> codes_unique t db')"
  using assms(1,2)
proof (induction items arbitrary: db)
  case (Cons ent items)
  note one = apply_pull_scored_codes [OF Cons.prems assms(3)]
  show ?case
  proof (cases "apply_pull_scored p ids t en ent db")
    case (Inl e)
    with one(1) show ?thesis by auto
  next
    case (Inr db1)
    with one(2) have "codes_unique t db1" "project_known db1 p" by auto
    with Cons.IH [of db1] Inr show ?thesis by simp
  qed
qed simp

text \<open>C29: Server codes can be swapped or collide with provisional offline codes, and still a pull of risks or
  opportunities never fails on the unique code index of the local database: the stale owner is released
  first. Codes stay unique per project.\<close>

theorem pull_never_hits_code_index:
  assumes "codes_unique t db" "project_known db p" "is_scored_table t"
  shows "apply_pull_scored_entities p items t en db \<noteq> Inl CIntegrityError \<and>
    (\<forall>db'. apply_pull_scored_entities p items t en db = Inr db' \<longrightarrow> codes_unique t db')"
  unfolding apply_pull_scored_entities_def using scored_pull_codes [OF assms] by blast

definition swap_store :: ldb where
  "swap_store = \<lparr>l_rows = (\<lambda>t. if t = ''projects'' then [[(''id'', VStr ''p'')]]
      else if t = ''risks'' then [[(''id'', VStr ''a''), (''project_id'', VStr ''p''), (''code'', VStr ''R-001'')],
                                [(''id'', VStr ''b''), (''project_id'', VStr ''p''), (''code'', VStr ''R-002'')]]
      else []), l_outbox = [], l_sync_state = []\<rparr>"

theorem pull_never_hits_code_index_witness:
  "apply_pull_scored_entities ''p'' [[(''id'', VStr ''a''), (''code'', VStr ''R-002'')],
      [(''id'', VStr ''b''), (''code'', VStr ''R-001'')]] ''risks'' ''risk'' swap_store \<noteq> Inl CIntegrityError"
proof -
  have "codes_unique ''risks'' swap_store" by (simp add: codes_unique_def swap_store_def code_clash_def dget_Cons)
  moreover have "project_known swap_store ''p''"
    by (simp add: project_known_def find_row_def swap_store_def first_where_def row_id_def col_str_def dget_Cons
        str_or_empty_def py_str_def)
  ultimately show ?thesis
    using pull_never_hits_code_index [of "''risks''" swap_store "''p''"] by (simp add: is_scored_table_def)
qed

end
