(* ===== verification/Client_Outbox.thy ===== *)
theory Client_Outbox
  imports Client_Store
begin

section \<open>The outbox of unsent changes\<close>

text \<open>
  \<open>local_storage/sync_outbox_queue.py\<close>. Every operation of \<open>OutboxStore\<close> as a function on the local store;
  a new receipt id and the current time are arguments. Timestamps are ISO texts, compared as text as SQLite
  compares them. JSON columns are kept decoded, so \<open>json.loads (json.dumps d)\<close> is \<open>d\<close>; the decoder is needed
  only for failure texts and is a parameter.
\<close>

definition RETRY_DELAYS_SECONDS :: "int list" where
  "RETRY_DELAYS_SECONDS = [2, 5, 15, 60, 300]"

definition BLOCKING_FAILURE_KINDS :: "string list" where
  "BLOCKING_FAILURE_KINDS = map kind_value [AUTHENTICATION, PERMISSION, VALIDATION, CONFLICT, ERROR]"

definition create_may_exist_remotely :: "outbox_row option \<Rightarrow> bool" where
  "create_may_exist_remotely entry = (case entry of None \<Rightarrow> False
     | Some e \<Rightarrow> ob_op e = ''upsert'' \<and> (ob_base_version e \<noteq> None \<or> ob_last_attempt_at e \<noteq> []))"

definition server_record_of :: "dict \<Rightarrow> dict option" where
  "server_record_of result = as_dict (dget result ''server_record'')"

definition oldest_first :: "outbox_row list \<Rightarrow> outbox_row list" where
  "oldest_first = sort_key ob_created_at"

subsection \<open>Counts and listings\<close>

text \<open>\<open>project_id\<close> filters only when it is given and not empty.\<close>

definition in_project :: "string option \<Rightarrow> outbox_row \<Rightarrow> bool" where
  "in_project project_id e = (case project_id of None \<Rightarrow> True | Some p \<Rightarrow> p = [] \<or> ob_project_id e = p)"

definition count_by_status :: "outbox_status \<Rightarrow> string option \<Rightarrow> ldb \<Rightarrow> nat" where
  "count_by_status st project_id db = count_where (\<lambda>e. ob_status e = st \<and> in_project project_id e) (l_outbox db)"

definition pending_count :: "string option \<Rightarrow> ldb \<Rightarrow> nat" where
  "pending_count project_id db =
     count_where (\<lambda>e. ob_status e \<in> {Pending, Retry} \<and> in_project project_id e) (l_outbox db)"

definition deferred_count :: "string option \<Rightarrow> ldb \<Rightarrow> nat" where
  "deferred_count = count_by_status Retry"

definition blocked_count :: "string option \<Rightarrow> ldb \<Rightarrow> nat" where
  "blocked_count = count_by_status Blocked"

definition conflict_count :: "string option \<Rightarrow> ldb \<Rightarrow> nat" where
  "conflict_count project_id db = count_where (\<lambda>e. ob_status e = Blocked \<and>
     ob_failure_kind e = ''conflict'' \<and> in_project project_id e) (l_outbox db)"

definition error_count :: "string option \<Rightarrow> ldb \<Rightarrow> nat" where
  "error_count project_id db = count_where (\<lambda>e. ob_status e = Blocked \<and>
     ob_failure_kind e \<noteq> ''conflict'' \<and> in_project project_id e) (l_outbox db)"

definition safe_json_loads :: "(string \<Rightarrow> pyval option) \<Rightarrow> string \<Rightarrow> dict" where
  "safe_json_loads loads raw =
    (if raw = [] then []
     else case loads raw of
            None \<Rightarrow> [(''detail'', VStr raw)]
          | Some (VDict d) \<Rightarrow> d
          | Some v \<Rightarrow> [(''detail'', VStr (py_str v))])"

definition opt_version :: "int option \<Rightarrow> pyval" where
  "opt_version v = (case v of None \<Rightarrow> VNone | Some i \<Rightarrow> VInt i)"

definition or_all :: "pyval list \<Rightarrow> pyval \<Rightarrow> pyval" where
  "or_all vs v = foldr py_or vs v"

definition blocked_row_to_dict :: "(string \<Rightarrow> pyval option) \<Rightarrow> outbox_row \<Rightarrow> dict" where
  "blocked_row_to_dict loads e =
    (let outcome = (if ob_result e = [] then safe_json_loads loads (ob_last_error e) else ob_result e) in
     [(''change_id'', VStr (ob_change_id e)), (''project_id'', VStr (ob_project_id e)),
      (''entity'', VStr (ob_entity e)), (''op'', VStr (ob_op e)), (''entity_id'', VStr (ob_entity_id e)),
      (''base_version'', opt_version (ob_base_version e)), (''record'', VDict (ob_record e)),
      (''title'', VStr (py_str (or_all [dget (ob_record e) ''title'', dget (ob_record e) ''name'',
          dget outcome ''title'', dget outcome ''name''] (VStr (ob_entity_id e))))),
      (''reason'', VStr (py_str (or_all [dget outcome ''reason'', dget outcome ''message'', dget outcome ''detail'',
          VStr (ob_last_error e)] (VStr ''Blocked by sync error'')))),
      (''server_version'', dget outcome ''server_version''), (''server_record'', dget outcome ''server_record''),
      (''server_updated_at'', dget outcome ''server_updated_at''),
      (''failure_kind'', VStr (if ob_failure_kind e = [] then ''error'' else ob_failure_kind e)),
      (''detail'', VDict outcome), (''created_at'', VStr (ob_created_at e))])"

definition get_blocked_change :: "(string \<Rightarrow> pyval option) \<Rightarrow> string \<Rightarrow> ldb \<Rightarrow> dict option" where
  "get_blocked_change loads change_id db =
     map_option (blocked_row_to_dict loads)
       (first_where (\<lambda>e. ob_change_id e = change_id \<and> ob_status e = Blocked) (l_outbox db))"

definition clamp_limit :: "int \<Rightarrow> int" where
  "clamp_limit limit = max 1 (min limit 1000)"

definition get_blocked_changes :: "(string \<Rightarrow> pyval option) \<Rightarrow> string option \<Rightarrow> int \<Rightarrow> ldb \<Rightarrow> dict list" where
  "get_blocked_changes loads project_id limit db =
     map (blocked_row_to_dict loads) (take (nat (clamp_limit limit))
       (oldest_first (filter (\<lambda>e. in_project project_id e \<and> ob_status e = Blocked) (l_outbox db))))"

subsection \<open>Queueing\<close>

definition oldest_open_entry :: "string \<Rightarrow> string \<Rightarrow> string \<Rightarrow> ldb \<Rightarrow> outbox_row option" where
  "oldest_open_entry project_id entity entity_id db =
    (case oldest_first (filter (\<lambda>e. same_entity project_id entity entity_id e \<and>
             ob_status e \<in> {Pending, Retry, Blocked}) (l_outbox db)) of
       [] \<Rightarrow> None | e # _ \<Rightarrow> Some e)"

definition delete_open_entries :: "string \<Rightarrow> string \<Rightarrow> string \<Rightarrow> ldb \<Rightarrow> ldb" where
  "delete_open_entries project_id entity entity_id db =
     db\<lparr>l_outbox := delete_where (\<lambda>e. same_entity project_id entity entity_id e \<and>
          ob_status e \<in> {Pending, Retry, Blocked}) (l_outbox db)\<rparr>"

definition new_entry :: "string \<Rightarrow> string \<Rightarrow> string \<Rightarrow> string \<Rightarrow> string \<Rightarrow> string \<Rightarrow> int option \<Rightarrow> dict \<Rightarrow> outbox_row" where
  "new_entry change_id now project_id entity op entity_id base_version rec =
    \<lparr>ob_change_id = change_id, ob_project_id = project_id, ob_entity = entity, ob_op = op, ob_entity_id = entity_id,
     ob_base_version = base_version, ob_record = rec, ob_status = Pending, ob_last_error = [],
     ob_failure_kind = [], ob_result = [], ob_retry_count = 0, ob_next_retry_at = [],
     ob_last_attempt_at = [], ob_created_at = now\<rparr>"

definition replace_outbox_entry ::
  "string \<Rightarrow> string \<Rightarrow> string \<Rightarrow> string \<Rightarrow> string \<Rightarrow> string \<Rightarrow> int option \<Rightarrow> dict \<Rightarrow> bool \<Rightarrow> ldb \<Rightarrow> string \<times> ldb" where
  "replace_outbox_entry new_id now project_id entity op entity_id base_version rec force_rebase db =
    (let existing = (if force_rebase then None else oldest_open_entry project_id entity entity_id db);
         insert = (\<lambda>base. (new_id, let db' = delete_open_entries project_id entity entity_id db
           in db'\<lparr>l_outbox := l_outbox db' @ [new_entry new_id now project_id entity op entity_id base rec]\<rparr>))
     in case existing of
          None \<Rightarrow> insert base_version
        | Some e \<Rightarrow>
            if ob_status e = Blocked \<and> ob_failure_kind e = ''conflict''
            then (ob_change_id e, db\<lparr>l_outbox := update_where (\<lambda>x. ob_change_id x = ob_change_id e)
                    (\<lambda>x. x\<lparr>ob_op := op, ob_record := rec\<rparr>) (l_outbox db)\<rparr>)
            else insert (if ob_base_version e = None \<and> create_may_exist_remotely existing then Some 1
                         else ob_base_version e))"

text \<open>\<open>int(base_version)\<close> of an untyped argument; a value that does not convert is ignored.\<close>

definition override_base_version :: "string \<Rightarrow> string \<Rightarrow> string \<Rightarrow> pyval \<Rightarrow> ldb \<Rightarrow> ldb" where
  "override_base_version project_id entity entity_id base_version db =
    (case py_int base_version of
       None \<Rightarrow> db
     | Some bv \<Rightarrow> db\<lparr>l_outbox := update_where (\<lambda>e. same_entity project_id entity entity_id e \<and> ob_status e \<in> {Pending, Retry})
         (\<lambda>e. e\<lparr>ob_base_version := (if bv \<ge> 1 then Some bv else None)\<rparr>) (l_outbox db)\<rparr>)"

definition discard_entity_changes :: "string \<Rightarrow> string \<Rightarrow> string \<Rightarrow> ldb \<Rightarrow> ldb" where
  "discard_entity_changes = delete_open_entries"

definition remote_create_may_exist :: "string \<Rightarrow> string \<Rightarrow> string \<Rightarrow> ldb \<Rightarrow> bool" where
  "remote_create_may_exist project_id entity entity_id db =
     create_may_exist_remotely (oldest_open_entry project_id entity entity_id db)"

text \<open>\<open>get_risk_project_and_version\<close> and its siblings: the row's version, \<open>KeyError\<close> when it is missing.\<close>

definition get_project_and_version :: "string \<Rightarrow> string \<Rightarrow> ldb \<Rightarrow> (string \<times> int) cresult" where
  "get_project_and_version entity entity_id db =
    (case find_row db (the (map_of TABLE_BY_ENTITY entity)) entity_id of
       None \<Rightarrow> Inl (CKeyError ((if entity = ''helpdesk_ticket'' then ''helpdesk ticket'' else entity) @ '' not found in local store''))
     | Some r \<Rightarrow> rbind (int_or (dget r ''version'') 0) (\<lambda>v. Inr (col_str r ''project_id'', v)))"

definition known_version :: "int \<Rightarrow> int option" where
  "known_version ver = (if ver \<ge> 1 then Some ver else None)"

definition queue_simple_upsert :: "string \<Rightarrow> string \<Rightarrow> string \<Rightarrow> string \<Rightarrow> string \<Rightarrow> dict \<Rightarrow> ldb \<Rightarrow> ldb cresult" where
  "queue_simple_upsert new_id now project_id entity entity_id rec db =
    rbind (get_project_and_version entity entity_id db) (\<lambda>(_, ver).
      Inr (snd (replace_outbox_entry new_id now project_id entity ''upsert'' entity_id (known_version ver) rec False db)))"

definition queue_scored_upsert :: "string \<Rightarrow> string \<Rightarrow> string \<Rightarrow> string \<Rightarrow> dict \<Rightarrow> ldb \<Rightarrow> ldb cresult" where
  "queue_scored_upsert new_id now project_id entity rec db =
    (if \<not> dhas rec ''id'' then Inl (CKeyError ''id'')
     else let entity_id = py_str (dget rec ''id'') in
       rbind (get_project_and_version entity entity_id db) (\<lambda>(_, ver).
       let clean = map (\<lambda>k. (k, dget rec k)) (filter (dhas rec) SCORED_ENTITY_OUTBOX_ALLOWED_KEYS) in
       rbind (int_or (dget clean ''probability'') 1) (\<lambda>probability.
       rbind (int_or (dget clean ''impact'') 1) (\<lambda>impact.
         let clean = dset (dset (dset (dset clean ''id'' (VStr entity_id))
               ''title'' (VStr (str_or_empty (dget clean ''title''))))
               ''probability'' (VInt probability)) ''impact'' (VInt impact)
         in Inr (snd (replace_outbox_entry new_id now project_id entity ''upsert'' entity_id (known_version ver) clean False db))))))"

definition queue_delete :: "string \<Rightarrow> string \<Rightarrow> string \<Rightarrow> string \<Rightarrow> string \<Rightarrow> ldb \<Rightarrow> ldb cresult" where
  "queue_delete new_id now project_id entity entity_id db =
    rbind (get_project_and_version entity entity_id db) (\<lambda>(_, ver).
      let replace = (\<lambda>base force. Inr (snd (replace_outbox_entry new_id now project_id entity ''delete'' entity_id base
                       [(''id'', VStr entity_id)] force db))) in
      if ver \<ge> 1 then replace (Some ver) False
      else if remote_create_may_exist project_id entity entity_id db then replace (Some 1) True
      else Inr (discard_entity_changes project_id entity entity_id db))"

definition queue_risk_upsert :: "string \<Rightarrow> string \<Rightarrow> string \<Rightarrow> dict \<Rightarrow> ldb \<Rightarrow> ldb cresult" where
  "queue_risk_upsert new_id now project_id = queue_scored_upsert new_id now project_id ''risk''"

definition queue_risk_delete :: "string \<Rightarrow> string \<Rightarrow> string \<Rightarrow> string \<Rightarrow> ldb \<Rightarrow> ldb cresult" where
  "queue_risk_delete new_id now project_id = queue_delete new_id now project_id ''risk''"

definition queue_opportunity_upsert :: "string \<Rightarrow> string \<Rightarrow> string \<Rightarrow> dict \<Rightarrow> ldb \<Rightarrow> ldb cresult" where
  "queue_opportunity_upsert new_id now project_id = queue_scored_upsert new_id now project_id ''opportunity''"

definition queue_opportunity_delete :: "string \<Rightarrow> string \<Rightarrow> string \<Rightarrow> string \<Rightarrow> ldb \<Rightarrow> ldb cresult" where
  "queue_opportunity_delete new_id now project_id = queue_delete new_id now project_id ''opportunity''"

definition queue_action_upsert :: "string \<Rightarrow> string \<Rightarrow> string \<Rightarrow> string \<Rightarrow> dict \<Rightarrow> ldb \<Rightarrow> ldb cresult" where
  "queue_action_upsert new_id now action_id project_id kwargs =
     queue_simple_upsert new_id now project_id ''action'' action_id (dset kwargs ''id'' (VStr action_id))"

definition queue_assessment_upsert :: "string \<Rightarrow> string \<Rightarrow> string \<Rightarrow> string \<Rightarrow> dict \<Rightarrow> ldb \<Rightarrow> ldb cresult" where
  "queue_assessment_upsert new_id now assessment_id project_id kwargs =
     queue_simple_upsert new_id now project_id ''assessment'' assessment_id (dset kwargs ''id'' (VStr assessment_id))"

definition queue_helpdesk_upsert :: "string \<Rightarrow> string \<Rightarrow> string \<Rightarrow> string \<Rightarrow> dict \<Rightarrow> ldb \<Rightarrow> ldb cresult" where
  "queue_helpdesk_upsert new_id now ticket_id project_id kwargs =
     queue_simple_upsert new_id now project_id ''helpdesk_ticket'' ticket_id (dset kwargs ''id'' (VStr ticket_id))"

definition queue_helpdesk_delete :: "string \<Rightarrow> string \<Rightarrow> string \<Rightarrow> string \<Rightarrow> ldb \<Rightarrow> ldb cresult" where
  "queue_helpdesk_delete new_id now ticket_id project_id = queue_delete new_id now project_id ''helpdesk_ticket'' ticket_id"


subsection \<open>Sending\<close>

definition ready :: "string \<Rightarrow> outbox_row \<Rightarrow> bool" where
  "ready ready_at e \<longleftrightarrow> ob_status e = Pending \<or>
     ob_status e = Retry \<and> (ob_next_retry_at e = [] \<or> ob_next_retry_at e \<le> ready_at)"

definition pending_change :: "outbox_row \<Rightarrow> dict" where
  "pending_change e =
    [(''change_id'', VStr (ob_change_id e)), (''entity'', VStr (ob_entity e)), (''op'', VStr (ob_op e)),
     (''base_version'', opt_version (ob_base_version e)), (''record'', VDict (ob_record e))]"

definition get_pending_changes :: "string \<Rightarrow> int \<Rightarrow> string \<Rightarrow> ldb \<Rightarrow> dict list" where
  "get_pending_changes project_id limit now db =
     map pending_change (take (nat (clamp_limit limit))
       (oldest_first (filter (\<lambda>e. ob_project_id e = project_id \<and> ready now e) (l_outbox db))))"

definition next_retry_at :: "string option \<Rightarrow> ldb \<Rightarrow> string option" where
  "next_retry_at project_id db =
    (case sort (map ob_next_retry_at (filter (\<lambda>e. ob_status e = Retry \<and> ob_next_retry_at e \<noteq> [] \<and>
             in_project project_id e) (l_outbox db))) of
       [] \<Rightarrow> None | t # _ \<Rightarrow> Some t)"

definition delete_outbox_ids :: "string list \<Rightarrow> ldb \<Rightarrow> ldb" where
  "delete_outbox_ids ids db = db\<lparr>l_outbox := delete_where (\<lambda>e. ob_change_id e \<in> set ids) (l_outbox db)\<rparr>"

definition mark_outbox_ids_attempted :: "string list \<Rightarrow> string \<Rightarrow> ldb \<Rightarrow> ldb" where
  "mark_outbox_ids_attempted ids now db =
     db\<lparr>l_outbox := update_where (\<lambda>e. ob_change_id e \<in> set (filter (\<lambda>i. i \<noteq> []) ids))
          (\<lambda>e. e\<lparr>ob_last_attempt_at := now\<rparr>) (l_outbox db)\<rparr>"

subsection \<open>Acknowledgements\<close>

definition acknowledge_sent :: "string \<Rightarrow> string \<Rightarrow> outbox_row \<Rightarrow> dict \<Rightarrow> ldb \<Rightarrow> ldb cresult" where
  "acknowledge_sent project_id change_id sent result db =
    (let entity = ob_entity sent; entity_id = ob_entity_id sent in
     if str_or_empty (dget result ''entity'') \<notin> {[], entity} \<or>
        str_or_empty (dget result ''entity_id'') \<notin> {[], entity_id}
     then Inl (CRuntimeError ''Push acknowledgement does not match outbox'')
     else apply_push_acknowledgement project_id entity entity_id (strict_int (dget result ''server_version''))
            (server_record_of result) (delete_outbox_ids [change_id] db))"

text \<open>
  The newer local edit that replaced an acknowledged receipt: only its base version and its
  server-assigned code move. The result says whether such an edit exists.
\<close>

definition replacement_for :: "string \<Rightarrow> string \<Rightarrow> string \<Rightarrow> ldb \<Rightarrow> outbox_row option" where
  "replacement_for project_id entity entity_id db =
    (case oldest_first (filter (\<lambda>e. same_entity project_id entity entity_id e \<and> ob_status e \<in> {Pending, Retry})
            (l_outbox db)) of [] \<Rightarrow> None | e # _ \<Rightarrow> Some e)"

definition rebased :: "dict \<Rightarrow> outbox_row \<Rightarrow> outbox_row" where
  "rebased result e =
    (let rec = (case server_record_of result of
           Some sr \<Rightarrow> if is_scored_entity (ob_entity e) \<and> dhas sr ''code'' then dset (ob_record e) ''code'' (dget sr ''code'')
                      else ob_record e
         | None \<Rightarrow> ob_record e);
         base = max (case ob_base_version e of None \<Rightarrow> 0 | Some b \<Rightarrow> b)
                    (case acknowledged_version result of None \<Rightarrow> 0 | Some v \<Rightarrow> v)
     in e\<lparr>ob_base_version := (if base = 0 then None else Some base), ob_record := rec\<rparr>)"

definition identity_keys :: "dict \<Rightarrow> dict" where
  "identity_keys sr = map (\<lambda>k. (k, dget sr k)) (filter (dhas sr) [''id'', ''project_id'', ''code''])"

definition advance_replacement :: "string \<Rightarrow> dict \<Rightarrow> ldb \<Rightarrow> (bool \<times> ldb) cresult" where
  "advance_replacement project_id result db =
    (let entity = str_or_empty (dget result ''entity''); entity_id = str_or_empty (dget result ''entity_id'') in
     if entity = [] \<or> entity_id = [] then Inr (False, db)
     else case replacement_for project_id entity entity_id db of
            None \<Rightarrow> Inr (False, db)
          | Some e \<Rightarrow>
              let version = acknowledged_version result;
                  sr = server_record_of result;
                  sr = (if truthy (dget result ''replayed'') \<and> version \<noteq> strict_int (dget result ''server_version'')
                        then map_option identity_keys sr else sr)
              in rbind (advance_push_acknowledgement project_id entity entity_id version sr
                   (db\<lparr>l_outbox := update_where (\<lambda>x. ob_change_id x = ob_change_id e) (\<lambda>x. rebased result e) (l_outbox db)\<rparr>))
                   (\<lambda>db. Inr (True, db)))"

fun acknowledge_results :: "string \<Rightarrow> dict list \<Rightarrow> ldb \<Rightarrow> (nat \<times> ldb) cresult" where
  "acknowledge_results project_id [] db = Inr (0, db)"
| "acknowledge_results project_id (r # rs) db =
    (let change_id = str_or_empty (dget r ''change_id'') in
     if change_id = [] \<or> dget r ''status'' \<noteq> VStr ''accepted'' then acknowledge_results project_id rs db
     else rbind (case first_where (\<lambda>e. ob_change_id e = change_id \<and> ob_project_id e = project_id) (l_outbox db) of
                   Some sent \<Rightarrow> rbind (acknowledge_sent project_id change_id sent r db) (\<lambda>db. Inr (True, db))
                 | None \<Rightarrow> advance_replacement project_id r db)
            (\<lambda>(counted, db). rbind (acknowledge_results project_id rs db) (\<lambda>(n, db).
               Inr (if counted then Suc n else n, db))))"

definition acknowledge_accepted_results :: "string \<Rightarrow> dict list \<Rightarrow> ldb \<Rightarrow> (nat \<times> ldb) cresult" where
  "acknowledge_accepted_results project_id results db =
     rbind (release_scored_codes_for_acknowledgements project_id results db) (acknowledge_results project_id results)"

subsection \<open>Failures\<close>

definition encode_failure :: "(string \<Rightarrow> pyval option) \<Rightarrow> pyval \<Rightarrow> dict \<times> string" where
  "encode_failure loads err =
    (let outcome = (case err of VDict d \<Rightarrow> d | v \<Rightarrow> safe_json_loads loads (py_str v))
     in (outcome, py_str (or_all [dget outcome ''reason'', dget outcome ''message'', dget outcome ''detail''] err)))"

definition retry_delay :: "int \<Rightarrow> int option \<Rightarrow> int" where
  "retry_delay attempt retry_after =
    (case retry_after of
       None \<Rightarrow> RETRY_DELAYS_SECONDS ! nat (min (attempt - 1) (int (length RETRY_DELAYS_SECONDS) - 1))
     | Some s \<Rightarrow> max 0 (min s 86400))"

text \<open>The clock is in microseconds; the stored texts are its naive ISO forms.\<close>

definition defer_outbox_id ::
  "(string \<Rightarrow> pyval option) \<Rightarrow> string \<Rightarrow> pyval \<Rightarrow> int option \<Rightarrow> time \<Rightarrow> ldb \<Rightarrow> string option \<times> ldb" where
  "defer_outbox_id loads change_id err retry_after now db =
    (let (outcome, summary) = encode_failure loads err in
     case first_where (\<lambda>e. ob_change_id e = change_id) (l_outbox db) of
       None \<Rightarrow> (None, db)
     | Some row \<Rightarrow>
         let attempt = ob_retry_count row + 1;
             retry_at = isoformat (now + retry_delay attempt retry_after * 1000000);
             kind = (if truthy (dget outcome ''failure_kind'') then py_str (dget outcome ''failure_kind'') else ''transient'')
         in (Some retry_at, db\<lparr>l_outbox := update_where (\<lambda>e. ob_change_id e = change_id)
               (\<lambda>e. e\<lparr>ob_status := Retry, ob_last_error := take 500 summary, ob_failure_kind := kind,
                      ob_result := outcome, ob_retry_count := attempt, ob_next_retry_at := retry_at,
                      ob_last_attempt_at := isoformat now\<rparr>) (l_outbox db)\<rparr>))"

definition release_authentication_blocks :: "string option \<Rightarrow> ldb \<Rightarrow> nat \<times> ldb" where
  "release_authentication_blocks project_id db =
    (let P = (\<lambda>e. ob_status e = Blocked \<and> ob_failure_kind e = ''authentication'' \<and> in_project project_id e)
     in (count_where P (l_outbox db),
         db\<lparr>l_outbox := update_where P (\<lambda>e. e\<lparr>ob_status := Pending, ob_next_retry_at := []\<rparr>) (l_outbox db)\<rparr>))"

definition block_outbox_id :: "(string \<Rightarrow> pyval option) \<Rightarrow> string \<Rightarrow> pyval \<Rightarrow> string \<Rightarrow> time \<Rightarrow> ldb \<Rightarrow> ldb cresult" where
  "block_outbox_id loads change_id err failure_kind now db =
    (if failure_kind \<notin> set BLOCKING_FAILURE_KINDS
     then Inl (CValueError (''Unknown outbox failure kind: '' @ repr_str failure_kind))
     else let (outcome, summary) = encode_failure loads err in
       Inr (db\<lparr>l_outbox := update_where (\<lambda>e. ob_change_id e = change_id)
         (\<lambda>e. e\<lparr>ob_status := Blocked, ob_last_error := take 500 summary, ob_failure_kind := failure_kind,
                ob_result := outcome, ob_next_retry_at := [], ob_last_attempt_at := isoformat now\<rparr>) (l_outbox db)\<rparr>))"

definition requeue_conflict_with_new_id :: "string \<Rightarrow> string \<Rightarrow> string \<Rightarrow> int \<Rightarrow> ldb \<Rightarrow> string option \<times> ldb" where
  "requeue_conflict_with_new_id new_id now change_id server_version db =
    (case first_where (\<lambda>e. ob_change_id e = change_id) (l_outbox db) of
       None \<Rightarrow> (None, db)
     | Some row \<Rightarrow>
         let (i, db) = replace_outbox_entry new_id now (ob_project_id row) (ob_entity row) (ob_op row)
               (ob_entity_id row) (Some server_version) (ob_record row) True db
         in (Some i, db))"

definition queue_merged_upsert :: "string \<Rightarrow> string \<Rightarrow> string \<Rightarrow> string \<Rightarrow> string \<Rightarrow> int \<Rightarrow> dict \<Rightarrow> ldb \<Rightarrow> string \<times> ldb" where
  "queue_merged_upsert new_id now project_id entity entity_id server_version rec =
     replace_outbox_entry new_id now project_id entity ''upsert'' entity_id (Some server_version) rec True"


section \<open>The outbox invariant\<close>

text \<open>
  Receipt ids are unique, and every local record has at most one open change: a newer edit replaces the
  older one (or refreshes the payload of an unresolved conflict).
\<close>

definition ob_owner :: "outbox_row \<Rightarrow> string \<times> string \<times> string" where
  "ob_owner e = (ob_project_id e, ob_entity e, ob_entity_id e)"

definition outbox_inv :: "ldb \<Rightarrow> bool" where
  "outbox_inv db \<longleftrightarrow> distinct (map ob_change_id (l_outbox db)) \<and> distinct (map ob_owner (l_outbox db))"

definition same_keys :: "ldb \<Rightarrow> ldb \<Rightarrow> bool" where
  "same_keys db db' \<longleftrightarrow> map ob_change_id (l_outbox db') = map ob_change_id (l_outbox db) \<and>
     map ob_owner (l_outbox db') = map ob_owner (l_outbox db)"

lemma same_keys_inv: "same_keys db db' \<Longrightarrow> outbox_inv db \<Longrightarrow> outbox_inv db'"
  by (simp add: same_keys_def outbox_inv_def)

lemma same_keys_refl [simp]: "same_keys db db"
  by (simp add: same_keys_def)

lemma same_keys_trans: "same_keys a b \<Longrightarrow> same_keys b c \<Longrightarrow> same_keys a c"
  by (simp add: same_keys_def)

lemma same_keys_update:
  "(\<And>e. P e \<Longrightarrow> ob_change_id (f e) = ob_change_id e \<and> ob_owner (f e) = ob_owner e) \<Longrightarrow>
    same_keys db (db\<lparr>l_outbox := update_where P f (l_outbox db)\<rparr>)"
  by (simp add: same_keys_def update_where_def)

lemma core_map:
  assumes "\<And>e. g (ob_core e) = g e" "map ob_core es = map ob_core es'"
  shows "map g es = map g es'"
proof -
  have "map g xs = map g (map ob_core xs)" for xs by (simp add: assms(1))
  from this [of es] this [of es'] assms(2) show ?thesis by simp
qed

lemma same_keys_core: "map ob_core (l_outbox db') = map ob_core (l_outbox db) \<Longrightarrow> same_keys db db'"
  unfolding same_keys_def by (auto intro!: core_map [of _ "l_outbox db'"] simp: ob_core_def ob_owner_def)

lemma same_owner: "same_entity p en i e \<longleftrightarrow> ob_owner e = (p, en, i)"
  by (auto simp: same_entity_def ob_owner_def)

lemma open_owner: "same_entity p en i e \<and> ob_status e \<in> {Pending, Retry, Blocked} \<longleftrightarrow> ob_owner e = (p, en, i)"
  by (cases "ob_status e") (auto simp: same_owner)

lemma delete_open_outbox:
  "l_outbox (delete_open_entries p en i db) = filter (\<lambda>e. ob_owner e \<noteq> (p, en, i)) (l_outbox db)"
  unfolding delete_open_entries_def delete_where_def open_owner by simp

lemma oldest_open_owner:
  "oldest_open_entry p en i db =
    (case oldest_first (filter (\<lambda>e. ob_owner e = (p, en, i)) (l_outbox db)) of [] \<Rightarrow> None | e # _ \<Rightarrow> Some e)"
  unfolding oldest_open_entry_def open_owner ..

lemma filter_inv:
  "outbox_inv db \<Longrightarrow> l_outbox db' = filter P (l_outbox db) \<Longrightarrow> outbox_inv db'"
  by (simp add: outbox_inv_def distinct_map_filter)

lemma insert_inv:
  assumes "outbox_inv db" "new_id \<notin> ob_change_id ` set (l_outbox db)"
    "l_outbox db' = l_outbox (delete_open_entries p en i db) @ [new_entry new_id now p en op i base rec]"
  shows "outbox_inv db'"
  using assms
  by (auto simp: outbox_inv_def delete_open_outbox distinct_map_filter new_entry_def ob_owner_def)

lemma oldest_first_set [simp]: "set (oldest_first es) = set es"
  by (simp add: oldest_first_def)

lemma oldest_open_SomeD:
  assumes "oldest_open_entry p en i db = Some e"
  shows "e \<in> set (l_outbox db) \<and> ob_owner e = (p, en, i)"
proof -
  from assms obtain es where "oldest_first (filter (\<lambda>e. ob_owner e = (p, en, i)) (l_outbox db)) = e # es"
    by (auto simp: oldest_open_owner split: list.splits)
  from arg_cong [OF this, of set] show ?thesis by auto
qed

lemma oldest_open_unique:
  assumes "outbox_inv db" "e \<in> set (l_outbox db)" "ob_owner e = (p, en, i)"
  shows "oldest_open_entry p en i db = Some e"
proof -
  have "e \<in> set (oldest_first (filter (\<lambda>e. ob_owner e = (p, en, i)) (l_outbox db)))" using assms(2,3) by simp
  then obtain e' where e': "oldest_open_entry p en i db = Some e'"
    by (cases "oldest_first (filter (\<lambda>e. ob_owner e = (p, en, i)) (l_outbox db))") (auto simp: oldest_open_owner)
  have "inj_on ob_owner (set (l_outbox db))" using assms(1) by (simp add: outbox_inv_def distinct_map)
  with oldest_open_SomeD [OF e'] assms(2,3) have "e' = e" by (simp add: inj_on_def)
  with e' show ?thesis by simp
qed

lemma replace_cases:
  assumes "replace_outbox_entry new_id now p en op i base rec force db = (cid, db')"
  obtains (conflict) e where "\<not> force" "oldest_open_entry p en i db = Some e" "ob_status e = Blocked" "ob_failure_kind e = ''conflict''"
      "cid = ob_change_id e" "db' = db\<lparr>l_outbox := update_where (\<lambda>x. ob_change_id x = ob_change_id e) (\<lambda>x. x\<lparr>ob_op := op, ob_record := rec\<rparr>) (l_outbox db)\<rparr>"
  | (inserted) base' where "cid = new_id"
      "l_outbox db' = l_outbox (delete_open_entries p en i db) @ [new_entry new_id now p en op i base' rec]"
      "l_rows db' = l_rows db"
      "base' = (case if force then None else oldest_open_entry p en i db of None \<Rightarrow> base
         | Some e \<Rightarrow> if ob_base_version e = None \<and> create_may_exist_remotely (Some e) then Some 1 else ob_base_version e)"
  using assms
  by (auto simp: replace_outbox_entry_def Let_def delete_open_entries_def split: option.splits if_splits)

lemma replace_inv:
  assumes "outbox_inv db" "new_id \<notin> ob_change_id ` set (l_outbox db)"
    "replace_outbox_entry new_id now p en op i base rec force db = (cid, db')"
  shows "outbox_inv db'"
  using assms(3)
proof (cases rule: replace_cases)
  case (conflict e)
  have "same_keys db db'" unfolding conflict(6) by (rule same_keys_update) (simp add: ob_owner_def)
  then show ?thesis using assms(1) by (rule same_keys_inv)
next
  case (inserted base')
  show ?thesis by (rule insert_inv [OF assms(1,2) inserted(2)])
qed


subsection \<open>Every operation keeps it\<close>

lemma apply_record_pull: "apply_record en p rec db = Inr db' \<Longrightarrow> pull_entity en p [rec] db = Inr db'"
  by (auto simp: apply_record_def pull_entity_def split: if_splits)

lemma apply_record_known: "apply_record en p rec db = Inr db' \<Longrightarrow> \<exists>t. map_of TABLE_BY_ENTITY en = Some t"
  by (auto simp: apply_record_def TABLE_BY_ENTITY_def split: if_splits)

lemma apply_ack_core:
  assumes "apply_push_acknowledgement p en i v sr db = Inr db'"
  shows "map ob_core (l_outbox db') = map ob_core (l_outbox db)"
proof (cases sr)
  case (Some raw)
  then obtain rec where "apply_record en p rec db = Inr db'"
    using assms by (auto simp: apply_push_acknowledgement_def Let_def)
  then show ?thesis using apply_record_pull apply_record_known pull_entity_frame(1) by blast
next
  case None
  then show ?thesis using assms by (auto simp: apply_push_acknowledgement_def split: option.splits)
qed

lemma advance_ack_outbox:
  "advance_push_acknowledgement p en i v sr db = Inr db' \<Longrightarrow> l_outbox db' = l_outbox db"
  by (auto simp: advance_push_acknowledgement_def Let_def split: if_splits)

lemma replacement_SomeD:
  assumes "replacement_for p en i db = Some e"
  shows "e \<in> set (l_outbox db) \<and> ob_owner e = (p, en, i) \<and> ob_status e \<in> {Pending, Retry}"
proof -
  from assms obtain es where
    "oldest_first (filter (\<lambda>e. same_entity p en i e \<and> ob_status e \<in> {Pending, Retry}) (l_outbox db)) = e # es"
    by (auto simp: replacement_for_def split: list.splits)
  from arg_cong [OF this, of set] show ?thesis by (auto simp: same_owner)
qed

lemma rebased_keys: "ob_change_id (rebased r e) = ob_change_id e" "ob_owner (rebased r e) = ob_owner e"
  by (simp_all add: rebased_def ob_owner_def Let_def)

lemma advance_replacement_cases:
  assumes "advance_replacement p result db = Inr (b, db')"
  obtains (none) "\<not> b" "db' = db"
  | (moved) e v sr where b "replacement_for p (str_or_empty (dget result ''entity'')) (str_or_empty (dget result ''entity_id'')) db = Some e"
      "advance_push_acknowledgement p (str_or_empty (dget result ''entity'')) (str_or_empty (dget result ''entity_id'')) v sr
        (db\<lparr>l_outbox := update_where (\<lambda>x. ob_change_id x = ob_change_id e) (\<lambda>x. rebased result e) (l_outbox db)\<rparr>) = Inr db'"
  using assms by (auto simp: advance_replacement_def Let_def split: if_splits option.splits)

lemma advance_replacement_keys:
  assumes inv: "outbox_inv db" and a: "advance_replacement p result db = Inr (b, db')"
  shows "same_keys db db'"
proof -
  consider "db' = db" | e where "e \<in> set (l_outbox db)"
      "l_outbox db' = update_where (\<lambda>x. ob_change_id x = ob_change_id e) (\<lambda>x. rebased result e) (l_outbox db)"
    using a
  proof (cases rule: advance_replacement_cases)
    case (moved e v sr)
    from replacement_SomeD [OF moved(2)] advance_ack_outbox [OF moved(3)] show ?thesis by (intro that(2)) simp_all
  qed (rule that)
  then show ?thesis
  proof cases
    case 2
    have "inj_on ob_change_id (set (l_outbox db))" using inv by (simp add: outbox_inv_def distinct_map)
    then have "x = e" if "x \<in> set (l_outbox db)" "ob_change_id x = ob_change_id e" for x
      using that 2(1) by (simp add: inj_on_def)
    then have "ob_owner (if ob_change_id x = ob_change_id e then rebased result e else x) = ob_owner x"
      "ob_change_id (if ob_change_id x = ob_change_id e then rebased result e else x) = ob_change_id x"
      if "x \<in> set (l_outbox db)" for x using that by (auto simp: rebased_keys)
    then show ?thesis unfolding same_keys_def 2(2) update_where_def map_map by (auto intro!: map_cong)
  qed simp
qed

lemma acknowledge_sent_inv:
  assumes inv: "outbox_inv db" and a: "acknowledge_sent p cid sent result db = Inr db'"
  shows "outbox_inv db'"
proof -
  from a have "map ob_core (l_outbox db') = map ob_core (l_outbox (delete_outbox_ids [cid] db))"
    by (auto simp: acknowledge_sent_def Let_def split: if_splits dest: apply_ack_core)
  then have "same_keys (delete_outbox_ids [cid] db) db'" by (rule same_keys_core)
  moreover have "outbox_inv (delete_outbox_ids [cid] db)"
    by (rule filter_inv [OF inv]) (simp add: delete_outbox_ids_def delete_where_def)
  ultimately show ?thesis by (rule same_keys_inv)
qed

lemma acknowledge_results_inv:
  "acknowledge_results p rs db = Inr (n, db') \<Longrightarrow> outbox_inv db \<Longrightarrow> outbox_inv db'"
proof (induction p rs db arbitrary: n rule: acknowledge_results.induct)
  case (2 p r rs db)
  let ?cid = "str_or_empty (dget r ''change_id'')"
  show ?case
  proof (cases "?cid = [] \<or> dget r ''status'' \<noteq> VStr ''accepted''")
    case True with 2 show ?thesis by (simp add: Let_def)
  next
    case False
    then obtain b db1 m where one: "(case first_where (\<lambda>e. ob_change_id e = ?cid \<and> ob_project_id e = p) (l_outbox db) of
         Some sent \<Rightarrow> rbind (acknowledge_sent p ?cid sent r db) (\<lambda>db. Inr (True, db))
       | None \<Rightarrow> advance_replacement p r db) = Inr (b, db1)" and rest: "acknowledge_results p rs db1 = Inr (m, db')"
      using 2(3) by (auto simp: Let_def)
    have "outbox_inv db1"
      using one 2(4) by (auto split: option.splits intro: acknowledge_sent_inv same_keys_inv advance_replacement_keys)
    then show ?thesis by (rule 2(2) [OF refl False rest])
  qed
qed simp

lemma release_ack_codes_outbox:
  "release_scored_codes_for_acknowledgements p rs db = Inr db' \<Longrightarrow> l_outbox db' = l_outbox db"
  by (auto simp: release_scored_codes_for_acknowledgements_def release_entity_codes_def release_codes_def Let_def)

lemma acknowledge_inv:
  assumes "acknowledge_accepted_results p rs db = Inr (n, db')" "outbox_inv db"
  shows "outbox_inv db'"
proof -
  obtain db1 where db1: "release_scored_codes_for_acknowledgements p rs db = Inr db1" "acknowledge_results p rs db1 = Inr (n, db')"
    using assms(1) by (auto simp: acknowledge_accepted_results_def)
  then have "outbox_inv db1" using assms(2) release_ack_codes_outbox [OF db1(1)] by (simp add: outbox_inv_def)
  with db1(2) show ?thesis by (rule acknowledge_results_inv)
qed


inductive outbox_step :: "ldb \<Rightarrow> ldb \<Rightarrow> bool" where
  ob_replace: "new_id \<notin> ob_change_id ` set (l_outbox db) \<Longrightarrow>
    replace_outbox_entry new_id now p en op i base rec force db = (cid, db') \<Longrightarrow> outbox_step db db'"
| ob_discard: "outbox_step db (discard_entity_changes p en i db)"
| ob_override: "outbox_step db (override_base_version p en i v db)"
| ob_delete: "outbox_step db (delete_outbox_ids ids db)"
| ob_mark: "outbox_step db (mark_outbox_ids_attempted ids now db)"
| ob_ack: "acknowledge_accepted_results p rs db = Inr (n, db') \<Longrightarrow> outbox_step db db'"
| ob_defer: "outbox_step db (snd (defer_outbox_id loads cid err retry_after t db))"
| ob_release: "outbox_step db (snd (release_authentication_blocks pr db))"
| ob_block: "block_outbox_id loads cid err kind t db = Inr db' \<Longrightarrow> outbox_step db db'"
| ob_pull: "pull_entity en p items db = Inr db' \<Longrightarrow> map_of TABLE_BY_ENTITY en = Some tab \<Longrightarrow> outbox_step db db'"
| ob_edit: "l_outbox db' = l_outbox db \<Longrightarrow> outbox_step db db'"

lemma outbox_step_inv: "outbox_step db db' \<Longrightarrow> outbox_inv db \<Longrightarrow> outbox_inv db'"
proof (induction rule: outbox_step.induct)
  case ob_replace then show ?case by (blast intro: replace_inv)
next
  case (ob_discard db p en i)
  then show ?case by (rule filter_inv) (simp add: discard_entity_changes_def delete_open_outbox)
next
  case (ob_override db p en i v)
  have "same_keys db (override_base_version p en i v db)"
    by (auto simp: override_base_version_def ob_owner_def split: option.splits intro!: same_keys_update)
  then show ?case using ob_override by (rule same_keys_inv)
next
  case (ob_delete db ids)
  then show ?case by (rule filter_inv) (simp add: delete_outbox_ids_def delete_where_def)
next
  case (ob_mark db ids now)
  have "same_keys db (mark_outbox_ids_attempted ids now db)"
    unfolding mark_outbox_ids_attempted_def by (rule same_keys_update) (simp add: ob_owner_def)
  then show ?case using ob_mark by (rule same_keys_inv)
next
  case ob_ack then show ?case by (blast intro: acknowledge_inv)
next
  case (ob_defer db loads cid err ra t)
  have "same_keys db (snd (defer_outbox_id loads cid err ra t db))"
    by (auto simp: defer_outbox_id_def Let_def ob_owner_def split: option.splits prod.splits intro!: same_keys_update)
  then show ?case using ob_defer by (rule same_keys_inv)
next
  case (ob_release db pr)
  have "same_keys db (snd (release_authentication_blocks pr db))"
    unfolding release_authentication_blocks_def Let_def snd_conv by (rule same_keys_update) (simp add: ob_owner_def)
  then show ?case using ob_release by (rule same_keys_inv)
next
  case (ob_block loads cid err kind t db db')
  then have "same_keys db db'"
    by (auto simp: block_outbox_id_def Let_def ob_owner_def split: if_splits prod.splits intro!: same_keys_update)
  then show ?case using ob_block(2) by (rule same_keys_inv)
next
  case (ob_pull en p items db db' tab)
  then show ?case by (blast intro: same_keys_inv same_keys_core dest: pull_entity_frame(1))
next
  case ob_edit then show ?case by (simp add: outbox_inv_def)
qed

interpretation outbox: invariant_system "\<lambda>db. l_outbox db = []" outbox_step outbox_inv
proof
  show "l_outbox db = [] \<Longrightarrow> outbox_inv db" for db by (simp add: outbox_inv_def)
  show "outbox_inv db \<Longrightarrow> outbox_step db db' \<Longrightarrow> outbox_inv db'" for db db' by (rule outbox_step_inv)
qed

text \<open>The public queue operations are steps of this system.\<close>

lemma replace_step: "new_id \<notin> ob_change_id ` set (l_outbox db) \<Longrightarrow>
    outbox_step db (snd (replace_outbox_entry new_id now p en op i base rec force db))"
  by (rule ob_replace) (auto intro: surjective_pairing)

lemma queue_steps:
  assumes "new_id \<notin> ob_change_id ` set (l_outbox db)"
  shows "queue_scored_upsert new_id now p en rec db = Inr db' \<Longrightarrow> outbox_step db db'"
    "queue_simple_upsert new_id now p en i rec db = Inr db' \<Longrightarrow> outbox_step db db'"
    "queue_delete new_id now p en i db = Inr db' \<Longrightarrow> outbox_step db db'"
    "outbox_step db (snd (requeue_conflict_with_new_id new_id now cid v db))"
    "outbox_step db (snd (queue_merged_upsert new_id now p en i v rec db))"
proof -
  show "queue_scored_upsert new_id now p en rec db = Inr db' \<Longrightarrow> outbox_step db db'"
    using replace_step [OF assms] by (auto simp: queue_scored_upsert_def Let_def split: if_splits)
  show "queue_simple_upsert new_id now p en i rec db = Inr db' \<Longrightarrow> outbox_step db db'"
    using replace_step [OF assms] by (auto simp: queue_simple_upsert_def)
  show "queue_delete new_id now p en i db = Inr db' \<Longrightarrow> outbox_step db db'"
    using replace_step [OF assms] ob_discard by (auto simp: queue_delete_def Let_def split: if_splits)
  show "outbox_step db (snd (requeue_conflict_with_new_id new_id now cid v db))"
    using replace_step [OF assms] ob_edit [of db db]
    by (auto simp: requeue_conflict_with_new_id_def Let_def split: option.splits prod.splits) (metis snd_conv)
  show "outbox_step db (snd (queue_merged_upsert new_id now p en i v rec db))"
    using replace_step [OF assms] by (simp add: queue_merged_upsert_def)
qed

lemma edit_frame:
  assumes inv: "outbox_inv db" and e: "e \<in> set (l_outbox db)" "ob_owner e = (p, en, i)"
    and r: "replace_outbox_entry new_id now p en op i base rec False db = (cid, db')"
  shows "(if ob_status e = Blocked \<and> ob_failure_kind e = ''conflict''
     then cid = ob_change_id e \<and> e\<lparr>ob_op := op, ob_record := rec\<rparr> \<in> set (l_outbox db')
     else cid = new_id \<and> new_entry new_id now p en op i
         (if ob_base_version e = None \<and> ob_op e = ''upsert'' \<and> ob_last_attempt_at e \<noteq> [] then Some 1
          else ob_base_version e) rec \<in> set (l_outbox db')) \<and>
    (\<forall>x. ob_owner x \<noteq> (p, en, i) \<longrightarrow> (x \<in> set (l_outbox db') \<longleftrightarrow> x \<in> set (l_outbox db)))"
proof -
  have old: "oldest_open_entry p en i db = Some e" by (rule oldest_open_unique [OF inv e])
  have inj: "x = e" if "x \<in> set (l_outbox db)" "ob_change_id x = ob_change_id e" for x
    using that e(1) inv by (simp add: outbox_inv_def distinct_map inj_on_def)
  show ?thesis
  proof (cases "ob_status e = Blocked \<and> ob_failure_kind e = ''conflict''")
    case True
    then have db': "cid = ob_change_id e" "l_outbox db' = map (\<lambda>x. if x = e then e\<lparr>ob_op := op, ob_record := rec\<rparr> else x) (l_outbox db)"
      using r old inj by (auto simp: replace_outbox_entry_def update_where_def Let_def intro!: map_cong)
    have "ob_owner (e\<lparr>ob_op := op, ob_record := rec\<rparr>) = (p, en, i)" using e(2) by (simp add: ob_owner_def)
    with True db' e show ?thesis by (auto simp: image_iff)
  next
    case False
    then have db': "cid = new_id" "l_outbox db' = filter (\<lambda>e. ob_owner e \<noteq> (p, en, i)) (l_outbox db) @
        [new_entry new_id now p en op i (if ob_base_version e = None \<and> create_may_exist_remotely (Some e) then Some 1 else ob_base_version e) rec]"
      using r old by (auto simp: replace_outbox_entry_def Let_def delete_open_outbox split: if_splits)
    have "(ob_base_version e = None \<and> create_may_exist_remotely (Some e)) =
        (ob_base_version e = None \<and> ob_op e = ''upsert'' \<and> ob_last_attempt_at e \<noteq> [])"
      by (auto simp: create_may_exist_remotely_def)
    with False db' show ?thesis by (auto simp: new_entry_def ob_owner_def)
  qed
qed

lemma retry_delay_bounds:
  assumes "0 \<le> n"
  shows "2 \<le> retry_delay (n + 1) None" "retry_delay (n + 1) None \<le> 300"
    "retry_delay (n + 1) None \<le> retry_delay (n + 2) None"
proof -
  consider "n = 0" | "n = 1" | "n = 2" | "n = 3" | "4 \<le> n" using assms by linarith
  then have "2 \<le> retry_delay (n + 1) None \<and> retry_delay (n + 1) None \<le> 300 \<and> retry_delay (n + 1) None \<le> retry_delay (n + 2) None"
    by cases (simp_all add: retry_delay_def RETRY_DELAYS_SECONDS_def)
  then show "2 \<le> retry_delay (n + 1) None" "retry_delay (n + 1) None \<le> 300"
    "retry_delay (n + 1) None \<le> retry_delay (n + 2) None" by auto
qed

definition deferred_row :: "(string \<Rightarrow> pyval option) \<Rightarrow> pyval \<Rightarrow> int option \<Rightarrow> time \<Rightarrow> outbox_row \<Rightarrow> outbox_row \<Rightarrow> outbox_row" where
  "deferred_row loads err retry_after now row e =
    (let (outcome, summary) = encode_failure loads err;
         attempt = ob_retry_count row + 1
     in e\<lparr>ob_status := Retry, ob_last_error := take 500 summary,
          ob_failure_kind := (if truthy (dget outcome ''failure_kind'') then py_str (dget outcome ''failure_kind'') else ''transient''),
          ob_result := outcome, ob_retry_count := attempt,
          ob_next_retry_at := isoformat (now + retry_delay attempt retry_after * 1000000),
          ob_last_attempt_at := isoformat now\<rparr>)"

lemma deferred_row_simps:
  "ob_change_id (deferred_row loads err ra now row e) = ob_change_id e"
  "ob_owner (deferred_row loads err ra now row e) = ob_owner e"
  "ob_status (deferred_row loads err ra now row e) = Retry"
  "ob_retry_count (deferred_row loads err ra now row e) = ob_retry_count row + 1"
  "ob_record (deferred_row loads err ra now row e) = ob_record e"
  "ob_base_version (deferred_row loads err ra now row e) = ob_base_version e"
  "ob_next_retry_at (deferred_row loads err ra now row e) = isoformat (now + retry_delay (ob_retry_count row + 1) ra * 1000000)"
  by (simp_all add: deferred_row_def Let_def ob_owner_def split: prod.splits)

lemma defer_outbox_id_found:
  assumes "first_where (\<lambda>x. ob_change_id x = cid) (l_outbox db) = Some row"
  shows "defer_outbox_id loads cid err ra now db =
    (Some (isoformat (now + retry_delay (ob_retry_count row + 1) ra * 1000000)),
     db\<lparr>l_outbox := update_where (\<lambda>x. ob_change_id x = cid) (deferred_row loads err ra now row) (l_outbox db)\<rparr>)"
  unfolding defer_outbox_id_def deferred_row_def Let_def
  by (cases "encode_failure loads err") (simp add: assms)

definition same_edit :: "dict \<Rightarrow> dict \<Rightarrow> bool" where
  "same_edit r r' \<longleftrightarrow> (\<forall>k. k \<noteq> ''version'' \<longrightarrow> k \<noteq> ''code'' \<longrightarrow> dget r k = dget r' k)"

lemma advance_ack_rows:
  assumes "advance_push_acknowledgement p en i v sr db = Inr db'"
  shows "list_all2 same_edit (l_rows db t) (l_rows db' t)"
proof -
  have refl: "list_all2 same_edit rs rs" for rs by (simp add: list.rel_refl same_edit_def)
  have upd: "list_all2 same_edit rs (update_where P f rs)" if "\<And>r. same_edit r (f r)" for P f rs
    unfolding update_where_def list.rel_map by (rule list.rel_refl) (simp add: that, simp add: same_edit_def)
  from assms obtain t' f where "l_rows db' = l_rows (set_rows t' (update_where (at_entity i p) f (l_rows db t')) db)"
    and f: "\<And>r. same_edit r (f r)"
    unfolding advance_push_acknowledgement_def
    by (force simp: Let_def same_edit_def split: if_splits option.splits)
  then show ?thesis using upd [OF f] refl by (cases "t = t'") simp_all
qed

lemma replacement_unique:
  assumes "outbox_inv db" "e \<in> set (l_outbox db)" "ob_owner e = (p, en, i)" "ob_status e \<in> {Pending, Retry}"
  shows "replacement_for p en i db = Some e"
proof -
  let ?es = "filter (\<lambda>e. same_entity p en i e \<and> ob_status e \<in> {Pending, Retry}) (l_outbox db)"
  have "e \<in> set (oldest_first ?es)" using assms by (simp add: same_owner)
  then obtain e' es where "oldest_first ?es = e' # es" by (metis list.exhaust empty_iff list.set(1))
  then have r: "replacement_for p en i db = Some e'" by (simp add: replacement_for_def)
  from replacement_SomeD [OF this] assms have "e' = e" by (auto simp: outbox_inv_def distinct_map inj_on_def)
  with r show ?thesis by simp
qed

section \<open>What the outbox guarantees\<close>

text \<open>C6: Through any sequence of edits, deletes, sends, acknowledgements, retries, blocks, conflict
  resolutions and pulls, a local record never has two open changes in the outbox, and receipt ids
  stay unique.\<close>

theorem outbox_one_change_per_record:
  assumes "reach (\<lambda>db. l_outbox db = []) outbox_step db" "e \<in> set (l_outbox db)" "e' \<in> set (l_outbox db)"
    "ob_owner e = ob_owner e' \<or> ob_change_id e = ob_change_id e'"
  shows "e = e'"
proof -
  have "inj_on ob_owner (set (l_outbox db))" "inj_on ob_change_id (set (l_outbox db))"
    using outbox.reach_inv [OF assms(1)] by (simp_all add: outbox_inv_def distinct_map)
  with assms(2-4) show ?thesis by (auto simp: inj_on_def)
qed

definition demo_store :: ldb where
  "demo_store = \<lparr>l_rows = (\<lambda>t. if t = ''risks'' then [[(''id'', VStr ''r''), (''project_id'', VStr ''p''), (''version'', VInt 3)]] else []),
     l_outbox = [], l_sync_state = []\<rparr>"

definition demo_queued :: ldb where
  "demo_queued = snd (replace_outbox_entry ''c2'' ''t2'' ''p'' ''risk'' ''upsert'' ''r'' (Some 4) [(''title'', VStr ''b'')] False
     (snd (replace_outbox_entry ''c1'' ''t1'' ''p'' ''risk'' ''upsert'' ''r'' (Some 3) [(''title'', VStr ''a'')] False demo_store)))"

lemma demo_first:
  "snd (replace_outbox_entry ''c1'' ''t1'' ''p'' ''risk'' ''upsert'' ''r'' (Some 3) [(''title'', VStr ''a'')] False demo_store) =
    demo_store\<lparr>l_outbox := [new_entry ''c1'' ''t1'' ''p'' ''risk'' ''upsert'' ''r'' (Some 3) [(''title'', VStr ''a'')]]\<rparr>"
  by (simp add: replace_outbox_entry_def oldest_open_owner oldest_first_def demo_store_def Let_def
      delete_open_entries_def delete_where_def)

lemma demo_queued_eq:
  "demo_queued = demo_store\<lparr>l_outbox := [new_entry ''c2'' ''t2'' ''p'' ''risk'' ''upsert'' ''r'' (Some 3) [(''title'', VStr ''b'')]]\<rparr>"
  unfolding demo_queued_def demo_first
  by (simp add: replace_outbox_entry_def oldest_open_owner oldest_first_def demo_store_def Let_def
      delete_open_entries_def delete_where_def new_entry_def ob_owner_def same_entity_def)

lemma demo_queued_reach: "reach (\<lambda>db. l_outbox db = []) outbox_step demo_queued"
proof -
  have "reach (\<lambda>db. l_outbox db = []) outbox_step demo_store" by (rule reach_init) (simp add: demo_store_def)
  then have "reach (\<lambda>db. l_outbox db = []) outbox_step (snd (replace_outbox_entry ''c1'' ''t1'' ''p'' ''risk'' ''upsert'' ''r'' (Some 3) [(''title'', VStr ''a'')] False demo_store))"
    by (rule reach_step) (rule replace_step, simp add: demo_store_def)
  then show ?thesis unfolding demo_queued_def
    by (rule reach_step) (rule replace_step, simp add: demo_first new_entry_def)
qed

theorem outbox_one_change_per_record_witness:
  "{e \<in> set (l_outbox demo_queued). ob_owner e = (''p'', ''risk'', ''r'')} =
     {new_entry ''c2'' ''t2'' ''p'' ''risk'' ''upsert'' ''r'' (Some 3) [(''title'', VStr ''b'')]}" (is "_ = {?e}")
proof -
  have e: "?e \<in> set (l_outbox demo_queued)" "ob_owner ?e = (''p'', ''risk'', ''r'')"
    by (simp_all add: demo_queued_eq new_entry_def ob_owner_def)
  have "x = ?e" if "x \<in> set (l_outbox demo_queued)" "ob_owner x = (''p'', ''risk'', ''r'')" for x
    using outbox_one_change_per_record [OF demo_queued_reach that(1) e(1)] that(2) e(2) by simp
  with e show ?thesis by blast
qed




text \<open>C24: When the acknowledgement of a change arrives after the user has edited the record again, the newer
  edit survives: its entry keeps receipt id, operation and status and every field of its payload except the
  code the server assigned, its base version becomes the larger of its own and the acknowledged version, no
  other entry changes, and local rows change in nothing but version and code.\<close>

theorem late_ack_keeps_newer_edit:
  assumes inv: "outbox_inv db" and e: "e \<in> set (l_outbox db)" "ob_owner e = (p, en, i)" "ob_status e \<in> {Pending, Retry}"
    and ids: "str_or_empty (dget result ''entity'') = en" "str_or_empty (dget result ''entity_id'') = i" "en \<noteq> []" "i \<noteq> []"
    and a: "advance_replacement p result db = Inr (b, db')"
  shows "b \<and> (\<exists>e'. set (l_outbox db') = insert e' (set (l_outbox db) - {e}) \<and>
      ob_change_id e' = ob_change_id e \<and> ob_owner e' = ob_owner e \<and> ob_op e' = ob_op e \<and> ob_status e' = ob_status e \<and>
      same_edit (ob_record e) (ob_record e') \<and>
      (\<forall>v. acknowledged_version result = Some v \<longrightarrow> 0 < v \<longrightarrow>
         ob_base_version e' = Some (max v (case ob_base_version e of None \<Rightarrow> 0 | Some n \<Rightarrow> n)))) \<and>
    (\<forall>t. list_all2 same_edit (l_rows db t) (l_rows db' t))"
  using a
proof (cases rule: advance_replacement_cases)
  case none
  have "b" using a replacement_unique [OF inv e] ids by (auto simp: advance_replacement_def Let_def)
  with none show ?thesis by simp
next
  case (moved e0 v sr)
  with replacement_unique [OF inv e] ids have e0: "e0 = e" by simp
  let ?upd = "update_where (\<lambda>x. ob_change_id x = ob_change_id e) (\<lambda>x. rebased result e) (l_outbox db)"
  have ob: "l_outbox db' = ?upd" using advance_ack_outbox [OF moved(3)] e0 by simp
  have "inj_on ob_change_id (set (l_outbox db))" using inv by (simp add: outbox_inv_def distinct_map)
  then have "x = e \<longleftrightarrow> ob_change_id x = ob_change_id e" if "x \<in> set (l_outbox db)" for x
    using that e(1) by (auto simp: inj_on_def)
  then have "{x \<in> set (l_outbox db). ob_change_id x = ob_change_id e} = {e}"
    "{x \<in> set (l_outbox db). ob_change_id x \<noteq> ob_change_id e} = set (l_outbox db) - {e}" using e(1) by auto
  then have "set (l_outbox db') = insert (rebased result e) (set (l_outbox db) - {e})"
    by (simp add: ob set_update_where)
  moreover have "list_all2 same_edit (l_rows db t) (l_rows db' t)" for t
    using advance_ack_rows [OF moved(3), of t] by simp
  moreover have "same_edit (ob_record e) (ob_record (rebased result e))"
    by (simp add: rebased_def Let_def same_edit_def split: option.splits)
  ultimately show ?thesis using moved(1)
    by (intro conjI exI [of _ "rebased result e"]) (auto simp: rebased_keys, auto simp: rebased_def Let_def max.commute)
qed

definition late_ack :: dict where
  "late_ack = [(''change_id'', VStr ''c1''), (''status'', VStr ''accepted''), (''entity'', VStr ''risk''), (''entity_id'', VStr ''r''),
     (''server_version'', VInt 4)]"

theorem late_ack_keeps_newer_edit_witness:
  "\<exists>b db' e'. advance_replacement ''p'' late_ack demo_queued = Inr (b, db') \<and> b \<and> e' \<in> set (l_outbox db') \<and>
     ob_change_id e' = ''c2'' \<and> ob_base_version e' = Some 4 \<and> dget (ob_record e') ''title'' = VStr ''b''"
proof -
  let ?e = "new_entry ''c2'' ''t2'' ''p'' ''risk'' ''upsert'' ''r'' (Some 3) [(''title'', VStr ''b'')]"
  have e: "?e \<in> set (l_outbox demo_queued)" "ob_owner ?e = (''p'', ''risk'', ''r'')" "ob_status ?e \<in> {Pending, Retry}"
    by (simp_all add: demo_queued_eq new_entry_def ob_owner_def)
  have ids: "str_or_empty (dget late_ack ''entity'') = ''risk''" "str_or_empty (dget late_ack ''entity_id'') = ''r''"
    "acknowledged_version late_ack = Some 4" by code_simp+
  have sr: "server_record_of late_ack = None" "truthy (dget late_ack ''replayed'') = False" by code_simp+
  have "advance_push_acknowledgement ''p'' ''risk'' ''r'' (Some 4) None db \<noteq> Inl x" for db x
    by (simp add: advance_push_acknowledgement_def sync_table_def TABLE_BY_ENTITY_def check_ack_identity_def Let_def
        str_or_empty_def strict_int_def)
  then have "\<exists>b db'. advance_replacement ''p'' late_ack demo_queued = Inr (b, db')"
    using replacement_unique [OF outbox.reach_inv [OF demo_queued_reach] e] ids sr
    by (auto simp: advance_replacement_def Let_def rbind_def split: sum.splits)
  then obtain b db' where a: "advance_replacement ''p'' late_ack demo_queued = Inr (b, db')" by blast
  have t: "dget (ob_record e') ''title'' = VStr ''b''" if "same_edit (ob_record ?e) (ob_record e')" for e'
    using that [unfolded same_edit_def, rule_format, of "''title''"] by (simp add: new_entry_def dget_Cons)
  from late_ack_keeps_newer_edit [OF outbox.reach_inv [OF demo_queued_reach] e ids(1,2) _ _ a] obtain e' where
    "b" "e' \<in> set (l_outbox db')" "ob_change_id e' = ob_change_id ?e" "same_edit (ob_record ?e) (ob_record e')"
    "ob_base_version e' = Some (max 4 (case ob_base_version ?e of None \<Rightarrow> 0 | Some n \<Rightarrow> n))"
    using ids(3) by auto
  with a t [of e'] show ?thesis by (intro exI [of _ b] exI [of _ db'] exI [of _ e']) (simp add: new_entry_def)
qed



text \<open>C39: A transient failure is retried with bounded backoff: without a server hint the delay is 2, 5, 15, 60
  and then 300 seconds and never shrinks as attempts accumulate, with a hint it is the hint clamped to a day;
  the change keeps its receipt id, payload and base version and becomes a retry with one more attempt.\<close>

theorem defer_backoff_bounded:
  assumes inv: "outbox_inv db" and e: "e \<in> set (l_outbox db)" "ob_change_id e = cid" and n: "0 \<le> ob_retry_count e"
  shows "\<exists>delay db' e'. defer_outbox_id loads cid err retry_after now db = (Some (isoformat (now + delay * 1000000)), db') \<and>
    delay = retry_delay (ob_retry_count e + 1) retry_after \<and>
    (retry_after = None \<longrightarrow> 2 \<le> delay \<and> delay \<le> 300 \<and> delay \<le> retry_delay (ob_retry_count e + 2) None) \<and>
    0 \<le> delay \<and> delay \<le> 86400 \<and>
    e' \<in> set (l_outbox db') \<and> ob_change_id e' = cid \<and> ob_status e' = Retry \<and> ob_retry_count e' = ob_retry_count e + 1 \<and>
    ob_record e' = ob_record e \<and> ob_base_version e' = ob_base_version e \<and> ob_owner e' = ob_owner e \<and>
    ob_next_retry_at e' = isoformat (now + delay * 1000000)"
proof -
  have "first_where (\<lambda>x. ob_change_id x = cid) (l_outbox db) = Some e"
    using inv e by (intro first_where_unique [of ob_change_id]) (auto simp: outbox_inv_def)
  note d = defer_outbox_id_found [OF this, of loads err retry_after now]
  have m: "deferred_row loads err retry_after now e e \<in> set (update_where (\<lambda>x. ob_change_id x = cid) (deferred_row loads err retry_after now e) (l_outbox db))"
    using e by (simp add: set_update_where)
  have "2 \<le> retry_delay (ob_retry_count e + 1) None" "retry_delay (ob_retry_count e + 1) None \<le> 300"
    "retry_delay (ob_retry_count e + 1) None \<le> retry_delay (ob_retry_count e + 2) None"
    using retry_delay_bounds [OF n] by auto
  moreover have "0 \<le> retry_delay (ob_retry_count e + 1) retry_after" "retry_delay (ob_retry_count e + 1) retry_after \<le> 86400"
    using retry_delay_bounds(1,2) [OF n] by (cases retry_after; simp add: retry_delay_def)+
  ultimately show ?thesis
    using d m e(2)
    by (intro exI [of _ "retry_delay (ob_retry_count e + 1) retry_after"]
        exI [of _ "snd (defer_outbox_id loads cid err retry_after now db)"]
        exI [of _ "deferred_row loads err retry_after now e e"]) (simp add: deferred_row_simps)
qed

theorem defer_backoff_bounded_witness:
  "\<exists>db' e'. defer_outbox_id (\<lambda>_. None) ''c2'' (VStr ''timeout'') None 0 demo_queued = (Some (isoformat 2000000), db') \<and>
     e' \<in> set (l_outbox db') \<and> ob_status e' = Retry \<and> ob_retry_count e' = 1"
proof -
  let ?e = "new_entry ''c2'' ''t2'' ''p'' ''risk'' ''upsert'' ''r'' (Some 3) [(''title'', VStr ''b'')]"
  have e: "?e \<in> set (l_outbox demo_queued)" "ob_change_id ?e = ''c2''" "0 \<le> ob_retry_count ?e" "ob_retry_count ?e = 0"
    by (simp_all add: demo_queued_eq new_entry_def)
  have "retry_delay 1 None = 2" by (simp add: retry_delay_def RETRY_DELAYS_SECONDS_def)
  with defer_backoff_bounded [OF outbox.reach_inv [OF demo_queued_reach] e(1-3), of "\<lambda>_. None" "VStr ''timeout''" None 0] e(4)
  show ?thesis by auto
qed

end
