(* ===== verification/Client_Merge.thy ===== *)
theory Client_Merge
  imports Client_Outbox
begin

section \<open>Field-by-field conflict merges\<close>

text \<open>
  \<open>services/conflict_merge.py\<close>: which fields of a saved conflict can be merged, and the record built from the
  server copy and the local values the user kept. \<open>datetime.fromisoformat\<close> appears only as the question
  whether it accepts a text; that acceptance is the argument \<open>iso_ok\<close>, and every fact holds whatever it accepts.
\<close>

text \<open>Python's \<open>==\<close>: booleans are numbers, dictionaries do not depend on the order of their keys.\<close>

definition num_of :: "pyval \<Rightarrow> int option" where
  "num_of v = (case v of VBool b \<Rightarrow> Some (if b then 1 else 0) | VInt i \<Rightarrow> Some i | _ \<Rightarrow> None)"

fun py_eq :: "pyval \<Rightarrow> pyval \<Rightarrow> bool" where
  "py_eq (VList xs) (VList ys) = list_all2 py_eq xs ys"
| "py_eq (VDict d) (VDict e) =
     (fst ` set d = fst ` set e \<and> list_all (\<lambda>(k, v). case map_of e k of None \<Rightarrow> False | Some w \<Rightarrow> py_eq v w) d)"
| "py_eq v w = (case (num_of v, num_of w) of (Some i, Some j) \<Rightarrow> i = j | _ \<Rightarrow> v = w)"

definition PARENTS :: "string list" where
  "PARENTS = [''item_id'', ''risk_id'', ''opportunity_id'']"

definition DIMENSIONS :: "string list" where
  "DIMENSIONS = [''impact_cost'', ''impact_time'', ''impact_scope'', ''impact_quality'']"

definition SCORES :: "string list" where
  "SCORES = [''probability'', ''impact''] @ DIMENSIONS"

definition DATES :: "string list" where
  "DATES = [''identified_at'', ''response_at'', ''occurred_at'']"

definition SCORED_STATUSES :: "string list" where
  "SCORED_STATUSES = [''concept'', ''active'', ''closed'', ''happened'']"

definition BAD_STATUS :: string where
  "BAD_STATUS = ''Invalid status for this entity''"

definition CHOICES :: "((string \<times> string) \<times> string list \<times> string) list" where
  "CHOICES =
    [((''risk'', ''status''), (SCORED_STATUSES, BAD_STATUS)),
     ((''opportunity'', ''status''), (SCORED_STATUSES, BAD_STATUS)),
     ((''action'', ''status''), ([''open'', ''doing'', ''done''], BAD_STATUS)),
     ((''action'', ''kind''), ([''mitigation'', ''contingency'', ''exploit''], ''Invalid action kind'')),
     ((''helpdesk_ticket'', ''status''), ([''open'', ''in_progress'', ''resolved'', ''closed''], BAD_STATUS)),
     ((''helpdesk_ticket'', ''priority''), ([''low'', ''medium'', ''high'', ''critical''], ''Invalid help-desk priority'')),
     ((''helpdesk_ticket'', ''category''),
       ([''bug'', ''question'', ''feature_request'', ''access'', ''other''], ''Invalid help-desk category''))]"

definition MAX_LENGTH :: "string \<Rightarrow> nat" where
  "MAX_LENGTH key = (case map_of [(''category'', 200), (''document_url'', 2000), (''reporter_email'', 320), (''notes'', 5000)] key of
     None \<Rightarrow> 10000 | Some n \<Rightarrow> n)"

definition is_positive_int :: "pyval \<Rightarrow> bool" where
  "is_positive_int v = (case v of VInt i \<Rightarrow> 1 \<le> i | _ \<Rightarrow> False)"

definition is_deleted_record :: "dict \<Rightarrow> bool" where
  "is_deleted_record rec \<longleftrightarrow> truthy (dget rec ''is_deleted'') \<or> lower (str_or_empty (dget rec ''status'')) = ''deleted''"

definition can_merge :: "dict \<Rightarrow> bool" where
  "can_merge conflict \<longleftrightarrow>
    dget conflict ''op'' = VStr ''upsert'' \<and>
    map_of MERGE_FIELDS (str_or_empty (dget conflict ''entity'')) \<noteq> None \<and>
    (case (as_dict (dget conflict ''record''), as_dict (dget conflict ''server_record'')) of
       (Some local, Some server) \<Rightarrow>
         server \<noteq> [] \<and> \<not> is_deleted_record local \<and> \<not> is_deleted_record server \<and>
         truthy (dget server ''id'') \<and> py_str (dget server ''id'') = py_str (dget conflict ''entity_id'') \<and>
         is_positive_int (dget conflict ''server_version'')
     | _ \<Rightarrow> False)"

definition local_of :: "dict \<Rightarrow> dict" where
  "local_of conflict = (case as_dict (dget conflict ''record'') of None \<Rightarrow> [] | Some d \<Rightarrow> d)"

definition server_of :: "dict \<Rightarrow> dict" where
  "server_of conflict = (case as_dict (dget conflict ''server_record'') of None \<Rightarrow> [] | Some d \<Rightarrow> d)"

definition merge_fields :: "string \<Rightarrow> string list" where
  "merge_fields entity = (case map_of MERGE_FIELDS entity of None \<Rightarrow> [] | Some ks \<Rightarrow> ks)"

definition dimensions_active :: "dict \<Rightarrow> bool" where
  "dimensions_active conflict \<longleftrightarrow> is_scored_entity (str_or_empty (dget conflict ''entity'')) \<and>
     list_ex (\<lambda>k. \<not> is_none (dget (server_of conflict) k) \<or> \<not> is_none (dget (local_of conflict) k)) DIMENSIONS"

definition mergeable_fields :: "dict \<Rightarrow> string list" where
  "mergeable_fields conflict =
    (if \<not> can_merge conflict then []
     else filter (\<lambda>k. dhas (local_of conflict) k \<and> dhas (server_of conflict) k \<and>
                      \<not> py_eq (dget (local_of conflict) k) (dget (server_of conflict) k) \<and>
                      \<not> (k = ''impact'' \<and> dimensions_active conflict))
            (merge_fields (str_or_empty (dget conflict ''entity''))))"

subsection \<open>Validation of the values the user kept\<close>

definition validate_score :: "string \<Rightarrow> pyval \<Rightarrow> unit cresult" where
  "validate_score key v =
    (if is_none v \<and> key \<in> set DIMENSIONS then Inr ()
     else case v of VInt i \<Rightarrow> if 1 \<le> i \<and> i \<le> 5 then Inr () else Inl (CValueError (key @ '' must be an integer from 1 to 5''))
          | _ \<Rightarrow> Inl (CValueError (key @ '' must be an integer from 1 to 5'')))"

definition validate_text :: "(string \<Rightarrow> bool) \<Rightarrow> string \<Rightarrow> string \<Rightarrow> unit cresult" where
  "validate_text iso_ok key v =
    (if key = ''owner_user_id''
     then rguard (uuid_of_str v \<noteq> None) (CValueError ''owner_user_id must be a UUID'')
     else if key \<in> set DATES then rguard (iso_ok v) (CValueError (key @ '' must be a date and time''))
     else if key = ''code'' \<and> \<not> (1 \<le> length v \<and> length v \<le> 64)
     then Inl (CValueError ''code must contain 1 to 64 characters'')
     else rguard (length v \<le> MAX_LENGTH key) (CValueError (key @ '' is too long'')))"

definition validate_selected :: "(string \<Rightarrow> bool) \<Rightarrow> string \<Rightarrow> string \<Rightarrow> pyval \<Rightarrow> unit cresult" where
  "validate_selected iso_ok entity key v =
    (if key \<in> set SCORES then validate_score key v
     else if key = ''title''
     then (case v of VStr s \<Rightarrow> rguard (strip s \<noteq> [] \<and> length s \<le> 300) (CValueError ''title must contain 1 to 300 characters'')
           | _ \<Rightarrow> Inl (CValueError ''title must contain 1 to 300 characters''))
     else case v of
       VNone \<Rightarrow> (case map_of CHOICES (entity, key) of None \<Rightarrow> Inr () | Some (_, err) \<Rightarrow> Inl (CValueError err))
     | VStr s \<Rightarrow> (case map_of CHOICES (entity, key) of
                   None \<Rightarrow> validate_text iso_ok key s
                 | Some (allowed, err) \<Rightarrow> rguard (s \<in> set allowed) (CValueError err))
     | _ \<Rightarrow> Inl (CValueError (key @ '' must be text'')))"

fun validate_all :: "(string \<Rightarrow> bool) \<Rightarrow> string \<Rightarrow> dict \<Rightarrow> unit cresult" where
  "validate_all iso_ok entity [] = Inr ()"
| "validate_all iso_ok entity ((k, v) # sel) = rbind (validate_selected iso_ok entity k v) (\<lambda>_. validate_all iso_ok entity sel)"

text \<open>\<open>max\<close> of a non-empty list: the first largest; numbers or texts compare, anything else raises \<open>TypeError\<close>.\<close>

definition py_less :: "pyval \<Rightarrow> pyval \<Rightarrow> bool cresult" where
  "py_less v w = (case (num_of v, num_of w) of
     (Some i, Some j) \<Rightarrow> Inr (i < j)
   | _ \<Rightarrow> (case (v, w) of (VStr s, VStr t) \<Rightarrow> Inr (s < t) | _ \<Rightarrow> Inl CConversionError))"

fun py_max :: "pyval \<Rightarrow> pyval list \<Rightarrow> pyval cresult" where
  "py_max m [] = Inr m"
| "py_max m (v # vs) = rbind (py_less m v) (\<lambda>b. py_max (if b then v else m) vs)"

definition restrict_keys :: "string list \<Rightarrow> dict \<Rightarrow> dict" where
  "restrict_keys ks d = map (\<lambda>k. (k, dget d k)) (filter (dhas d) ks)"

definition effective_impact :: "string \<Rightarrow> dict \<Rightarrow> dict cresult" where
  "effective_impact entity rec =
    (if is_scored_entity entity
     then (case filter (\<lambda>v. \<not> is_none v) (map (dget rec) DIMENSIONS) of
             [] \<Rightarrow> Inr rec
           | v # vs \<Rightarrow> rbind (py_max v vs) (\<lambda>m. Inr (dset rec ''impact'' m)))
     else Inr rec)"

definition merged_record :: "(string \<Rightarrow> bool) \<Rightarrow> dict \<Rightarrow> (string \<times> string) list \<Rightarrow> (dict \<times> dict) cresult" where
  "merged_record iso_ok conflict choices =
    (let fields = mergeable_fields conflict;
         entity = py_str (dget conflict ''entity'');
         local = local_of conflict; server = server_of conflict in
     if fields = [] then Inl (CValueError ''This conflict cannot be merged field by field'')
     else if fst ` set choices \<noteq> set fields then Inl (CValueError ''Choose local or server for every differing field'')
     else if list_ex (\<lambda>(_, side). side \<notin> {''mine'', ''server''}) choices then Inl (CValueError ''Invalid field choice'')
     else if \<not> list_ex (\<lambda>(_, side). side = ''mine'') choices
     then Inl (CValueError ''Choose Use server when keeping every server field'')
     else let rec = dset (restrict_keys (''id'' # merge_fields entity @ PARENTS) server) ''id'' (VStr (py_str (dget server ''id'')));
              selected = map (\<lambda>(k, _). (k, dget local k)) (filter (\<lambda>(_, side). side = ''mine'') choices) in
       rbind (validate_all iso_ok entity selected) (\<lambda>_.
       rbind (effective_impact entity (dupdate rec selected)) (\<lambda>rec. Inr (rec, selected))))"


section \<open>What a merge keeps\<close>

lemma dget_restrict_keys: "dget (restrict_keys ks d) k = (if k \<in> set ks then dget d k else VNone)"
proof -
  have "map_of (map (\<lambda>k. (k, f k)) xs) k = (if k \<in> set xs then Some (f k) else None)" for xs and f :: "string \<Rightarrow> pyval"
    by (induction xs) auto
  then show ?thesis by (auto simp: restrict_keys_def dget_def dhas_def)
qed

lemma py_max_bound:
  assumes "py_max m vs = Inr r"
  shows "r \<in> set (m # vs) \<and> (\<forall>v \<in> set (m # vs). \<forall>i. num_of v = Some i \<longrightarrow> (\<exists>j. num_of r = Some j \<and> i \<le> j))"
  using assms
proof (induction vs arbitrary: m)
  case (Cons v vs)
  from Cons.prems obtain b where b: "py_less m v = Inr b" and r: "py_max (if b then v else m) vs = Inr r" by auto
  let ?m = "if b then v else m"
  from Cons.IH [OF r] have r: "r \<in> set (?m # vs)"
    "\<And>w i. w \<in> set (?m # vs) \<Longrightarrow> num_of w = Some i \<Longrightarrow> \<exists>j. num_of r = Some j \<and> i \<le> j" by blast+
  have "\<exists>j. num_of ?m = Some j \<and> i \<le> j" if "num_of w = Some i" "w = m \<or> w = v" for w i
    using b that by (auto simp: py_less_def num_of_def split: option.splits pyval.splits if_splits)
  note top = this
  have "\<exists>j. num_of r = Some j \<and> i \<le> j" if w: "num_of w = Some i" "w \<in> set (m # v # vs)" for w i
  proof (cases "w \<in> set vs")
    case True
    then show ?thesis using r(2) [of w] w(1) by simp
  next
    case False
    with w top obtain j where "num_of ?m = Some j" "i \<le> j" by fastforce
    with r(2) [of ?m j] show ?thesis by force
  qed
  moreover have "r \<in> set (m # v # vs)" using r(1) by (auto split: if_splits)
  ultimately show ?case by blast
qed simp

definition has_dimension :: "dict \<Rightarrow> bool" where
  "has_dimension rec \<longleftrightarrow> (\<exists>d \<in> set DIMENSIONS. \<not> is_none (dget rec d))"

lemma effective_impact_spec:
  assumes "effective_impact entity rec = Inr rec'"
  shows "\<forall>k. k \<noteq> ''impact'' \<longrightarrow> dget rec' k = dget rec k"
    "\<not> (is_scored_entity entity \<and> has_dimension rec) \<Longrightarrow> rec' = rec"
    "is_scored_entity entity \<Longrightarrow> \<forall>d \<in> set DIMENSIONS. \<forall>i. num_of (dget rec d) = Some i \<longrightarrow>
       (\<exists>m. num_of (dget rec' ''impact'') = Some m \<and> i \<le> m)"
    "is_scored_entity entity \<Longrightarrow> has_dimension rec \<Longrightarrow> \<exists>d \<in> set DIMENSIONS. dget rec' ''impact'' = dget rec d"
proof -
  let ?dims = "filter (\<lambda>v. \<not> is_none v) (map (dget rec) DIMENSIONS)"
  have mem: "v \<in> set ?dims \<longleftrightarrow> (\<exists>d \<in> set DIMENSIONS. v = dget rec d \<and> \<not> is_none v)" for v by auto
  have ne: "?dims = [] \<longleftrightarrow> \<not> has_dimension rec" unfolding has_dimension_def by (auto simp: filter_empty_conv)
  consider (same) "\<not> is_scored_entity entity \<or> \<not> has_dimension rec" "rec' = rec"
    | (dims) v vs m where "?dims = v # vs" "py_max v vs = Inr m" "rec' = dset rec ''impact'' m" "is_scored_entity entity" "has_dimension rec"
    using assms ne unfolding effective_impact_def by (cases ?dims) (auto split: if_splits)
  note cs = this
  show "\<forall>k. k \<noteq> ''impact'' \<longrightarrow> dget rec' k = dget rec k" using cs by cases auto
  show "rec' = rec" if "\<not> (is_scored_entity entity \<and> has_dimension rec)" using cs that by cases auto
  show "\<exists>d \<in> set DIMENSIONS. dget rec' ''impact'' = dget rec d" if "is_scored_entity entity" "has_dimension rec"
    using cs
  proof cases
    case dims
    then have "m \<in> set ?dims" using py_max_bound [of v vs m] by simp
    then show ?thesis using dims(3) by (auto simp: mem)
  qed (use that in auto)
  show "\<forall>d \<in> set DIMENSIONS. \<forall>i. num_of (dget rec d) = Some i \<longrightarrow> (\<exists>m. num_of (dget rec' ''impact'') = Some m \<and> i \<le> m)"
    if "is_scored_entity entity"
  proof (intro ballI allI impI)
    fix d i assume d: "d \<in> set DIMENSIONS" "num_of (dget rec d) = Some i"
    then have some: "\<not> is_none (dget rec d)" by (cases "dget rec d") (simp_all add: num_of_def)
    from cs show "\<exists>m. num_of (dget rec' ''impact'') = Some m \<and> i \<le> m"
    proof cases
      case same
      with that some d(1) show ?thesis by (auto simp: has_dimension_def)
    next
      case dims
      have "dget rec d \<in> set ?dims" using d(1) some by (auto simp: mem)
      then show ?thesis using py_max_bound [OF dims(2)] d(2) dims(1,3) by auto
    qed
  qed
qed

definition chosen :: "dict \<Rightarrow> (string \<times> string) list \<Rightarrow> string \<Rightarrow> pyval" where
  "chosen conflict choices k = (if (k, ''mine'') \<in> set choices then dget (local_of conflict) k else dget (server_of conflict) k)"

lemma merged_record_Inr:
  assumes "merged_record iso_ok conflict choices = Inr (rec, selected)" "distinct (map fst choices)"
  obtains rec0 where "effective_impact (py_str (dget conflict ''entity'')) rec0 = Inr rec"
    "\<And>k. k \<in> set (merge_fields (py_str (dget conflict ''entity''))) \<Longrightarrow> k \<noteq> ''id'' \<Longrightarrow> dget rec0 k = chosen conflict choices k"
    "mergeable_fields conflict \<noteq> []" "fst ` set choices = set (mergeable_fields conflict)"
    "validate_all iso_ok (py_str (dget conflict ''entity'')) selected = Inr ()"
    "selected = map (\<lambda>(k, _). (k, dget (local_of conflict) k)) (filter (\<lambda>(_, side). side = ''mine'') choices)"
proof -
  let ?entity = "py_str (dget conflict ''entity'')" and ?mine = "filter (\<lambda>(_, side). side = ''mine'') choices"
  let ?sel = "map (\<lambda>(k, _). (k, dget (local_of conflict) k)) ?mine"
  let ?base = "dset (restrict_keys (''id'' # merge_fields ?entity @ PARENTS) (server_of conflict)) ''id''
    (VStr (py_str (dget (server_of conflict) ''id'')))"
  have fsts: "map fst ?sel = map fst ?mine" by (simp add: o_def case_prod_beta)
  have "distinct (map fst ?sel)" unfolding fsts using assms(2) by (rule distinct_map_filter)
  note get = dget_dupdate [OF this, of ?base]
  have mine: "dhas ?sel k \<longleftrightarrow> (k, ''mine'') \<in> set choices" for k
    unfolding dhas_fst by (force simp: fsts [symmetric] image_iff)
  have "dget ?sel k = dget (local_of conflict) k" if "(k, ''mine'') \<in> set choices" for k
  proof -
    have "(k, dget (local_of conflict) k) \<in> set ?sel" using that by force
    then show ?thesis using \<open>distinct (map fst ?sel)\<close> unfolding dget_def by (simp add: map_of_is_SomeI)
  qed
  then have "dget (dupdate ?base ?sel) k = chosen conflict choices k"
    if "k \<in> set (merge_fields ?entity)" "k \<noteq> ''id''" for k
    unfolding get using that by (simp add: mine chosen_def dget_restrict_keys)
  moreover have "effective_impact ?entity (dupdate ?base ?sel) = Inr rec" "mergeable_fields conflict \<noteq> []"
    "fst ` set choices = set (mergeable_fields conflict)" "validate_all iso_ok ?entity selected = Inr ()" "selected = ?sel"
    using assms(1) by (auto simp: merged_record_def Let_def split: if_splits)
  ultimately show thesis using that by blast
qed

lemma validate_score_Inr:
  "validate_score k v = Inr () \<Longrightarrow> v = VNone \<and> k \<in> set DIMENSIONS \<or> (\<exists>i. v = VInt i \<and> 1 \<le> i \<and> i \<le> 5)"
  by (auto simp: validate_score_def is_none_iff split: if_splits pyval.splits)

lemma validate_all_Inr: "validate_all iso_ok entity sel = Inr () \<Longrightarrow> (k, v) \<in> set sel \<Longrightarrow> validate_selected iso_ok entity k v = Inr ()"
  by (induction sel) auto

lemma merge_fields_no_id: "''id'' \<notin> set (merge_fields entity)"
  by (auto simp: merge_fields_def MERGE_FIELDS_def scored_merge_fields_def dest!: map_of_SomeD split: option.splits)

lemma dimensions_kept:
  "effective_impact entity rec0 = Inr rec \<Longrightarrow> has_dimension rec0 = has_dimension rec"
  "effective_impact entity rec0 = Inr rec \<Longrightarrow> d \<in> set DIMENSIONS \<Longrightarrow> dget rec0 d = dget rec d"
proof -
  assume e: "effective_impact entity rec0 = Inr rec"
  have "''impact'' \<notin> set DIMENSIONS" by (simp add: DIMENSIONS_def)
  then have d: "dget rec0 d = dget rec d" if "d \<in> set DIMENSIONS" for d
    using effective_impact_spec(1) [OF e] that by metis
  then show "has_dimension rec0 = has_dimension rec" by (simp add: has_dimension_def)
  show "dget rec0 d = dget rec d" if "d \<in> set DIMENSIONS" by (rule d [OF that])
qed

text \<open>C26: A merge decides every field: it is refused unless the user chose a side for exactly the fields that
  differ; the record it builds holds the local value of the fields kept and the server value of every other
  editable field. For risks and opportunities with impact dimensions the impact is instead the largest of
  the merged dimensions. Every local score that is kept lies in 1..5 (a dimension may be empty).\<close>

theorem merge_decides_every_field:
  assumes m: "merged_record iso_ok conflict choices = Inr (rec, selected)" and d: "distinct (map fst choices)"
    and en: "py_str (dget conflict ''entity'') = entity"
  shows "set (map fst choices) = set (mergeable_fields conflict) \<and>
    (\<forall>k \<in> set (merge_fields entity).
      (if k = ''impact'' \<and> is_scored_entity entity \<and> has_dimension rec
       then (\<exists>d \<in> set DIMENSIONS. dget rec k = dget rec d) \<and>
            (\<forall>d \<in> set DIMENSIONS. \<forall>i. num_of (dget rec d) = Some i \<longrightarrow> (\<exists>m. num_of (dget rec k) = Some m \<and> i \<le> m))
       else dget rec k = chosen conflict choices k)) \<and>
    (\<forall>k \<in> set SCORES. (k, ''mine'') \<in> set choices \<longrightarrow>
      dget (local_of conflict) k = VNone \<and> k \<in> set DIMENSIONS \<or>
      (\<exists>i. dget (local_of conflict) k = VInt i \<and> 1 \<le> i \<and> i \<le> 5))"
proof (intro conjI)
  obtain rec0 where rec0: "effective_impact entity rec0 = Inr rec"
    and keys: "\<And>k. k \<in> set (merge_fields entity) \<Longrightarrow> k \<noteq> ''id'' \<Longrightarrow> dget rec0 k = chosen conflict choices k"
    and fields: "fst ` set choices = set (mergeable_fields conflict)"
    and val: "validate_all iso_ok entity selected = Inr ()"
    and sel: "selected = map (\<lambda>(k, _). (k, dget (local_of conflict) k)) (filter (\<lambda>(_, side). side = ''mine'') choices)"
    by (rule merged_record_Inr [OF m d, unfolded en]) (blast intro: that)
  show "set (map fst choices) = set (mergeable_fields conflict)" using fields by simp
  show "\<forall>k \<in> set SCORES. (k, ''mine'') \<in> set choices \<longrightarrow>
      dget (local_of conflict) k = VNone \<and> k \<in> set DIMENSIONS \<or>
      (\<exists>i. dget (local_of conflict) k = VInt i \<and> 1 \<le> i \<and> i \<le> 5)"
  proof (intro ballI impI)
    fix k assume k: "k \<in> set SCORES" "(k, ''mine'') \<in> set choices"
    then have "(k, dget (local_of conflict) k) \<in> set selected" unfolding sel by force
    from validate_all_Inr [OF val this] k(1)
    have "validate_score k (dget (local_of conflict) k) = Inr ()" by (simp add: validate_selected_def)
    then show "dget (local_of conflict) k = VNone \<and> k \<in> set DIMENSIONS \<or>
      (\<exists>i. dget (local_of conflict) k = VInt i \<and> 1 \<le> i \<and> i \<le> 5)" by (rule validate_score_Inr)
  qed
  note spec = effective_impact_spec [OF rec0, unfolded dimensions_kept [OF rec0]]
  have dims: "(\<exists>d \<in> set DIMENSIONS. dget rec ''impact'' = dget rec d) \<and>
      (\<forall>d \<in> set DIMENSIONS. \<forall>i. num_of (dget rec d) = Some i \<longrightarrow> (\<exists>m. num_of (dget rec ''impact'') = Some m \<and> i \<le> m))"
    if "is_scored_entity entity" "has_dimension rec"
    using spec(3,4) that dimensions_kept(2) [OF rec0] by auto
  have "dget rec k = chosen conflict choices k" if "k \<in> set (merge_fields entity)" "\<not> (k = ''impact'' \<and> is_scored_entity entity \<and> has_dimension rec)" for k
  proof -
    have "dget rec k = dget rec0 k" using spec(1,2) that(2) by blast
    with keys [OF that(1)] that(1) merge_fields_no_id [of entity] show ?thesis by metis
  qed
  with dims show "\<forall>k \<in> set (merge_fields entity).
      (if k = ''impact'' \<and> is_scored_entity entity \<and> has_dimension rec
       then (\<exists>d \<in> set DIMENSIONS. dget rec k = dget rec d) \<and>
            (\<forall>d \<in> set DIMENSIONS. \<forall>i. num_of (dget rec d) = Some i \<longrightarrow> (\<exists>m. num_of (dget rec k) = Some m \<and> i \<le> m))
       else dget rec k = chosen conflict choices k)" by auto
qed

definition demo_conflict :: dict where
  "demo_conflict =
    [(''entity'', VStr ''risk''), (''op'', VStr ''upsert''), (''entity_id'', VStr ''r''), (''server_version'', VInt 4),
     (''record'', VDict [(''id'', VStr ''r''), (''title'', VStr ''mine''), (''probability'', VInt 2)]),
     (''server_record'', VDict [(''id'', VStr ''r''), (''title'', VStr ''theirs''), (''probability'', VInt 5)])]"

definition demo_choices :: "(string \<times> string) list" where
  "demo_choices = [(''title'', ''server''), (''probability'', ''mine'')]"

definition demo_merged :: dict where
  "demo_merged = [(''id'', VStr ''r''), (''title'', VStr ''theirs''), (''probability'', VInt 2)]"

lemma demo_merge: "merged_record (\<lambda>_. True) demo_conflict demo_choices = Inr (demo_merged, [(''probability'', VInt 2)])"
  by code_simp

theorem merge_decides_every_field_witness:
  "dget demo_merged ''title'' = VStr ''theirs'' \<and> dget demo_merged ''probability'' = VInt 2 \<and>
   set (map fst demo_choices) = set (mergeable_fields demo_conflict)"
proof -
  have p: "distinct (map fst demo_choices)" "py_str (dget demo_conflict ''entity'') = ''risk''" by code_simp+
  note w = merge_decides_every_field [OF demo_merge p]
  have "''title'' \<in> set (merge_fields ''risk'')" "''probability'' \<in> set (merge_fields ''risk'')" by code_simp+
  with w have "dget demo_merged ''title'' = chosen demo_conflict demo_choices ''title''"
    "dget demo_merged ''probability'' = chosen demo_conflict demo_choices ''probability''" by auto
  moreover have "chosen demo_conflict demo_choices ''title'' = VStr ''theirs''"
    "chosen demo_conflict demo_choices ''probability'' = VInt 2" by code_simp+
  ultimately show ?thesis using w by simp
qed

end
