(* ===== verification/Client_Sync.thy ===== *)
theory Client_Sync
  imports Client_Merge
begin

section \<open>The synchronization service\<close>

text \<open>
  \<open>services/synchronization_service.py\<close> with the project operations of \<open>local_storage/project_store.py\<close> it
  uses. A run threads the local database and the summary through steps that may raise; a local write
  transaction is a function that either commits its whole effect or leaves the database unchanged.

  The server is a parameter: \<open>remote\<close> holds the four calls the service makes. A pull call gets its number
  within the run, so that a server whose state moves between calls is covered. \<open>should_cancel\<close> is asked at
  fixed points of the code, each reached at most once per run (pages are numbered), so it is a predicate on
  these points. Edits that the user commits while a request is in flight are the functions \<open>se_during_push\<close>
  and \<open>se_during_pull\<close>. Progress callbacks have no effect on the run (their exceptions are swallowed).
  The download loop stops after \<open>se_fuel\<close> pages with \<open>OutOfFuel\<close>, which no Python run does.
\<close>

subsection \<open>Steps that may raise\<close>

text \<open>
  \<open>ApiError\<close> has a status and a detail text; \<open>Crash\<close> is any other exception, the flag says whether
  it is an \<open>AttributeError\<close> or a \<open>RuntimeError\<close>.
\<close>

datatype remote_error =
    ApiError int string
  | Crash bool string

datatype sexc =
    SyncCancelled
  | SyncFailed dict
  | SRaise cexc
  | SRemote remote_error
  | OutOfFuel

type_synonym ('s, 'a) act = "'s \<Rightarrow> (sexc + 'a) \<times> 's"

definition aret :: "'a \<Rightarrow> ('s, 'a) act" where
  "aret a s = (Inr a, s)"

definition araise :: "sexc \<Rightarrow> ('s, 'a) act" where
  "araise e s = (Inl e, s)"

definition abind :: "('s, 'a) act \<Rightarrow> ('a \<Rightarrow> ('s, 'b) act) \<Rightarrow> ('s, 'b) act" where
  "abind m f s = (case m s of (Inl e, s') \<Rightarrow> (Inl e, s') | (Inr a, s') \<Rightarrow> f a s')"

definition aguard :: "bool \<Rightarrow> sexc \<Rightarrow> ('s, unit) act" where
  "aguard b e s = (if b then (Inr (), s) else (Inl e, s))"

definition amodify :: "('s \<Rightarrow> 's) \<Rightarrow> ('s, unit) act" where
  "amodify f s = (Inr (), f s)"

text \<open>A write transaction: an error rolls back.\<close>

definition transaction :: "('s \<Rightarrow> 's cresult) \<Rightarrow> ('s, unit) act" where
  "transaction f s = (case f s of Inl e \<Rightarrow> (Inl (SRaise e), s) | Inr s' \<Rightarrow> (Inr (), s'))"

fun aeach :: "('r \<Rightarrow> ('s, unit) act) \<Rightarrow> 'r list \<Rightarrow> ('s, unit) act" where
  "aeach f [] = aret ()"
| "aeach f (r # rs) = abind (f r) (\<lambda>_. aeach f rs)"

subsection \<open>The server and the run\<close>

record project =
  p_id :: string
  p_name :: string
  p_description :: string
  p_created_by :: string

record pull_request =
  rq_since :: int
  rq_limit :: "int option"
  rq_cursors :: "dict option"
  rq_snapshot :: "int option"

record remote =
  rm_push :: "string \<Rightarrow> dict list \<Rightarrow> remote_error + pyval"
  rm_pull :: "nat \<Rightarrow> string \<Rightarrow> pull_request \<Rightarrow> remote_error + dict"
  rm_list_projects :: "remote_error + project list"
  rm_create_project :: "(string \<Rightarrow> string \<Rightarrow> remote_error + project option) option"

datatype checkpoint =
    Preparing | After_publish | After_push | Pulling | After_pull
  | Page_start nat | Page_done nat
  | Applying string | Finalizing

record sync_env =
  se_remote :: "remote option"
  se_cancel :: "checkpoint \<Rightarrow> bool"
  se_now :: time
  se_loads :: "string \<Rightarrow> pyval option"
  se_during_push :: "ldb \<Rightarrow> ldb"
  se_during_pull :: "ldb \<Rightarrow> ldb"
  se_fuel :: nat

record summary =
  sm_state :: sync_state
  sm_pushed :: nat
  sm_conflicts :: nat
  sm_errors :: nat
  sm_deferred :: nat
  sm_blocked_details :: "dict list"
  sm_next_retry_at :: "string option"
  sm_pulled :: "(string \<times> nat) list"
  sm_acknowledged :: "dict list"
  sm_cancelled :: bool
  sm_sync_error :: "dict option"
  sm_migrated :: "(string \<times> string) option"

record sync_run =
  sr_db :: ldb
  sr_summary :: summary

definition on_db :: "(ldb, 'a) act \<Rightarrow> (sync_run, 'a) act" where
  "on_db m s = (case m (sr_db s) of (r, db) \<Rightarrow> (r, s\<lparr>sr_db := db\<rparr>))"

definition PULL_KEYS :: "string list" where
  "PULL_KEYS = [''risks'', ''opportunities'', ''actions'', ''assessments'', ''helpdesk_tickets'']"

definition SYNC_EPOCH :: string where
  "SYNC_EPOCH = ''1970-01-01T00:00:00''"

definition empty_summary :: summary where
  "empty_summary = \<lparr>sm_state = COMPLETE, sm_pushed = 0, sm_conflicts = 0, sm_errors = 0, sm_deferred = 0,
     sm_blocked_details = [], sm_next_retry_at = None, sm_pulled = map (\<lambda>k. (k, 0)) PULL_KEYS,
     sm_acknowledged = [], sm_cancelled = False, sm_sync_error = None, sm_migrated = None\<rparr>"

definition check_cancel :: "sync_env \<Rightarrow> checkpoint \<Rightarrow> ('s, unit) act" where
  "check_cancel e c = aguard (\<not> se_cancel e c) SyncCancelled"

subsection \<open>Failures and results of a push\<close>

definition request_failure :: "string \<Rightarrow> string \<Rightarrow> int \<Rightarrow> dict" where
  "request_failure reason detail http_status =
    (let (failure_kind, retryable) = classify_http_status http_status in
     [(''status'', VStr ''error''), (''reason'', VStr reason), (''detail'', VStr detail), (''http_status'', VInt http_status),
      (''failure_kind'', VStr (kind_value failure_kind)), (''retryable'', VBool retryable), (''request_failed'', VBool True)])"

text \<open>Only exceptions with a status are failures; the others are raised again.\<close>

definition failure_from_exception :: "remote_error \<Rightarrow> string \<Rightarrow> sexc + dict" where
  "failure_from_exception exc phase =
    (case exc of ApiError status detail \<Rightarrow> Inr (request_failure (phase @ ''_request_failed'') detail status)
     | Crash _ _ \<Rightarrow> Inl (SRemote exc))"

definition FAILURE_KIND_BY_REASON :: "(string \<times> string) list" where
  "FAILURE_KIND_BY_REASON =
    [(''insufficient_permissions'', kind_value PERMISSION), (''internal_error'', kind_value TRANSIENT)]"

definition normalize_error :: "dict \<Rightarrow> dict" where
  "normalize_error item =
    (let reason = str_or_empty (dget item ''reason'');
         kind = str_or_empty (dget item ''failure_kind'');
         kind = (if kind \<noteq> [] then kind
                 else case map_of FAILURE_KIND_BY_REASON reason of None \<Rightarrow> kind_value VALIDATION | Some k \<Rightarrow> k)
     in dset (dset item ''failure_kind'' (VStr kind)) ''retryable''
          (VBool (truthy (dget item ''retryable'') \<or> kind = kind_value TRANSIENT)))"

definition has_server_state :: "dict \<Rightarrow> bool" where
  "has_server_state result \<longleftrightarrow> server_record_of result \<noteq> None \<or> strict_int (dget result ''server_version'') \<noteq> None"

definition result_matches_change :: "dict \<Rightarrow> dict \<Rightarrow> string \<Rightarrow> bool" where
  "result_matches_change result change project_id =
    (let entity = dget change ''entity'';
         entity_id = (case as_dict (dget change ''record'') of None \<Rightarrow> VNone | Some r \<Rightarrow> dget r ''id'') in
     dget result ''status'' \<in> {VStr ''accepted'', VStr ''conflict'', VStr ''error''} \<and>
     \<not> (truthy entity \<and> dget result ''entity'' \<notin> {VNone, entity}) \<and>
     \<not> (truthy entity_id \<and> dget result ''entity_id'' \<notin> {VNone, entity_id}) \<and>
     (case as_dict (dget result ''server_record'') of
        None \<Rightarrow> True
      | Some sr \<Rightarrow> (\<not> truthy entity_id \<or> dget sr ''id'' \<in> {VNone, entity_id}) \<and>
                   dget sr ''project_id'' \<in> {VNone, VStr project_id}))"

text \<open>The changes that were sent by receipt id; of two with the same id the later one counts.\<close>

definition sent_changes :: "dict list \<Rightarrow> (string \<times> dict) list" where
  "sent_changes changes = rev (map (\<lambda>c. (py_str (dget c ''change_id''), c)) (filter (\<lambda>c. truthy (dget c ''change_id'')) changes))"

fun check_results :: "string \<Rightarrow> (string \<times> dict) list \<Rightarrow> string list \<Rightarrow> pyval list \<Rightarrow> (dict list \<times> string list) option" where
  "check_results project_id sent seen [] = Some ([], seen)"
| "check_results project_id sent seen (v # vs) =
    (case as_dict v of
       None \<Rightarrow> None
     | Some result \<Rightarrow>
         (case dget result ''change_id'' of
            VStr i \<Rightarrow>
              (case map_of sent i of
                 None \<Rightarrow> None
               | Some change \<Rightarrow>
                   if i \<in> set seen \<or> \<not> result_matches_change result change project_id then None
                   else map_option (\<lambda>(rs, seen). (result # rs, seen)) (check_results project_id sent (i # seen) vs))
          | _ \<Rightarrow> None))"

definition validated_push_results :: "string \<Rightarrow> dict list \<Rightarrow> pyval \<Rightarrow> dict list option" where
  "validated_push_results project_id changes response =
    (case response of
       VDict d \<Rightarrow>
         (case dget d ''results'' of
            VList raw \<Rightarrow>
              if raw = [] then None
              else (case check_results project_id (sent_changes changes) [] raw of
                      None \<Rightarrow> None
                    | Some (rs, seen) \<Rightarrow> if set seen = fst ` set (sent_changes changes) then Some rs else None)
          | _ \<Rightarrow> None)
     | _ \<Rightarrow> None)"

definition acknowledged_versions :: "dict list \<Rightarrow> dict list \<Rightarrow> dict list" where
  "acknowledged_versions changes accepted =
    (let sent = rev (map (\<lambda>c. (str_or_empty (dget c ''change_id''), c)) changes) in
     concat (map (\<lambda>item. case acknowledged_version item of
         None \<Rightarrow> []
       | Some version \<Rightarrow>
           let change = (case map_of sent (py_str (dget item ''change_id'')) of None \<Rightarrow> [] | Some c \<Rightarrow> c);
               record_id = (case as_dict (dget change ''record'') of None \<Rightarrow> VNone | Some r \<Rightarrow> dget r ''id'') in
           [[(''entity'', VStr (py_str (or_all [dget item ''entity'', dget change ''entity''] (VStr [])))),
             (''entity_id'', VStr (py_str (or_all [dget item ''entity_id'', record_id] (VStr [])))),
             (''base_version'', dget change ''base_version''), (''server_version'', VInt version)]]) accepted))"

subsection \<open>Push\<close>

record push_outcome =
  po_pushed :: nat
  po_conflicts :: "dict list"
  po_errors :: "dict list"
  po_acknowledged :: "dict list"

definition park_failure :: "sync_env \<Rightarrow> dict \<Rightarrow> (ldb, unit) act" where
  "park_failure e err =
    (let change_id = py_str (dget err ''change_id'') in
     if truthy (dget err ''retryable'') then amodify (\<lambda>db. snd (defer_outbox_id (se_loads e) change_id (VDict err) None (se_now e) db))
     else transaction (block_outbox_id (se_loads e) change_id (VDict err) (py_str (dget err ''failure_kind'')) (se_now e)))"

definition fail_batch :: "sync_env \<Rightarrow> string list \<Rightarrow> dict \<Rightarrow> (ldb, push_outcome) act" where
  "fail_batch e change_ids failure =
    (let errors = map (\<lambda>i. dset failure ''change_id'' (VStr i)) change_ids in
     abind (aeach (park_failure e) errors) (\<lambda>_.
     aret \<lparr>po_pushed = 0, po_conflicts = [], po_errors = errors, po_acknowledged = []\<rparr>))"

definition acknowledge :: "string \<Rightarrow> dict list \<Rightarrow> (ldb, unit) act" where
  "acknowledge project_id accepted =
    (let with_state = filter has_server_state accepted;
         stateless = map (\<lambda>i. py_str (dget i ''change_id'')) (filter (\<lambda>i. \<not> has_server_state i) accepted) in
     abind (if with_state = [] then aret ()
            else transaction (\<lambda>db. rbind (acknowledge_accepted_results project_id with_state db) (\<lambda>(_, db). Inr db))) (\<lambda>_.
     amodify (delete_outbox_ids stateless)))"

definition sent_ids :: "dict list \<Rightarrow> string list" where
  "sent_ids changes = map (\<lambda>c. py_str (dget c ''change_id'')) (filter (\<lambda>c. truthy (dget c ''change_id'')) changes)"

definition has_status :: "string \<Rightarrow> dict \<Rightarrow> bool" where
  "has_status s result \<longleftrightarrow> dget result ''status'' = VStr s"

definition settle_results :: "sync_env \<Rightarrow> string \<Rightarrow> dict list \<Rightarrow> dict list \<Rightarrow> (ldb, push_outcome) act" where
  "settle_results e project_id changes results =
    (let accepted = filter (has_status ''accepted'') results;
         conflicts = filter (has_status ''conflict'') results;
         errors = map normalize_error (filter (has_status ''error'') results) in
     abind (acknowledge project_id accepted) (\<lambda>_.
     abind (aeach (\<lambda>c. transaction (block_outbox_id (se_loads e) (py_str (dget c ''change_id'')) (VDict c) (kind_value CONFLICT) (se_now e)))
              conflicts) (\<lambda>_.
     abind (aeach (park_failure e) errors) (\<lambda>_.
     aret \<lparr>po_pushed = length accepted, po_conflicts = conflicts, po_errors = errors,
           po_acknowledged = acknowledged_versions changes accepted\<rparr>))))"

definition process_push :: "sync_env \<Rightarrow> remote \<Rightarrow> string \<Rightarrow> dict list \<Rightarrow> (ldb, push_outcome) act" where
  "process_push e remote project_id changes =
    abind (amodify (mark_outbox_ids_attempted (sent_ids changes) (isoformat (se_now e)))) (\<lambda>_.
    abind (amodify (se_during_push e)) (\<lambda>_.
    case rm_push remote project_id changes of
      Inl exc \<Rightarrow> (case failure_from_exception exc ''push'' of
                    Inl err \<Rightarrow> araise err
                  | Inr failure \<Rightarrow> fail_batch e (sent_ids changes) failure)
    | Inr response \<Rightarrow>
        (case validated_push_results project_id changes response of
           None \<Rightarrow> fail_batch e (sent_ids changes)
             (request_failure ''push_invalid_response'' ''Server returned an invalid synchronization response'' 0)
         | Some results \<Rightarrow> settle_results e project_id changes results)))"

definition push :: "sync_env \<Rightarrow> remote \<Rightarrow> string \<Rightarrow> dict list \<Rightarrow> (sync_run, unit) act" where
  "push e remote project_id changes =
    abind (on_db (process_push e remote project_id changes)) (\<lambda>outcome.
    let deferred = length (filter (\<lambda>err. truthy (dget err ''retryable'')) (po_errors outcome)) in
    abind (amodify (\<lambda>s. s\<lparr>sr_summary := (sr_summary s)\<lparr>
        sm_acknowledged := (if po_acknowledged outcome = [] then sm_acknowledged (sr_summary s) else po_acknowledged outcome),
        sm_pushed := sm_pushed (sr_summary s) + po_pushed outcome,
        sm_conflicts := sm_conflicts (sr_summary s) + length (po_conflicts outcome),
        sm_deferred := sm_deferred (sr_summary s) + deferred,
        sm_errors := sm_errors (sr_summary s) + (length (po_errors outcome) - deferred)\<rparr>\<rparr>)) (\<lambda>_.
    case filter (\<lambda>err. truthy (dget err ''request_failed'')) (po_errors outcome) of
      [] \<Rightarrow> aret ()
    | err # _ \<Rightarrow> araise (SyncFailed err)))"

subsection \<open>Pull\<close>

definition validated_server_sequence :: "dict \<Rightarrow> int cresult" where
  "validated_server_sequence response =
    (case dget response ''server_sequence'' of
       VInt i \<Rightarrow> if i < 0 then Inl (CRuntimeError ''Synchronization returned an invalid server_sequence'') else Inr i
     | _ \<Rightarrow> Inl (CRuntimeError ''Synchronization returned an invalid server_sequence''))"

text \<open>
  The cursors of the next page; \<open>None\<close> after the last. Metadata that is not an object, and a cursor that
  is missing or did not move for a key that has more, are errors.
\<close>

definition next_page_cursors :: "dict \<Rightarrow> dict \<Rightarrow> dict option cresult" where
  "next_page_cursors resp cursors =
    (case (py_or (dget resp ''has_more'') (VDict []), py_or (dget resp ''cursors'') (VDict [])) of
       (VDict has_more, VDict next_cursors) \<Rightarrow>
         let more_keys = map fst (filter (\<lambda>(_, more). truthy more) has_more);
             stalled = filter (\<lambda>k. \<not> truthy (dget next_cursors k) \<or> dget next_cursors k = dget cursors k) more_keys in
         if more_keys = [] then Inr None
         else if stalled \<noteq> [] then Inl (CRuntimeError (''Sync pagination did not advance for: '' @ join_with '', '' stalled))
         else Inr (Some (map (\<lambda>(k, v). (k, VStr (py_str v))) (filter (\<lambda>(_, v). truthy v) next_cursors)))
     | _ \<Rightarrow> Inl (CRuntimeError ''Invalid sync pagination metadata''))"

text \<open>The rows of a key: a list of JSON objects, or nothing.\<close>

definition rows_of :: "dict \<Rightarrow> string \<Rightarrow> pyval list cresult" where
  "rows_of resp key = (case py_or (dget resp key) (VList []) of VList vs \<Rightarrow> Inr vs | _ \<Rightarrow> Inl CConversionError)"

fun extend_rows :: "dict \<Rightarrow> string list \<Rightarrow> (string \<times> pyval list) list \<Rightarrow> (string \<times> pyval list) list cresult" where
  "extend_rows resp [] merged = Inr merged"
| "extend_rows resp (k # ks) merged =
    rbind (rows_of resp k) (\<lambda>vs. extend_rows resp ks
      (AList.update k ((case map_of merged k of None \<Rightarrow> [] | Some old \<Rightarrow> old) @ vs) merged))"

fun pull_pages :: "sync_env \<Rightarrow> remote \<Rightarrow> string \<Rightarrow> int \<Rightarrow> nat \<Rightarrow> nat \<Rightarrow> dict \<Rightarrow> (int \<times> pyval) option \<Rightarrow>
    (string \<times> pyval list) list \<Rightarrow> sexc + ((int \<times> pyval) option \<times> (string \<times> pyval list) list)" where
  "pull_pages e remote project_id since 0 page cursors snapshot merged = Inl OutOfFuel"
| "pull_pages e remote project_id since (Suc fuel) page cursors snapshot merged =
    rbind (rguard (\<not> se_cancel e (Page_start page)) SyncCancelled) (\<lambda>_.
    rbind (case rm_pull remote page project_id
             \<lparr>rq_since = since, rq_limit = Some 2000, rq_cursors = (if cursors = [] then None else Some cursors),
              rq_snapshot = map_option fst snapshot\<rparr> of Inl exc \<Rightarrow> Inl (SRemote exc) | Inr resp \<Rightarrow> Inr resp) (\<lambda>resp.
    rbind (rguard (\<not> se_cancel e (Page_done page)) SyncCancelled) (\<lambda>_.
    rbind (map_sum SRaise id (validated_server_sequence resp)) (\<lambda>page_sequence.
    rbind (rguard (case snapshot of None \<Rightarrow> True | Some s \<Rightarrow> page_sequence = fst s)
             (SRaise (CRuntimeError ''Sync pagination sequence snapshot changed between pages''))) (\<lambda>_.
    let snapshot = (case snapshot of None \<Rightarrow> Some (page_sequence, dget resp ''server_time'') | Some s \<Rightarrow> Some s) in
    rbind (map_sum SRaise id (extend_rows resp PULL_KEYS merged)) (\<lambda>merged.
    rbind (map_sum SRaise id (next_page_cursors resp cursors)) (\<lambda>next_cursors.
    case next_cursors of
      None \<Rightarrow> Inr (snapshot, merged)
    | Some cursors \<Rightarrow> pull_pages e remote project_id since fuel (Suc page) cursors snapshot merged)))))))"

definition pull_paginated :: "sync_env \<Rightarrow> remote \<Rightarrow> string \<Rightarrow> int \<Rightarrow> sexc + dict" where
  "pull_paginated e remote project_id since =
    rbind (pull_pages e remote project_id since (se_fuel e) 1 [] None (map (\<lambda>k. (k, [])) PULL_KEYS)) (\<lambda>(snapshot, merged).
    Inr ([(''server_time'', case snapshot of None \<Rightarrow> VNone | Some (_, t) \<Rightarrow> t),
          (''server_sequence'', case snapshot of None \<Rightarrow> VNone | Some (n, _) \<Rightarrow> VInt n)] @
         map (\<lambda>(k, vs). (k, VList vs)) merged))"

definition fetch_pull :: "sync_env \<Rightarrow> remote \<Rightarrow> string \<Rightarrow> int \<Rightarrow> sexc + dict" where
  "fetch_pull e remote project_id since =
    (case rm_pull remote 0 project_id \<lparr>rq_since = since, rq_limit = None, rq_cursors = None, rq_snapshot = None\<rparr> of
       Inl (ApiError status detail) \<Rightarrow>
         if status = 413 then pull_paginated e remote project_id since else Inl (SRemote (ApiError status detail))
     | Inl exc \<Rightarrow> Inl (SRemote exc)
     | Inr pull \<Rightarrow> rbind (rguard (\<not> se_cancel e After_pull) SyncCancelled) (\<lambda>_. Inr pull))"

definition download :: "sync_env \<Rightarrow> remote \<Rightarrow> string \<Rightarrow> (sync_run, dict) act" where
  "download e remote project_id s =
    abind (check_cancel e Pulling) (\<lambda>_.
    case fetch_pull e remote project_id (get_last_server_sequence (sr_db s) project_id) of
      Inr pull \<Rightarrow> aret pull
    | Inl (SRemote exc) \<Rightarrow> (case failure_from_exception exc ''pull'' of Inl err \<Rightarrow> araise err | Inr failure \<Rightarrow> araise (SyncFailed failure))
    | Inl err \<Rightarrow> araise err) s"

text \<open>
  Applying a pull is one write transaction: cancelling or failing anywhere in it keeps the database, while the
  counts already put into the summary stay there.
\<close>

fun as_dicts :: "pyval list \<Rightarrow> dict list cresult" where
  "as_dicts [] = Inr []"
| "as_dicts (v # vs) = (case as_dict v of None \<Rightarrow> Inl CConversionError | Some d \<Rightarrow> rbind (as_dicts vs) (\<lambda>ds. Inr (d # ds)))"

definition ENTITY_BY_KEY :: "(string \<times> string) list" where
  "ENTITY_BY_KEY = [(''risks'', ''risk''), (''opportunities'', ''opportunity''), (''actions'', ''action''),
     (''assessments'', ''assessment''), (''helpdesk_tickets'', ''helpdesk_ticket'')]"

definition apply_pull_key :: "sync_env \<Rightarrow> string \<Rightarrow> dict \<Rightarrow> string \<times> string \<Rightarrow> (sync_run, unit) act" where
  "apply_pull_key e project_id pull = (\<lambda>(key, entity).
    abind (check_cancel e (Applying key)) (\<lambda>_.
    case rows_of pull key of
      Inl err \<Rightarrow> araise (SRaise err)
    | Inr items \<Rightarrow>
        abind (on_db (transaction (\<lambda>db. rbind (as_dicts items) (\<lambda>items.
                if key = ''helpdesk_tickets'' \<and> items = [] then Inr db else pull_entity entity project_id items db)))) (\<lambda>_.
        amodify (\<lambda>s. s\<lparr>sr_summary := (sr_summary s)\<lparr>
          sm_pulled := AList.update key (length items) (sm_pulled (sr_summary s))\<rparr>\<rparr>))))"

definition apply_pull_rows :: "sync_env \<Rightarrow> string \<Rightarrow> dict \<Rightarrow> string \<Rightarrow> int \<Rightarrow> (sync_run, unit) act" where
  "apply_pull_rows e project_id pull server_time server_sequence =
    abind (aeach (apply_pull_key e project_id pull) ENTITY_BY_KEY) (\<lambda>_.
    abind (check_cancel e Finalizing) (\<lambda>_.
    on_db (transaction (set_sync_watermark project_id server_time (Some server_sequence)))))"

definition rollback_db :: "(sync_run, 'a) act \<Rightarrow> (sync_run, 'a) act" where
  "rollback_db m s = (case m s of (Inl err, s') \<Rightarrow> (Inl err, s'\<lparr>sr_db := sr_db s\<rparr>) | (Inr a, s') \<Rightarrow> (Inr a, s'))"

definition apply_pull :: "sync_env \<Rightarrow> string \<Rightarrow> dict \<Rightarrow> (sync_run, unit) act" where
  "apply_pull e project_id pull =
    (let server_time = py_str (py_or (dget pull ''server_time'') (VStr (isoformat (se_now e)))) in
     case validated_server_sequence pull of
       Inl err \<Rightarrow> araise (SRaise err)
     | Inr server_sequence \<Rightarrow> rollback_db (apply_pull_rows e project_id pull server_time server_sequence))"

subsection \<open>Publishing a local project\<close>

definition get_project :: "string \<Rightarrow> ldb \<Rightarrow> project option" where
  "get_project project_id db = map_option (\<lambda>r. \<lparr>p_id = py_str (dget r ''id''), p_name = py_str (dget r ''name''),
     p_description = str_or_empty (dget r ''description''), p_created_by = str_or_empty (dget r ''created_by'')\<rparr>)
     (find_row db ''projects'' project_id)"

text \<open>\<open>_upsert_row\<close> into \<open>projects\<close> or \<open>meta\<close>, which have no constraint besides their key.\<close>

definition upsert_plain :: "string \<Rightarrow> string \<Rightarrow> dict \<Rightarrow> ldb \<Rightarrow> ldb" where
  "upsert_plain table pk rec db =
    (let hit = (\<lambda>r. dget r pk = dget rec pk); rs = l_rows db table in
     set_rows table (if first_where hit rs = None then rs @ [rec] else update_where hit (\<lambda>r. dupdate r rec) rs) db)"

definition project_record :: "project \<Rightarrow> dict" where
  "project_record p = [(''id'', VStr (p_id p)), (''name'', VStr (p_name p)), (''description'', VStr (p_description p)),
     (''created_by'', VStr (p_created_by p))]"

definition upsert_projects :: "project list \<Rightarrow> ldb \<Rightarrow> ldb" where
  "upsert_projects ps db = foldl (\<lambda>db p. upsert_plain ''projects'' ''id'' (project_record p) db) db ps"

definition get_meta :: "string \<Rightarrow> ldb \<Rightarrow> string option" where
  "get_meta key db = map_option (\<lambda>r. py_str (dget r ''value'')) (first_where (\<lambda>r. dget r ''key'' = VStr key) (l_rows db ''meta''))"

definition set_meta :: "string \<Rightarrow> string \<Rightarrow> ldb \<Rightarrow> ldb" where
  "set_meta key v = upsert_plain ''meta'' ''key'' [(''key'', VStr key), (''value'', VStr v)]"

definition PROJECT_DATA_TABLES :: "string list" where
  "PROJECT_DATA_TABLES = [''risks'', ''opportunities'', ''actions'', ''assessments'', ''helpdesk_tickets'']"

definition BOOTSTRAP_META_KEYS :: "string list" where
  "BOOTSTRAP_META_KEYS = [''bootstrap_project_id'', ''bootstrap_user_project_id'', ''bootstrap_anon_project_id'']"

text \<open>\<open>UPDATE table SET project_id\<close>; moving rows onto a code or a watermark of the new project is an integrity error.\<close>

definition of_project :: "string \<Rightarrow> dict \<Rightarrow> bool" where
  "of_project p r \<longleftrightarrow> dget r ''project_id'' = VStr p"

definition move_rows :: "string \<Rightarrow> string \<Rightarrow> string \<Rightarrow> ldb \<Rightarrow> ldb cresult" where
  "move_rows old_id new_id table db =
    (let rs = update_where (of_project old_id) (\<lambda>r. dset r ''project_id'' (VStr new_id)) (l_rows db table) in
     if is_scored_table table \<and> (\<exists>r \<in> set rs. \<exists>r' \<in> set rs. code_clash r r') then Inl CIntegrityError
     else Inr (set_rows table rs db))"

definition move_outbox :: "string \<Rightarrow> string \<Rightarrow> ldb \<Rightarrow> ldb" where
  "move_outbox old_id new_id db = db\<lparr>l_outbox := update_where (\<lambda>e. ob_project_id e = old_id) (\<lambda>e. e\<lparr>ob_project_id := new_id\<rparr>) (l_outbox db)\<rparr>"

definition move_sync_state :: "string \<Rightarrow> string \<Rightarrow> ldb \<Rightarrow> ldb cresult" where
  "move_sync_state old_id new_id db =
    (case map_of (l_sync_state db) old_id of
       None \<Rightarrow> Inr db
     | Some w \<Rightarrow> if map_of (l_sync_state db) new_id \<noteq> None then Inl CIntegrityError
                 else Inr (db\<lparr>l_sync_state := map (\<lambda>(p, w). (if p = old_id then new_id else p, w)) (l_sync_state db)\<rparr>))"

definition migrate_meta :: "string \<Rightarrow> string \<Rightarrow> ldb \<Rightarrow> ldb" where
  "migrate_meta old_id new_id db =
    foldl (\<lambda>db key. if get_meta key db = Some old_id then set_meta key new_id db else db) db BOOTSTRAP_META_KEYS"

definition migrate_project_id :: "string \<Rightarrow> string \<Rightarrow> ldb \<Rightarrow> ldb cresult" where
  "migrate_project_id old_id new_id db =
    (if old_id = [] \<or> new_id = [] \<or> old_id = new_id then Inr db
     else case get_project old_id db of
       None \<Rightarrow> Inr db
     | Some p \<Rightarrow>
         rbind (each (move_rows old_id new_id) PROJECT_DATA_TABLES
                  (upsert_plain ''projects'' ''id'' (project_record (p\<lparr>p_id := new_id\<rparr>)) db)) (\<lambda>db.
         rbind (move_sync_state old_id new_id (move_outbox old_id new_id db)) (\<lambda>db.
         Inr (migrate_meta old_id new_id
               (set_rows ''projects'' (delete_where (\<lambda>r. row_id r = old_id) (l_rows db ''projects'')) db)))))"

text \<open>\<open>unique_project_name\<close> of \<open>domain_models.py\<close>: the first of \<open>name\<close>, \<open>name (2)\<close>, \<open>name (3)\<close>, ... that is free.\<close>

definition numbered_name :: "string \<Rightarrow> nat \<Rightarrow> string" where
  "numbered_name name n = name @ '' ('' @ nat_str n @ '')''"

lemma numbered_name_inj: "inj (numbered_name name)"
proof (rule injI)
  fix m n assume "numbered_name name m = numbered_name name n"
  then have "int_parse 10 (nat_str m) = int_parse 10 (nat_str n)" by (simp add: numbered_name_def)
  then show "m = n" by simp
qed

function next_free_name :: "string \<Rightarrow> string list \<Rightarrow> nat \<Rightarrow> string" where
  "next_free_name name taken n =
    (if numbered_name name n \<in> set taken then next_free_name name taken (n + 1) else numbered_name name n)"
  by pat_completeness auto

termination
proof (relation "measure (\<lambda>(name, taken, n). card {m. n \<le> m \<and> numbered_name name m \<in> set taken})")
  fix name taken n assume "numbered_name name n \<in> set taken"
  moreover have "finite (numbered_name name -` set taken)" by (rule finite_vimageI [OF _ numbered_name_inj]) simp
  then have "finite {m. n \<le> m \<and> numbered_name name m \<in> set taken}" by (rule rev_finite_subset) auto
  ultimately have "card {m. n + 1 \<le> m \<and> numbered_name name m \<in> set taken} < card {m. n \<le> m \<and> numbered_name name m \<in> set taken}"
    by (intro psubset_card_mono) (auto simp: psubset_eq set_eq_iff intro!: exI [of _ n])
  then show "((name, taken, n + 1), name, taken, n) \<in>
      measure (\<lambda>(name, taken, n). card {m. n \<le> m \<and> numbered_name name m \<in> set taken})" by simp
qed simp

declare next_free_name.simps [simp del]

definition unique_project_name :: "string \<Rightarrow> string list \<Rightarrow> string" where
  "unique_project_name name taken = (if name \<in> set taken then next_free_name name taken 2 else name)"

definition rename_project :: "string \<Rightarrow> string \<Rightarrow> ldb \<Rightarrow> ldb" where
  "rename_project project_id name db =
     set_rows ''projects'' (update_where (\<lambda>r. row_id r = project_id) (\<lambda>r. dset r ''name'' (VStr name)) (l_rows db ''projects'')) db"

definition LOCAL_ONLY :: string where
  "LOCAL_ONLY = ''This local-only project cannot be synced. Create a new project after logging in to sync your work.''"

definition promote_local_project :: "remote \<Rightarrow> string \<Rightarrow> (ldb, string option) act" where
  "promote_local_project remote local_id db =
    (case get_project local_id db of
       None \<Rightarrow> (Inr None, db)
     | Some p \<Rightarrow>
         if p_created_by p = [] then (Inl (SRaise (CRuntimeError LOCAL_ONLY)), db)
         else case rm_create_project remote of
           None \<Rightarrow> (Inr None, db)
         | Some create_project \<Rightarrow>
             let name = (if p_name p = [] then ''Local Project'' else p_name p) in
             case (case rm_list_projects remote of
                     Inr existing \<Rightarrow> Inr (unique_project_name name (map p_name existing))
                   | Inl (Crash False m) \<Rightarrow> Inl (SRemote (Crash False m))
                   | Inl _ \<Rightarrow> Inr name) of
               Inl err \<Rightarrow> (Inl err, db)
             | Inr name \<Rightarrow>
                 (case create_project name (p_description p) of
                    Inl exc \<Rightarrow> (Inl (SRemote exc), db)
                  | Inr None \<Rightarrow> (Inr None, db)
                  | Inr (Some created) \<Rightarrow>
                      if p_id created = [] then (Inr None, db)
                      else abind (transaction (\<lambda>db. rbind (migrate_project_id local_id (p_id created) (rename_project local_id name db))
                                     (\<lambda>db. Inr (upsert_projects [created] db)))) (\<lambda>_. aret (Some (p_id created))) db))"

definition publish_local_project :: "remote \<Rightarrow> string \<Rightarrow> (sync_run, string) act" where
  "publish_local_project remote project_id =
    abind (on_db (promote_local_project remote project_id)) (\<lambda>promoted.
    case promoted of
      None \<Rightarrow> aret project_id
    | Some new_id \<Rightarrow>
        if new_id = [] \<or> new_id = project_id then aret project_id
        else abind (amodify (\<lambda>s. s\<lparr>sr_summary := (sr_summary s)\<lparr>sm_migrated := Some (project_id, new_id)\<rparr>\<rparr>)) (\<lambda>_. aret new_id))"

subsection \<open>A synchronization run\<close>

definition finish_summary :: "sync_env \<Rightarrow> string \<Rightarrow> sync_run \<Rightarrow> summary" where
  "finish_summary e project_id s =
    (let details = get_blocked_changes (se_loads e) (Some project_id) 100 (sr_db s);
         sm = (sr_summary s)\<lparr>sm_blocked_details := details, sm_next_retry_at := next_retry_at (Some project_id) (sr_db s)\<rparr> in
     if sm_state sm = COMPLETE \<and> details \<noteq> [] then sm\<lparr>sm_state := ATTENTION_REQUIRED\<rparr>
     else if sm_state sm = COMPLETE \<and> sm_deferred sm \<noteq> 0 then sm\<lparr>sm_state := RETRY_WAIT\<rparr>
     else sm)"

definition finish_run :: "sync_env \<Rightarrow> string \<Rightarrow> (sexc + unit) \<times> sync_run \<Rightarrow> (sexc + summary) \<times> ldb" where
  "finish_run e project_id = (\<lambda>(r, s).
    let done = (\<lambda>f. (Inr (finish_summary e project_id (s\<lparr>sr_summary := f (sr_summary s)\<rparr>)), sr_db s)) in
    case r of
      Inr _ \<Rightarrow> done id
    | Inl SyncCancelled \<Rightarrow> done (\<lambda>sm. sm\<lparr>sm_state := CANCELLED, sm_cancelled := True\<rparr>)
    | Inl (SyncFailed failure) \<Rightarrow> done (\<lambda>sm. sm\<lparr>sm_state := sync_state_for_failure (py_str (dget failure ''failure_kind'')),
        sm_sync_error := Some failure\<rparr>)
    | Inl err \<Rightarrow> (Inl err, sr_db s))"

definition push_and_pull :: "sync_env \<Rightarrow> remote \<Rightarrow> string \<Rightarrow> (sync_run, unit) act" where
  "push_and_pull e remote project_id s =
    (let changes = get_pending_changes project_id 100 (isoformat (se_now e)) (sr_db s) in
     abind (if changes = [] then aret ()
            else abind (push e remote project_id changes) (\<lambda>_. check_cancel e After_push)) (\<lambda>_.
     abind (download e remote project_id) (\<lambda>pull.
     abind (on_db (amodify (se_during_pull e))) (\<lambda>_.
     apply_pull e project_id pull))) s)"

definition sync_project :: "sync_env \<Rightarrow> string \<Rightarrow> ldb \<Rightarrow> (sexc + summary) \<times> ldb" where
  "sync_project e project_id db =
    (case se_remote e of
       None \<Rightarrow> (Inl (SRaise (CRuntimeError ''No server configured (start the app online at least once).'')), db)
     | Some remote \<Rightarrow>
         let s0 = \<lparr>sr_db = db, sr_summary = empty_summary\<rparr>;
             published = starts_with project_id ''local-'' in
         case abind (check_cancel e Preparing) (\<lambda>_.
                if published then publish_local_project remote project_id else aret project_id) s0 of
           (Inl err, s1) \<Rightarrow> finish_run e project_id (Inl err, s1)
         | (Inr pid, s1) \<Rightarrow>
             finish_run e pid
               (abind (if published then check_cancel e After_publish else aret ()) (\<lambda>_. push_and_pull e remote pid) s1))"

definition new_service :: "remote option \<Rightarrow> bool \<Rightarrow> ldb \<Rightarrow> ldb" where
  "new_service remote release db =
    (if remote \<noteq> None \<and> release then snd (release_authentication_blocks None db) else db)"

definition last_sync_time :: "string option \<Rightarrow> ldb \<Rightarrow> string option" where
  "last_sync_time project_id db =
    (case project_id of None \<Rightarrow> None
     | Some p \<Rightarrow> if p = [] then None
         else let v = get_last_server_time db p in if v = [] \<or> starts_with v ''1970-01-01'' then None else Some v)"

definition conflict_details :: "(string \<Rightarrow> pyval option) \<Rightarrow> string option \<Rightarrow> ldb \<Rightarrow> dict list" where
  "conflict_details loads project_id db =
     filter (\<lambda>item. dget item ''failure_kind'' = VStr (kind_value CONFLICT)) (get_blocked_changes loads project_id 100 db)"

subsection \<open>Conflict resolution\<close>

definition SERVER_VERSION_UNAVAILABLE :: string where
  "SERVER_VERSION_UNAVAILABLE = ''The current server version is unavailable; leave this conflict blocked for later.''"

definition resolution :: "string \<Rightarrow> string \<Rightarrow> dict \<Rightarrow> bool \<Rightarrow> dict \<Rightarrow> dict" where
  "resolution change_id choice conflict resolved details =
    [(''change_id'', VStr change_id), (''resolution'', VStr choice), (''resolved'', VBool resolved),
     (''project_id'', VStr (py_str (dget conflict ''project_id'')))] @ details"

definition require_unchanged_server_copy :: "dict \<Rightarrow> int \<Rightarrow> unit cresult" where
  "require_unchanged_server_copy conflict expected =
     rguard (strict_int (dget conflict ''server_version'') = Some expected)
       (CRuntimeError ''The server copy changed while the Conflict Center was open. Reopen it and review the latest values.'')"

definition saved_server_version :: "dict \<Rightarrow> int cresult" where
  "saved_server_version conflict =
    (case py_int (dget conflict ''server_version'') of
       None \<Rightarrow> Inl (CRuntimeError SERVER_VERSION_UNAVAILABLE)
     | Some version \<Rightarrow> if version < 1 then Inl (CRuntimeError ''The current server version is invalid'') else Inr version)"

definition require_conflict :: "(string \<Rightarrow> pyval option) \<Rightarrow> string \<Rightarrow> ldb \<Rightarrow> dict cresult" where
  "require_conflict loads change_id db =
    (case get_blocked_change loads change_id db of
       None \<Rightarrow> Inl (CKeyError ''Synchronization conflict no longer exists'')
     | Some conflict \<Rightarrow>
         if dget conflict ''failure_kind'' \<noteq> VStr (kind_value CONFLICT)
         then Inl (CValueError ''The selected outbox item is not a version conflict'')
         else Inr conflict)"

definition entity_of :: "dict \<Rightarrow> string" where
  "entity_of conflict = py_str (dget conflict ''entity'')"

definition entity_id_of :: "dict \<Rightarrow> string" where
  "entity_id_of conflict = py_str (dget conflict ''entity_id'')"

definition project_id_of :: "dict \<Rightarrow> string" where
  "project_id_of conflict = py_str (dget conflict ''project_id'')"

definition current_local_version :: "dict \<Rightarrow> ldb \<Rightarrow> int cresult" where
  "current_local_version conflict db =
    (if map_of TABLE_BY_ENTITY (entity_of conflict) = None
     then Inl (CValueError (''Unsupported conflict entity: '' @ repr_str (entity_of conflict)))
     else rbind (get_project_and_version (entity_of conflict) (entity_id_of conflict) db) (\<lambda>(local_project_id, version).
       if local_project_id \<noteq> project_id_of conflict
       then Inl (CRuntimeError ''The conflicted item belongs to another project'') else Inr version))"

definition resolve_legacy_parent :: "dict \<Rightarrow> string \<Rightarrow> ldb \<Rightarrow> dict cresult" where
  "resolve_legacy_parent rec project_id db =
    (let item_id0 = str_or_empty (dget rec ''item_id''); risk_id = str_or_empty (dget rec ''risk_id'');
         opportunity_id = str_or_empty (dget rec ''opportunity_id'');
         item_id = (if item_id0 \<noteq> [] then item_id0 else if risk_id \<noteq> [] then risk_id else opportunity_id);
         rec = (if item_id0 \<noteq> [] then rec else dset rec ''item_id'' (VStr item_id)) in
     if item_id = [] \<or> (risk_id \<noteq> []) \<noteq> (opportunity_id \<noteq> []) then Inr rec
     else let is_opportunity = has_row db ''opportunities'' project_id item_id; is_risk = has_row db ''risks'' project_id item_id in
       if is_opportunity = is_risk
       then Inl (CRuntimeError ''The server copy has an ambiguous parent and cannot be applied safely.'')
       else Inr (dset (dset rec ''risk_id'' (if is_risk then VStr item_id else VNone))
                  ''opportunity_id'' (if is_opportunity then VStr item_id else VNone)))"

definition normalize_server_record :: "dict \<Rightarrow> ldb \<Rightarrow> dict cresult" where
  "normalize_server_record conflict db =
    (let entity = entity_of conflict; project_id = project_id_of conflict in
     case as_dict (dget conflict ''server_record'') of
       None \<Rightarrow> Inl (CRuntimeError ''The server copy is unavailable for this conflict; choose Keep mine or leave it for later.'')
     | Some rec \<Rightarrow>
         if rec = [] then Inl (CRuntimeError ''The server copy is unavailable for this conflict; choose Keep mine or leave it for later.'')
         else if str_or_empty (dget rec ''id'') \<noteq> entity_id_of conflict
         then Inl (CRuntimeError ''The saved server copy does not match this item'')
         else if truthy (dget rec ''project_id'') \<and> py_str (dget rec ''project_id'') \<noteq> project_id
         then Inl (CRuntimeError ''The saved server copy belongs to another project'')
         else let rec = dset rec ''project_id'' (VStr project_id) in
           if is_scored_entity entity \<and> py_str (py_or (dget rec ''type'') (VStr entity)) \<noteq> entity
           then Inl (CRuntimeError ''This conflict changes the entity type and cannot be resolved automatically.'')
           else if entity = ''action'' \<or> entity = ''assessment'' then resolve_legacy_parent rec project_id db
           else Inr rec)"

definition apply_server_record :: "dict \<Rightarrow> dict \<Rightarrow> ldb \<Rightarrow> ldb cresult" where
  "apply_server_record conflict rec db =
    (if map_of TABLE_BY_ENTITY (entity_of conflict) = None
     then Inl (CValueError (''Unsupported conflict entity: '' @ repr_str (entity_of conflict)))
     else pull_entity (entity_of conflict) (project_id_of conflict) [rec] db)"

definition take_server_copy :: "string \<Rightarrow> dict \<Rightarrow> dict \<Rightarrow> ldb \<Rightarrow> ldb cresult" where
  "take_server_copy change_id conflict server_record db = apply_server_record conflict server_record (delete_outbox_ids [change_id] db)"

definition keep_mine :: "string \<Rightarrow> string \<Rightarrow> string \<Rightarrow> dict \<Rightarrow> ldb \<Rightarrow> (dict \<times> ldb) cresult" where
  "keep_mine new_id now change_id conflict db =
    rbind (saved_server_version conflict) (\<lambda>saved.
    rbind (current_local_version conflict db) (\<lambda>current.
    case requeue_conflict_with_new_id new_id now change_id (max saved current) db of
      (None, _) \<Rightarrow> Inl (CRuntimeError ''The conflict disappeared before it was resolved'')
    | (Some replacement_id, db) \<Rightarrow>
        Inr (resolution change_id ''keep_mine'' conflict True
          [(''replacement_change_id'', VStr replacement_id), (''base_version'', VInt (max saved current))], db)))"

definition merge :: "(string \<Rightarrow> bool) \<Rightarrow> string \<Rightarrow> string \<Rightarrow> string \<Rightarrow> dict \<Rightarrow> dict \<Rightarrow> (string \<times> string) list \<Rightarrow> ldb \<Rightarrow> (dict \<times> ldb) cresult" where
  "merge iso_ok new_id now change_id conflict server_record choices db =
    (let stale = CRuntimeError ''The saved server copy is stale; synchronize again before merging'' in
     case strict_int (dget conflict ''server_version'') of
       None \<Rightarrow> Inl stale
     | Some version \<Rightarrow>
         rbind (rguard (1 \<le> version) stale) (\<lambda>_.
         rbind (int_or (dget server_record ''version'') 0) (\<lambda>record_version.
         rbind (rguard (record_version = version) stale) (\<lambda>_.
         rbind (current_local_version conflict db) (\<lambda>current.
         rbind (rguard (current \<le> version) stale) (\<lambda>_.
         rbind (merged_record iso_ok (dset conflict ''server_record'' (VDict server_record)) choices) (\<lambda>(rec, selected).
         let project_id = project_id_of conflict; entity = entity_of conflict; entity_id = entity_id_of conflict in
         rbind (take_server_copy change_id conflict server_record db) (\<lambda>db.
         rbind (apply_merged_fields entity project_id entity_id rec db) (\<lambda>db.
         let (replacement_id, db) = queue_merged_upsert new_id now project_id entity entity_id version rec db in
         rbind (reset_sync_watermark project_id SYNC_EPOCH db) (\<lambda>db.
         Inr (resolution change_id ''merge'' conflict True
           [(''replacement_change_id'', VStr replacement_id), (''base_version'', VInt version),
            (''local_fields'', VList (map VStr (sort (map fst selected))))], db)))))))))))"

definition use_server :: "string \<Rightarrow> dict \<Rightarrow> dict \<Rightarrow> ldb \<Rightarrow> (dict \<times> ldb) cresult" where
  "use_server change_id conflict server_record db =
    rbind (take_server_copy change_id conflict server_record db) (\<lambda>db.
    rbind (reset_sync_watermark (project_id_of conflict) SYNC_EPOCH db) (\<lambda>db.
    Inr (resolution change_id ''use_server'' conflict True [], db)))"

text \<open>The whole resolution is one write transaction: an error leaves the database as it was.\<close>

definition resolve_conflict ::
  "(string \<Rightarrow> bool) \<Rightarrow> (string \<Rightarrow> pyval option) \<Rightarrow> string \<Rightarrow> string \<Rightarrow> string \<Rightarrow> string \<Rightarrow> (string \<times> string) list \<Rightarrow> int option \<Rightarrow>
   ldb \<Rightarrow> (dict \<times> ldb) cresult" where
  "resolve_conflict iso_ok loads new_id now change_id resolution_text choices expected db =
    (let choice = lower (strip resolution_text) in
     if choice \<notin> {''keep_mine'', ''use_server'', ''later'', ''merge''}
     then Inl (CValueError ''resolution must be one of: keep_mine, use_server, later, merge'')
     else rbind (require_conflict loads change_id db) (\<lambda>conflict.
       if choice = ''later'' then Inr (resolution change_id choice conflict False [], db)
       else rbind (case expected of None \<Rightarrow> Inr () | Some v \<Rightarrow> require_unchanged_server_copy conflict v) (\<lambda>_.
         if choice = ''keep_mine'' then keep_mine new_id now change_id conflict db
         else rbind (normalize_server_record conflict db) (\<lambda>server_record.
           if choice = ''merge'' then merge iso_ok new_id now change_id conflict server_record choices db
           else use_server change_id conflict server_record db))))"

end
