(* ===== verification/Client_Sync_Facts.thy ===== *)
theory Client_Sync_Facts
  imports Client_Sync
begin

section \<open>What a synchronization run keeps\<close>

text \<open>
  A small logic for the steps of \<open>Client_Sync\<close>. A preorder on states that every step of a computation
  respects is respected by the computation; the locale \<open>step_relation\<close> proves the rules for \<open>abind\<close> and
  \<open>aeach\<close> once. It is interpreted for two relations: \<open>keeps ids\<close> (every outbox entry whose receipt id
  is not in \<open>ids\<close> is still there with its operation and payload) and \<open>same_watermarks\<close>.
\<close>

definition along :: "('s \<Rightarrow> 's \<Rightarrow> bool) \<Rightarrow> ('s, 'a) act \<Rightarrow> bool" where
  "along R m \<longleftrightarrow> (\<forall>s. R s (snd (m s)))"

lemma along_modify: "(\<And>s. R s (f s)) \<Longrightarrow> along R (amodify f)"
  by (simp add: along_def amodify_def)

locale step_relation =
  fixes R :: "'s \<Rightarrow> 's \<Rightarrow> bool"
  assumes refl: "R s s"
    and trans: "R a b \<Longrightarrow> R b c \<Longrightarrow> R a c"
begin

lemma ret: "along R (aret a)" and raise: "along R (araise err)"
  by (simp_all add: along_def aret_def araise_def refl)

lemma bind:
  assumes "along R m" "\<And>a. along R (f a)"
  shows "along R (abind m f)"
  unfolding along_def
proof
  fix s
  obtain r s1 where m: "m s = (r, s1)" by fastforce
  with assms(1) have k: "R s s1" by (metis along_def snd_conv)
  show "R s (snd (abind m f s))"
  proof (cases r)
    case (Inr a)
    have "R s1 (snd (f a s1))" using assms(2) by (simp add: along_def)
    with trans [OF k this] m Inr show ?thesis by (simp add: abind_def)
  qed (use k m in \<open>simp add: abind_def\<close>)
qed

lemma each_step: "(\<And>r. r \<in> set rs \<Longrightarrow> along R (f r)) \<Longrightarrow> along R (aeach f rs)"
  by (induction rs) (auto intro: ret bind)

lemma write_transaction: "(\<And>s s'. f s = Inr s' \<Longrightarrow> R s s') \<Longrightarrow> along R (transaction f)"
  by (simp add: along_def transaction_def refl split: sum.splits)

lemma check: "along R (check_cancel e c)"
  by (simp add: along_def check_cancel_def aguard_def refl)

lemma result: "along R m \<Longrightarrow> m s = (r, s') \<Longrightarrow> R s s'"
  by (metis along_def snd_conv)

end

subsection \<open>Keeping queued changes\<close>

definition same_change :: "outbox_row \<Rightarrow> outbox_row \<Rightarrow> bool" where
  "same_change x y \<longleftrightarrow> ob_change_id y = ob_change_id x \<and> ob_owner y = ob_owner x \<and> ob_op y = ob_op x \<and>
     same_edit (ob_record x) (ob_record y)"

definition keeps :: "string set \<Rightarrow> ldb \<Rightarrow> ldb \<Rightarrow> bool" where
  "keeps ids db db' \<longleftrightarrow> (outbox_inv db \<longrightarrow> outbox_inv db' \<and>
     (\<forall>x \<in> set (l_outbox db). ob_change_id x \<notin> ids \<longrightarrow> (\<exists>y \<in> set (l_outbox db'). same_change x y)))"

lemma same_change_refl [simp]: "same_change x x"
  by (simp add: same_change_def same_edit_def)

lemma same_change_trans: "same_change x y \<Longrightarrow> same_change y z \<Longrightarrow> same_change x z"
  by (auto simp: same_change_def same_edit_def)

lemma keeps_refl [simp]: "keeps ids db db"
  unfolding keeps_def using same_change_refl by blast

lemma keeps_trans:
  assumes "keeps ids a b" "keeps ids b c"
  shows "keeps ids a c"
  unfolding keeps_def
proof (intro impI conjI ballI)
  assume a: "outbox_inv a"
  with assms show "outbox_inv c" by (simp add: keeps_def)
  fix x assume "x \<in> set (l_outbox a)" "ob_change_id x \<notin> ids"
  with a assms(1) obtain y where y: "y \<in> set (l_outbox b)" "same_change x y" by (auto simp: keeps_def)
  moreover have "ob_change_id y \<notin> ids" using y(2) \<open>ob_change_id x \<notin> ids\<close> by (simp add: same_change_def)
  moreover have "outbox_inv b" using a assms(1) by (simp add: keeps_def)
  ultimately obtain z where "z \<in> set (l_outbox c)" "same_change y z" using assms(2) by (auto simp: keeps_def)
  with y(2) show "\<exists>z \<in> set (l_outbox c). same_change x z" using same_change_trans by blast
qed

lemma keeps_mono: "keeps A db db' \<Longrightarrow> A \<subseteq> B \<Longrightarrow> keeps B db db'"
  by (auto simp: keeps_def)

lemma keeps_update:
  assumes "\<And>x. P x \<Longrightarrow> same_change x (f x)"
  shows "keeps ids db (db\<lparr>l_outbox := update_where P f (l_outbox db)\<rparr>)"
proof -
  have "same_keys db (db\<lparr>l_outbox := update_where P f (l_outbox db)\<rparr>)"
    using assms by (intro same_keys_update) (simp add: same_change_def)
  moreover have "\<exists>y \<in> set (update_where P f (l_outbox db)). same_change x y" if "x \<in> set (l_outbox db)" for x
    using that assms [of x] by (intro bexI [of _ "if P x then f x else x"]) (simp_all add: set_update_where)
  ultimately show ?thesis by (auto simp: keeps_def dest: same_keys_inv)
qed

lemma keeps_core:
  assumes "map ob_core (l_outbox db') = map ob_core (l_outbox db)"
  shows "keeps ids db db'"
proof -
  have "\<exists>y \<in> set (l_outbox db'). same_change x y" if "x \<in> set (l_outbox db)" for x
  proof -
    have "ob_core x \<in> ob_core ` set (l_outbox db')" using that arg_cong [OF assms, of set] by simp
    then obtain y where y: "y \<in> set (l_outbox db')" "ob_core x = ob_core y" by (rule imageE)
    have "ob_change_id (ob_core y) = ob_change_id y" "ob_owner (ob_core y) = ob_owner y" "ob_op (ob_core y) = ob_op y"
      "ob_record (ob_core y) = ob_record y" for y by (simp_all add: ob_core_def ob_owner_def)
    with y(2) have "same_change x y" unfolding same_change_def same_edit_def by metis
    with y(1) show ?thesis by blast
  qed
  then show ?thesis using same_keys_inv [OF same_keys_core [OF assms]] by (simp add: keeps_def)
qed

lemma keeps_outbox: "l_outbox db' = l_outbox db \<Longrightarrow> keeps ids db db'"
  by (rule keeps_core) simp

lemma keeps_delete: "set is \<subseteq> ids \<Longrightarrow> keeps ids db (delete_outbox_ids is db)"
  unfolding keeps_def delete_outbox_ids_def delete_where_def outbox_inv_def
  using same_change_refl by (fastforce simp: distinct_map_filter)

interpretation kept: step_relation "keeps ids" for ids
  by unfold_locales (auto intro: keeps_trans)

subsection \<open>The operations of a push\<close>

lemma acknowledge_sent_keeps:
  assumes "acknowledge_sent p cid sent result db = Inr db'" "cid \<in> ids"
  shows "keeps ids db db'"
proof -
  from assms(1) have "map ob_core (l_outbox db') = map ob_core (l_outbox (delete_outbox_ids [cid] db))"
    by (auto simp: acknowledge_sent_def Let_def split: if_splits dest: apply_ack_core)
  from keeps_trans [OF keeps_delete keeps_core [OF this]] assms(2) show ?thesis by simp
qed

lemma rebased_same_change: "same_change e (rebased result e)"
  by (auto simp: same_change_def rebased_keys) (auto simp: rebased_def Let_def same_edit_def split: option.splits)

lemma advance_replacement_keeps:
  assumes "advance_replacement p result db = Inr (b, db')"
  shows "keeps ids db db'"
  using assms
proof (cases rule: advance_replacement_cases)
  case (moved e v sr)
  let ?upd = "\<lambda>f. update_where (\<lambda>x. ob_change_id x = ob_change_id e) f (l_outbox db)"
  have e: "e \<in> set (l_outbox db)" using replacement_SomeD [OF moved(2)] by simp
  have "?upd (\<lambda>x. rebased result e) = ?upd (rebased result)" if "outbox_inv db"
  proof -
    have "inj_on ob_change_id (set (l_outbox db))" using that by (simp add: outbox_inv_def distinct_map)
    with e show ?thesis unfolding update_where_def by (intro map_cong) (auto simp: inj_on_def)
  qed
  moreover have "keeps ids db (db\<lparr>l_outbox := ?upd (rebased result)\<rparr>)" by (intro keeps_update rebased_same_change)
  ultimately have "keeps ids db (db\<lparr>l_outbox := ?upd (\<lambda>x. rebased result e)\<rparr>)" by (cases "outbox_inv db") (simp_all add: keeps_def)
  moreover have "keeps ids (db\<lparr>l_outbox := ?upd (\<lambda>x. rebased result e)\<rparr>) db'"
    using advance_ack_outbox [OF moved(3)] by (intro keeps_outbox) simp
  ultimately show ?thesis by (rule keeps_trans)
qed simp

definition result_ids :: "dict list \<Rightarrow> string set" where
  "result_ids rs = (\<lambda>r. py_str (dget r ''change_id'')) ` {r \<in> set rs. has_status ''accepted'' r}"

lemma acknowledge_results_keeps:
  "acknowledge_results p rs db = Inr (n, db') \<Longrightarrow> result_ids rs \<subseteq> ids \<Longrightarrow> keeps ids db db'"
proof (induction p rs db arbitrary: n rule: acknowledge_results.induct)
  case (2 p r rs db)
  let ?cid = "str_or_empty (dget r ''change_id'')"
  have rs: "result_ids rs \<subseteq> ids" using 2(4) by (auto simp: result_ids_def)
  show ?case
  proof (cases "?cid = [] \<or> dget r ''status'' \<noteq> VStr ''accepted''")
    case True with 2 rs show ?thesis by (simp add: Let_def)
  next
    case False
    then obtain b db1 m where one: "(case first_where (\<lambda>e. ob_change_id e = ?cid \<and> ob_project_id e = p) (l_outbox db) of
         Some sent \<Rightarrow> rbind (acknowledge_sent p ?cid sent r db) (\<lambda>db. Inr (True, db))
       | None \<Rightarrow> advance_replacement p r db) = Inr (b, db1)" and rest: "acknowledge_results p rs db1 = Inr (m, db')"
      using 2(3) by (auto simp: Let_def)
    have "?cid \<in> ids" using False 2(4) by (auto simp: result_ids_def has_status_def str_or_empty_def split: if_splits)
    then have "keeps ids db db1"
      using one by (auto split: option.splits intro: acknowledge_sent_keeps advance_replacement_keeps)
    moreover have "keeps ids db1 db'" using 2(2) [OF refl False rest rs] .
    ultimately show ?thesis by (rule keeps_trans)
  qed
qed simp

lemma acknowledge_keeps: "result_ids accepted \<subseteq> ids \<Longrightarrow> \<forall>r \<in> set accepted. has_status ''accepted'' r \<Longrightarrow> along (keeps ids) (acknowledge p accepted)"
proof -
  assume ids: "result_ids accepted \<subseteq> ids" and acc: "\<forall>r \<in> set accepted. has_status ''accepted'' r"
  have "keeps ids db db'"
    if "rbind (acknowledge_accepted_results p (filter has_server_state accepted) db) (\<lambda>(_, db). Inr db) = Inr db'" for db db'
  proof -
    from that obtain n where "acknowledge_accepted_results p (filter has_server_state accepted) db = Inr (n, db')"
      by (auto split: prod.splits)
    then obtain db1 where db1: "release_scored_codes_for_acknowledgements p (filter has_server_state accepted) db = Inr db1"
      "acknowledge_results p (filter has_server_state accepted) db1 = Inr (n, db')"
      by (auto simp: acknowledge_accepted_results_def)
    have "keeps ids db1 db'" using db1(2) by (rule acknowledge_results_keeps) (use ids in \<open>auto simp: result_ids_def\<close>)
    with keeps_outbox [OF release_ack_codes_outbox [OF db1(1)]] show ?thesis by (rule keeps_trans)
  qed
  then show ?thesis unfolding acknowledge_def Let_def
    by (intro kept.bind along_modify keeps_delete)
       (use ids acc in \<open>auto simp: result_ids_def intro: kept.write_transaction kept.ret\<close>)
qed

lemma block_keeps: "block_outbox_id loads cid err kind now db = Inr db' \<Longrightarrow> keeps ids db db'"
  by (auto simp: block_outbox_id_def same_change_def ob_owner_def same_edit_def split: if_splits prod.splits intro!: keeps_update)

lemma park_failure_keeps: "along (keeps ids) (park_failure e err)"
proof -
  have d: "keeps ids db (snd (defer_outbox_id loads cid err' ra now db))" for loads cid err' ra now db
  proof (cases "first_where (\<lambda>x. ob_change_id x = cid) (l_outbox db)")
    case (Some row)
    have "same_change x (deferred_row loads err' ra now row x)" for x
      by (simp add: same_change_def deferred_row_simps same_edit_def) (simp add: deferred_row_def Let_def split: prod.splits)
    with Some show ?thesis by (simp add: defer_outbox_id_found keeps_update)
  qed (simp add: defer_outbox_id_def split: prod.splits)
  show ?thesis unfolding park_failure_def Let_def
    by (auto intro!: along_modify d kept.write_transaction block_keeps)
qed

lemma fail_batch_keeps: "along (keeps ids) (fail_batch e change_ids failure)"
  unfolding fail_batch_def Let_def by (intro kept.bind kept.each_step park_failure_keeps kept.ret)

lemma settle_results_keeps: "result_ids results \<subseteq> ids \<Longrightarrow> along (keeps ids) (settle_results e p changes results)"
  unfolding settle_results_def Let_def
  by (intro kept.bind kept.each_step kept.write_transaction acknowledge_keeps park_failure_keeps kept.ret)
     (auto simp: result_ids_def intro: block_keeps)

subsection \<open>Validated responses\<close>

definition reply_id :: "dict \<Rightarrow> string" where
  "reply_id r = py_str (dget r ''change_id'')"

lemma check_results_Some:
  assumes "check_results p sent seen vs = Some (rs, seen')"
  shows "map VDict rs = vs \<and> seen' = rev (map reply_id rs) @ seen \<and> (distinct seen \<longrightarrow> distinct seen') \<and>
    (\<forall>r \<in> set rs. \<exists>change. dget r ''change_id'' = VStr (reply_id r) \<and> map_of sent (reply_id r) = Some change \<and> result_matches_change r change p)"
  using assms
proof (induction p sent seen vs arbitrary: rs seen' rule: check_results.induct)
  case (2 p sent seen v vs)
  obtain result where v: "v = VDict result" using 2(2) by (cases v) (simp_all add: as_dict_def)
  obtain i where i: "dget result ''change_id'' = VStr i" using 2(2) v by (cases "dget result ''change_id''") (simp_all add: as_dict_def)
  obtain change where c: "map_of sent i = Some change" using 2(2) v i by (cases "map_of sent i") (simp_all add: as_dict_def)
  have ok: "\<not> (i \<in> set seen \<or> \<not> result_matches_change result change p)"
    using 2(2) by (auto simp: v i c as_dict_def split: if_splits)
  obtain rs1 where rest: "check_results p sent (i # seen) vs = Some (rs1, seen')" "rs = result # rs1"
    using 2(2) ok by (auto simp: v i c as_dict_def)
  have "reply_id result = i" by (simp add: reply_id_def i py_str_def)
  with 2(1) [OF _ i c ok rest(1)] v rest(2) ok c i show ?case by (auto simp: as_dict_def disjoint_iff)
qed simp

lemma validated_cover:
  assumes "validated_push_results p changes response = Some rs"
  shows "distinct (map reply_id rs) \<and> set (map reply_id rs) = set (sent_ids changes) \<and>
    (\<forall>r \<in> set rs. \<exists>change \<in> set changes. reply_id r = py_str (dget change ''change_id'') \<and> result_matches_change r change p)"
proof -
  obtain raw seen where raw: "check_results p (sent_changes changes) [] raw = Some (rs, seen)"
    "set seen = fst ` set (sent_changes changes)"
    using assms by (auto simp: validated_push_results_def split: pyval.splits option.splits if_splits prod.splits)
  note c = check_results_Some [OF raw(1)]
  have "set (sent_ids changes) = fst ` set (sent_changes changes)"
    by (force simp: sent_ids_def sent_changes_def image_iff)
  moreover have "\<exists>change \<in> set changes. reply_id r = py_str (dget change ''change_id'') \<and> result_matches_change r change p"
    if "r \<in> set rs" for r
  proof -
    from c that obtain change where "map_of (sent_changes changes) (reply_id r) = Some change" "result_matches_change r change p" by blast
    with map_of_SomeD [OF this(1)] show ?thesis by (auto simp: sent_changes_def)
  qed
  moreover have "seen = rev (map reply_id rs)" "distinct seen" using c by (simp, blast intro: distinct.simps(1) [THEN iffD2])
  then have "distinct (map reply_id rs)" by (metis distinct_rev)
  ultimately show ?thesis using c raw(2) by simp
qed

text \<open>C7: Pushing never loses local work. Whatever the server or the network answers (an error, garbage, an
  answer that is incomplete or about other changes), a change leaves the outbox only when a complete and
  consistent response, with exactly one result for every change sent, says that very change was accepted.
  Every other entry, the edits made while the request was in flight included, is still queued with its
  receipt id, operation and payload (its code may be the one the server assigned).\<close>

theorem push_drops_only_accepted:
  assumes "process_push e remote p changes db = (res, db')"
    and "db1 = se_during_push e (mark_outbox_ids_attempted (sent_ids changes) (isoformat (se_now e)) db)"
    and "outbox_inv db1" "x \<in> set (l_outbox db1)"
  shows "(\<exists>y \<in> set (l_outbox db'). ob_change_id y = ob_change_id x \<and> ob_owner y = ob_owner x \<and> ob_op y = ob_op x \<and>
      same_edit (ob_record x) (ob_record y)) \<or>
    (\<exists>response results r. rm_push remote p changes = Inr response \<and>
      validated_push_results p changes response = Some results \<and>
      set (map reply_id results) = set (sent_ids changes) \<and> distinct (map reply_id results) \<and>
      r \<in> set results \<and> reply_id r = ob_change_id x \<and> has_status ''accepted'' r)"
proof -
  have run: "process_push e remote p changes db =
    (case rm_push remote p changes of
      Inl exc \<Rightarrow> (case failure_from_exception exc ''push'' of
                    Inl err \<Rightarrow> araise err
                  | Inr failure \<Rightarrow> fail_batch e (sent_ids changes) failure)
    | Inr response \<Rightarrow>
        (case validated_push_results p changes response of
           None \<Rightarrow> fail_batch e (sent_ids changes)
             (request_failure ''push_invalid_response'' ''Server returned an invalid synchronization response'' 0)
         | Some results \<Rightarrow> settle_results e p changes results)) db1"
    by (simp add: process_push_def abind_def amodify_def assms(2))
  consider (settled) response results where "rm_push remote p changes = Inr response"
      "validated_push_results p changes response = Some results" "settle_results e p changes results db1 = (res, db')"
    | (kept) m where "m db1 = (res, db')" "along (keeps {}) m"
  proof (cases "rm_push remote p changes")
    case (Inl exc)
    show ?thesis
    proof (cases "failure_from_exception exc ''push''")
      case (Inl err)
      with \<open>rm_push remote p changes = Inl exc\<close> show ?thesis
        using run assms(1) that(2) [OF _ kept.raise, of err] by simp
    next
      case (Inr failure)
      with \<open>rm_push remote p changes = Inl exc\<close> show ?thesis
        using run assms(1) that(2) [OF _ fail_batch_keeps] by simp
    qed
  next
    case (Inr response)
    with run assms(1) that show ?thesis
      by (cases "validated_push_results p changes response") (auto intro: fail_batch_keeps)
  qed
  then show ?thesis
  proof cases
    case settled
    have "keeps (result_ids results) db1 db'"
      using settle_results_keeps [OF subset_refl, of results e p changes] settled(3) by (rule kept.result)
    then consider y where "y \<in> set (l_outbox db')" "same_change x y" | "ob_change_id x \<in> result_ids results"
      using assms(3,4) by (auto simp: keeps_def)
    then show ?thesis
    proof cases
      case 2
      then obtain r where "r \<in> set results" "has_status ''accepted'' r" "reply_id r = ob_change_id x"
        by (auto simp: result_ids_def reply_id_def)
      with settled(1,2) validated_cover [OF settled(2)] show ?thesis by blast
    qed (auto simp: same_change_def)
  next
    case kept
    then have "keeps {} db1 db'" by (blast intro: kept.result)
    with assms(3,4) show ?thesis by (auto simp: keeps_def same_change_def)
  qed
qed

definition demo_remote :: remote where
  "demo_remote = \<lparr>rm_push = (\<lambda>p cs. Inl (ApiError 503 ''busy'')), rm_pull = (\<lambda>n p rq. Inl (ApiError 503 ''busy'')),
     rm_list_projects = Inr [], rm_create_project = None\<rparr>"

definition demo_sync_env :: sync_env where
  "demo_sync_env = \<lparr>se_remote = Some demo_remote, se_cancel = (\<lambda>_. False), se_now = 0, se_loads = (\<lambda>_. None),
     se_during_push = id, se_during_pull = id, se_fuel = 1\<rparr>"

definition demo_changes :: "dict list" where
  "demo_changes = get_pending_changes ''p'' 100 (isoformat 0) demo_queued"

theorem push_drops_only_accepted_witness:
  "\<exists>res db' y. process_push demo_sync_env demo_remote ''p'' demo_changes demo_queued = (res, db') \<and>
     y \<in> set (l_outbox db') \<and> ob_change_id y = ''c2'' \<and> ob_op y = ''upsert''"
proof -
  let ?db1 = "mark_outbox_ids_attempted (sent_ids demo_changes) (isoformat 0) demo_queued"
  let ?e = "new_entry ''c2'' ''t2'' ''p'' ''risk'' ''upsert'' ''r'' (Some 3) [(''title'', VStr ''b'')]"
  obtain res db' where run: "process_push demo_sync_env demo_remote ''p'' demo_changes demo_queued = (res, db')" by fastforce
  have "keeps {} demo_queued ?db1"
    unfolding mark_outbox_ids_attempted_def by (rule keeps_update) (simp add: same_change_def same_edit_def ob_owner_def)
  moreover have "?e \<in> set (l_outbox demo_queued)" by (simp add: demo_queued_eq)
  ultimately obtain x where x: "outbox_inv ?db1" "x \<in> set (l_outbox ?db1)" "same_change ?e x"
    using outbox.reach_inv [OF demo_queued_reach] by (auto simp: keeps_def)
  from push_drops_only_accepted [OF run _ _ x(2)] x(1)
  obtain y where "y \<in> set (l_outbox db')" "ob_change_id y = ob_change_id x" "ob_op y = ob_op x"
    by (auto simp: demo_remote_def demo_sync_env_def)
  with run x(3) show ?thesis by (auto simp: same_change_def new_entry_def)
qed

subsection \<open>The watermark\<close>

definition same_watermarks :: "ldb \<Rightarrow> ldb \<Rightarrow> bool" where
  "same_watermarks db db' \<longleftrightarrow> l_sync_state db' = l_sync_state db"

interpretation marks: step_relation same_watermarks
  by unfold_locales (auto simp: same_watermarks_def)

lemma apply_ack_watermarks:
  assumes "apply_push_acknowledgement p en i v sr db = Inr db'"
  shows "same_watermarks db db'"
proof (cases sr)
  case (Some raw)
  then obtain rec where "apply_record en p rec db = Inr db'"
    using assms by (auto simp: apply_push_acknowledgement_def Let_def)
  then show ?thesis using apply_record_pull apply_record_known pull_entity_frame(2) same_watermarks_def by blast
next
  case None
  then show ?thesis using assms by (auto simp: apply_push_acknowledgement_def same_watermarks_def set_rows_def split: option.splits)
qed

lemma advance_ack_watermarks: "advance_push_acknowledgement p en i v sr db = Inr db' \<Longrightarrow> same_watermarks db db'"
  by (auto simp: advance_push_acknowledgement_def Let_def same_watermarks_def set_rows_def split: if_splits)

lemma acknowledge_results_watermarks: "acknowledge_results p rs db = Inr (n, db') \<Longrightarrow> same_watermarks db db'"
proof (induction p rs db arbitrary: n rule: acknowledge_results.induct)
  case (2 p r rs db)
  let ?cid = "str_or_empty (dget r ''change_id'')"
  show ?case
  proof (cases "?cid = [] \<or> dget r ''status'' \<noteq> VStr ''accepted''")
    case True with 2 show ?thesis by (simp add: Let_def)
  next
    case False
    then obtain b db1 m where one: "(case first_where (\<lambda>e. ob_change_id e = ?cid \<and> ob_project_id e = p) (l_outbox db) of
         Some sent \<Rightarrow> rbind (acknowledge_sent p ?cid sent r db) (\<lambda>db. Inr (True, db))
       | None \<Rightarrow> advance_replacement p r db) = Inr (b, db1)" and rest: "acknowledge_results p rs db1 = Inr (m, db')"
      using 2(3) by (auto simp: Let_def)
    have sent: "same_watermarks db db2" if "acknowledge_sent p ?cid sent r db = Inr db2" for sent db2
    proof -
      from that have "same_watermarks (delete_outbox_ids [?cid] db) db2"
        by (auto simp: acknowledge_sent_def Let_def split: if_splits dest: apply_ack_watermarks)
      then show ?thesis by (simp add: same_watermarks_def delete_outbox_ids_def)
    qed
    have moved: "same_watermarks db db2" if "advance_replacement p r db = Inr (b, db2)" for b db2
      using that by (cases rule: advance_replacement_cases) (auto simp: same_watermarks_def dest: advance_ack_watermarks)
    have "same_watermarks db db1" using one sent moved by (auto split: option.splits)
    with 2(2) [OF refl False rest] show ?thesis by (auto intro: marks.trans)
  qed
qed (simp add: same_watermarks_def)

lemma release_ack_codes_watermarks:
  "release_scored_codes_for_acknowledgements p rs db = Inr db' \<Longrightarrow> same_watermarks db db'"
  by (auto simp: release_scored_codes_for_acknowledgements_def release_entity_codes_def release_codes_def Let_def
      same_watermarks_def set_rows_def)

lemma acknowledge_watermarks: "along same_watermarks (acknowledge p accepted)"
proof -
  have "same_watermarks db db'" if "rbind (acknowledge_accepted_results p rs db) (\<lambda>(_, db). Inr db) = Inr db'" for db db' rs
    using that by (auto simp: acknowledge_accepted_results_def
        intro: marks.trans [OF release_ack_codes_watermarks acknowledge_results_watermarks])
  moreover have "same_watermarks db (delete_outbox_ids is db)" for "is" db
    by (simp add: same_watermarks_def delete_outbox_ids_def)
  ultimately show ?thesis unfolding acknowledge_def Let_def
    by (intro marks.bind along_modify) (auto intro: marks.write_transaction marks.ret)
qed

lemma block_watermarks: "block_outbox_id loads cid err kind now db = Inr db' \<Longrightarrow> same_watermarks db db'"
  by (auto simp: block_outbox_id_def same_watermarks_def split: if_splits prod.splits)

lemma park_failure_watermarks: "along same_watermarks (park_failure e err)"
  unfolding park_failure_def Let_def
  by (auto intro!: along_modify marks.write_transaction dest: block_watermarks
      simp: same_watermarks_def defer_outbox_id_def Let_def split: option.splits prod.splits)

lemma process_push_watermarks:
  assumes "\<And>db. same_watermarks db (se_during_push e db)"
  shows "along same_watermarks (process_push e remote p changes)"
proof -
  have "along same_watermarks (fail_batch e is failure)" for "is" failure
    unfolding fail_batch_def Let_def by (intro marks.bind marks.each_step park_failure_watermarks marks.ret)
  moreover have "along same_watermarks (settle_results e p changes rs)" for rs
    unfolding settle_results_def Let_def
    by (intro marks.bind marks.each_step marks.write_transaction acknowledge_watermarks park_failure_watermarks marks.ret)
       (rule block_watermarks)
  moreover have "same_watermarks db (mark_outbox_ids_attempted is t db)" for "is" t db
    by (simp add: same_watermarks_def mark_outbox_ids_attempted_def)
  ultimately show ?thesis unfolding process_push_def using assms
    by (intro marks.bind along_modify) (auto intro: marks.raise split: sum.splits option.splits)
qed

text \<open>The specification of applying a pull: all five kinds of rows, parents first.\<close>

definition apply_kind :: "string \<Rightarrow> dict \<Rightarrow> string \<times> string \<Rightarrow> ldb \<Rightarrow> ldb cresult" where
  "apply_kind p pull = (\<lambda>(key, entity) db. rbind (rows_of pull key) (\<lambda>items. rbind (as_dicts items) (\<lambda>items. pull_entity entity p items db)))"

definition apply_rows :: "string \<Rightarrow> dict \<Rightarrow> ldb \<Rightarrow> ldb cresult" where
  "apply_rows p pull = each (apply_kind p pull) ENTITY_BY_KEY"

lemma pull_entity_Nil [simp]: "pull_entity en p [] db = Inr db"
  by (simp add: pull_entity_defs)

lemma apply_pull_key_Inr:
  assumes "apply_pull_key e p pull ke s = (Inr (), s')"
  shows "apply_kind p pull ke (sr_db s) = Inr (sr_db s')"
  using assms
  by (auto simp: apply_pull_key_def apply_kind_def abind_def check_cancel_def aguard_def araise_def on_db_def transaction_def
      amodify_def split: prod.splits sum.splits if_splits)

lemma apply_keys_Inr:
  "aeach (apply_pull_key e p pull) kes s = (Inr (), s') \<Longrightarrow> each (apply_kind p pull) kes (sr_db s) = Inr (sr_db s')"
proof (induction kes arbitrary: s)
  case (Cons ke kes)
  then obtain s1 where "apply_pull_key e p pull ke s = (Inr (), s1)" "aeach (apply_pull_key e p pull) kes s1 = (Inr (), s')"
    by (auto simp: abind_def split: prod.splits sum.splits)
  with Cons.IH apply_pull_key_Inr show ?case by simp
qed (simp add: aret_def)

lemma apply_pull_cases:
  assumes "apply_pull e p pull s = (r, s')"
  obtains (kept) err where "r = Inl err" "sr_db s' = sr_db s"
  | (applied) n t db where "r = Inr ()" "validated_server_sequence pull = Inr n" "apply_rows p pull (sr_db s) = Inr db"
      "sr_db s' = db\<lparr>l_sync_state := AList.update p (t, n) (l_sync_state db)\<rparr>"
proof (cases r)
  case (Inl err)
  then have "sr_db s' = sr_db s"
    using assms by (auto simp: apply_pull_def Let_def rollback_db_def araise_def split: sum.splits prod.splits)
  with Inl show thesis by (rule kept)
next
  case (Inr u)
  let ?t = "py_str (py_or (dget pull ''server_time'') (VStr (isoformat (se_now e))))"
  obtain n where n: "validated_server_sequence pull = Inr n" and
    rows: "apply_pull_rows e p pull ?t n s = (Inr (), s')"
    using assms Inr by (auto simp: apply_pull_def Let_def rollback_db_def araise_def split: sum.splits prod.splits)
  obtain s1 where s1: "aeach (apply_pull_key e p pull) ENTITY_BY_KEY s = (Inr (), s1)"
    "on_db (transaction (set_sync_watermark p ?t (Some n))) s1 = (Inr (), s')"
    using rows by (auto simp: apply_pull_rows_def abind_def check_cancel_def aguard_def split: prod.splits sum.splits if_splits)
  have "sr_db s' = (sr_db s1)\<lparr>l_sync_state := AList.update p (?t, n) (l_sync_state (sr_db s1))\<rparr>"
    using s1(2) by (auto simp: on_db_def transaction_def set_sync_watermark_def split: sum.splits if_splits)
  with Inr n apply_keys_Inr [OF s1(1)] show thesis by (intro applied [of n "sr_db s1" ?t]) (simp_all add: apply_rows_def)
qed

definition run_watermarks :: "sync_run \<Rightarrow> sync_run \<Rightarrow> bool" where
  "run_watermarks s s' \<longleftrightarrow> same_watermarks (sr_db s) (sr_db s')"

interpretation run_marks: step_relation run_watermarks
  by unfold_locales (auto simp: run_watermarks_def intro: marks.refl marks.trans)

lemma on_db_watermarks: "along same_watermarks m \<Longrightarrow> along run_watermarks (on_db m)"
  by (auto simp: along_def run_watermarks_def on_db_def split: prod.splits) (metis snd_conv)

lemma push_watermarks:
  assumes "\<And>db. same_watermarks db (se_during_push e db)"
  shows "along run_watermarks (push e remote p changes)"
  unfolding push_def Let_def
  by (intro run_marks.bind on_db_watermarks process_push_watermarks assms along_modify)
     (auto simp: run_watermarks_def marks.refl intro: run_marks.ret run_marks.raise split: list.splits)

lemma download_result:
  assumes "download e remote p s = (r, s')"
  shows "s' = s" "r = Inr pull \<Longrightarrow> fetch_pull e remote p (get_last_server_sequence (sr_db s) p) = Inr pull"
  using assms
  by (auto simp: download_def abind_def check_cancel_def aguard_def aret_def araise_def
      split: if_splits sum.splits sexc.splits)

lemma push_and_pull_cases:
  assumes "push_and_pull e remote p s = (r, s')"
    and during: "\<And>db. same_watermarks db (se_during_push e db)" "\<And>db. same_watermarks db (se_during_pull e db)"
  obtains (kept) "run_watermarks s s'"
  | (applied) pull n t db1 db2 where "r = Inr ()" "fetch_pull e remote p (get_last_server_sequence (sr_db s) p) = Inr pull"
      "validated_server_sequence pull = Inr n" "same_watermarks (sr_db s) db1" "apply_rows p pull db1 = Inr db2"
      "sr_db s' = db2\<lparr>l_sync_state := AList.update p (t, n) (l_sync_state db2)\<rparr>"
proof -
  let ?changes = "get_pending_changes p 100 (isoformat (se_now e)) (sr_db s)"
  let ?push = "if ?changes = [] then aret () else abind (push e remote p ?changes) (\<lambda>_. check_cancel e After_push)"
  obtain r1 s1 where p1: "?push s = (r1, s1)" by fastforce
  have "along run_watermarks ?push"
    using push_watermarks [OF during(1)] by (auto intro!: run_marks.bind run_marks.ret run_marks.check)
  from run_marks.result [OF this p1] have w1: "run_watermarks s s1" .
  show thesis
  proof (cases r1)
    case (Inl err)
    then show thesis using assms(1) p1 w1 kept by (simp add: push_and_pull_def Let_def abind_def)
  next
    case (Inr u)
    obtain r2 s2 where p2: "download e remote p s1 = (r2, s2)" by fastforce
    have s2: "s2 = s1" using download_result(1) [OF p2] .
    show thesis
    proof (cases r2)
      case (Inl err)
      then show thesis using assms(1) p1 p2 w1 kept \<open>r1 = Inr u\<close> s2 by (simp add: push_and_pull_def Let_def abind_def)
    next
      case (Inr pull)
      let ?s3 = "s1\<lparr>sr_db := se_during_pull e (sr_db s1)\<rparr>"
      have a: "apply_pull e p pull ?s3 = (r, s')"
        using assms(1) p1 p2 \<open>r1 = Inr u\<close> Inr s2 by (simp add: push_and_pull_def Let_def abind_def on_db_def amodify_def)
      have w3: "same_watermarks (sr_db s) (sr_db ?s3)"
        using w1 during(2) [of "sr_db s1"] by (simp add: run_watermarks_def same_watermarks_def)
      from a show thesis
      proof (cases rule: apply_pull_cases)
        case (kept err)
        with w3 that(1) show thesis by (simp add: run_watermarks_def)
      next
        case (applied n t db)
        have "get_last_server_sequence (sr_db s1) p = get_last_server_sequence (sr_db s) p"
          using w1 by (simp add: run_watermarks_def same_watermarks_def get_last_server_sequence_def)
        with download_result(2) [OF p2 Inr] applied w3 that(2) show thesis by simp
      qed
    qed
  qed
qed

subsection \<open>The outcome flags\<close>

definition same_flags :: "sync_run \<Rightarrow> sync_run \<Rightarrow> bool" where
  "same_flags s s' \<longleftrightarrow> sm_cancelled (sr_summary s') = sm_cancelled (sr_summary s) \<and>
     sm_sync_error (sr_summary s') = sm_sync_error (sr_summary s)"

interpretation flags: step_relation same_flags
  by unfold_locales (auto simp: same_flags_def)

lemma on_db_flags: "along same_flags (on_db m)"
  by (auto simp: along_def same_flags_def on_db_def split: prod.splits)

lemma push_flags: "along same_flags (push e remote p changes)"
  unfolding push_def Let_def
  by (intro flags.bind on_db_flags along_modify)
     (auto simp: same_flags_def intro: flags.ret flags.raise split: list.splits)

lemma apply_pull_flags: "along same_flags (apply_pull e p pull)"
proof -
  have "along same_flags (apply_pull_key e p pull ke)" for ke
    unfolding apply_pull_key_def
    by (cases ke; cases "rows_of pull (fst ke)")
       (auto intro!: flags.bind flags.check flags.raise on_db_flags along_modify simp: same_flags_def)
  then have "along same_flags (apply_pull_rows e p pull t n)" for t n
    unfolding apply_pull_rows_def by (intro flags.bind flags.each_step flags.check on_db_flags)
  then show ?thesis
    unfolding apply_pull_def Let_def
    by (auto simp: along_def same_flags_def rollback_db_def araise_def split: sum.splits prod.splits) (metis snd_conv)+
qed

lemma push_and_pull_flags: "along same_flags (push_and_pull e remote p)"
  unfolding along_def
proof
  fix s :: sync_run
  let ?changes = "get_pending_changes p 100 (isoformat (se_now e)) (sr_db s)"
  let ?push = "if ?changes = [] then aret () else abind (push e remote p ?changes) (\<lambda>_. check_cancel e After_push)"
  have "along same_flags (download e remote p)"
    using download_result(1) by (auto simp: along_def flags.refl) (metis flags.refl prod.collapse)
  then have "along same_flags (abind ?push (\<lambda>_. abind (download e remote p) (\<lambda>pull.
      abind (on_db (amodify (se_during_pull e))) (\<lambda>_. apply_pull e p pull))))"
    by (intro flags.bind on_db_flags apply_pull_flags) (auto intro!: flags.bind flags.ret flags.check push_flags)
  then show "same_flags s (snd (push_and_pull e remote p s))" by (simp add: push_and_pull_def Let_def along_def)
qed


definition demo_pull_env :: sync_env where
  "demo_pull_env = demo_sync_env\<lparr>se_remote := Some (demo_remote\<lparr>rm_pull :=
     (\<lambda>n p rq. Inr [(''server_time'', VStr ''t''), (''server_sequence'', VInt 7)])\<rparr>)\<rparr>"

lemma demo_pull_run: "l_sync_state (snd (sync_project demo_pull_env ''p'' demo_store)) = [(''p'', ''t'', 7)]"
proof -
  let ?pull = "[(''server_time'', VStr ''t''), (''server_sequence'', VInt 7)]"
  let ?remote = "demo_remote\<lparr>rm_pull := (\<lambda>n p rq. Inr ?pull)\<rparr>"
  have env: "se_remote demo_pull_env = Some ?remote" "se_cancel demo_pull_env c = False" "se_now demo_pull_env = 0"
    "se_during_pull demo_pull_env = id" "l_sync_state demo_store = []" "rm_pull ?remote n p rq = Inr ?pull" for c n p rq
    by (simp_all add: demo_pull_env_def demo_sync_env_def demo_store_def)
  have keys: "apply_pull_key demo_pull_env ''p'' ?pull ke s =
      (Inr (), s\<lparr>sr_summary := (sr_summary s)\<lparr>sm_pulled := AList.update (fst ke) 0 (sm_pulled (sr_summary s))\<rparr>\<rparr>)"
    if "ke \<in> set ENTITY_BY_KEY" for ke s
    using that
    by (auto simp: ENTITY_BY_KEY_def apply_pull_key_def abind_def check_cancel_def aguard_def rows_of_def py_or_def dget_Cons
        on_db_def transaction_def amodify_def env)
  have "\<exists>s'. aeach (apply_pull_key demo_pull_env ''p'' ?pull) kes s = (Inr (), s') \<and> sr_db s' = d"
    if "set kes \<subseteq> set ENTITY_BY_KEY" "sr_db s = d" for kes s d
    using that by (induction kes arbitrary: s) (auto simp: keys abind_def aret_def)
  from this [OF subset_refl] obtain s' where s': "aeach (apply_pull_key demo_pull_env ''p'' ?pull) ENTITY_BY_KEY
      \<lparr>sr_db = demo_store, sr_summary = empty_summary\<rparr> = (Inr (), s')" "sr_db s' = demo_store" by fastforce
  have "get_pending_changes ''p'' 100 (isoformat 0) demo_store = []" by (simp add: get_pending_changes_def demo_store_def oldest_first_def)
  then show ?thesis
    by (simp add: sync_project_def push_and_pull_def download_def fetch_pull_def apply_pull_def rollback_db_def apply_pull_rows_def
        validated_server_sequence_def s' abind_def aret_def check_cancel_def aguard_def on_db_def amodify_def transaction_def
        set_sync_watermark_def finish_run_def Let_def starts_with_def dget_Cons py_or_def py_str_def env)
qed


section \<open>Resolving conflicts\<close>

lemma require_conflict_Inr:
  assumes "require_conflict loads cid db = Inr conflict"
  obtains e where "e \<in> set (l_outbox db)" "ob_change_id e = cid" "ob_status e = Blocked" "ob_failure_kind e = ''conflict''"
    "conflict = blocked_row_to_dict loads e"
proof -
  from assms obtain e where e: "first_where (\<lambda>e. ob_change_id e = cid \<and> ob_status e = Blocked) (l_outbox db) = Some e"
    "conflict = blocked_row_to_dict loads e" "dget conflict ''failure_kind'' = VStr ''conflict''"
    by (auto simp: require_conflict_def get_blocked_change_def split: option.splits if_splits)
  have "ob_failure_kind e = ''conflict''"
    using e(2,3) by (auto simp: blocked_row_to_dict_def Let_def dget_Cons split: if_splits)
  with first_where_SomeD [OF e(1)] e(2) show thesis by (intro that) auto
qed

lemma conflict_identity:
  "project_id_of (blocked_row_to_dict loads e) = ob_project_id e" "entity_of (blocked_row_to_dict loads e) = ob_entity e"
  "entity_id_of (blocked_row_to_dict loads e) = ob_entity_id e"
  by (simp_all add: project_id_of_def entity_of_def entity_id_of_def blocked_row_to_dict_def Let_def dget_Cons py_str_def)

definition others :: "outbox_row \<Rightarrow> ldb \<Rightarrow> outbox_row list" where
  "others e db = filter (\<lambda>x. x \<noteq> e) (l_outbox db)"

lemma others_eq:
  assumes "outbox_inv db" "e \<in> set (l_outbox db)"
  shows "filter (\<lambda>x. ob_owner x \<noteq> ob_owner e) (l_outbox db) = others e db"
    "filter (\<lambda>x. ob_change_id x \<noteq> ob_change_id e) (l_outbox db) = others e db"
  unfolding others_def using assms by (auto simp: outbox_inv_def distinct_map inj_on_def intro!: filter_cong)

lemma force_replace_outbox:
  assumes "replace_outbox_entry new_id now p en op i base rec True db = (cid, db')"
  shows "cid = new_id" "l_rows db' = l_rows db" "l_sync_state db' = l_sync_state db"
    "l_outbox db' = filter (\<lambda>x. ob_owner x \<noteq> (p, en, i)) (l_outbox db) @ [new_entry new_id now p en op i base rec]"
  using assms by (auto simp: replace_outbox_entry_def Let_def delete_open_outbox) (auto simp: delete_open_entries_def)

lemma keep_mine_Inr:
  assumes "keep_mine new_id now cid (blocked_row_to_dict loads e) db = Inr (d, db')"
    "outbox_inv db" "e \<in> set (l_outbox db)" "ob_change_id e = cid"
  obtains sv v where "saved_server_version (blocked_row_to_dict loads e) = Inr sv" "1 \<le> sv" "sv \<le> v"
    "l_rows db' = l_rows db" "l_sync_state db' = l_sync_state db"
    "l_outbox db' = others e db @ [new_entry new_id now (ob_project_id e) (ob_entity e) (ob_op e) (ob_entity_id e) (Some v) (ob_record e)]"
proof -
  let ?c = "blocked_row_to_dict loads e"
  obtain sv cv where sv: "saved_server_version ?c = Inr sv" and cv: "current_local_version ?c db = Inr cv"
    using assms(1) by (auto simp: keep_mine_def)
  obtain ri db1 where rq1: "requeue_conflict_with_new_id new_id now cid (max sv cv) db = (ri, db1)" by fastforce
  then obtain rid where rq: "requeue_conflict_with_new_id new_id now cid (max sv cv) db = (Some rid, db')"
    using assms(1) sv cv by (cases ri) (simp_all add: keep_mine_def)
  have "first_where (\<lambda>x. ob_change_id x = cid) (l_outbox db) = Some e"
    using assms(2-4) by (intro first_where_unique [of ob_change_id]) (auto simp: outbox_inv_def)
  then have "replace_outbox_entry new_id now (ob_project_id e) (ob_entity e) (ob_op e) (ob_entity_id e) (Some (max sv cv))
      (ob_record e) True db = (rid, db')"
    using rq by (auto simp: requeue_conflict_with_new_id_def split: prod.splits)
  note r = force_replace_outbox [OF this]
  have "1 \<le> sv" using sv by (auto simp: saved_server_version_def split: option.splits if_splits)
  moreover have "filter (\<lambda>x. ob_owner x \<noteq> (ob_project_id e, ob_entity e, ob_entity_id e)) (l_outbox db) = others e db"
    using others_eq(1) [OF assms(2,3)] by (simp add: ob_owner_def)
  ultimately show thesis using that [OF sv, of "max sv cv"] r(2-4) by simp
qed

lemma take_server_copy_core:
  assumes "take_server_copy cid (blocked_row_to_dict loads e) rec db = Inr db'"
    "outbox_inv db" "e \<in> set (l_outbox db)" "ob_change_id e = cid"
  shows "map ob_core (l_outbox db') = map ob_core (others e db)" "l_sync_state db' = l_sync_state db"
proof -
  obtain t where t: "map_of TABLE_BY_ENTITY (ob_entity e) = Some t"
    and p: "pull_entity (ob_entity e) (ob_project_id e) [rec] (delete_outbox_ids [cid] db) = Inr db'"
    using assms(1) by (auto simp: take_server_copy_def apply_server_record_def conflict_identity split: if_splits)
  note f = pull_entity_frame(1,2) [OF p t]
  show "map ob_core (l_outbox db') = map ob_core (others e db)"
    using f(1) others_eq(2) [OF assms(2,3)] assms(4) by (simp add: delete_outbox_ids_def delete_where_def)
  show "l_sync_state db' = l_sync_state db" using f(2) by (simp add: delete_outbox_ids_def)
qed

lemma reset_watermark_Inr:
  assumes "reset_sync_watermark p t db = Inr db'"
  shows "l_outbox db' = l_outbox db" "get_last_server_sequence db' p = 0"
  using assms by (auto simp: reset_sync_watermark_def set_sync_watermark_def get_last_server_sequence_def update_conv')

lemma use_server_Inr:
  assumes "use_server cid (blocked_row_to_dict loads e) rec db = Inr (d, db')"
    "outbox_inv db" "e \<in> set (l_outbox db)" "ob_change_id e = cid"
  shows "map ob_core (l_outbox db') = map ob_core (others e db)" "get_last_server_sequence db' (ob_project_id e) = 0"
proof -
  obtain db1 where "take_server_copy cid (blocked_row_to_dict loads e) rec db = Inr db1"
    "reset_sync_watermark (ob_project_id e) SYNC_EPOCH db1 = Inr db'"
    using assms(1) by (auto simp: use_server_def conflict_identity)
  with take_server_copy_core [OF _ assms(2-4)] reset_watermark_Inr
  show "map ob_core (l_outbox db') = map ob_core (others e db)" "get_last_server_sequence db' (ob_project_id e) = 0" by auto
qed

lemma apply_merged_outbox: "apply_merged_fields en p i rec db = Inr db' \<Longrightarrow> l_outbox db' = l_outbox db"
  by (auto simp: apply_merged_fields_def Let_def set_rows_def split: option.splits if_splits)

lemma merge_Inr:
  assumes m: "merge iso_ok new_id now cid (blocked_row_to_dict loads e) server choices db = Inr (d, db')"
    and e: "outbox_inv db" "e \<in> set (l_outbox db)" "ob_change_id e = cid"
  obtains v rec selected where "strict_int (dget (blocked_row_to_dict loads e) ''server_version'') = Some v" "1 \<le> v"
    "merged_record iso_ok (dset (blocked_row_to_dict loads e) ''server_record'' (VDict server)) choices = Inr (rec, selected)"
    "map ob_core (l_outbox db') = map ob_core (others e db @
       [new_entry new_id now (ob_project_id e) (ob_entity e) ''upsert'' (ob_entity_id e) (Some v) rec])"
    "get_last_server_sequence db' (ob_project_id e) = 0"
proof -
  let ?c = "blocked_row_to_dict loads e"
  obtain v where v: "strict_int (dget ?c ''server_version'') = Some v" "1 \<le> v"
    using m by (auto simp: merge_def Let_def split: option.splits)
  obtain rec selected db1 db2 where mr: "merged_record iso_ok (dset ?c ''server_record'' (VDict server)) choices = Inr (rec, selected)"
    and t: "take_server_copy cid ?c server db = Inr db1"
    and a: "apply_merged_fields (ob_entity e) (ob_project_id e) (ob_entity_id e) rec db1 = Inr db2"
    and w: "reset_sync_watermark (ob_project_id e) SYNC_EPOCH
        (snd (queue_merged_upsert new_id now (ob_project_id e) (ob_entity e) (ob_entity_id e) v rec db2)) = Inr db'"
    using m v by (auto simp: merge_def Let_def conflict_identity case_prod_beta)
  obtain cid' db3 where q: "queue_merged_upsert new_id now (ob_project_id e) (ob_entity e) (ob_entity_id e) v rec db2 = (cid', db3)"
    by fastforce
  have core: "map ob_core (l_outbox db2) = map ob_core (others e db)"
    using take_server_copy_core(1) [OF t e] apply_merged_outbox [OF a] by simp
  have "\<forall>x \<in> set (l_outbox db2). ob_owner x \<noteq> ob_owner e"
  proof
    fix x assume "x \<in> set (l_outbox db2)"
    then have "ob_core x \<in> ob_core ` set (others e db)" using arg_cong [OF core, of set] by auto
    then obtain y where y: "y \<in> set (others e db)" "ob_core x = ob_core y" by (rule imageE)
    have "ob_owner (ob_core z) = ob_owner z" for z by (simp add: ob_core_def ob_owner_def)
    with y(2) have "ob_owner x = ob_owner y" by metis
    moreover have "ob_owner y \<noteq> ob_owner e" using y(1) unfolding others_eq(1) [OF e(1,2), symmetric] by simp
    ultimately show "ob_owner x \<noteq> ob_owner e" by simp
  qed
  then have "filter (\<lambda>x. ob_owner x \<noteq> (ob_project_id e, ob_entity e, ob_entity_id e)) (l_outbox db2) = l_outbox db2"
    by (simp add: filter_id_conv ob_owner_def)
  then have "l_outbox db3 = l_outbox db2 @ [new_entry new_id now (ob_project_id e) (ob_entity e) ''upsert'' (ob_entity_id e) (Some v) rec]"
    using force_replace_outbox(4) [OF q [unfolded queue_merged_upsert_def]] by simp
  with reset_watermark_Inr [OF w [unfolded q snd_conv]] core mr v that show thesis by simp
qed


definition demo_conflicted :: ldb where
  "demo_conflicted = demo_store\<lparr>l_outbox :=
     [(new_entry ''c1'' ''t1'' ''p'' ''risk'' ''upsert'' ''r'' (Some 3) [(''title'', VStr ''a'')])
        \<lparr>ob_status := Blocked, ob_failure_kind := ''conflict'', ob_result := [(''server_version'', VInt 5)]\<rparr>]\<rparr>"

lemma demo_keep_mine: "isl (resolve_conflict (\<lambda>_. True) (\<lambda>_. None) ''c2'' ''t2'' ''c1'' ''Keep_Mine'' [] None demo_conflicted) = False"
  by code_simp

end
