(* ===== verification/Client_Server.thy ===== *)
theory Client_Server
  imports Client_Sync_Facts Sync_Demo
begin

section \<open>The client's download against the server\<close>

text \<open>
  The two sides composed: the client's download loop (\<open>_fetch_pull\<close>, \<open>_pull_paginated\<close>) talking to the
  server's pull route. \<open>http_pull\<close> is the wire: the body \<open>RestApiClient.sync_pull\<close> sends, the validation of
  \<open>SyncPullRequest\<close>, the route, and the JSON of its answer; an exception of the route arrives as an
  \<open>ApiError\<close> with its status. Pydantic's response models rewrite each row; that rewriting is the argument
  \<open>out\<close>, and the facts hold for every such function.
\<close>

definition feed :: "sdb \<Rightarrow> uuid \<Rightarrow> string \<Rightarrow> feed_row list" where
  "feed db p key =
    (if key = ''risks'' then items_source db p ''risk''
     else if key = ''opportunities'' then items_source db p ''opportunity''
     else if key = ''actions'' then actions_source db p
     else if key = ''assessments'' then assessments_source db p
     else tickets_source db p)"

definition row_json :: "string \<Rightarrow> feed_row \<Rightarrow> dict" where
  "row_json key r =
    (if key = ''risks'' \<or> key = ''opportunities'' then model_to_dict Item (fst r)
     else if key = ''actions'' then hd (serialize_action_rows [r])
     else if key = ''assessments'' then hd (serialize_assessment_rows [r])
     else serialize_ticket (fst r))"

definition pull_json :: "(string \<Rightarrow> dict \<Rightarrow> dict) \<Rightarrow> pull_response \<Rightarrow> dict" where
  "pull_json out r =
    [(''server_time'', VStr (isoformat (pr_server_time r))), (''server_sequence'', VInt (pr_server_sequence r)),
     (''risks'', VList (map (VDict \<circ> out ''risks'') (pr_risks r))),
     (''opportunities'', VList (map (VDict \<circ> out ''opportunities'') (pr_opportunities r))),
     (''actions'', VList (map (VDict \<circ> out ''actions'') (pr_actions r))),
     (''assessments'', VList (map (VDict \<circ> out ''assessments'') (pr_assessments r))),
     (''helpdesk_tickets'', VList (map (VDict \<circ> out ''helpdesk_tickets'') (pr_helpdesk_tickets r)))] @
    (if pr_has_more r = [] then [] else [(''has_more'', VDict (map (\<lambda>(k, b). (k, VBool b)) (pr_has_more r)))]) @
    (if pr_cursors r = [] then [] else [(''cursors'', VDict (map (\<lambda>(k, c). (k, VStr c)) (pr_cursors r)))])"

definition api_error :: "exc \<Rightarrow> remote_error" where
  "api_error exc = (case exc of HTTPException status detail \<Rightarrow> ApiError status (py_str detail)
     | _ \<Rightarrow> ApiError 500 ''Internal Server Error'')"

definition pull_cursors :: "pull_request \<Rightarrow> (string \<times> string) list" where
  "pull_cursors rq = (case rq_cursors rq of None \<Rightarrow> [] | Some d \<Rightarrow> map (\<lambda>(k, v). (k, py_str v)) d)"

text \<open>\<open>SyncPullRequest\<close>: the bounds of its fields and the rules for cursors.\<close>

definition valid_pull_request :: "pull_request \<Rightarrow> bool" where
  "valid_pull_request rq \<longleftrightarrow> 0 \<le> rq_since rq \<and>
     (case rq_limit rq of None \<Rightarrow> True | Some n \<Rightarrow> 1 \<le> n \<and> n \<le> 50000) \<and>
     (case rq_snapshot rq of None \<Rightarrow> True | Some n \<Rightarrow> 0 \<le> n) \<and>
     (pull_cursors rq \<noteq> [] \<longrightarrow> rq_limit rq \<noteq> None \<and> rq_snapshot rq \<noteq> None)"

definition http_pull :: "(string \<Rightarrow> dict \<Rightarrow> dict) \<Rightarrow> nat \<Rightarrow> (nat \<Rightarrow> time) \<Rightarrow> (nat \<Rightarrow> sdb) \<Rightarrow> uuid \<Rightarrow>
    nat \<Rightarrow> string \<Rightarrow> pull_request \<Rightarrow> remote_error + dict" where
  "http_pull out max_per_entity now dbs user n project_id rq =
    (case uuid_of_str project_id of
       None \<Rightarrow> Inl (ApiError 422 ''Unprocessable Entity'')
     | Some p \<Rightarrow>
         if \<not> valid_pull_request rq then Inl (ApiError 422 ''Unprocessable Entity'')
         else case sync_pull max_per_entity (now n) (dbs n) user p p (rq_since rq) (map_option nat (rq_limit rq))
                     (if rq_limit rq = None then [] else pull_cursors rq) (rq_snapshot rq) of
                Inl exc \<Rightarrow> Inl (api_error exc)
              | Inr r \<Rightarrow> Inr (pull_json out r))"

section \<open>Facts about the composed download\<close>

lemma feed_distinct: "feed_inv db \<Longrightarrow> distinct (map frow_seq (feed db p k))"
  by (simp add: feed_def source_distinct)

text \<open>One page of every kind, as the route serves them from the cursors \<open>c\<close>.\<close>

definition page_response :: "time \<Rightarrow> sdb \<Rightarrow> uuid \<Rightarrow> nat \<Rightarrow> int \<Rightarrow> (string \<Rightarrow> int) \<Rightarrow> bool \<Rightarrow> pull_response" where
  "page_response now db p L snap c paged =
    (let pg = (\<lambda>k. page_rows (feed db p k) L snap (c k)); rows = (\<lambda>k. map (row_json k) (fst (pg k))) in
     \<lparr>pr_server_time = now, pr_server_sequence = snap, pr_risks = rows ''risks'', pr_opportunities = rows ''opportunities'',
      pr_actions = rows ''actions'', pr_assessments = rows ''assessments'', pr_helpdesk_tickets = rows ''helpdesk_tickets'',
      pr_has_more = (if paged then map (\<lambda>k. (k, fst (snd (pg k)))) PULL_KEYS else []),
      pr_cursors = (if paged then map (\<lambda>k. (k, seq_cursor (snd (snd (pg k))))) PULL_KEYS else [])\<rparr>)"

lemma row_json_simps:
  "map (row_json ''risks'') rs = map (model_to_dict Item \<circ> fst) rs"
  "map (row_json ''opportunities'') rs = map (model_to_dict Item \<circ> fst) rs"
  "map (row_json ''actions'') rs = serialize_action_rows rs"
  "map (row_json ''assessments'') rs = serialize_assessment_rows rs"
  "map (row_json ''helpdesk_tickets'') rs = map (serialize_ticket \<circ> fst) rs"
  by (simp_all add: row_json_def serialize_action_rows_def serialize_assessment_rows_def)

lemma pull_since_page:
  assumes last: "last_sequence db p = Some l" and b: "0 \<le> since" "since \<le> snap" "snap \<le> l"
    and so: "so = Some snap \<or> so = None \<and> snap = l"
    and cur: "\<And>k. k \<in> set PULL_KEYS \<Longrightarrow> parse_sequence_cursor (map_of cursors k) since snap = Inr (c k)"
  shows "pull_since mx now db p since (Some L) cursors so = Inr (page_response now db p L snap c True)"
    "(if \<exists>k \<in> set PULL_KEYS. fst (snd (page_rows (feed db p k) mx snap (c k))) \<and> mx \<noteq> 0
      then pull_since mx now db p since None cursors so = Inl (http_error 413 ''Sync pull too large. Paginate using limit_per_entity + cursors.'')
      else pull_since mx now db p since None cursors so = Inr (page_response now db p mx snap c False))"
proof -
  have snap: "(case so of None \<Rightarrow> l | Some s \<Rightarrow> s) = snap" using so by auto
  have c: "parse_sequence_cursor (map_of cursors ''risks'') since snap = Inr (c ''risks'')"
    "parse_sequence_cursor (map_of cursors ''opportunities'') since snap = Inr (c ''opportunities'')"
    "parse_sequence_cursor (map_of cursors ''actions'') since snap = Inr (c ''actions'')"
    "parse_sequence_cursor (map_of cursors ''assessments'') since snap = Inr (c ''assessments'')"
    "parse_sequence_cursor (map_of cursors ''helpdesk_tickets'') since snap = Inr (c ''helpdesk_tickets'')"
    by (auto simp: PULL_KEYS_def intro: cur)
  note defs = pull_since_def prepare_pull_context_def last snap Let_def pull_page_def c case_prod_beta
    page_response_def row_json_simps feed_def PULL_KEYS_def
  show "pull_since mx now db p since (Some L) cursors so = Inr (page_response now db p L snap c True)"
    using b by (simp add: defs)
  show "(if \<exists>k \<in> set PULL_KEYS. fst (snd (page_rows (feed db p k) mx snap (c k))) \<and> mx \<noteq> 0
      then pull_since mx now db p since None cursors so = Inl (http_error 413 ''Sync pull too large. Paginate using limit_per_entity + cursors.'')
      else pull_since mx now db p since None cursors so = Inr (page_response now db p mx snap c False))"
    using b by (auto simp: defs)
qed

definition cursor :: "nat \<Rightarrow> feed_row list \<Rightarrow> int \<Rightarrow> int \<Rightarrow> int" where
  "cursor L source snap c = snd (snd (page_rows source L snap c))"

lemma page_step:
  assumes d: "distinct (map frow_seq source)" and L: "1 \<le> L" and c: "since \<le> c" "c \<le> snap"
  defines "s \<equiv> slice frow_seq source c snap"
  shows "fst (page_rows source L snap c) = take L s" "fst (snd (page_rows source L snap c)) = (L < length s)"
    "slice frow_seq source (cursor L source snap c) snap = drop L s"
    "since \<le> cursor L source snap c" "cursor L source snap c \<le> snap"
    "L < length s \<Longrightarrow> cursor L source snap c \<noteq> c"
proof -
  have eq: "page_rows source L snap c = (take L s, L < length s, if take L s = [] then c else frow_seq (last (take L s)))"
    using L by (simp add: page_rows_eq s_def Let_def)
  then show "fst (page_rows source L snap c) = take L s" "fst (snd (page_rows source L snap c)) = (L < length s)" by simp_all
  have cur: "cursor L source snap c = (if take L s = [] then c else frow_seq (last (take L s)))"
    by (simp add: cursor_def eq)
  have mem: "c < frow_seq (last (take L s)) \<and> frow_seq (last (take L s)) \<le> snap" if "take L s \<noteq> []"
  proof -
    have "last (take L s) \<in> set s" using that by (meson in_set_takeD last_in_set)
    then show ?thesis by (simp add: s_def set_slice)
  qed
  show "slice frow_seq source (cursor L source snap c) snap = drop L s"
  proof (cases "take L s = []")
    case True
    with L have "s = []" by (cases s) auto
    with True show ?thesis using L cur by (simp add: s_def)
  next
    case False
    then show ?thesis using slice_after_prefix [OF d _ False, of c snap "drop L s"] cur by (simp add: s_def)
  qed
  show "since \<le> cursor L source snap c" "cursor L source snap c \<le> snap"
    using c mem cur by (auto split: if_splits)
  show "cursor L source snap c \<noteq> c" if "L < length s"
  proof -
    have "take L s \<noteq> []" using that L by (cases s) auto
    then show ?thesis using mem cur by auto
  qed
qed

lemma seq_cursor_inj: "0 \<le> a \<Longrightarrow> 0 \<le> b \<Longrightarrow> seq_cursor a = seq_cursor b \<longleftrightarrow> a = b"
proof
  assume *: "0 \<le> a" "0 \<le> b" "seq_cursor a = seq_cursor b"
  have "parse_sequence_cursor (Some (seq_cursor a)) 0 (max a b) = Inr a"
    "parse_sequence_cursor (Some (seq_cursor b)) 0 (max a b) = Inr b"
    by (rule cursor_parses [OF *(1) *(1)], simp) (rule cursor_parses [OF *(2) *(2)], simp)
  with *(3) show "a = b" by (metis sum.inject(2))
qed simp

text \<open>The JSON of one page, as the client reads it.\<close>

definition json_rows :: "(string \<Rightarrow> dict \<Rightarrow> dict) \<Rightarrow> string \<Rightarrow> feed_row list \<Rightarrow> pyval list" where
  "json_rows out k rs = map (\<lambda>r. VDict (out k (row_json k r))) rs"

definition cursor_dict :: "(string \<Rightarrow> int) \<Rightarrow> dict" where
  "cursor_dict c = map (\<lambda>k. (k, VStr (seq_cursor (c k)))) PULL_KEYS"

lemma json_rows_append: "json_rows out k (xs @ ys) = json_rows out k xs @ json_rows out k ys"
  by (simp add: json_rows_def)

lemma pull_keys_all: "(\<forall>k \<in> set PULL_KEYS. P k) \<longleftrightarrow>
    P ''risks'' \<and> P ''opportunities'' \<and> P ''actions'' \<and> P ''assessments'' \<and> P ''helpdesk_tickets''"
  by (simp add: PULL_KEYS_def)

lemma page_json_rows:
  assumes "k \<in> set PULL_KEYS"
  shows "rows_of (pull_json out (page_response now db p L snap c paged)) k =
    Inr (json_rows out k (fst (page_rows (feed db p k) L snap (c k))))"
proof -
  have "\<forall>k \<in> set PULL_KEYS. rows_of (pull_json out (page_response now db p L snap c paged)) k =
      Inr (json_rows out k (fst (page_rows (feed db p k) L snap (c k))))"
    unfolding pull_keys_all
    by (intro conjI) (simp_all add: rows_of_def pull_json_def page_response_def dget_def py_or_def json_rows_def Let_def comp_def)
  with assms show ?thesis by blast
qed

lemma page_json_sequence:
  "0 \<le> snap \<Longrightarrow> validated_server_sequence (pull_json out (page_response now db p L snap c paged)) = Inr snap"
  by (simp add: validated_server_sequence_def pull_json_def page_response_def dget_def Let_def)

lemma extend_page:
  assumes "\<And>k. k \<in> set PULL_KEYS \<Longrightarrow> rows_of resp k = Inr (vs k)"
  shows "extend_rows resp PULL_KEYS (map (\<lambda>k. (k, M k)) PULL_KEYS) = Inr (map (\<lambda>k. (k, M k @ vs k)) PULL_KEYS)"
proof -
  have "\<forall>k \<in> set PULL_KEYS. rows_of resp k = Inr (vs k)" using assms by blast
  then show ?thesis unfolding pull_keys_all by (simp add: PULL_KEYS_def)
qed

lemma next_cursors_page:
  assumes c: "\<And>k. k \<in> set PULL_KEYS \<Longrightarrow> 0 \<le> c k \<and> 0 \<le> c' k \<and> (mo k \<longrightarrow> c' k \<noteq> c k)"
    and h: "dget resp ''has_more'' = VDict (map (\<lambda>k. (k, VBool (mo k))) PULL_KEYS)"
    and n: "dget resp ''cursors'' = VDict (cursor_dict c')" and old: "cursors = [] \<or> cursors = cursor_dict c"
  shows "next_page_cursors resp cursors = Inr (if \<exists>k \<in> set PULL_KEYS. mo k then Some (cursor_dict c') else None)"
proof -
  have t: "truthy (VStr (seq_cursor i))" for i by (simp add: seq_cursor_def)
  have get: "dget (cursor_dict c') k = VStr (seq_cursor (c' k))" "dget cursors k \<in> {VNone, VStr (seq_cursor (c k))}"
    if "k \<in> set PULL_KEYS" for k
  proof -
    have g: "\<forall>k \<in> set PULL_KEYS. dget (cursor_dict f) k = VStr (seq_cursor (f k))" for f
      unfolding pull_keys_all by (simp add: cursor_dict_def PULL_KEYS_def dget_def)
    show "dget (cursor_dict c') k = VStr (seq_cursor (c' k))" using g that by blast
    show "dget cursors k \<in> {VNone, VStr (seq_cursor (c k))}" using old g that by (auto simp: dget_def)
  qed
  have ks: "map fst (filter (\<lambda>(_, m). truthy m) (map (\<lambda>k. (k, VBool (mo k))) PULL_KEYS)) = filter mo PULL_KEYS"
    by (simp add: filter_map comp_def)
  have moved: "filter (\<lambda>k. \<not> truthy (dget (cursor_dict c') k) \<or> dget (cursor_dict c') k = dget cursors k) (filter mo PULL_KEYS) = []"
    using get c t by (fastforce simp: filter_empty_conv seq_cursor_inj)
  have all: "map (\<lambda>(k, v). (k, VStr (py_str v))) (filter (\<lambda>(_, v). truthy v) (cursor_dict c')) = cursor_dict c'"
    using t by (simp add: cursor_dict_def filter_map comp_def py_str_def)
  have "py_or (VDict (map (\<lambda>k. (k, VBool (mo k))) PULL_KEYS)) (VDict []) = VDict (map (\<lambda>k. (k, VBool (mo k))) PULL_KEYS)"
    "py_or (VDict (cursor_dict c')) (VDict []) = VDict (cursor_dict c')"
    by (simp_all add: py_or_def cursor_dict_def PULL_KEYS_def)
  then show ?thesis unfolding next_page_cursors_def h n using ks moved all
    by (simp add: Let_def filter_empty_conv)
qed

text \<open>
  A server at rest: the project exists, the caller is a member, and every request of the download sees the
  same database.
\<close>

definition serves :: "remote \<Rightarrow> (string \<Rightarrow> dict \<Rightarrow> dict) \<Rightarrow> nat \<Rightarrow> sdb \<Rightarrow> string \<Rightarrow> uuid \<Rightarrow> int \<Rightarrow> bool" where
  "serves remote out mx db pid p snap \<longleftrightarrow> feed_inv db \<and> uuid_of_str pid = Some p \<and> last_sequence db p = Some snap \<and>
     (\<exists>now user r. ensure_member db p user = Inr r \<and> rm_pull remote = http_pull out mx now (\<lambda>_. db) user)"

lemma serves_page:
  assumes s: "serves remote out mx db pid p snap" and b: "0 \<le> since" "since \<le> snap"
    and so: "so = None \<and> cursors = None \<and> c = (\<lambda>_. since) \<or> so = Some snap \<and> cursors = Some (cursor_dict c)"
    and c: "\<And>k. k \<in> set PULL_KEYS \<Longrightarrow> since \<le> c k \<and> c k \<le> snap"
  obtains now where "rm_pull remote n pid \<lparr>rq_since = since, rq_limit = Some 2000, rq_cursors = cursors, rq_snapshot = so\<rparr> =
    Inr (pull_json out (page_response now db p 2000 snap c True))"
proof -
  from s obtain now user r where s': "uuid_of_str pid = Some p" "last_sequence db p = Some snap"
      "ensure_member db p user = Inr r" "rm_pull remote = http_pull out mx now (\<lambda>_. db) user"
    unfolding serves_def by blast
  let ?rq = "\<lparr>rq_since = since, rq_limit = Some 2000, rq_cursors = cursors, rq_snapshot = so\<rparr>"
  have cur: "pull_cursors ?rq = (if cursors = None then [] else map (\<lambda>k. (k, seq_cursor (c k))) PULL_KEYS)"
    using so by (auto simp: pull_cursors_def cursor_dict_def py_str_def)
  have valid: "valid_pull_request ?rq" using b so by (auto simp: valid_pull_request_def cur)
  have get: "map_of (pull_cursors ?rq) k = (if cursors = None then None else Some (seq_cursor (c k)))" if "k \<in> set PULL_KEYS" for k
    using that by (auto simp: cur map_of_map_restrict)
  have parses: "parse_sequence_cursor (map_of (pull_cursors ?rq) k) since snap = Inr (c k)" if k: "k \<in> set PULL_KEYS" for k
    using so c [OF k] b cursor_parses [of "c k" since snap] by (auto simp: get [OF k] parse_sequence_cursor_def [of None])
  have "pull_since mx (now n) db p since (Some 2000) (pull_cursors ?rq) so = Inr (page_response (now n) db p 2000 snap c True)"
    by (rule pull_since_page(1) [OF s'(2) b order_refl _ parses]) (use so in auto)
  then have "rm_pull remote n pid ?rq = Inr (pull_json out (page_response (now n) db p 2000 snap c True))"
    using valid s' by (simp add: http_pull_def sync_pull_def)
  with that show thesis by blast
qed

lemma serves_whole:
  assumes s: "serves remote out mx db pid p snap" and b: "0 \<le> since" "since \<le> snap"
  defines "rq \<equiv> \<lparr>rq_since = since, rq_limit = None, rq_cursors = None, rq_snapshot = None\<rparr>"
  obtains detail where "rm_pull remote n pid rq = Inl (ApiError 413 detail)"
    | now where "rm_pull remote n pid rq = Inr (pull_json out (page_response now db p mx snap (\<lambda>_. since) False))"
        "\<And>k. k \<in> set PULL_KEYS \<Longrightarrow> fst (page_rows (feed db p k) mx snap since) = slice frow_seq (feed db p k) since snap"
proof -
  from s obtain now user r where s': "uuid_of_str pid = Some p" "last_sequence db p = Some snap"
      "ensure_member db p user = Inr r" "rm_pull remote = http_pull out mx now (\<lambda>_. db) user"
    unfolding serves_def by blast
  let ?over = "\<exists>k \<in> set PULL_KEYS. fst (snd (page_rows (feed db p k) mx snap since)) \<and> mx \<noteq> 0"
  have valid: "valid_pull_request rq" using b by (simp add: rq_def valid_pull_request_def pull_cursors_def)
  have "parse_sequence_cursor (map_of [] k) since snap = Inr since" for k by (simp add: parse_sequence_cursor_def)
  note page = pull_since_page(2) [OF s'(2) b order_refl, of None "[]" "\<lambda>_. since" mx "now n", simplified this]
  show thesis
  proof (cases ?over)
    case True
    with page have "pull_since mx (now n) db p since None [] None = Inl (http_error 413 ''Sync pull too large. Paginate using limit_per_entity + cursors.'')"
      by auto
    with valid s' have "rm_pull remote n pid rq = Inl (ApiError 413 ''Sync pull too large. Paginate using limit_per_entity + cursors.'')"
      by (simp add: http_pull_def sync_pull_def rq_def api_error_def py_str_def)
    then show thesis by (rule that(1))
  next
    case False
    with page have "pull_since mx (now n) db p since None [] None = Inr (page_response (now n) db p mx snap (\<lambda>_. since) False)"
      by auto
    with valid s' have "rm_pull remote n pid rq = Inr (pull_json out (page_response (now n) db p mx snap (\<lambda>_. since) False))"
      by (simp add: http_pull_def sync_pull_def rq_def)
    moreover have "fst (page_rows (feed db p k) mx snap since) = slice frow_seq (feed db p k) since snap" if "k \<in> set PULL_KEYS" for k
      using False that by (auto simp: page_rows_def Let_def slice_def split: if_splits)
    ultimately show thesis by (rule that(2))
  qed
qed

abbreviation rest_of :: "sdb \<Rightarrow> uuid \<Rightarrow> int \<Rightarrow> (string \<Rightarrow> int) \<Rightarrow> string \<Rightarrow> feed_row list" where
  "rest_of db p snap c k \<equiv> slice frow_seq (feed db p k) (c k) snap"

lemma sum_keys_mono_strict:
  fixes f g :: "string \<Rightarrow> nat"
  assumes "\<And>k. k \<in> set ks \<Longrightarrow> f k \<le> g k" "k \<in> set ks" "f k < g k"
  shows "sum_list (map f ks) < sum_list (map g ks)"
  using assms
proof (induction ks)
  case (Cons a ks)
  have "sum_list (map f ks) \<le> sum_list (map g ks)" by (rule sum_list_mono) (use Cons.prems(1) in auto)
  with Cons show ?case by (cases "k = a") (fastforce intro: add_le_less_mono add_less_le_mono)+
qed simp

lemma pull_pages_complete:
  assumes s: "serves remote out mx db pid p snap" and b: "0 \<le> since" "since \<le> snap" and live: "\<forall>q. \<not> se_cancel e q"
    and fuel: "sum_list (map (\<lambda>k. length (rest_of db p snap c k)) PULL_KEYS) < fuel"
    and c: "\<And>k. k \<in> set PULL_KEYS \<Longrightarrow> since \<le> c k \<and> c k \<le> snap"
    and st: "sn = None \<and> cursors = [] \<and> c = (\<lambda>_. since) \<or> (\<exists>t. sn = Some (snap, t)) \<and> cursors = cursor_dict c"
  shows "\<exists>t. pull_pages e remote pid since fuel n cursors sn (map (\<lambda>k. (k, M k)) PULL_KEYS) =
    Inr (Some (snap, t), map (\<lambda>k. (k, M k @ json_rows out k (rest_of db p snap c k))) PULL_KEYS)"
  using fuel c st
proof (induction fuel arbitrary: n c cursors sn M)
  case (Suc fuel)
  have nonempty: "cursor_dict c \<noteq> []" by (simp add: cursor_dict_def PULL_KEYS_def)
  obtain now where req: "rm_pull remote n pid \<lparr>rq_since = since, rq_limit = Some 2000,
      rq_cursors = (if cursors = [] then None else Some cursors), rq_snapshot = map_option fst sn\<rparr> =
    Inr (pull_json out (page_response now db p 2000 snap c True))"
    by (rule serves_page [OF s b, where n = n and c = c and so = "map_option fst sn" and
        cursors = "if cursors = [] then None else Some cursors"]) (use Suc.prems nonempty in auto)
  define resp where "resp = pull_json out (page_response now db p 2000 snap c True)"
  define c' where "c' k = cursor 2000 (feed db p k) snap (c k)" for k
  define mo where "mo k = (2000 < length (rest_of db p snap c k))" for k
  from s have d: "distinct (map frow_seq (feed db p k))" for k by (simp add: serves_def feed_distinct)
  have stp: "fst (page_rows (feed db p k) 2000 snap (c k)) = take 2000 (rest_of db p snap c k)"
      "rest_of db p snap c' k = drop 2000 (rest_of db p snap c k)" "since \<le> c' k \<and> c' k \<le> snap"
      "mo k \<longrightarrow> c' k \<noteq> c k" if "k \<in> set PULL_KEYS" for k
    using page_step [OF d [of k], of 2000 since "c k" snap] Suc.prems(2) [OF that] by (simp_all add: c'_def mo_def)
  have rows: "rows_of resp k = Inr (json_rows out k (take 2000 (rest_of db p snap c k)))" if "k \<in> set PULL_KEYS" for k
    unfolding resp_def page_json_rows [OF that] using stp(1) [OF that] by simp
  have seq: "validated_server_sequence resp = Inr snap" unfolding resp_def by (rule page_json_sequence) (use b in simp)
  have hm: "dget resp ''has_more'' = VDict (map (\<lambda>k. (k, VBool (mo k))) PULL_KEYS)"
  proof -
    have "map (\<lambda>k. (k, VBool (fst (snd (page_rows (feed db p k) 2000 snap (c k)))))) PULL_KEYS = map (\<lambda>k. (k, VBool (mo k))) PULL_KEYS"
      by (simp add: page_rows_eq mo_def Let_def)
    then show ?thesis
      by (simp add: resp_def pull_json_def page_response_def dget_def Let_def comp_def PULL_KEYS_def)
  qed
  have cd: "dget resp ''cursors'' = VDict (cursor_dict c')"
    by (simp add: resp_def pull_json_def page_response_def dget_def Let_def comp_def cursor_dict_def c'_def cursor_def PULL_KEYS_def)
  have nx: "next_page_cursors resp cursors = Inr (if \<exists>k \<in> set PULL_KEYS. mo k then Some (cursor_dict c') else None)"
    by (rule next_cursors_page [OF _ hm cd, of c]) (use Suc.prems stp b in force)+
  let ?sn = "case sn of None \<Rightarrow> Some (snap, dget resp ''server_time'') | Some x \<Rightarrow> Some x"
  let ?M = "\<lambda>k. M k @ json_rows out k (take 2000 (rest_of db p snap c k))"
  have sn: "\<exists>t. ?sn = Some (snap, t)" and same: "case sn of None \<Rightarrow> True | Some x \<Rightarrow> snap = fst x" using Suc.prems(3) by auto
  have one: "pull_pages e remote pid since (Suc fuel) n cursors sn (map (\<lambda>k. (k, M k)) PULL_KEYS) =
    (if \<exists>k \<in> set PULL_KEYS. mo k then pull_pages e remote pid since fuel (Suc n) (cursor_dict c') ?sn (map (\<lambda>k. (k, ?M k)) PULL_KEYS)
     else Inr (?sn, map (\<lambda>k. (k, ?M k)) PULL_KEYS))"
    using req live same by (simp add: resp_def [symmetric] seq nx extend_page [OF rows] Let_def)
  show ?case
  proof (cases "\<exists>k \<in> set PULL_KEYS. mo k")
    case True
    then obtain k0 where k0: "k0 \<in> set PULL_KEYS" "mo k0" by blast
    have "sum_list (map (\<lambda>k. length (rest_of db p snap c' k)) PULL_KEYS) < sum_list (map (\<lambda>k. length (rest_of db p snap c k)) PULL_KEYS)"
      by (rule sum_keys_mono_strict [OF _ k0(1)]) (use stp(2) k0 in \<open>auto simp: mo_def\<close>)
    with Suc.prems(1) have "sum_list (map (\<lambda>k. length (rest_of db p snap c' k)) PULL_KEYS) < fuel" by simp
    from Suc.IH [OF this, of ?sn "cursor_dict c'" "Suc n" ?M] stp(3) sn
    obtain t where "pull_pages e remote pid since fuel (Suc n) (cursor_dict c') ?sn (map (\<lambda>k. (k, ?M k)) PULL_KEYS) =
      Inr (Some (snap, t), map (\<lambda>k. (k, ?M k @ json_rows out k (rest_of db p snap c' k))) PULL_KEYS)" by blast
    moreover have "?M k @ json_rows out k (rest_of db p snap c' k) = M k @ json_rows out k (rest_of db p snap c k)"
      if "k \<in> set PULL_KEYS" for k
      using stp(2) [OF that] by (simp add: json_rows_append [symmetric])
    ultimately show ?thesis using True one by (simp cong: map_cong del: pull_pages.simps)
  next
    case False
    then have "?M k = M k @ json_rows out k (rest_of db p snap c k)" if "k \<in> set PULL_KEYS" for k
      using that by (simp add: mo_def not_less)
    with False one sn show ?thesis by (auto cong: map_cong simp del: pull_pages.simps)
  qed
qed simp

text \<open>C12: The client's download of a server at rest always ends and is complete. Asked in one request or, when the
  server answers 413, page by page, it returns without an error the server's current sequence and, for each of the
  five kinds, exactly the rows changed after the client's watermark, in the order of their changes and each once.
  The number of pages never exceeds the number of those rows plus one.\<close>

theorem client_download_is_complete:
  assumes "serves remote out mx db pid p snap" "0 \<le> since" "since \<le> snap" "\<forall>q. \<not> se_cancel e q"
    and "sum_list (map (\<lambda>k. length (slice frow_seq (feed db p k) since snap)) PULL_KEYS) < se_fuel e"
  shows "\<exists>pull. fetch_pull e remote pid since = Inr pull \<and> validated_server_sequence pull = Inr snap \<and>
    (\<forall>k \<in> set PULL_KEYS. rows_of pull k = Inr (json_rows out k (slice frow_seq (feed db p k) since snap)) \<and>
       sorted_wrt (<) (map frow_seq (slice frow_seq (feed db p k) since snap)))"
proof -
  have "distinct (map frow_seq (feed db p k))" for k using assms(1) by (simp add: serves_def feed_distinct)
  then have sorted: "sorted_wrt (<) (map frow_seq (slice frow_seq (feed db p k) since snap))" for k by (rule slice_strict)
  show ?thesis
  proof (rule serves_whole [OF assms(1-3), of 0])
    fix detail
    assume too_large: "rm_pull remote 0 pid \<lparr>rq_since = since, rq_limit = None, rq_cursors = None, rq_snapshot = None\<rparr> = Inl (ApiError 413 detail)"
    obtain t where "pull_pages e remote pid since (se_fuel e) 1 [] None (map (\<lambda>k. (k, [])) PULL_KEYS) =
        Inr (Some (snap, t), map (\<lambda>k. (k, json_rows out k (slice frow_seq (feed db p k) since snap))) PULL_KEYS)"
      using pull_pages_complete [OF assms(1-4), of "\<lambda>_. since" "se_fuel e" None "[]" 1 "\<lambda>_. []"] assms(3,5) by auto
    with too_large have fp: "fetch_pull e remote pid since = Inr ((''server_time'', t) # (''server_sequence'', VInt snap) #
        map (\<lambda>k. (k, VList (json_rows out k (slice frow_seq (feed db p k) since snap)))) PULL_KEYS)"
      by (simp add: fetch_pull_def pull_paginated_def comp_def)
    moreover have "rows_of ((''server_time'', t) # (''server_sequence'', VInt snap) # map (\<lambda>k. (k, VList (f k))) PULL_KEYS) k = Inr (f k)"
      if "k \<in> set PULL_KEYS" for k f
    proof -
      have "\<forall>k \<in> set PULL_KEYS. rows_of ((''server_time'', t) # (''server_sequence'', VInt snap) # map (\<lambda>k. (k, VList (f k))) PULL_KEYS) k = Inr (f k)"
        unfolding pull_keys_all by (simp add: rows_of_def dget_def py_or_def PULL_KEYS_def)
      with that show ?thesis by blast
    qed
    ultimately show ?thesis using assms(2,3) sorted by (force simp: validated_server_sequence_def dget_def)
  next
    fix now
    assume "rm_pull remote 0 pid \<lparr>rq_since = since, rq_limit = None, rq_cursors = None, rq_snapshot = None\<rparr> =
        Inr (pull_json out (page_response now db p mx snap (\<lambda>_. since) False))"
      and "\<And>k. k \<in> set PULL_KEYS \<Longrightarrow> fst (page_rows (feed db p k) mx snap since) = slice frow_seq (feed db p k) since snap"
    then show ?thesis using assms(2-4) sorted
      by (simp add: fetch_pull_def page_json_sequence page_json_rows)
  qed
qed

definition demo_server :: remote where
  "demo_server = demo_remote\<lparr>rm_pull := http_pull (\<lambda>_ d. d) 1 (\<lambda>_. 0) (\<lambda>_. demo_db) 2\<rparr>"

theorem client_download_is_complete_witness:
  "\<exists>pull. fetch_pull (demo_sync_env\<lparr>se_fuel := 2\<rparr>) demo_server (uuid_str 10) 0 = Inr pull \<and>
     rows_of pull ''risks'' = Inr [VDict (model_to_dict Item demo_item)] \<and> rows_of pull ''actions'' = Inr []"
proof -
  have uuid10: "uuid_of_str (uuid_str 10) = Some 10" by code_simp
  have sv: "serves demo_server (\<lambda>_ d. d) 1 demo_db (uuid_str 10) 10 1"
    unfolding serves_def demo_server_def
    by (intro conjI exI [of _ "\<lambda>_. 0"] exI [of _ 2] exI [of _ "''member''"])
       (simp_all add: demo_members last_sequence_def db_invD(1) [OF demo_inv] uuid10)
  have fd: "slice frow_seq (feed demo_db 10 k) 0 1 = (if k = ''risks'' then [(demo_item, VNone)] else [])" for k
    by (simp add: feed_def items_source_def actions_source_def assessments_source_def tickets_source_def
        with_item_type_def slice_def frow_seq_def int_col_def)
  from client_download_is_complete [OF sv, of 0 "demo_sync_env\<lparr>se_fuel := 2\<rparr>"] show ?thesis
    by (auto simp: fd demo_sync_env_def PULL_KEYS_def json_rows_def row_json_def)
qed

end
