(* ===== verification/Client_Entities.thy ===== *)
theory Client_Entities
  imports Client_Outbox
begin

section \<open>Local rows of the five entities\<close>

text \<open>
  \<open>local_storage/entity_store.py\<close>: listing, writing and deleting the local rows, the local code generator, and
  the model objects they are read as (\<open>mappers/scored_entity_mapper.py\<close>, \<open>domain/domain_models.py\<close>,
  \<open>utils/normalize.py\<close>). A model object is the dictionary of its fields. The clock and fresh identifiers are
  arguments.
\<close>

subsection \<open>Reading\<close>

definition value_or_existing :: "pyval \<Rightarrow> dict option \<Rightarrow> string \<Rightarrow> pyval \<Rightarrow> pyval" where
  "value_or_existing value existing key dflt =
    (if \<not> is_none value then value else case existing of None \<Rightarrow> dflt | Some r \<Rightarrow> dget r key)"

text \<open>\<open>ORDER BY ... DESC\<close> on a text column; rows with equal keys keep their order.\<close>

definition descending :: "('a \<Rightarrow> 'k::linorder) \<Rightarrow> 'a list \<Rightarrow> 'a list" where
  "descending key rows = rev (sort_key key (rev rows))"

fun all_mapped :: "(dict \<Rightarrow> dict cresult) \<Rightarrow> dict list \<Rightarrow> dict list cresult" where
  "all_mapped f [] = Inr []"
| "all_mapped f (r # rs) = rbind (f r) (\<lambda>m. rbind (all_mapped f rs) (\<lambda>ms. Inr (m # ms)))"

definition live_rows :: "ldb \<Rightarrow> string \<Rightarrow> string \<Rightarrow> dict list" where
  "live_rows db table project_id =
     filter (\<lambda>r. col_str r ''project_id'' = project_id \<and> \<not> truthy (dget r ''is_deleted'')) (l_rows db table)"

definition list_actions :: "string \<Rightarrow> ldb \<Rightarrow> dict list cresult" where
  "list_actions project_id db =
     all_mapped action_from_mapping
       (descending (\<lambda>r. col_str r ''updated_at'') (sort_key (\<lambda>r. col_str r ''title'') (live_rows db ''actions'' project_id)))"

definition TEXT_META_KEYS :: "string list" where
  "TEXT_META_KEYS = [''code'', ''description'', ''category'', ''threat'', ''triggers'', ''owner_user_id'', ''status'',
     ''identified_at'', ''status_changed_at'', ''response_at'', ''occurred_at'', ''mitigation_plan'', ''document_url'']"

definition DATE_FIELDS :: "string list" where
  "DATE_FIELDS = [''identified_at'', ''status_changed_at'', ''response_at'', ''occurred_at'']"

definition mapper_opt_int :: "pyval \<Rightarrow> int option" where
  "mapper_opt_int v = (case v of VNone \<Rightarrow> None | VBool _ \<Rightarrow> None
     | _ \<Rightarrow> let s = strip (py_str v) in if s = [] then None else int_parse 10 s)"

definition mapper_req_int :: "pyval \<Rightarrow> int \<Rightarrow> int" where
  "mapper_req_int v dflt = (case mapper_opt_int v of None \<Rightarrow> dflt | Some i \<Rightarrow> i)"

definition norm_optional_text_fields :: "dict \<Rightarrow> string list \<Rightarrow> dict" where
  "norm_optional_text_fields payload keys =
     map (\<lambda>(k, v). (k, if k \<in> set keys \<and> \<not> is_none v then (let s = strip (py_str v) in if s = [] then VNone else VStr s) else v)) payload"

definition int_or_none :: "pyval \<Rightarrow> int option" where
  "int_or_none v = (case v of VNone \<Rightarrow> None | VStr s \<Rightarrow> if strip s = [] then None else int_parse 10 s | _ \<Rightarrow> py_int v)"

definition opt_int_val :: "int option \<Rightarrow> pyval" where
  "opt_int_val i = (case i of None \<Rightarrow> VNone | Some n \<Rightarrow> VInt n)"

text \<open>\<open>ScoredEntity.__post_init__\<close>: the default status, the impact of the dimensions, the score.\<close>

definition scored_entity :: "dict \<Rightarrow> dict cresult" where
  "scored_entity d =
    (let d = (if is_none (dget d ''status'') then dset d ''status'' (VStr ''concept'') else d);
         dims = List.map_filter (\<lambda>k. int_or_none (dget d k)) INT_META_KEYS;
         d = (if dims = [] then d else dset d ''impact'' (VInt (fold max (tl dims) (hd dims))))
     in rbind (cint (dget d ''probability'')) (\<lambda>p. rbind (cint (dget d ''impact'')) (\<lambda>i.
        Inr (dset d ''score'' (VInt (p * i))))))"

definition scored_entity_from_mapping :: "dict \<Rightarrow> dict cresult" where
  "scored_entity_from_mapping d =
    (let eid = strip (str_or_empty (dget d ''id'')); pid = strip (str_or_empty (dget d ''project_id'')) in
     if d = [] then Inl (CValueError ''empty scored entity mapping'')
     else if eid = [] \<or> pid = [] then Inl (CKeyError (''scored entity mapping must contain '' @ repr_str ''id'' @ '' and '' @ repr_str ''project_id''))
     else scored_entity (norm_optional_text_fields
        ([(''id'', VStr eid), (''project_id'', VStr pid), (''title'', VStr (str_or_empty (dget d ''title''))),
          (''probability'', VInt (mapper_req_int (dget d ''probability'') 1)),
          (''impact'', VInt (mapper_req_int (dget d ''impact'') 1)),
          (''version'', VInt (mapper_req_int (dget d ''version'') 0)),
          (''is_deleted'', VBool (truthy (dget d ''is_deleted''))),
          (''updated_at'', VStr (str_or_empty (dget d ''updated_at'')))] @
         map (\<lambda>k. (k, if k \<in> set INT_META_KEYS then opt_int_val (mapper_opt_int (dget d k))
                       else if k = ''owner_user_id'' \<or> k \<in> set DATE_FIELDS then norm_text (dget d k)
                       else dget d k)) SCORED_ENTITY_META_KEYS) TEXT_META_KEYS))"

definition int_or_zero :: "pyval \<Rightarrow> int" where
  "int_or_zero v = (case v of VInt i \<Rightarrow> i | _ \<Rightarrow> 0)"

definition row_score :: "dict \<Rightarrow> int" where
  "row_score r = int_or_zero (dget r ''probability'') * int_or_zero (dget r ''impact'')"

definition list_scored_entities :: "string \<Rightarrow> string \<Rightarrow> ldb \<Rightarrow> dict list cresult" where
  "list_scored_entities project_id table db =
     all_mapped scored_entity_from_mapping
       (descending row_score (sort_key (\<lambda>r. col_str r ''title'') (live_rows db table project_id)))"

definition list_assessments :: "string \<Rightarrow> string \<Rightarrow> string \<Rightarrow> ldb \<Rightarrow> dict list cresult" where
  "list_assessments project_id item_type item_id db =
     all_mapped assessment_from_mapping (descending (\<lambda>r. col_str r ''updated_at'')
       (filter (\<lambda>r. dget r ''item_type'' = VStr item_type \<and>
          (dget r ''item_id'' = VStr item_id \<or> dget r ''risk_id'' = VStr item_id \<or> dget r ''opportunity_id'' = VStr item_id))
          (live_rows db ''assessments'' project_id)))"

subsection \<open>Codes\<close>

text \<open>SQLite's \<open>LIKE 'R-%'\<close> does not distinguish the case of ASCII letters.\<close>

definition like_prefix :: "string \<Rightarrow> pyval \<Rightarrow> bool" where
  "like_prefix prefix code = (case code of
     VStr s \<Rightarrow> lower (take (length prefix + 1) s) = lower (prefix @ ''-'') | _ \<Rightarrow> False)"

definition code_number :: "string \<Rightarrow> pyval \<Rightarrow> nat option cresult" where
  "code_number prefix code =
    (case norm_text code of
       VStr c \<Rightarrow>
         (case split_on (CHR ''-'') c of
            head # num # _ \<Rightarrow>
              if upper (strip head) \<noteq> upper prefix then Inr None
              else if is_digits (strip num)
              then (case int_parse 10 (strip num) of None \<Rightarrow> Inl CConversionError | Some n \<Rightarrow> Inr (Some (nat n)))
              else Inr None
          | _ \<Rightarrow> Inr None)
     | _ \<Rightarrow> Inr None)"

fun max_number :: "string \<Rightarrow> pyval list \<Rightarrow> nat \<Rightarrow> nat cresult" where
  "max_number prefix [] n = Inr n"
| "max_number prefix (c # cs) n =
    rbind (code_number prefix c) (\<lambda>m. max_number prefix cs (case m of None \<Rightarrow> n | Some k \<Rightarrow> max n k))"

definition next_code :: "string \<Rightarrow> string \<Rightarrow> string \<Rightarrow> ldb \<Rightarrow> string cresult" where
  "next_code project_id table prefix db =
    rbind (max_number prefix (filter (like_prefix prefix) (map (\<lambda>r. dget r ''code'')
        (filter (\<lambda>r. col_str r ''project_id'' = project_id) (l_rows db table)))) 0) (\<lambda>n.
    Inr (prefix @ ''-'' @ zero_pad 3 (n + 1)))"

definition next_entity_code :: "string \<Rightarrow> string \<Rightarrow> ldb \<Rightarrow> string cresult" where
  "next_entity_code entity project_id =
    (if entity = ''risk'' then next_code project_id ''risks'' ''R'' else next_code project_id ''opportunities'' ''O'')"

subsection \<open>Writing\<close>

definition upsert_local_action ::
  "string \<Rightarrow> string \<Rightarrow> pyval \<Rightarrow> pyval \<Rightarrow> string \<Rightarrow> string \<Rightarrow> string \<Rightarrow> string \<Rightarrow> pyval \<Rightarrow> pyval \<Rightarrow> pyval \<Rightarrow> pyval \<Rightarrow> int \<Rightarrow> ldb \<Rightarrow> ldb cresult" where
  "upsert_local_action action_id project_id risk_id opportunity_id kind title description status owner_user_id
     version is_deleted updated_at dirty db =
    (let existing = find_row db ''actions'' action_id in
     rbind (cint (value_or_existing version existing ''version'' (VInt 0))) (\<lambda>v.
     rbind (cint (value_or_existing is_deleted existing ''is_deleted'' (VBool False))) (\<lambda>del.
     upsert_row ''actions''
       [(''id'', VStr action_id), (''project_id'', VStr project_id), (''risk_id'', risk_id),
        (''opportunity_id'', opportunity_id), (''kind'', VStr kind), (''title'', VStr title),
        (''description'', VStr description), (''status'', VStr (if status = [] then ''open'' else status)),
        (''owner_user_id'', owner_user_id), (''version'', VInt v), (''is_deleted'', VInt del),
        (''updated_at'', VStr (py_str (value_or_existing updated_at existing ''updated_at'' (VStr [])))),
        (''dirty'', VInt dirty)] db)))"

definition dimension_impact :: "dict \<Rightarrow> int \<Rightarrow> int" where
  "dimension_impact m impact =
    (case List.map_filter (\<lambda>k. strict_int (dget m k)) INT_META_KEYS of [] \<Rightarrow> impact | d # ds \<Rightarrow> fold max ds d)"

definition upsert_local_scored ::
  "string \<Rightarrow> string \<Rightarrow> string \<Rightarrow> string \<Rightarrow> int \<Rightarrow> int \<Rightarrow> dict \<Rightarrow> pyval \<Rightarrow> pyval \<Rightarrow> pyval \<Rightarrow> int \<Rightarrow> ldb \<Rightarrow> ldb cresult" where
  "upsert_local_scored table entity_id project_id title probability impact meta version is_deleted updated_at dirty db =
    (let existing = find_row db table entity_id in
     rbind (cint (value_or_existing version existing ''version'' (VInt 0))) (\<lambda>v.
     rbind (cint (value_or_existing is_deleted existing ''is_deleted'' (VBool False))) (\<lambda>del.
     rbind (norm_scored_meta meta) (\<lambda>m.
     let m = (if truthy (dget m ''status'') then m else dset m ''status'' (VStr ''concept'')) in
     upsert_row table
       ([(''id'', VStr entity_id), (''project_id'', VStr project_id), (''title'', VStr title),
         (''probability'', VInt probability), (''impact'', VInt (dimension_impact m impact))] @ m @
        [(''version'', VInt v), (''is_deleted'', VInt del),
         (''updated_at'', VStr (py_str (value_or_existing updated_at existing ''updated_at'' (VStr [])))),
         (''dirty'', VInt dirty)]) db))))"

definition soft_delete_scored :: "string \<Rightarrow> string \<Rightarrow> string \<Rightarrow> string \<Rightarrow> ldb \<Rightarrow> ((string \<times> int) \<times> ldb) cresult" where
  "soft_delete_scored now table label entity_id db =
    (case find_row db table entity_id of
       None \<Rightarrow> Inl (CKeyError (label @ '' not found in local store''))
     | Some row \<Rightarrow> rbind (int_or (dget row ''version'') 0) (\<lambda>version.
         Inr ((col_str row ''project_id'', version),
              set_rows table (update_where (\<lambda>r. row_id r = entity_id)
                (\<lambda>r. dset (dset (dset r ''is_deleted'' (VInt 1)) ''dirty'' (VInt 1)) ''updated_at'' (VStr now)) (l_rows db table)) db)))"

definition upsert_local_assessment ::
  "string \<Rightarrow> string \<Rightarrow> string \<Rightarrow> string \<Rightarrow> string \<Rightarrow> int \<Rightarrow> int \<Rightarrow> string \<Rightarrow> int \<Rightarrow> bool \<Rightarrow> string \<Rightarrow> int \<Rightarrow> ldb \<Rightarrow> ldb cresult" where
  "upsert_local_assessment assessment_id project_id item_type item_id assessor_user_id probability impact notes
     version is_deleted updated_at dirty =
    (let itype = lower (strip (if item_type = [] then ''risk'' else item_type));
         itype = (if itype = [] then ''risk'' else itype) in
     upsert_row ''assessments''
       [(''id'', VStr assessment_id), (''project_id'', VStr project_id),
        (''risk_id'', if itype = ''risk'' then VStr item_id else VNone),
        (''opportunity_id'', if itype = ''opportunity'' then VStr item_id else VNone),
        (''item_id'', VStr item_id), (''item_type'', VStr itype), (''assessor_user_id'', VStr assessor_user_id),
        (''probability'', VInt probability), (''impact'', VInt impact), (''score'', VInt (probability * impact)),
        (''notes'', VStr notes), (''version'', VInt version), (''is_deleted'', VInt (if is_deleted then 1 else 0)),
        (''updated_at'', VStr updated_at), (''dirty'', VInt dirty)])"

subsection \<open>Help-desk tickets\<close>

definition row_to_ticket :: "dict \<Rightarrow> dict cresult" where
  "row_to_ticket row = rbind (int_or (dget row ''version'') 0) (\<lambda>v.
    Inr [(''id'', VStr (py_str (dget row ''id''))), (''project_id'', VStr (py_str (dget row ''project_id''))),
         (''title'', VStr (py_str (dget row ''title''))), (''description'', or_str row ''description'' []),
         (''category'', or_str row ''category'' ''other''), (''priority'', or_str row ''priority'' ''medium''),
         (''status'', or_str row ''status'' ''open''), (''reporter_email'', or_str row ''reporter_email'' []),
         (''created_at'', or_str row ''created_at'' []), (''updated_at'', or_str row ''updated_at'' []),
         (''version'', VInt v), (''is_deleted'', VBool (truthy (dget row ''is_deleted'')))])"

definition list_helpdesk_tickets :: "string \<Rightarrow> ldb \<Rightarrow> dict list cresult" where
  "list_helpdesk_tickets project_id db =
     all_mapped row_to_ticket (descending (\<lambda>r. col_str r ''updated_at'')
       (descending (\<lambda>r. col_str r ''created_at'') (live_rows db ''helpdesk_tickets'' project_id)))"

definition read_ticket :: "string \<Rightarrow> ldb \<Rightarrow> (dict \<times> ldb) cresult" where
  "read_ticket ticket_id db =
    (case find_row db ''helpdesk_tickets'' ticket_id of
       None \<Rightarrow> Inl CConversionError | Some row \<Rightarrow> rbind (row_to_ticket row) (\<lambda>t. Inr (t, db)))"

text \<open>A plain \<open>INSERT\<close>: a second row with the id, or an unknown project, violates a constraint.\<close>

definition create_helpdesk_ticket ::
  "string \<Rightarrow> string \<Rightarrow> string \<Rightarrow> string \<Rightarrow> string \<Rightarrow> string \<Rightarrow> string \<Rightarrow> string \<Rightarrow> ldb \<Rightarrow> (dict \<times> ldb) cresult" where
  "create_helpdesk_ticket ticket_id now project_id title description category priority reporter_email db =
    (if find_row db ''helpdesk_tickets'' ticket_id \<noteq> None \<or> \<not> project_known db project_id then Inl CIntegrityError
     else read_ticket ticket_id (set_rows ''helpdesk_tickets'' (l_rows db ''helpdesk_tickets'' @
       [[(''id'', VStr ticket_id), (''project_id'', VStr project_id), (''title'', VStr title),
         (''description'', VStr description), (''category'', VStr category), (''priority'', VStr priority),
         (''status'', VStr ''open''), (''reporter_email'', VStr reporter_email), (''version'', VInt 0),
         (''is_deleted'', VInt 0), (''dirty'', VInt 1), (''created_at'', VStr now), (''updated_at'', VStr now)]]) db))"

definition update_helpdesk_ticket :: "string \<Rightarrow> string \<Rightarrow> (string \<times> string option) list \<Rightarrow> ldb \<Rightarrow> (dict \<times> ldb) cresult" where
  "update_helpdesk_ticket now ticket_id changes db =
    (case find_row db ''helpdesk_tickets'' ticket_id of
       None \<Rightarrow> Inl (CKeyError ''helpdesk ticket not found in local store'')
     | Some _ \<Rightarrow>
         let sets = [(''updated_at'', VStr now), (''dirty'', VInt 1)] @
               List.map_filter (\<lambda>k. map_option (\<lambda>v. (k, VStr v)) (Option.bind (map_of changes k) id))
                 [''title'', ''description'', ''category'', ''priority'', ''status'']
         in read_ticket ticket_id (set_rows ''helpdesk_tickets'' (update_where (\<lambda>r. row_id r = ticket_id)
              (\<lambda>r. dupdate r sets) (l_rows db ''helpdesk_tickets'')) db))"

definition delete_helpdesk_ticket :: "string \<Rightarrow> ldb \<Rightarrow> ldb" where
  "delete_helpdesk_ticket ticket_id db =
     set_rows ''helpdesk_tickets'' (delete_where (\<lambda>r. row_id r = ticket_id) (l_rows db ''helpdesk_tickets'')) db"

definition soft_delete_helpdesk_ticket :: "string \<Rightarrow> string \<Rightarrow> ldb \<Rightarrow> ((string \<times> int) \<times> ldb) cresult" where
  "soft_delete_helpdesk_ticket now = soft_delete_scored now ''helpdesk_tickets'' ''helpdesk ticket''"


section \<open>Facts about local rows\<close>

subsection \<open>Allocated codes\<close>

lemma split_on_none: "sep \<notin> set s \<Longrightarrow> split_on sep s = [s]"
  by (induction s) auto

lemma code_number_allocated:
  assumes "prefix = ''R'' \<or> prefix = ''O''"
  shows "code_number prefix (VStr (prefix @ ''-'' @ zero_pad 3 n)) = Inr (Some n)"
proof -
  have dec: "\<forall>c \<in> set (zero_pad 3 n). is_dec c" using zero_pad_dec by (simp add: list_all_iff)
  then have sp: "\<forall>c \<in> set (zero_pad 3 n). \<not> is_space c" using is_dec_not_space by blast
  have "CHR ''-'' \<notin> set (zero_pad 3 n)" using dec by (auto simp: is_dec_def)
  then have split: "split_on (CHR ''-'') (zero_pad 3 n) = [zero_pad 3 n]" by (rule split_on_none)
  have strips: "strip ''R'' = ''R''" "strip ''O'' = ''O''" "strip (zero_pad 3 n) = zero_pad 3 n"
    by (code_simp, code_simp, rule strip_id [OF sp])
  have "strip (prefix @ ''-'' @ zero_pad 3 n) = prefix @ ''-'' @ zero_pad 3 n"
    by (rule strip_id) (use assms sp in \<open>auto simp: is_space_def\<close>)
  then have "norm_text (VStr (prefix @ ''-'' @ zero_pad 3 n)) = VStr (prefix @ ''-'' @ zero_pad 3 n)"
    by (simp add: norm_text_def py_str_def)
  then show ?thesis using assms split strips is_dec_is_digits [OF zero_pad_dec zero_pad_nonempty, of 3 n]
    by (auto simp: code_number_def)
qed

lemma max_number_bound:
  "max_number prefix cs n = Inr m \<Longrightarrow> n \<le> m \<and> (\<forall>c \<in> set cs. \<forall>k. code_number prefix c = Inr (Some k) \<longrightarrow> k \<le> m)"
proof (induction cs arbitrary: n)
  case (Cons c cs)
  then obtain x where "code_number prefix c = Inr x" "max_number prefix cs (case x of None \<Rightarrow> n | Some k \<Rightarrow> max n k) = Inr m"
    by auto
  with Cons.IH [of "case x of None \<Rightarrow> n | Some k \<Rightarrow> max n k"] show ?case by (auto split: option.splits)
qed simp

lemma next_code_fresh:
  assumes nx: "next_code p table prefix db = Inr code" and prefix: "prefix = ''R'' \<or> prefix = ''O''"
    and r: "r \<in> set (l_rows db table)" "col_str r ''project_id'' = p"
  shows "dget r ''code'' \<noteq> VStr code"
proof
  assume clash: "dget r ''code'' = VStr code"
  let ?codes = "filter (like_prefix prefix) (map (\<lambda>r. dget r ''code'') (filter (\<lambda>r. col_str r ''project_id'' = p) (l_rows db table)))"
  from nx obtain m where m: "max_number prefix ?codes 0 = Inr m" and code: "code = prefix @ ''-'' @ zero_pad 3 (m + 1)"
    unfolding next_code_def by auto
  have "like_prefix prefix (dget r ''code'')" unfolding clash code using prefix by (auto simp: like_prefix_def)
  then have "dget r ''code'' \<in> set ?codes" using r by auto
  moreover have "code_number prefix (dget r ''code'') = Inr (Some (m + 1))"
    unfolding clash code by (rule code_number_allocated [OF prefix])
  ultimately show False using max_number_bound [OF m] by fastforce
qed

lemma next_entity_code_fresh:
  assumes "next_entity_code entity p db = Inr code" "map_of TABLE_BY_ENTITY entity = Some table" "is_scored_entity entity"
    and "r \<in> set (l_rows db table)" "col_str r ''project_id'' = p"
  shows "dget r ''code'' \<noteq> VStr code"
  using assms(1-3) next_code_fresh [OF _ _ assms(4,5)]
  by (auto simp: next_entity_code_def is_scored_entity_def TABLE_BY_ENTITY_def split: if_splits)

end
