(* ===== verification/Client_Services.thy ===== *)
theory Client_Services
  imports Client_Entities Client_Sync
begin

section \<open>Local edits and the offline-first facade\<close>

text \<open>
  The write services (\<open>services/scored_entity_management_service.py\<close>, \<open>action_management_service.py\<close>,
  \<open>assessment_management_service.py\<close>, \<open>helpdesk_service.py\<close>, \<open>member_management_service.py\<close>), the project list of
  \<open>local_storage/project_store.py\<close> and the facade \<open>services/offline_first_facade.py\<close> in front of them. Each write is
  one transaction over the local row and the outbox. Fresh identifiers and times are arguments; \<open>uuid5\<close> is the
  name-based UUID of an assessment.
\<close>

type_synonym 'a edit = "ldb \<Rightarrow> ('a \<times> ldb) cresult"

record tick =
  t_now :: string
  t_stamp :: string
  t_change_id :: string

text \<open>\<open>t_now\<close> and \<open>t_stamp\<close>: the clock at the start of the operation and at its writes; \<open>t_change_id\<close>: the receipt id drawn.\<close>

subsection \<open>Risks and opportunities\<close>

definition entity_table :: "string \<Rightarrow> string" where
  "entity_table entity = the (map_of TABLE_BY_ENTITY entity)"

definition ensure_code :: "string \<Rightarrow> string \<Rightarrow> pyval \<Rightarrow> pyval \<Rightarrow> ldb \<Rightarrow> pyval cresult" where
  "ensure_code entity project_id code existing db =
    (if \<not> is_none (norm_text code) then Inr (norm_text code)
     else case existing of
            VStr s \<Rightarrow> if strip s \<noteq> [] then Inr (VStr (strip s)) else map_sum id VStr (next_entity_code entity project_id db)
          | _ \<Rightarrow> map_sum id VStr (next_entity_code entity project_id db))"

definition scored_upsert_local :: "string \<Rightarrow> string \<Rightarrow> string \<Rightarrow> string \<Rightarrow> dict \<Rightarrow> int \<Rightarrow> ldb \<Rightarrow> ldb cresult" where
  "scored_upsert_local stamp entity project_id entity_id rec version db =
    rbind (int_or (dget rec ''probability'') 1) (\<lambda>probability.
    rbind (int_or (dget rec ''impact'') 1) (\<lambda>impact.
    upsert_local_scored (entity_table entity) entity_id project_id (str_or_empty (dget rec ''title'')) probability impact
      (map (\<lambda>k. (k, dget rec k)) SCORED_ENTITY_META_KEYS) (VInt version) (VBool False) (VStr stamp) 1 db))"

definition scored_write :: "tick \<Rightarrow> string \<Rightarrow> string \<Rightarrow> string \<Rightarrow> dict \<Rightarrow> int \<Rightarrow> dict edit" where
  "scored_write t entity project_id entity_id rec version db =
    rbind (scored_upsert_local (t_stamp t) entity project_id entity_id rec version db) (\<lambda>db.
    rbind (queue_scored_upsert (t_change_id t) (t_stamp t) project_id entity rec db) (\<lambda>db.
    rbind (scored_entity ([(''project_id'', VStr project_id), (''version'', VInt version)] @ rec)) (\<lambda>model.
    Inr (model, db))))"

definition create_record :: "string \<Rightarrow> string \<Rightarrow> string \<Rightarrow> int \<Rightarrow> int \<Rightarrow> dict \<Rightarrow> dict" where
  "create_record now entity_id title probability impact meta =
    (let base = [(''id'', VStr entity_id), (''title'', VStr title), (''probability'', VInt probability), (''impact'', VInt impact),
           (''status'', py_or (dget meta ''status'') (VStr ''concept'')),
           (''identified_at'', py_or (dget meta ''identified_at'') (VStr now)),
           (''status_changed_at'', py_or (dget meta ''status_changed_at'') (VStr now))]
     in base @ map (\<lambda>k. (k, dget meta k))
          (filter (\<lambda>k. \<not> dhas base k \<and> dhas meta k \<and> \<not> is_none (dget meta k)) SCORED_ENTITY_META_KEYS))"

definition scored_create :: "tick \<Rightarrow> string \<Rightarrow> string \<Rightarrow> string \<Rightarrow> string \<Rightarrow> int \<Rightarrow> int \<Rightarrow> dict \<Rightarrow> dict edit" where
  "scored_create t entity entity_id project_id title probability impact meta db =
    (let rec = create_record (t_now t) entity_id title probability impact meta in
     rbind (ensure_code entity project_id (dget rec ''code'') VNone db) (\<lambda>code.
     scored_write t entity project_id entity_id (dset rec ''code'' code) 0 db))"

definition update_record :: "string \<Rightarrow> string \<Rightarrow> string \<Rightarrow> int \<Rightarrow> int \<Rightarrow> dict \<Rightarrow> dict \<Rightarrow> dict" where
  "update_record now entity_id title probability impact meta existing =
    (let prev_status = py_or (dget existing ''status'') (VStr ''concept'');
         new_status = (if dhas meta ''status'' then dget meta ''status'' else prev_status);
         changed = dget meta ''status_changed_at'';
         changed = (if new_status \<noteq> prev_status \<and> \<not> truthy changed then VStr now else changed)
     in [(''id'', VStr entity_id), (''title'', VStr title), (''probability'', VInt probability), (''impact'', VInt impact),
         (''status'', new_status),
         (''status_changed_at'', if is_none changed then dget existing ''status_changed_at'' else changed)] @
        map (\<lambda>k. (k, if dhas meta k then dget meta k else dget existing k))
          (filter (\<lambda>k. k \<noteq> ''status'' \<and> k \<noteq> ''status_changed_at'') SCORED_ENTITY_META_KEYS))"

definition scored_update :: "tick \<Rightarrow> string \<Rightarrow> string \<Rightarrow> string \<Rightarrow> int \<Rightarrow> int \<Rightarrow> dict \<Rightarrow> dict edit" where
  "scored_update t entity entity_id title probability impact meta db =
    rbind (get_project_and_version entity entity_id db) (\<lambda>(project_id, version).
    let existing = (case find_row db (entity_table entity) entity_id of None \<Rightarrow> [] | Some r \<Rightarrow> r);
        rec = update_record (t_now t) entity_id title probability impact meta existing in
    rbind (ensure_code entity project_id (dget rec ''code'') (dget existing ''code'') db) (\<lambda>code.
    scored_write t entity project_id entity_id (dset rec ''code'' code) version db))"

definition scored_delete :: "tick \<Rightarrow> string \<Rightarrow> string \<Rightarrow> unit edit" where
  "scored_delete t entity entity_id db =
    rbind (soft_delete_scored (t_stamp t) (entity_table entity) entity entity_id db) (\<lambda>((project_id, version), db).
    if version < 1 \<and> \<not> remote_create_may_exist project_id entity entity_id db
    then Inr ((), discard_entity_changes project_id entity entity_id db)
    else rbind (queue_delete (t_change_id t) (t_stamp t) project_id entity entity_id db) (\<lambda>db. Inr ((), db)))"

subsection \<open>Actions\<close>

record action_input =
  ai_target_type :: string
  ai_target_id :: string
  ai_kind :: string
  ai_title :: string
  ai_description :: string
  ai_status :: string
  ai_owner_user_id :: pyval

definition action_fields :: "action_input \<Rightarrow> dict" where
  "action_fields a =
    [(''risk_id'', if ai_target_type a = ''risk'' then VStr (ai_target_id a) else VNone),
     (''opportunity_id'', if ai_target_type a = ''opportunity'' then VStr (ai_target_id a) else VNone),
     (''kind'', VStr (ai_kind a)), (''title'', VStr (ai_title a)), (''description'', VStr (ai_description a)),
     (''status'', VStr (if ai_status a = [] then ''open'' else ai_status a)), (''owner_user_id'', ai_owner_user_id a)]"

definition action_upsert :: "tick \<Rightarrow> string \<Rightarrow> string \<Rightarrow> int \<Rightarrow> action_input \<Rightarrow> dict edit" where
  "action_upsert t action_id project_id version a db =
    (let f = action_fields a; text = (\<lambda>k. py_str (dget f k)) in
     rbind (upsert_local_action action_id project_id (dget f ''risk_id'') (dget f ''opportunity_id'') (text ''kind'') (text ''title'')
              (text ''description'') (text ''status'') (dget f ''owner_user_id'') (VInt version) (VBool False) (VStr (t_stamp t)) 1 db) (\<lambda>db.
     rbind (queue_action_upsert (t_change_id t) (t_stamp t) action_id project_id f db) (\<lambda>db.
     Inr ([(''id'', VStr action_id), (''project_id'', VStr project_id)] @ f @ [(''version'', VInt version)], db))))"

definition action_create :: "tick \<Rightarrow> string \<Rightarrow> string \<Rightarrow> action_input \<Rightarrow> dict edit" where
  "action_create t action_id project_id a = action_upsert t action_id project_id 0 a"

definition action_update :: "tick \<Rightarrow> string \<Rightarrow> action_input \<Rightarrow> dict edit" where
  "action_update t action_id a db =
    rbind (get_project_and_version ''action'' action_id db) (\<lambda>(project_id, version).
    action_upsert t action_id project_id version a db)"

subsection \<open>Assessments\<close>

definition get_version_or_0 :: "string \<Rightarrow> ldb \<Rightarrow> int cresult" where
  "get_version_or_0 assessment_id db =
    (case get_project_and_version ''assessment'' assessment_id db of
       Inr (_, v) \<Rightarrow> Inr v
     | Inl (CKeyError _) \<Rightarrow> Inr 0
     | Inl (CRuntimeError _) \<Rightarrow> Inr 0
     | Inl err \<Rightarrow> Inl err)"

definition upsert_my :: "(string \<Rightarrow> string) \<Rightarrow> tick \<Rightarrow> string \<Rightarrow> string \<Rightarrow> string \<Rightarrow> string \<Rightarrow> int \<Rightarrow> int \<Rightarrow> string \<Rightarrow> dict edit" where
  "upsert_my uuid5 t project_id item_type item_id assessor_user_id probability impact notes db =
    (let assessment_id = uuid5 (''assessment:'' @ item_id @ '':'' @ assessor_user_id) in
     rbind (get_version_or_0 assessment_id db) (\<lambda>version.
     rbind (upsert_local_assessment assessment_id project_id item_type item_id assessor_user_id probability impact notes
              version False (t_now t) 1 db) (\<lambda>db.
     rbind (queue_assessment_upsert (t_change_id t) (t_stamp t) assessment_id project_id
              [(''item_id'', VStr item_id), (if item_type = ''risk'' then ''risk_id'' else ''opportunity_id'', VStr item_id),
               (''probability'', VInt probability), (''impact'', VInt impact), (''notes'', VStr notes)] db) (\<lambda>db.
     Inr ([(''id'', VStr assessment_id), (''item_id'', VStr item_id), (''assessor_user_id'', VStr assessor_user_id),
           (''probability'', VInt probability), (''impact'', VInt impact), (''notes'', VStr notes), (''updated_at'', VStr (t_now t)),
           (''version'', VInt version), (''is_deleted'', VBool False), (''score'', VInt (probability * impact))], db)))))"

subsection \<open>Help-desk tickets\<close>

definition ticket_fields :: "dict \<Rightarrow> dict" where
  "ticket_fields ticket =
     map (\<lambda>k. (k, dget ticket k)) [''title'', ''description'', ''category'', ''priority'', ''status'', ''reporter_email'']"

definition queue_ticket :: "tick \<Rightarrow> string \<Rightarrow> dict \<Rightarrow> dict edit" where
  "queue_ticket t project_id ticket db =
    rbind (queue_helpdesk_upsert (t_change_id t) (t_stamp t) (py_str (dget ticket ''id'')) project_id (ticket_fields ticket) db) (\<lambda>db.
    Inr (ticket, db))"

definition helpdesk_create :: "tick \<Rightarrow> string \<Rightarrow> string \<Rightarrow> string \<Rightarrow> string \<Rightarrow> string \<Rightarrow> string \<Rightarrow> string \<Rightarrow> dict edit" where
  "helpdesk_create t ticket_id project_id title description category priority reporter_email db =
    rbind (create_helpdesk_ticket ticket_id (t_now t) project_id title description category priority reporter_email db) (\<lambda>(ticket, db).
    queue_ticket t project_id ticket db)"

definition helpdesk_update :: "tick \<Rightarrow> string \<Rightarrow> (string \<times> string option) list \<Rightarrow> dict edit" where
  "helpdesk_update t ticket_id changes db =
    rbind (update_helpdesk_ticket (t_now t) ticket_id changes db) (\<lambda>(ticket, db).
    queue_ticket t (py_str (dget ticket ''project_id'')) ticket db)"

definition helpdesk_delete :: "tick \<Rightarrow> string \<Rightarrow> unit edit" where
  "helpdesk_delete t ticket_id db =
    rbind (get_project_and_version ''helpdesk_ticket'' ticket_id db) (\<lambda>(project_id, version).
    if version < 1 \<and> \<not> remote_create_may_exist project_id ''helpdesk_ticket'' ticket_id db
    then Inr ((), discard_entity_changes project_id ''helpdesk_ticket'' ticket_id (delete_helpdesk_ticket ticket_id db))
    else rbind (soft_delete_helpdesk_ticket (t_stamp t) ticket_id db) (\<lambda>(_, db).
         rbind (queue_helpdesk_delete (t_change_id t) (t_stamp t) ticket_id project_id db) (\<lambda>db. Inr ((), db))))"

subsection \<open>The facade: updates made against a version the user saw\<close>

definition with_base_version :: "string \<Rightarrow> string \<Rightarrow> string \<Rightarrow> int option \<Rightarrow> 'a edit \<Rightarrow> 'a edit" where
  "with_base_version project_id entity entity_id base_version f db =
    rbind (f db) (\<lambda>(m, db).
      Inr (m, case base_version of None \<Rightarrow> db | Some v \<Rightarrow> override_base_version project_id entity entity_id (VInt v) db))"

definition update_risk :: "tick \<Rightarrow> string \<Rightarrow> string \<Rightarrow> string \<Rightarrow> int \<Rightarrow> int \<Rightarrow> int option \<Rightarrow> dict \<Rightarrow> dict edit" where
  "update_risk t project_id risk_id title probability impact base_version meta =
     with_base_version project_id ''risk'' risk_id base_version (scored_update t ''risk'' risk_id title probability impact meta)"

definition update_opportunity :: "tick \<Rightarrow> string \<Rightarrow> string \<Rightarrow> string \<Rightarrow> int \<Rightarrow> int \<Rightarrow> int option \<Rightarrow> dict \<Rightarrow> dict edit" where
  "update_opportunity t project_id opportunity_id title probability impact base_version meta =
     with_base_version project_id ''opportunity'' opportunity_id base_version
       (scored_update t ''opportunity'' opportunity_id title probability impact meta)"

definition update_action :: "tick \<Rightarrow> string \<Rightarrow> string \<Rightarrow> int option \<Rightarrow> action_input \<Rightarrow> dict edit" where
  "update_action t project_id action_id base_version a =
     with_base_version project_id ''action'' action_id base_version (action_update t action_id a)"

text \<open>\<open>remote_uid\<close>: what the remote client knows of the signed-in user; nothing without a remote.\<close>

definition current_user_id :: "string option \<Rightarrow> ldb \<Rightarrow> string option \<times> ldb" where
  "current_user_id remote_uid db =
    (case remote_uid of
       Some uid \<Rightarrow> if uid \<noteq> [] then (Some uid, set_meta ''user_id'' uid db) else (get_meta ''user_id'' db, db)
     | None \<Rightarrow> (get_meta ''user_id'' db, db))"

definition upsert_my_assessment :: "(string \<Rightarrow> string) \<Rightarrow> tick \<Rightarrow> string option \<Rightarrow> string \<Rightarrow> string \<Rightarrow> string \<Rightarrow> int \<Rightarrow> int \<Rightarrow> string \<Rightarrow> dict edit" where
  "upsert_my_assessment uuid5 t remote_uid project_id item_type item_id probability impact notes db =
    (case current_user_id remote_uid db of
       (Some uid, db) \<Rightarrow> if uid = [] then Inl (CValueError ''No user_id available (log in online at least once).'')
                         else upsert_my uuid5 t project_id item_type item_id uid probability impact notes db
     | (None, _) \<Rightarrow> Inl (CValueError ''No user_id available (log in online at least once).''))"

subsection \<open>The project list\<close>

definition store_list_projects :: "ldb \<Rightarrow> project list" where
  "store_list_projects db = map (\<lambda>r. \<lparr>p_id = col_str r ''id'', p_name = col_str r ''name'',
     p_description = col_str r ''description'', p_created_by = str_or_empty (dget r ''created_by'')\<rparr>)
     (sort_key (\<lambda>r. col_str r ''name'') (l_rows db ''projects''))"

definition create_local_project :: "string \<Rightarrow> string \<Rightarrow> string \<Rightarrow> string option \<Rightarrow> ldb \<Rightarrow> project \<times> ldb" where
  "create_local_project new_uuid name description created_by db =
    (let owner = (case created_by of Some c \<Rightarrow> c | None \<Rightarrow> (case get_meta ''last_email'' db of None \<Rightarrow> [] | Some m \<Rightarrow> m));
         p = \<lparr>p_id = ''local-'' @ new_uuid, p_name = (if name = [] then ''Local Project'' else name),
              p_description = description, p_created_by = owner\<rparr>
     in (p, upsert_plain ''projects'' ''id'' (project_record p) db))"

definition has_local_data :: "string \<Rightarrow> ldb \<Rightarrow> bool" where
  "has_local_data project_id db \<longleftrightarrow>
     list_ex (\<lambda>table. list_ex (of_project project_id) (l_rows db table)) PROJECT_DATA_TABLES \<or>
     list_ex (\<lambda>e. ob_project_id e = project_id) (l_outbox db)"

definition drop_project :: "string list \<Rightarrow> string \<Rightarrow> ldb \<Rightarrow> ldb" where
  "drop_project server_ids pid db =
    (if starts_with pid ''local-'' \<or> pid \<in> set server_ids \<or> has_local_data pid db then db
     else (set_rows ''projects'' (delete_where (\<lambda>r. row_id r = pid) (l_rows db ''projects'')) db)
            \<lparr>l_sync_state := filter (\<lambda>(q, _). q \<noteq> pid) (l_sync_state db)\<rparr>)"

definition sync_projects :: "project list \<Rightarrow> ldb \<Rightarrow> ldb" where
  "sync_projects server_projects db =
     upsert_projects server_projects
       (foldl (\<lambda>db pid. drop_project (map p_id server_projects) pid db) db (map row_id (l_rows db ''projects'')))"

definition is_anonymous_local :: "project \<Rightarrow> bool" where
  "is_anonymous_local p \<longleftrightarrow> starts_with (p_id p) ''local-'' \<and> p_created_by p = []"

definition visible_cached_projects :: "bool \<Rightarrow> ldb \<Rightarrow> project list" where
  "visible_cached_projects anonymous db = filter (\<lambda>p. is_anonymous_local p = anonymous) (store_list_projects db)"

text \<open>A dictionary by id: a later project takes the place of an earlier one with the same id.\<close>

definition with_syncable_local_projects :: "project list \<Rightarrow> ldb \<Rightarrow> project list" where
  "with_syncable_local_projects remote_projects db =
    (let locals = filter (\<lambda>p. starts_with (p_id p) ''local-'' \<and> p_created_by p \<noteq> []) (store_list_projects db)
     in map snd (foldl (\<lambda>d p. AList.update (p_id p) p d) [] (remote_projects @ locals)))"

text \<open>
  \<open>io_error\<close> says which exceptions of the request are an \<open>OSError\<close>. The request's failure hides nothing unless the
  request itself was invalid.
\<close>

definition fetch_remote_projects :: "(remote_error \<Rightarrow> bool) \<Rightarrow> remote option \<Rightarrow> remote_error + project list option" where
  "fetch_remote_projects io_error remote =
    (case remote of
       None \<Rightarrow> Inr None
     | Some rm \<Rightarrow>
         (case rm_list_projects rm of
            Inr ps \<Rightarrow> Inr (Some ps)
          | Inl (ApiError status detail) \<Rightarrow>
              if fst (classify_http_status status) = VALIDATION then Inl (ApiError status detail) else Inr None
          | Inl exc \<Rightarrow> if io_error exc then Inr None else Inl exc))"

definition bootstrap_local_project :: "string \<Rightarrow> bool \<Rightarrow> ldb \<Rightarrow> project \<times> ldb" where
  "bootstrap_local_project new_uuid anonymous db =
    (let meta_key = (if anonymous then ''bootstrap_anon_project_id'' else ''bootstrap_user_project_id'');
         existing = (case get_meta meta_key db of None \<Rightarrow> None | Some i \<Rightarrow> if i = [] then None else get_project i db)
     in case existing of
          Some p \<Rightarrow> (p, db)
        | None \<Rightarrow> let (p, db) = create_local_project new_uuid ''Local Project'' ''Offline project'' (if anonymous then Some [] else None) db
                  in (p, set_meta meta_key (p_id p) db))"

definition list_projects :: "(remote_error \<Rightarrow> bool) \<Rightarrow> string \<Rightarrow> remote option \<Rightarrow> bool \<Rightarrow> ldb \<Rightarrow> (remote_error + project list) \<times> ldb" where
  "list_projects io_error new_uuid remote anonymous db =
    (case fetch_remote_projects io_error remote of
       Inl exc \<Rightarrow> (Inl exc, db)
     | Inr remote_projects \<Rightarrow>
         let db = (case remote_projects of None \<Rightarrow> db | Some ps \<Rightarrow> sync_projects ps db) in
         case remote_projects of
           Some ps \<Rightarrow> if \<not> anonymous then (Inr (with_syncable_local_projects ps db), db)
                      else (Inr (visible_cached_projects anonymous db), db)
         | None \<Rightarrow>
             let cached = visible_cached_projects anonymous db in
             if cached \<noteq> [] \<or> remote \<noteq> None then (Inr cached, db)
             else let (p, db) = bootstrap_local_project new_uuid anonymous db in (Inr [p], db))"

text \<open>\<open>skipped\<close> says which exceptions of the name check are an \<open>AttributeError\<close> or a \<open>KeyError\<close>; then the name is used as it is.\<close>

definition create_project :: "(remote_error \<Rightarrow> bool) \<Rightarrow> string \<Rightarrow> remote option \<Rightarrow> bool \<Rightarrow> string \<Rightarrow> string \<Rightarrow> ldb \<Rightarrow> (remote_error + project) \<times> ldb" where
  "create_project skipped new_uuid remote anonymous name description db =
    (case remote of
       Some rm \<Rightarrow>
         (case (case rm_list_projects rm of
                  Inr existing \<Rightarrow> Inr (unique_project_name name (map p_name existing))
                | Inl exc \<Rightarrow> if skipped exc then Inr name else Inl exc) of
            Inl exc \<Rightarrow> (Inl exc, db)
          | Inr name \<Rightarrow>
              (case rm_create_project rm of
                 None \<Rightarrow> (Inl (Crash True ''create_project''), db)
               | Some create \<Rightarrow>
                   (case create name description of
                      Inl exc \<Rightarrow> (Inl exc, db)
                    | Inr None \<Rightarrow> (Inl (Crash True ''create_project''), db)
                    | Inr (Some p) \<Rightarrow> (Inr p, upsert_projects [p] db))))
     | None \<Rightarrow>
         let (p, db) = create_local_project new_uuid (unique_project_name name (map p_name (store_list_projects db))) description
               (if anonymous then Some [] else None) db
         in (Inr p, db))"


section \<open>Facts about local edits\<close>

subsection \<open>Queued changes\<close>

text \<open>The outbox holds the change, the changes of every other record are as before, no row moved.\<close>

definition queued :: "string \<times> string \<times> string \<Rightarrow> string \<Rightarrow> dict \<Rightarrow> ldb \<Rightarrow> ldb \<Rightarrow> bool" where
  "queued owner op rec db db' \<longleftrightarrow> l_rows db' = l_rows db \<and>
     (\<exists>e \<in> set (l_outbox db'). ob_owner e = owner \<and> ob_op e = op \<and> ob_record e = rec) \<and>
     (\<forall>x. ob_owner x \<noteq> owner \<longrightarrow> (x \<in> set (l_outbox db') \<longleftrightarrow> x \<in> set (l_outbox db)))"

lemma replace_queued:
  assumes inv: "outbox_inv db" and r: "replace_outbox_entry new_id now p en op i base rec force db = (cid, db')"
  shows "queued (p, en, i) op rec db db'"
  using r
proof (cases rule: replace_cases)
  case (conflict e)
  from oldest_open_SomeD [OF conflict(2)] have e: "e \<in> set (l_outbox db)" "ob_owner e = (p, en, i)" by auto
  have inj: "ob_change_id x = ob_change_id e \<longleftrightarrow> x = e" if "x \<in> set (l_outbox db)" for x
    using that e(1) inv by (auto simp: outbox_inv_def distinct_map inj_on_def)
  have set': "set (l_outbox db') = (\<lambda>x. if x = e then e\<lparr>ob_op := op, ob_record := rec\<rparr> else x) ` set (l_outbox db)"
    unfolding conflict(6) by (auto simp: update_where_def inj image_iff)
  have o: "ob_owner (e\<lparr>ob_op := op, ob_record := rec\<rparr>) = (p, en, i)" using e(2) by (simp add: ob_owner_def)
  with e have "x \<in> set (l_outbox db') \<longleftrightarrow> x \<in> set (l_outbox db)" if "ob_owner x \<noteq> (p, en, i)" for x
    using that unfolding set' by (auto simp: image_iff)
  moreover have "e\<lparr>ob_op := op, ob_record := rec\<rparr> \<in> set (l_outbox db')" using e unfolding set' by (auto simp: image_iff)
  ultimately show ?thesis using o unfolding queued_def conflict(6) by (auto intro!: bexI)
next
  case (inserted base')
  then show ?thesis by (auto simp: queued_def delete_open_outbox new_entry_def ob_owner_def)
qed

lemma queue_simple_queued:
  assumes "outbox_inv db" "queue_simple_upsert new_id now p en i rec db = Inr db'"
  shows "queued (p, en, i) ''upsert'' rec db db'"
  using assms replace_queued [OF assms(1) prod.collapse [symmetric]] by (auto simp: queue_simple_upsert_def)

lemma dget_append: "dget (a @ b) k = (if dhas a k then dget a k else dget b k)"
  by (simp add: dget_def dhas_def map_add_def split: option.splits)

lemma dget_restrict: "dget (map (\<lambda>k. (k, f k)) ks) k = (if k \<in> set ks then f k else VNone)"
  by (induction ks) (auto simp: dget_Cons)

lemma queue_scored_queued:
  assumes "outbox_inv db" "queue_scored_upsert new_id now p en rec db = Inr db'"
  obtains clean pr im where "queued (p, en, py_str (dget rec ''id'')) ''upsert'' clean db db'"
    "int_or (dget rec ''probability'') 1 = Inr pr" "int_or (dget rec ''impact'') 1 = Inr im"
    "dget clean ''title'' = VStr (str_or_empty (dget rec ''title''))" "dget clean ''probability'' = VInt pr" "dget clean ''impact'' = VInt im"
    "\<And>k. k \<in> set SCORED_ENTITY_META_KEYS \<Longrightarrow> dget clean k = dget rec k"
proof -
  let ?clean = "map (\<lambda>k. (k, dget rec k)) (filter (dhas rec) SCORED_ENTITY_OUTBOX_ALLOWED_KEYS)"
  have get: "dget ?clean k = dget rec k" if "k \<in> set SCORED_ENTITY_OUTBOX_ALLOWED_KEYS" for k
    using that by (auto simp: dget_restrict dget_absent)
  have keys: "''probability'' \<in> set SCORED_ENTITY_OUTBOX_ALLOWED_KEYS" "''impact'' \<in> set SCORED_ENTITY_OUTBOX_ALLOWED_KEYS"
    "''title'' \<in> set SCORED_ENTITY_OUTBOX_ALLOWED_KEYS" "set SCORED_ENTITY_META_KEYS \<subseteq> set SCORED_ENTITY_OUTBOX_ALLOWED_KEYS"
    by (auto simp: SCORED_ENTITY_OUTBOX_ALLOWED_KEYS_def)
  let ?final = "\<lambda>pr im. dset (dset (dset (dset ?clean ''id'' (VStr (py_str (dget rec ''id''))))
      ''title'' (VStr (str_or_empty (dget rec ''title'')))) ''probability'' (VInt pr)) ''impact'' (VInt im)"
  from assms(2) obtain ver pr im where i: "int_or (dget rec ''probability'') 1 = Inr pr" "int_or (dget rec ''impact'') 1 = Inr im"
    and db': "db' = snd (replace_outbox_entry new_id now p en ''upsert'' (py_str (dget rec ''id'')) (known_version ver) (?final pr im) False db)"
    using get keys by (auto simp: queue_scored_upsert_def Let_def split: if_splits)
  have q: "queued (p, en, py_str (dget rec ''id'')) ''upsert'' (?final pr im) db db'"
    unfolding db' by (rule replace_queued [OF assms(1) prod.collapse [symmetric]])
  have "k \<noteq> ''id'' \<and> k \<noteq> ''title'' \<and> k \<noteq> ''probability'' \<and> k \<noteq> ''impact''" if "k \<in> set SCORED_ENTITY_META_KEYS" for k
    using that by (auto simp: SCORED_ENTITY_META_KEYS_def)
  then show thesis by (intro that [OF q i]) (use get keys in auto)
qed

subsection \<open>Written rows\<close>

text \<open>How a column of the row follows from the queued value of its field.\<close>

definition column_of :: "dict \<Rightarrow> string \<Rightarrow> pyval \<Rightarrow> bool" where
  "column_of r k v \<longleftrightarrow>
    (if k \<in> set INT_META_KEYS then (if is_none v then dget r k = VNone else \<exists>i. py_int v = Some i \<and> dget r k = VInt i)
     else if k = ''status'' then dget r k = py_or (norm_text v) (VStr ''concept'')
     else dget r k = norm_text v)"

lemma norm_keys_get:
  assumes "norm_keys ks meta = Inr m" "k \<in> set ks"
  shows "if k \<in> set INT_META_KEYS then (if is_none (dget meta k) then dget m k = VNone
           else \<exists>i. py_int (dget meta k) = Some i \<and> dget m k = VInt i)
         else dget m k = norm_text (dget meta k)"
  using assms
proof (induction ks arbitrary: m)
  case (Cons a ks)
  then show ?case by (auto simp: dget_Cons cint_def split: if_splits option.splits)
qed simp

lemma truthy_norm_text: "truthy (norm_text v) \<longleftrightarrow> norm_text v \<noteq> VNone"
  by (auto simp: norm_text_def Let_def)

lemma strict_int_Some: "strict_int v = Some i \<longleftrightarrow> v = VInt i"
  by (simp add: strict_int_def split: pyval.splits)

lemma set_map_filter_eq: "set (List.map_filter f xs) = {y. \<exists>x \<in> set xs. f x = Some y}"
  by (induction xs) (auto simp: map_filter_simps split: option.splits)

lemma dimension_impact_bounds:
  "\<forall>k \<in> set INT_META_KEYS. \<forall>d. dget m k = VInt d \<longrightarrow> d \<le> dimension_impact m imp"
  "(\<forall>k \<in> set INT_META_KEYS. dget m k = VNone) \<Longrightarrow> dimension_impact m imp = imp"
  "dimension_impact m imp = imp \<or> (\<exists>k \<in> set INT_META_KEYS. dget m k = VInt (dimension_impact m imp))"
proof -
  let ?ds = "List.map_filter (\<lambda>k. strict_int (dget m k)) INT_META_KEYS"
  have mem: "d \<in> set ?ds \<longleftrightarrow> (\<exists>k \<in> set INT_META_KEYS. dget m k = VInt d)" for d
    by (auto simp: set_map_filter_eq strict_int_Some)
  have Max: "?ds \<noteq> [] \<Longrightarrow> dimension_impact m imp = Max (set ?ds)"
    by (cases ?ds) (simp_all add: dimension_impact_def Max.set_eq_fold del: set_simps)
  show "\<forall>k \<in> set INT_META_KEYS. \<forall>d. dget m k = VInt d \<longrightarrow> d \<le> dimension_impact m imp"
  proof (intro ballI allI impI)
    fix k d assume "k \<in> set INT_META_KEYS" "dget m k = VInt d"
    then have "d \<in> set ?ds" using mem by blast
    with Max show "d \<le> dimension_impact m imp" by (metis List.finite_set Max_ge empty_iff empty_set)
  qed
  show "dimension_impact m imp = imp \<or> (\<exists>k \<in> set INT_META_KEYS. dget m k = VInt (dimension_impact m imp))"
  proof (cases "?ds = []")
    case True
    then show ?thesis by (simp add: dimension_impact_def)
  next
    case False
    then have "Max (set ?ds) \<in> set ?ds" by simp
    with Max [OF False] mem show ?thesis by metis
  qed
  show "dimension_impact m imp = imp" if "\<forall>k \<in> set INT_META_KEYS. dget m k = VNone"
  proof -
    have "set ?ds = {}" using mem that by fastforce
    then show ?thesis by (simp add: dimension_impact_def)
  qed
qed

lemma upsert_local_scored_row:
  assumes "upsert_local_scored table i p title pr imp meta (VInt v) (VBool False) (VStr stamp) 1 db = Inr db'"
  obtains r where "find_row db' table i = Some r" "l_outbox db' = l_outbox db"
    "dget r ''title'' = VStr title" "dget r ''probability'' = VInt pr" "dget r ''project_id'' = VStr p" "dget r ''version'' = VInt v"
    "dget r ''is_deleted'' = VInt 0" "dget r ''dirty'' = VInt 1" "dget r ''impact'' = VInt (dimension_impact r imp)"
    "\<And>k. k \<in> set SCORED_ENTITY_META_KEYS \<Longrightarrow> column_of r k (dget meta k)"
    "\<And>t j. (t, j) \<noteq> (table, i) \<Longrightarrow> find_row db' t j = find_row db t j"
proof -
  define fix_status where "fix_status m = (if truthy (dget m ''status'') then m else dset m ''status'' (VStr ''concept''))" for m
  from assms obtain m0 where m0: "norm_keys SCORED_ENTITY_META_KEYS meta = Inr m0"
    and up: "upsert_row table ([(''id'', VStr i), (''project_id'', VStr p), (''title'', VStr title),
         (''probability'', VInt pr), (''impact'', VInt (dimension_impact (fix_status m0) imp))] @ fix_status m0 @
        [(''version'', VInt v), (''is_deleted'', VInt 0), (''updated_at'', VStr stamp), (''dirty'', VInt 1)]) db = Inr db'"
    (is "upsert_row table ?R db = Inr db'")
    by (auto simp: upsert_local_scored_def Let_def value_or_existing_def norm_scored_meta_def cint_def py_int_def py_str_def fix_status_def)
  have f0: "map fst m0 = SCORED_ENTITY_META_KEYS" by (rule norm_keys_fst [OF m0])
  moreover have "''status'' \<in> set SCORED_ENTITY_META_KEYS" by (simp add: SCORED_ENTITY_META_KEYS_def)
  ultimately have f: "map fst (fix_status m0) = SCORED_ENTITY_META_KEYS"
    by (simp add: fix_status_def dset_def update_keys)
  have ks: "map fst ?R = [''id'', ''project_id'', ''title'', ''probability'', ''impact''] @ SCORED_ENTITY_META_KEYS @
      [''version'', ''is_deleted'', ''updated_at'', ''dirty'']" by (simp add: f)
  have d: "distinct (map fst ?R)" unfolding ks by (simp add: SCORED_ENTITY_META_KEYS_def)
  have has: "dhas ?R k \<longleftrightarrow> k \<in> set (map fst ?R)" for k by (simp add: dhas_fst)
  have meta_has: "dhas (fix_status m0) k \<longleftrightarrow> k \<in> set SCORED_ENTITY_META_KEYS" for k by (simp add: dhas_fst f [symmetric])
  have nin: "k \<in> set SCORED_ENTITY_META_KEYS \<Longrightarrow> ''id'' \<noteq> k \<and> ''project_id'' \<noteq> k \<and> ''title'' \<noteq> k \<and> ''probability'' \<noteq> k \<and> ''impact'' \<noteq> k" for k
    by (auto simp: SCORED_ENTITY_META_KEYS_def)
  have get_meta: "dget ?R k = dget (fix_status m0) k" if "k \<in> set SCORED_ENTITY_META_KEYS" for k
    using that nin [OF that] meta_has by (simp add: dget_Cons dget_append dhas_Cons)
  have out: "k \<notin> set SCORED_ENTITY_META_KEYS" if "k \<in> {''version'', ''is_deleted'', ''dirty''}" for k
    using that by (auto simp: SCORED_ENTITY_META_KEYS_def)
  have get_tail: "dget ?R ''version'' = VInt v" "dget ?R ''is_deleted'' = VInt 0" "dget ?R ''dirty'' = VInt 1"
    by (simp_all add: dget_Cons dget_append meta_has out)
  have id: "row_id ?R = i" by (simp add: row_id_def col_str_def dget_Cons str_or_empty_def py_str_def)
  obtain r where r: "find_row db' table i = Some r" "\<And>k. dhas ?R k \<Longrightarrow> dget r k = dget ?R k"
  proof -
    have "dhas ?R ''id''" unfolding has ks by simp
    from upsert_row_self [OF up this d] show thesis unfolding id by (blast intro: that)
  qed
  have col: "column_of r k (dget meta k)" if k: "k \<in> set SCORED_ENTITY_META_KEYS" for k
  proof -
    have "dget r k = dget (fix_status m0) k" using r(2) [of k] k get_meta [OF k] unfolding has ks by simp
    moreover have "''status'' \<notin> set INT_META_KEYS" by (simp add: INT_META_KEYS_def)
    ultimately show ?thesis using norm_keys_get [OF m0 k]
      by (auto simp: column_of_def fix_status_def py_or_def truthy_norm_text split: if_splits)
  qed
  have dims: "dget r k = dget (fix_status m0) k" if "k \<in> set INT_META_KEYS" for k
  proof -
    have "k \<in> set SCORED_ENTITY_META_KEYS" using that by (auto simp: INT_META_KEYS_def SCORED_ENTITY_META_KEYS_def)
    then show ?thesis using r(2) [of k] get_meta unfolding has ks by simp
  qed
  then have di: "dimension_impact r imp = dimension_impact (fix_status m0) imp"
    unfolding dimension_impact_def INT_META_KEYS_def by (simp add: List.map_filter_def)
  have other: "find_row db' t j = find_row db t j" if "(t, j) \<noteq> (table, i)" for t j
  proof (cases "t = table")
    case True
    with that id show ?thesis using upsert_row_other [OF up, of j] d by (simp add: dhas_Cons)
  next
    case False
    then show ?thesis using upsert_row_Inr(3) [OF up, of t] by (simp add: find_row_def)
  qed
  have g: "dget r k = dget ?R k"
    if "k \<in> {''title'', ''probability'', ''impact'', ''project_id'', ''version'', ''is_deleted'', ''dirty''}" for k
    by (rule r(2)) (use that in \<open>auto simp: dhas_Cons dhas_fst\<close>)
  have head: "dget ?R ''title'' = VStr title" "dget ?R ''probability'' = VInt pr" "dget ?R ''project_id'' = VStr p"
    "dget ?R ''impact'' = VInt (dimension_impact (fix_status m0) imp)" by (simp_all add: dget_Cons)
  have cells: "dget r ''title'' = VStr title" "dget r ''probability'' = VInt pr" "dget r ''project_id'' = VStr p"
    "dget r ''version'' = VInt v" "dget r ''is_deleted'' = VInt 0" "dget r ''dirty'' = VInt 1"
    "dget r ''impact'' = VInt (dimension_impact r imp)"
    unfolding di by (simp_all only: g head get_tail insert_iff simp_thms)
  show thesis by (rule that [OF r(1) upsert_row_Inr(1) [OF up] cells col other])
qed

text \<open>The row and the queued record of one write agree, and nothing else moves.\<close>

definition written :: "string \<Rightarrow> string \<Rightarrow> string \<Rightarrow> int \<Rightarrow> dict \<Rightarrow> ldb \<Rightarrow> ldb \<Rightarrow> bool" where
  "written entity project_id entity_id version clean db db' \<longleftrightarrow>
    (\<exists>r imp. find_row db' (entity_table entity) entity_id = Some r \<and>
       (\<exists>e \<in> set (l_outbox db'). ob_owner e = (project_id, entity, entity_id) \<and> ob_op e = ''upsert'' \<and> ob_record e = clean) \<and>
       dget r ''project_id'' = VStr project_id \<and> dget r ''version'' = VInt version \<and> dget r ''is_deleted'' = VInt 0 \<and>
       dget r ''dirty'' = VInt 1 \<and> dget r ''title'' = dget clean ''title'' \<and> dget r ''probability'' = dget clean ''probability'' \<and>
       (\<forall>k \<in> set SCORED_ENTITY_META_KEYS. column_of r k (dget clean k)) \<and>
       dget r ''impact'' = VInt imp \<and> (\<forall>k \<in> set INT_META_KEYS. \<forall>d. dget r k = VInt d \<longrightarrow> d \<le> imp) \<and>
       (dget clean ''impact'' = VInt imp \<or> (\<exists>k \<in> set INT_META_KEYS. dget r k = VInt imp))) \<and>
    (\<forall>t j. (t, j) \<noteq> (entity_table entity, entity_id) \<longrightarrow> find_row db' t j = find_row db t j) \<and>
    (\<forall>x. ob_owner x \<noteq> (project_id, entity, entity_id) \<longrightarrow> (x \<in> set (l_outbox db') \<longleftrightarrow> x \<in> set (l_outbox db)))"

lemma written_entry:
  assumes "written en p i v clean db db'"
  shows "\<exists>e \<in> set (l_outbox db'). ob_owner e = (p, en, i) \<and> ob_op e = ''upsert'' \<and> ob_record e = clean"
  using assms unfolding written_def by (elim conjE exE)

lemma scored_write_written:
  assumes w: "scored_write t en p i rec v db = Inr (m, db')" and inv: "outbox_inv db" and id: "dget rec ''id'' = VStr i"
  obtains clean where "written en p i v clean db db'" "\<And>k. k \<in> set SCORED_ENTITY_META_KEYS \<Longrightarrow> dget clean k = dget rec k"
proof -
  from w obtain pr im db1 where pi: "int_or (dget rec ''probability'') 1 = Inr pr" "int_or (dget rec ''impact'') 1 = Inr im"
    and up: "upsert_local_scored (entity_table en) i p (str_or_empty (dget rec ''title'')) pr im
      (map (\<lambda>k. (k, dget rec k)) SCORED_ENTITY_META_KEYS) (VInt v) (VBool False) (VStr (t_stamp t)) 1 db = Inr db1"
    and q: "queue_scored_upsert (t_change_id t) (t_stamp t) p en rec db1 = Inr db'"
    by (auto simp: scored_write_def scored_upsert_local_def)
  obtain r where r: "find_row db1 (entity_table en) i = Some r" "l_outbox db1 = l_outbox db"
      "dget r ''title'' = VStr (str_or_empty (dget rec ''title''))" "dget r ''probability'' = VInt pr" "dget r ''project_id'' = VStr p"
      "dget r ''version'' = VInt v" "dget r ''is_deleted'' = VInt 0" "dget r ''dirty'' = VInt 1"
      "dget r ''impact'' = VInt (dimension_impact r im)"
      "\<And>k. k \<in> set SCORED_ENTITY_META_KEYS \<Longrightarrow> column_of r k (dget (map (\<lambda>k. (k, dget rec k)) SCORED_ENTITY_META_KEYS) k)"
      "\<And>t j. (t, j) \<noteq> (entity_table en, i) \<Longrightarrow> find_row db1 t j = find_row db t j"
    by (rule upsert_local_scored_row [OF up]) blast
  have inv1: "outbox_inv db1" using inv r(2) by (simp add: outbox_inv_def)
  obtain clean pr' im' where c: "queued (p, en, py_str (dget rec ''id'')) ''upsert'' clean db1 db'"
      "int_or (dget rec ''probability'') 1 = Inr pr'" "int_or (dget rec ''impact'') 1 = Inr im'"
      "dget clean ''title'' = VStr (str_or_empty (dget rec ''title''))" "dget clean ''probability'' = VInt pr'" "dget clean ''impact'' = VInt im'"
      "\<And>k. k \<in> set SCORED_ENTITY_META_KEYS \<Longrightarrow> dget clean k = dget rec k"
    by (rule queue_scored_queued [OF inv1 q]) blast
  have q': "queued (p, en, i) ''upsert'' clean db1 db'" using c(1) id by (simp add: py_str_def)
  then have rows: "find_row db' t j = find_row db1 t j" for t j by (simp add: queued_def find_row_def)
  have cols: "\<forall>k \<in> set SCORED_ENTITY_META_KEYS. column_of r k (dget clean k)" using r(10) c(7) by (simp add: dget_restrict)
  have "written en p i v clean db db'"
    unfolding written_def
  proof (intro conjI exI [of _ r] exI [of _ "dimension_impact r im"])
    show "dget clean ''impact'' = VInt (dimension_impact r im) \<or> (\<exists>k \<in> set INT_META_KEYS. dget r k = VInt (dimension_impact r im))"
      using dimension_impact_bounds(3) [of r im] c(3,6) pi(2) by auto
    show "\<forall>x. ob_owner x \<noteq> (p, en, i) \<longrightarrow> (x \<in> set (l_outbox db') \<longleftrightarrow> x \<in> set (l_outbox db))" using q' r(2) by (simp add: queued_def)
    show "\<exists>e \<in> set (l_outbox db'). ob_owner e = (p, en, i) \<and> ob_op e = ''upsert'' \<and> ob_record e = clean" using q' by (simp add: queued_def)
  qed (use r rows c pi cols dimension_impact_bounds(1) in auto)
  then show thesis using c(7) by (rule that)
qed

lemma update_record_get:
  assumes "k \<in> set SCORED_ENTITY_META_KEYS" "k \<notin> {''status'', ''status_changed_at''}"
  shows "dget (update_record now i title pr im meta old) k = (if dhas meta k then dget meta k else dget old k)"
    "dget (update_record now i title pr im meta old) ''id'' = VStr i"
proof -
  have "k \<notin> {''id'', ''title'', ''probability'', ''impact''}" using assms(1) by (auto simp: SCORED_ENTITY_META_KEYS_def)
  with assms show "dget (update_record now i title pr im meta old) k = (if dhas meta k then dget meta k else dget old k)"
    by (auto simp: update_record_def Let_def dget_Cons dget_restrict)
  show "dget (update_record now i title pr im meta old) ''id'' = VStr i" by (simp add: update_record_def Let_def dget_Cons)
qed

text \<open>C9: A local edit of a risk or opportunity is one consistent unit. When it succeeds, the row is live, dirty and keeps
  the version the edit was made against; the outbox holds one upsert of that record whose title, probability and every
  metadata field are those of the row (up to the store's trimming and its default status), every field the user did not
  give keeps its old value, and the row's impact is the largest impact dimension where there is one. No other row and no
  queued change of another record moves.\<close>

theorem local_edit_is_queued:
  assumes "scored_update t entity i title pr im meta db = Inr (model, db')" "outbox_inv db"
    and "find_row db (entity_table entity) i = Some old"
  shows "\<exists>v clean. int_or (dget old ''version'') 0 = Inr v \<and> written entity (col_str old ''project_id'') i v clean db db' \<and>
    (\<forall>k \<in> set SCORED_ENTITY_META_KEYS - {''code'', ''status'', ''status_changed_at''}.
       dget clean k = (if dhas meta k then dget meta k else dget old k))"
proof -
  let ?rec = "update_record (t_now t) i title pr im meta old"
  from assms(1,3) obtain v code where v: "int_or (dget old ''version'') 0 = Inr v"
    and w: "scored_write t entity (col_str old ''project_id'') i (dset ?rec ''code'' code) v db = Inr (model, db')"
    by (auto simp: scored_update_def get_project_and_version_def entity_table_def Let_def)
  have "''code'' \<in> set SCORED_ENTITY_META_KEYS" by (simp add: SCORED_ENTITY_META_KEYS_def)
  then have id: "dget (dset ?rec ''code'' code) ''id'' = VStr i" by (simp add: update_record_get(2))
  obtain clean where c: "written entity (col_str old ''project_id'') i v clean db db'"
      "\<And>k. k \<in> set SCORED_ENTITY_META_KEYS \<Longrightarrow> dget clean k = dget (dset ?rec ''code'' code) k"
    by (rule scored_write_written [OF w assms(2) id]) blast
  moreover have "dget clean k = (if dhas meta k then dget meta k else dget old k)"
    if "k \<in> set SCORED_ENTITY_META_KEYS - {''code'', ''status'', ''status_changed_at''}" for k
    using that c(2) [of k] update_record_get(1) [of k] by auto
  ultimately show ?thesis using v by blast
qed

definition demo_tick :: tick where
  "demo_tick = \<lparr>t_now = ''2026-01-01'', t_stamp = ''2026-01-01'', t_change_id = ''c''\<rparr>"

definition demo_store :: ldb where
  "demo_store = \<lparr>l_rows = (\<lambda>_. [])(''projects'' := [[(''id'', VStr ''p''), (''name'', VStr ''Dam'')]],
       ''risks'' := [[(''id'', VStr ''r''), (''project_id'', VStr ''p''), (''title'', VStr ''Flood''), (''probability'', VInt 2),
         (''impact'', VInt 4), (''code'', VStr ''R-001''), (''version'', VInt 3), (''is_deleted'', VInt 0)]]),
     l_outbox = [], l_sync_state = []\<rparr>"

lemma demo_store_row: "find_row demo_store ''risks'' ''r'' = Some [(''id'', VStr ''r''), (''project_id'', VStr ''p''), (''title'', VStr ''Flood''),
    (''probability'', VInt 2), (''impact'', VInt 4), (''code'', VStr ''R-001''), (''version'', VInt 3), (''is_deleted'', VInt 0)]"
  by code_simp

theorem local_edit_is_queued_witness:
  "\<exists>model db' e. scored_update demo_tick ''risk'' ''r'' ''Fire'' 3 4 [(''category'', VStr ''Weather'')] demo_store = Inr (model, db') \<and>
     e \<in> set (l_outbox db') \<and> ob_owner e = (''p'', ''risk'', ''r'') \<and> ob_op e = ''upsert'' \<and> dget (ob_record e) ''category'' = VStr ''Weather''"
proof -
  have "\<not> isl (scored_update demo_tick ''risk'' ''r'' ''Fire'' 3 4 [(''category'', VStr ''Weather'')] demo_store)" by code_simp
  then obtain model db' where run: "scored_update demo_tick ''risk'' ''r'' ''Fire'' 3 4 [(''category'', VStr ''Weather'')] demo_store = Inr (model, db')"
    by (cases "scored_update demo_tick ''risk'' ''r'' ''Fire'' 3 4 [(''category'', VStr ''Weather'')] demo_store") auto
  have inv: "outbox_inv demo_store" by (simp add: outbox_inv_def demo_store_def)
  have tab: "entity_table ''risk'' = ''risks''" by (simp add: entity_table_def TABLE_BY_ENTITY_def)
  have cat: "''category'' \<in> set SCORED_ENTITY_META_KEYS" by (simp add: SCORED_ENTITY_META_KEYS_def)
  have owner: "col_str [(''id'', VStr ''r''), (''project_id'', VStr ''p''), (''title'', VStr ''Flood''), (''probability'', VInt 2), (''impact'', VInt 4),
      (''code'', VStr ''R-001''), (''version'', VInt 3), (''is_deleted'', VInt 0)] ''project_id'' = ''p''" by code_simp
  from local_edit_is_queued [OF run inv, unfolded tab, OF demo_store_row] obtain v clean
    where w: "written ''risk'' ''p'' ''r'' v clean demo_store db'"
      and f: "\<forall>k \<in> set SCORED_ENTITY_META_KEYS - {''code'', ''status'', ''status_changed_at''}. dget clean k =
        (if dhas [(''category'', VStr ''Weather'')] k then dget [(''category'', VStr ''Weather'')] k
         else dget [(''id'', VStr ''r''), (''project_id'', VStr ''p''), (''title'', VStr ''Flood''), (''probability'', VInt 2), (''impact'', VInt 4),
           (''code'', VStr ''R-001''), (''version'', VInt 3), (''is_deleted'', VInt 0)] k)"
    unfolding owner by blast
  have "dget clean ''category'' = VStr ''Weather''" using f [THEN bspec, of "''category''"] cat by (simp add: dget_Cons dhas_Cons)
  moreover obtain e where "e \<in> set (l_outbox db')" "ob_owner e = (''p'', ''risk'', ''r'')" "ob_op e = ''upsert''" "ob_record e = clean"
    using written_entry [OF w] by blast
  ultimately show ?thesis using run by blast
qed

subsection \<open>Codes of new records\<close>

lemma create_record_get:
  "dget (create_record now i title pr im meta) ''id'' = VStr i"
  "norm_text (dget meta ''code'') = VNone \<Longrightarrow> norm_text (dget (create_record now i title pr im meta) ''code'') = VNone"
  by (auto simp: create_record_def Let_def dget_Cons dget_append dhas_Cons dget_restrict norm_text_def split: if_splits)

lemma next_code_text:
  assumes "next_entity_code en p db = Inr code"
  shows "norm_text (VStr code) = VStr code"
proof -
  from assms obtain n where "code = ''R'' @ ''-'' @ zero_pad 3 n \<or> code = ''O'' @ ''-'' @ zero_pad 3 n"
    by (auto simp: next_entity_code_def next_code_def split: if_splits)
  then obtain pre where code: "code = pre @ ''-'' @ zero_pad 3 n" "pre = ''R'' \<or> pre = ''O''" by blast
  have "\<forall>c \<in> set (zero_pad 3 n). \<not> is_space c" using zero_pad_dec is_dec_not_space by (auto simp: list_all_iff)
  then have "strip code = code" using code by (intro strip_id) (auto simp: is_space_def)
  with code show ?thesis by (auto simp: norm_text_def py_str_def)
qed

lemma queue_no_integrity: "queue_scored_upsert new_id now p en rec db \<noteq> Inl CIntegrityError"
  by (auto simp: queue_scored_upsert_def get_project_and_version_def Let_def rbind_Inl_iff int_or_def cint_def
      split: if_splits option.splits)

lemma scored_entity_no_integrity: "scored_entity d \<noteq> Inl CIntegrityError"
  by (auto simp: scored_entity_def Let_def rbind_Inl_iff cint_def split: if_splits option.splits)

lemma upsert_row_fresh_code:
  assumes "dget rec ''code'' = VStr code" "dhas rec ''code''" "distinct (map fst rec)" "dget rec ''project_id'' = VStr p" "dhas rec ''project_id''"
    and "project_known db p" "\<And>r. r \<in> set (l_rows db table) \<Longrightarrow> col_str r ''project_id'' = p \<Longrightarrow> dget r ''code'' \<noteq> VStr code"
  shows "upsert_row table rec db \<noteq> Inl CIntegrityError"
proof -
  define new where "new = (case find_row db table (row_id rec) of None \<Rightarrow> rec | Some r \<Rightarrow> dupdate r rec)"
  have n: "dget new ''code'' = VStr code" "dget new ''project_id'' = VStr p"
    using assms by (auto simp: new_def dget_dupdate split: option.splits)
  have "\<not> code_clash new r" if "r \<in> set (l_rows db table)" for r
  proof
    assume "code_clash new r"
    then have "dget r ''code'' = VStr code" "dget r ''project_id'' = VStr p" by (simp_all add: code_clash_def n)
    moreover from this(2) have "col_str r ''project_id'' = p" by (simp add: col_str_def str_or_empty_def py_str_def)
    ultimately show False using assms(7) [OF that] by simp
  qed
  moreover have "col_str new ''project_id'' = p" using n(2) by (simp add: col_str_def str_or_empty_def py_str_def)
  ultimately show ?thesis using assms(6) unfolding upsert_row_def Let_def new_def [symmetric] by (auto split: if_splits)
qed

lemma upsert_local_scored_fresh:
  assumes code: "norm_text (dget meta ''code'') = VStr code" and pk: "project_known db p"
    and fresh: "\<And>r. r \<in> set (l_rows db table) \<Longrightarrow> col_str r ''project_id'' = p \<Longrightarrow> dget r ''code'' \<noteq> VStr code"
  shows "upsert_local_scored table i p title pr imp meta (VInt v) (VBool False) (VStr stamp) 1 db \<noteq> Inl CIntegrityError"
proof
  assume err: "upsert_local_scored table i p title pr imp meta (VInt v) (VBool False) (VStr stamp) 1 db = Inl CIntegrityError"
  have ni: "norm_scored_meta meta \<noteq> Inl CIntegrityError" by (simp add: norm_scored_meta_def norm_keys_no_integrity)
  from err ni obtain m0 m where m0: "norm_keys SCORED_ENTITY_META_KEYS meta = Inr m0"
    and m: "m = (if truthy (dget m0 ''status'') then m0 else dset m0 ''status'' (VStr ''concept''))"
    and up: "upsert_row table ([(''id'', VStr i), (''project_id'', VStr p), (''title'', VStr title),
         (''probability'', VInt pr), (''impact'', VInt (dimension_impact m imp))] @ m @
        [(''version'', VInt v), (''is_deleted'', VInt 0), (''updated_at'', VStr stamp), (''dirty'', VInt 1)]) db = Inl CIntegrityError"
    (is "upsert_row table ?R db = _")
    by (auto simp: upsert_local_scored_def Let_def value_or_existing_def norm_scored_meta_def cint_def py_int_def py_str_def rbind_Inl_iff)
  have mem: "''code'' \<in> set SCORED_ENTITY_META_KEYS" "''status'' \<in> set SCORED_ENTITY_META_KEYS" by (simp_all add: SCORED_ENTITY_META_KEYS_def)
  have "map fst m = SCORED_ENTITY_META_KEYS" using norm_keys_fst [OF m0] mem by (simp add: m dset_def update_keys)
  then have ks: "map fst ?R = [''id'', ''project_id'', ''title'', ''probability'', ''impact''] @ SCORED_ENTITY_META_KEYS @
      [''version'', ''is_deleted'', ''updated_at'', ''dirty'']" and hm: "dhas m ''code''"
    using mem(1) unfolding dhas_fst by (simp, metis list.set_map)
  have "dget m0 ''code'' = VStr code" using norm_keys_get [OF m0 mem(1)] code by (simp add: INT_META_KEYS_def)
  then have c: "dget ?R ''code'' = VStr code" using hm by (simp add: dget_Cons dget_append m)
  have h: "dhas ?R ''code''" using hm by (simp add: dhas_fst)
  have ds: "distinct (map fst ?R)" unfolding ks by (simp add: SCORED_ENTITY_META_KEYS_def)
  have pj: "dget ?R ''project_id'' = VStr p" "dhas ?R ''project_id''" by (simp_all add: dget_Cons dhas_Cons)
  show False by (rule notE [OF upsert_row_fresh_code [OF c h ds pj pk fresh] up])
qed



subsection \<open>The project list\<close>

lemma project_known_iff: "project_known db i \<longleftrightarrow> (\<exists>r \<in> set (l_rows db ''projects''). row_id r = i)"
  by (simp add: project_known_def find_row_def first_where_None_iff)

text \<open>Projects the reconciliation may not touch: local ones, those the server lists and those with local data.\<close>

definition kept_project :: "string list \<Rightarrow> ldb \<Rightarrow> string \<Rightarrow> bool" where
  "kept_project server_ids db pid \<longleftrightarrow> starts_with pid ''local-'' \<or> pid \<in> set server_ids \<or> has_local_data pid db"

definition reconciled :: "string list \<Rightarrow> ldb \<Rightarrow> ldb \<Rightarrow> bool" where
  "reconciled server_ids db db' \<longleftrightarrow> l_outbox db' = l_outbox db \<and> (\<forall>t. t \<noteq> ''projects'' \<longrightarrow> l_rows db' t = l_rows db t) \<and>
     (\<forall>pid. kept_project server_ids db pid \<longrightarrow> (project_known db' pid \<longleftrightarrow> project_known db pid) \<and>
        map_of (l_sync_state db') pid = map_of (l_sync_state db) pid)"

lemma has_local_data_cong:
  assumes "l_outbox db' = l_outbox db" "\<forall>t. t \<noteq> ''projects'' \<longrightarrow> l_rows db' t = l_rows db t"
  shows "has_local_data pid db' = has_local_data pid db"
  using assms by (simp add: has_local_data_def PROJECT_DATA_TABLES_def)

lemma drop_project_reconciled: "reconciled server_ids db (drop_project server_ids pid db)"
proof (cases "kept_project server_ids db pid")
  case True
  then show ?thesis by (auto simp: reconciled_def drop_project_def kept_project_def)
next
  case False
  then have dp: "drop_project server_ids pid db = (set_rows ''projects'' (delete_where (\<lambda>r. row_id r = pid) (l_rows db ''projects'')) db)
      \<lparr>l_sync_state := filter (\<lambda>(q, _). q \<noteq> pid) (l_sync_state db)\<rparr>"
    by (simp add: drop_project_def kept_project_def)
  have "map_of (filter (\<lambda>(q, _). q \<noteq> pid) xs) q = map_of xs q" if "q \<noteq> pid" for q and xs :: "(string \<times> string \<times> int) list"
    using that by (induction xs) auto
  then have state: "map_of (filter (\<lambda>(q, _). q \<noteq> pid) (l_sync_state db)) q = map_of (l_sync_state db) q" if "kept_project server_ids db q" for q
    using that False by metis
  from False show ?thesis
    unfolding reconciled_def dp project_known_iff by (auto simp: delete_where_def set_rows_def state)
qed

lemma reconciled_trans:
  assumes "reconciled ids a b" "reconciled ids b c"
  shows "reconciled ids a c"
proof -
  have "kept_project ids b pid = kept_project ids a pid" for pid
    using has_local_data_cong [of b a pid] assms(1) by (auto simp: kept_project_def reconciled_def)
  with assms show ?thesis by (simp add: reconciled_def)
qed

lemma drop_projects_reconciled: "reconciled ids db (foldl (\<lambda>db pid. drop_project ids pid db) db pids)"
proof (induction pids arbitrary: db)
  case Nil
  then show ?case by (simp add: reconciled_def)
next
  case (Cons pid pids)
  show ?case using reconciled_trans [OF drop_project_reconciled Cons.IH] by simp
qed

lemma upsert_project_frame:
  defines "up \<equiv> \<lambda>p db. upsert_plain ''projects'' ''id'' (project_record p) db"
  shows "l_outbox (up p db) = l_outbox db" "l_sync_state (up p db) = l_sync_state db" "t \<noteq> ''projects'' \<Longrightarrow> l_rows (up p db) t = l_rows db t"
    "project_known (up p db) i \<longleftrightarrow> i = p_id p \<or> project_known db i"
proof -
  have rec: "dget (project_record p) ''id'' = VStr (p_id p)" "row_id (project_record p) = p_id p" "dhas (project_record p) ''id''"
      "distinct (map fst (project_record p))"
    by (simp_all add: project_record_def dget_Cons dhas_Cons row_id_def col_str_def str_or_empty_def py_str_def)
  have hit: "row_id r = p_id p" if "dget r ''id'' = VStr (p_id p)" for r using that by (simp add: row_id_def col_str_def str_or_empty_def py_str_def)
  show "l_outbox (up p db) = l_outbox db" "l_sync_state (up p db) = l_sync_state db" "t \<noteq> ''projects'' \<Longrightarrow> l_rows (up p db) t = l_rows db t"
    by (simp_all add: up_def upsert_plain_def Let_def)
  show "project_known (up p db) i \<longleftrightarrow> i = p_id p \<or> project_known db i"
  proof (cases "\<exists>r \<in> set (l_rows db ''projects''). dget r ''id'' = VStr (p_id p)")
    case True
    then have "l_rows (up p db) ''projects'' = update_where (\<lambda>r. dget r ''id'' = VStr (p_id p)) (\<lambda>r. dupdate r (project_record p)) (l_rows db ''projects'')"
      by (auto simp: up_def upsert_plain_def Let_def rec first_where_None_iff)
    then have "map row_id (l_rows (up p db) ''projects'') = map row_id (l_rows db ''projects'')"
      using rec hit by (auto simp: update_where_def row_id_dupdate)
    from arg_cong [OF this, of set] have "row_id ` set (l_rows (up p db) ''projects'') = row_id ` set (l_rows db ''projects'')" by simp
    moreover have "p_id p \<in> row_id ` set (l_rows db ''projects'')" using True hit by force
    moreover have "project_known d i \<longleftrightarrow> i \<in> row_id ` set (l_rows d ''projects'')" for d by (auto simp: project_known_iff)
    ultimately show ?thesis by auto
  next
    case False
    then have "l_rows (up p db) ''projects'' = l_rows db ''projects'' @ [project_record p]"
      by (auto simp: up_def upsert_plain_def Let_def rec first_where_None_iff)
    with rec show ?thesis by (auto simp: project_known_iff)
  qed
qed

lemma upsert_projects_frame:
  "l_outbox (upsert_projects ps db) = l_outbox db" "l_sync_state (upsert_projects ps db) = l_sync_state db"
  "t \<noteq> ''projects'' \<Longrightarrow> l_rows (upsert_projects ps db) t = l_rows db t"
  "project_known (upsert_projects ps db) i \<longleftrightarrow> i \<in> p_id ` set ps \<or> project_known db i"
  by (induction ps arbitrary: db) (auto simp: upsert_projects_def upsert_project_frame)

text \<open>C10: Reconciling the project list with the server's never loses local work. No row of a project and no queued change
  is removed; every project that exists only locally, is still listed or holds any local row or queued change stays known
  with its watermark; every project the server lists is known afterwards.\<close>

theorem project_list_keeps_work:
  shows "l_outbox (sync_projects ps db) = l_outbox db \<and> (\<forall>t. t \<noteq> ''projects'' \<longrightarrow> l_rows (sync_projects ps db) t = l_rows db t) \<and>
    (\<forall>pid. project_known db pid \<and> (starts_with pid ''local-'' \<or> has_local_data pid db) \<longrightarrow>
       project_known (sync_projects ps db) pid \<and> get_last_server_sequence (sync_projects ps db) pid = get_last_server_sequence db pid) \<and>
    (\<forall>p \<in> set ps. project_known (sync_projects ps db) (p_id p) \<and>
       get_last_server_sequence (sync_projects ps db) (p_id p) = get_last_server_sequence db (p_id p))"
proof -
  let ?ids = "map p_id ps"
  define db1 where "db1 = foldl (\<lambda>db pid. drop_project ?ids pid db) db (map row_id (l_rows db ''projects''))"
  have r: "reconciled ?ids db db1" unfolding db1_def by (rule drop_projects_reconciled)
  have sp: "sync_projects ps db = upsert_projects ps db1" by (simp add: sync_projects_def db1_def)
  have seq: "get_last_server_sequence (sync_projects ps db) pid = get_last_server_sequence db pid" if "kept_project ?ids db pid" for pid
    using r that by (simp add: sp get_last_server_sequence_def upsert_projects_frame reconciled_def)
  show ?thesis using r seq unfolding sp
    by (auto simp: upsert_projects_frame reconciled_def kept_project_def)
qed

theorem project_list_keeps_work_witness:
  "project_known demo_store ''p'' \<and> has_local_data ''p'' demo_store \<and> project_known (sync_projects [] demo_store) ''p''"
proof -
  have "project_known demo_store ''p''" "has_local_data ''p'' demo_store" by code_simp+
  with project_list_keeps_work [of "[]" demo_store] show ?thesis by blast
qed

end
