(* ===== verification/Server_Reports.thy ===== *)
theory Server_Reports
  imports Server_Items Sync_Demo
begin

section \<open>Lists, reports and snapshots (core/filters.py, core/csv_export.py, items_crud.py, matrix.py, snapshots.py)\<close>

text \<open>
  The read side of the REST routes: the filters of the list and report queries, the CSV export,
  the score report, the risk matrix and the score snapshots. A \<open>WHERE\<close> clause is a predicate on
  rows; a comparison with a null column is unknown and selects nothing. \<open>ORDER BY\<close> is a stable
  sort, so that rows that tie keep their storage order. \<open>GROUP BY\<close> yields its groups in the order
  of their first row. A date is its day number, counted from 1970-01-01.
\<close>

subsection \<open>LIKE\<close>

definition percent :: char where "percent = char_of (37 :: nat)"
definition underscore :: char where "underscore = char_of (95 :: nat)"
definition backslash :: char where "backslash = char_of (92 :: nat)"

definition escape_like :: "string \<Rightarrow> string" where
  "escape_like value =
     replace_str [underscore] [backslash, underscore]
       (replace_str [percent] [backslash, percent]
         (replace_str [backslash] [backslash, backslash] value))"

text \<open>\<open>LIKE pattern ESCAPE '\'\<close>.\<close>

fun like_match :: "string \<Rightarrow> string \<Rightarrow> bool" where
  "like_match [] s = (s = [])"
| "like_match (c # p) s =
     (if c = percent then list_ex (like_match p) (map (\<lambda>n. drop n s) [0..<Suc (length s)])
      else case s of
             [] \<Rightarrow> False
           | x # xs \<Rightarrow>
               if c = underscore then like_match p xs
               else if c = backslash
               then (case p of [] \<Rightarrow> False | d # p' \<Rightarrow> d = x \<and> like_match p' xs)
               else c = x \<and> like_match p xs)"

text \<open>
  Case folding of \<open>ilike\<close>: SQLite compares \<open>lower(a) LIKE lower(b)\<close>, where \<open>lower\<close> changes ASCII letters
  only; PostgreSQL folds all letters.
\<close>

definition ascii_lower_char :: "char \<Rightarrow> char" where
  "ascii_lower_char c = (let n = (of_char c :: nat) in if 65 \<le> n \<and> n \<le> 90 then char_of (n + 32) else c)"

definition fold_case :: "dialect \<Rightarrow> string \<Rightarrow> string" where
  "fold_case d s = (if d = SQLite then map ascii_lower_char s else lower s)"

definition ilike :: "dialect \<Rightarrow> pyval \<Rightarrow> string \<Rightarrow> bool" where
  "ilike d v pattern =
     (case v of VStr s \<Rightarrow> like_match (fold_case d pattern) (fold_case d s) | _ \<Rightarrow> False)"

subsection \<open>Filters\<close>

record item_filters =
  if_search :: "string option"
  if_item_type :: "string option"
  if_min_score :: "int option"
  if_max_score :: "int option"
  if_status :: "string option"
  if_category :: "string option"
  if_owner_user_id :: "uuid option"
  if_owner_unassigned :: bool
  if_from_date :: "int option"
  if_to_date :: "int option"
  if_limit :: nat
  if_offset :: nat

definition no_filters :: item_filters where
  "no_filters = \<lparr>if_search = None, if_item_type = None, if_min_score = None, if_max_score = None,
     if_status = None, if_category = None, if_owner_user_id = None, if_owner_unassigned = False,
     if_from_date = None, if_to_date = None, if_limit = 100, if_offset = 0\<rparr>"

text \<open>The check in the constructor of \<open>ItemFilterParams\<close>; the ranges of the parameters are FastAPI's.\<close>

definition ItemFilterParams :: "item_filters \<Rightarrow> item_filters result" where
  "ItemFilterParams f =
     (if if_owner_unassigned f \<and> if_owner_user_id f \<noteq> None
      then Inl (http_error 422 ''Provide only one of owner_user_id or owner_unassigned'') else Inr f)"

definition text_or_empty :: "string option \<Rightarrow> string" where
  "text_or_empty v = (case v of None \<Rightarrow> [] | Some s \<Rightarrow> s)"

definition csv_list :: "string option \<Rightarrow> string list" where
  "csv_list value =
     map strip (filter (\<lambda>v. strip v \<noteq> []) (split_on (CHR '','') (text_or_empty value)))"

definition normalize_score_range :: "int option \<Rightarrow> int option \<Rightarrow> int option \<times> int option" where
  "normalize_score_range min_score max_score =
     (case (min_score, max_score) of
        (Some lo, Some hi) \<Rightarrow> if hi < lo then (max_score, min_score) else (min_score, max_score)
      | _ \<Rightarrow> (min_score, max_score))"

definition in_date_range :: "int option \<Rightarrow> int option \<Rightarrow> pyval \<Rightarrow> bool" where
  "in_date_range from_date to_date v =
     ((case from_date of None \<Rightarrow> True
       | Some d \<Rightarrow> (case v of VTime t \<Rightarrow> d * 86400000000 \<le> t | _ \<Rightarrow> False)) \<and>
      (case to_date of None \<Rightarrow> True
       | Some d \<Rightarrow> (case v of VTime t \<Rightarrow> t < (d + 1) * 86400000000 | _ \<Rightarrow> False)))"

definition status_condition :: "string option \<Rightarrow> row \<Rightarrow> bool" where
  "status_condition status r =
     (let status_values = map lower (csv_list status);
          non_deleted = filter (\<lambda>s. s \<noteq> ''deleted'') status_values;
          listed = (r ''status'' \<in> set (map VStr non_deleted)) in
      if ''deleted'' \<in> set status_values
      then r ''is_deleted'' = VBool True \<or> non_deleted \<noteq> [] \<and> listed
      else r ''is_deleted'' = VBool False \<and> (non_deleted \<noteq> [] \<longrightarrow> listed))"

definition contains_pattern :: "string \<Rightarrow> string" where
  "contains_pattern q = [percent] @ escape_like q @ [percent]"

definition score_at_least :: "int option \<Rightarrow> row \<Rightarrow> bool" where
  "score_at_least bound r = (case bound of None \<Rightarrow> True | Some b \<Rightarrow> (case r ''score'' of VInt s \<Rightarrow> b \<le> s | _ \<Rightarrow> False))"

definition score_at_most :: "int option \<Rightarrow> row \<Rightarrow> bool" where
  "score_at_most bound r = (case bound of None \<Rightarrow> True | Some b \<Rightarrow> (case r ''score'' of VInt s \<Rightarrow> s \<le> b | _ \<Rightarrow> False))"

definition apply_item_filters :: "dialect \<Rightarrow> item_filters \<Rightarrow> row \<Rightarrow> bool" where
  "apply_item_filters d f r =
     (let (min_score, max_score) = normalize_score_range (if_min_score f) (if_max_score f);
          category = text_or_empty (if_category f); item_type = text_or_empty (if_item_type f);
          search = strip (text_or_empty (if_search f)) in
      status_condition (if_status f) r \<and>
      (strip category \<noteq> [] \<and> csv_list (if_category f) \<noteq> [] \<longrightarrow>
         list_ex (\<lambda>c. ilike d (r ''category'') (contains_pattern c)) (csv_list (if_category f))) \<and>
      (item_type \<noteq> [] \<longrightarrow> r ''type'' = VStr (strip (lower item_type))) \<and>
      (if if_owner_unassigned f then r ''owner_user_id'' = VNone
       else case if_owner_user_id f of None \<Rightarrow> True | Some u \<Rightarrow> r ''owner_user_id'' = VUuid u) \<and>
      in_date_range (if_from_date f) (if_to_date f) (r ''identified_at'') \<and>
      (search \<noteq> [] \<longrightarrow> ilike d (r ''title'') (contains_pattern search) \<or>
                       ilike d (r ''code'') (contains_pattern search)) \<and>
      score_at_least min_score r \<and> score_at_most max_score r)"

subsection \<open>Lists and the CSV export\<close>

definition project_rows :: "sdb \<Rightarrow> model \<Rightarrow> uuid \<Rightarrow> row list" where
  "project_rows db m project_id = filter (\<lambda>r. r ''project_id'' = VUuid project_id) (tables db m)"

definition col_text :: "row \<Rightarrow> string \<Rightarrow> string" where
  "col_text r k = (case r k of VStr s \<Rightarrow> s | _ \<Rightarrow> [])"

definition by_score_and_title :: "row list \<Rightarrow> row list" where
  "by_score_and_title rows = sort_key (\<lambda>r. - int_col r ''score'') (sort_key (\<lambda>r. col_text r ''title'') rows)"

definition page :: "nat \<Rightarrow> nat \<Rightarrow> 'a list \<Rightarrow> 'a list" where
  "page limit offset xs = take limit (drop offset xs)"

definition list_items :: "dialect \<Rightarrow> sdb \<Rightarrow> uuid \<Rightarrow> item_filters \<Rightarrow> row list" where
  "list_items d db project_id f =
     page (if_limit f) (if_offset f)
       (by_score_and_title (filter (apply_item_filters d f) (project_rows db Item project_id)))"

definition FORMULA_PREFIXES :: "char list" where
  "FORMULA_PREFIXES = [CHR ''='', CHR ''+'', CHR ''-'', CHR ''@'']"

definition is_formula :: "string \<Rightarrow> bool" where
  "is_formula txt = (case lstrip txt of [] \<Rightarrow> False | c # _ \<Rightarrow> c \<in> set FORMULA_PREFIXES)"

definition safe_csv_cell :: "pyval \<Rightarrow> pyval" where
  "safe_csv_cell v =
     (case v of
        VNone \<Rightarrow> VStr []
      | VInt i \<Rightarrow> VInt i
      | VBool b \<Rightarrow> VBool b
      | _ \<Rightarrow> let txt = py_str v in
             if is_formula txt then VStr (char_of (39 :: nat) # txt) else VStr txt)"

text \<open>
  One field of \<open>csv.writer\<close> in its default dialect: quoted when it holds a comma, a quote or a line
  break, with quotes doubled.
\<close>

definition csv_field :: "pyval \<Rightarrow> string" where
  "csv_field v =
     (let s = py_str v; q = char_of (34 :: nat) in
      if list_ex (\<lambda>c. c \<in> {CHR '','', q, char_of (13 :: nat), char_of (10 :: nat)}) s
      then [q] @ concat (map (\<lambda>c. if c = q then [q, q] else [c]) s) @ [q] else s)"

definition csv_line :: "pyval list \<Rightarrow> string" where
  "csv_line vs = join_with '','' (map csv_field vs) @ [char_of (13 :: nat), char_of (10 :: nat)]"

definition CSV_COLUMNS :: "string list" where
  "CSV_COLUMNS = [''id'', ''type'', ''code'', ''title'', ''category'', ''status'', ''probability'',
     ''impact'', ''score'', ''owner_user_id'', ''identified_at'', ''updated_at'', ''version'', ''is_deleted'']"

text \<open>The added condition on \<open>is_deleted\<close> belongs to the \<open>WHERE\<close> clause, ahead of limit and offset.\<close>

definition item_csv_rows :: "dialect \<Rightarrow> sdb \<Rightarrow> uuid \<Rightarrow> item_filters \<Rightarrow> string list" where
  "item_csv_rows d db project_id f =
     csv_line (map VStr CSV_COLUMNS) #
     map (\<lambda>r. csv_line (map (\<lambda>c. safe_csv_cell (getattr Item r c)) CSV_COLUMNS))
       (page (if_limit f) (if_offset f)
          (by_score_and_title (filter (\<lambda>r. apply_item_filters d f r \<and> r ''is_deleted'' = VBool False)
             (project_rows db Item project_id))))"

definition item_assessments :: "sdb \<Rightarrow> uuid \<Rightarrow> row list" where
  "item_assessments db item_id =
     sort_key (\<lambda>r. case r ''updated_at'' of VTime t \<Rightarrow> - t | _ \<Rightarrow> 0)
       (filter (\<lambda>r. r ''item_id'' = VUuid item_id \<and> r ''is_deleted'' = VBool False) (tables db Assessment))"

definition list_assessments_route :: "sdb \<Rightarrow> uuid \<Rightarrow> string \<Rightarrow> uuid \<Rightarrow> uuid \<Rightarrow> row list result" where
  "list_assessments_route db user_id item_type project_id item_id =
     rbind (ensure_member db project_id user_id) (\<lambda>_.
     rbind (require_item db project_id item_id item_type) (\<lambda>_. Inr (item_assessments db item_id)))"

definition list_objs :: "dialect \<Rightarrow> sdb \<Rightarrow> uuid \<Rightarrow> string \<Rightarrow> uuid \<Rightarrow> item_filters \<Rightarrow> row list result" where
  "list_objs d db user_id item_type project_id filters =
     rbind (ItemFilterParams filters) (\<lambda>f.
     rbind (ensure_member db project_id user_id) (\<lambda>_.
     Inr (list_items d db project_id (f\<lparr>if_item_type := Some item_type\<rparr>))))"

definition export_csv :: "dialect \<Rightarrow> sdb \<Rightarrow> uuid \<Rightarrow> string \<Rightarrow> uuid \<Rightarrow> item_filters \<Rightarrow> string list result" where
  "export_csv d db user_id item_type project_id filters =
     rbind (ItemFilterParams filters) (\<lambda>f.
     rbind (ensure_member db project_id user_id) (\<lambda>_.
     Inr (item_csv_rows d db project_id (f\<lparr>if_item_type := Some item_type\<rparr>))))"

text \<open>The listings of actions and tickets.\<close>

definition list_actions_route :: "sdb \<Rightarrow> uuid \<Rightarrow> uuid \<Rightarrow> dict list result" where
  "list_actions_route db user_id project_id =
     rbind (ensure_member db project_id user_id) (\<lambda>_.
     Inr (map (\<lambda>(a, i). action_out a (py_str (i ''type'')))
       (sort_key (\<lambda>(a, i). case a ''updated_at'' of VTime t \<Rightarrow> - t | _ \<Rightarrow> 0)
         (concat (map (\<lambda>a. map (Pair a) (filter (\<lambda>i. i ''id'' = a ''item_id'') (tables db Item)))
           (filter (\<lambda>a. a ''is_deleted'' = VBool False) (project_rows db Action project_id)))))))"

definition id_num :: "row \<Rightarrow> int" where
  "id_num r = (case r ''id'' of VUuid u \<Rightarrow> int u | _ \<Rightarrow> 0)"

definition list_helpdesk_tickets_route :: "sdb \<Rightarrow> uuid \<Rightarrow> uuid \<Rightarrow> row list result" where
  "list_helpdesk_tickets_route db user_id project_id =
     rbind (ensure_member db project_id user_id) (\<lambda>_.
     Inr (sort_key (\<lambda>r. case r ''created_at'' of VTime t \<Rightarrow> - t | _ \<Rightarrow> 0)
       (sort_key (\<lambda>r. - id_num r)
         (filter (\<lambda>r. r ''is_deleted'' = VBool False) (project_rows db HelpDeskTicket project_id)))))"

subsection \<open>The score report\<close>

type_synonym counts = "(string \<times> nat) list"

text \<open>The average is the exact quotient of the two numbers.\<close>

record score_report =
  sr_total :: nat
  sr_project_total :: nat
  sr_min_score :: "int option"
  sr_max_score :: "int option"
  sr_avg_score :: "(int \<times> nat) option"
  sr_status_counts :: counts
  sr_category_counts :: counts
  sr_owner_counts :: counts
  sr_score_buckets :: counts

definition firsts :: "'a list \<Rightarrow> 'a list" where
  "firsts xs = rev (remdups (rev xs))"

text \<open>\<open>SELECT f, count(id) ... GROUP BY f\<close>.\<close>

definition group_count :: "('a \<Rightarrow> 'k) \<Rightarrow> 'a list \<Rightarrow> ('k \<times> nat) list" where
  "group_count f xs = map (\<lambda>k. (k, count_where (\<lambda>x. f x = k) xs)) (firsts (map f xs))"

text \<open>A dictionary comprehension over the groups: of two groups with one label the later one stays.\<close>

definition counts_by :: "(row \<Rightarrow> 'k) \<Rightarrow> ('k \<Rightarrow> string) \<Rightarrow> row list \<Rightarrow> counts" where
  "counts_by column label rows =
     foldl (\<lambda>d (v, cnt). AList.update (label v) cnt d) [] (group_count column rows)"

definition EMPTY_SCORE_BUCKETS :: counts where
  "EMPTY_SCORE_BUCKETS = [(''0-4'', 0), (''5-9'', 0), (''10-14'', 0), (''15-19'', 0), (''20-25'', 0)]"

definition score_bucket :: "int \<Rightarrow> string" where
  "score_bucket s =
     (if s \<le> 4 then ''0-4'' else if s \<le> 9 then ''5-9'' else if s \<le> 14 then ''10-14''
      else if s \<le> 19 then ''15-19'' else ''20-25'')"

definition label_or :: "string \<Rightarrow> pyval \<Rightarrow> string" where
  "label_or dflt v = (if truthy v then py_str v else dflt)"

definition min_of :: "int list \<Rightarrow> int option" where
  "min_of xs = (if xs = [] then None else Some (Min (set xs)))"

definition max_of :: "int list \<Rightarrow> int option" where
  "max_of xs = (if xs = [] then None else Some (Max (set xs)))"

definition avg_of :: "int list \<Rightarrow> (int \<times> nat) option" where
  "avg_of xs = (if xs = [] then None else Some (sum_list xs, length xs))"

definition generate_report :: "dialect \<Rightarrow> sdb \<Rightarrow> uuid \<Rightarrow> item_filters \<Rightarrow> score_report" where
  "generate_report d db project_id f =
     (let mine = project_rows db Item project_id;
          rows = filter (apply_item_filters d f) mine;
          scores = map (\<lambda>r. int_col r ''score'') rows;
          buckets = counts_by (\<lambda>r. score_bucket (int_col r ''score'')) (\<lambda>b. b) rows in
      \<lparr>sr_total = length rows,
       sr_project_total = length (filter (apply_item_filters d
         (no_filters\<lparr>if_item_type := if_item_type f, if_status := if_status f\<rparr>)) mine),
       sr_min_score = min_of scores, sr_max_score = max_of scores, sr_avg_score = avg_of scores,
       sr_status_counts = counts_by (\<lambda>r. r ''status'') (label_or ''concept'') rows,
       sr_category_counts = counts_by (\<lambda>r. r ''category'') (label_or ''(none)'') rows,
       sr_owner_counts = counts_by (\<lambda>r. r ''owner_user_id'') (label_or ''(none)'') rows,
       sr_score_buckets = foldl (\<lambda>d (k, n). AList.update k n d) EMPTY_SCORE_BUCKETS buckets\<rparr>)"

definition obj_report :: "dialect \<Rightarrow> sdb \<Rightarrow> uuid \<Rightarrow> string \<Rightarrow> uuid \<Rightarrow> item_filters \<Rightarrow> score_report result" where
  "obj_report d db user_id item_type project_id filters =
     rbind (ItemFilterParams filters) (\<lambda>f.
     rbind (ensure_member db project_id user_id) (\<lambda>_.
     Inr (generate_report d db project_id (f\<lparr>if_item_type := Some item_type\<rparr>))))"

subsection \<open>The matrix\<close>

record matrix_response =
  mr_kind :: string
  mr_probability_axis :: "int list"
  mr_impact_axis :: "int list"
  mr_risks :: "nat list list option"
  mr_opportunities :: "nat list list option"

definition blank :: "nat list list" where
  "blank = replicate 5 (replicate 5 0)"

definition set_cell :: "nat list list \<Rightarrow> (int \<times> int) \<times> nat \<Rightarrow> nat list list" where
  "set_cell out g =
     (case g of ((p, i), c) \<Rightarrow> out[nat (p - 1) := (out ! nat (p - 1))[nat (i - 1) := c]])"

definition on_matrix :: "row \<Rightarrow> bool" where
  "on_matrix r = (between_1_5 (r ''probability'') \<and> between_1_5 (r ''impact''))"

definition fill :: "sdb \<Rightarrow> uuid \<Rightarrow> string \<Rightarrow> nat list list \<Rightarrow> nat list list" where
  "fill db project_id item_type out =
     foldl set_cell out
       (group_count (\<lambda>r. (int_col r ''probability'', int_col r ''impact''))
         (filter (\<lambda>r. r ''is_deleted'' = VBool False \<and> r ''type'' = VStr item_type \<and> on_matrix r)
           (project_rows db Item project_id)))"

definition matrix :: "sdb \<Rightarrow> uuid \<Rightarrow> uuid \<Rightarrow> string \<Rightarrow> matrix_response result" where
  "matrix db user_id project_id kind =
     rbind (ensure_member db project_id user_id) (\<lambda>_.
     let k = lower (strip kind) in
     if k \<notin> {''risk'', ''opportunity'', ''both''}
     then Inl (http_error 400 ''kind must be risk|opportunity|both'')
     else Inr \<lparr>mr_kind = k, mr_probability_axis = [1..5], mr_impact_axis = [1..5],
                mr_risks = (if k \<in> {''risk'', ''both''} then Some (fill db project_id ''risk'' blank) else None),
                mr_opportunities = (if k \<in> {''opportunity'', ''both''}
                                    then Some (fill db project_id ''opportunity'' blank) else None)\<rparr>)"

subsection \<open>Snapshots\<close>

record top_item =
  ti_item_id :: uuid
  ti_title :: string
  ti_probability :: int
  ti_impact :: int
  ti_score :: int

definition top_item_of :: "snapshot_row \<Rightarrow> top_item" where
  "top_item_of r = \<lparr>ti_item_id = ss_item_id r, ti_title = ss_title r, ti_probability = ss_probability r,
     ti_impact = ss_impact r, ti_score = ss_score r\<rparr>"

record snapshot_create_out =
  so_batch_id :: uuid
  so_captured_at :: time
  so_risks :: nat
  so_opportunities :: nat

definition wanted_kinds :: "string \<Rightarrow> string list result" where
  "wanted_kinds kind =
     (let k = lower (strip (if kind = [] then ''both'' else kind)) in
      if k \<in> {''both'', ''all''} then Inr [''risk'', ''opportunity'']
      else if k \<in> {''risk'', ''risks''} then Inr [''risk'']
      else if k \<in> {''opportunity'', ''opportunities'', ''opp'', ''opps''} then Inr [''opportunity'']
      else Inl (http_error 400 ''kind must be both|risks|opportunities''))"

definition uuid_col :: "row \<Rightarrow> string \<Rightarrow> uuid" where
  "uuid_col r k = (case r k of VUuid u \<Rightarrow> u | _ \<Rightarrow> 0)"

definition snapshot_of :: "uuid \<Rightarrow> time \<Rightarrow> uuid \<Rightarrow> uuid \<Rightarrow> string \<Rightarrow> row \<Rightarrow> snapshot_row" where
  "snapshot_of batch_id captured_at project_id user_id kind r =
     \<lparr>ss_batch_id = batch_id, ss_captured_at = captured_at, ss_project_id = project_id, ss_kind = kind,
      ss_item_id = uuid_col r ''id'', ss_title = col_text r ''title'', ss_probability = int_col r ''probability'',
      ss_impact = int_col r ''impact'', ss_score = int_col r ''score'', ss_created_by = user_id\<rparr>"

text \<open>The insert buffer: what is in the table, what waits in the chunk.\<close>

type_synonym buffer = "snapshot_row list \<times> snapshot_row list"

definition flush_chunk :: "buffer \<Rightarrow> buffer" where
  "flush_chunk b = (case b of (table, chunk) \<Rightarrow> (table @ chunk, []))"

definition append_row :: "nat \<Rightarrow> buffer \<Rightarrow> snapshot_row \<Rightarrow> buffer" where
  "append_row chunk_size b s =
     (case b of (table, chunk) \<Rightarrow>
        let chunk' = chunk @ [s] in
        if chunk_size \<le> length chunk' then flush_chunk (table, chunk') else (table, chunk'))"

definition live_of_kind :: "sdb \<Rightarrow> uuid \<Rightarrow> string \<Rightarrow> row list" where
  "live_of_kind db project_id kind =
     filter (\<lambda>r. r ''is_deleted'' = VBool False \<and> r ''type'' = VStr kind) (project_rows db Item project_id)"

definition create_snapshot ::
  "nat \<Rightarrow> time \<Rightarrow> uuid \<Rightarrow> sdb \<Rightarrow> uuid \<Rightarrow> uuid \<Rightarrow> string \<Rightarrow> (snapshot_create_out \<times> sdb) result" where
  "create_snapshot chunk_size now batch_id db user_id project_id kind =
     rbind (require_min_role db project_id user_id ''member'') (\<lambda>_.
     rbind (wanted_kinds kind) (\<lambda>wanted.
     let add_kind = (\<lambda>b k. foldl (append_row chunk_size) b
           (map (snapshot_of batch_id now project_id user_id k) (live_of_kind db project_id k)));
         (table, _) = flush_chunk (foldl add_kind (score_snapshots db, []) wanted);
         counts = (\<lambda>k. if k \<in> set wanted then length (live_of_kind db project_id k) else 0) in
     Inr (\<lparr>so_batch_id = batch_id, so_captured_at = now, so_risks = counts ''risk'',
           so_opportunities = counts ''opportunity''\<rparr>, db\<lparr>score_snapshots := table\<rparr>)))"

record snapshot_latest_out =
  sl_batch_id :: uuid
  sl_captured_at :: time
  sl_kind :: string
  sl_count :: nat

definition kind_rows :: "sdb \<Rightarrow> uuid \<Rightarrow> string \<Rightarrow> snapshot_row list" where
  "kind_rows db project_id kind =
     filter (\<lambda>s. ss_project_id s = project_id \<and> ss_kind s = kind) (score_snapshots db)"

definition bad_snapshot_kind :: exc where
  "bad_snapshot_kind = http_error 400 ''kind must be risks|opportunities''"

definition latest_snapshot :: "sdb \<Rightarrow> uuid \<Rightarrow> uuid \<Rightarrow> string \<Rightarrow> snapshot_latest_out result" where
  "latest_snapshot db user_id project_id kind =
     rbind (ensure_member db project_id user_id) (\<lambda>_.
     let k = lower (strip kind) in
     rbind (if k \<in> {''risks'', ''risk''} then Inr ''risk''
            else if k \<in> {''opportunities'', ''opportunity''} then Inr ''opportunity''
            else Inl bad_snapshot_kind) (\<lambda>snap_kind.
     case sort_key (\<lambda>s. - ss_captured_at s) (kind_rows db project_id snap_kind) of
       [] \<Rightarrow> Inl (http_error 404 ''No snapshots'')
     | s # _ \<Rightarrow> Inr \<lparr>sl_batch_id = ss_batch_id s, sl_captured_at = ss_captured_at s, sl_kind = snap_kind,
                  sl_count = count_where (\<lambda>x. ss_batch_id x = ss_batch_id s) (kind_rows db project_id snap_kind)\<rparr>))"

record top_batch =
  tb_batch_id :: uuid
  tb_captured_at :: time
  tb_top :: "top_item list"

definition snapshot_limit :: "int \<Rightarrow> nat" where
  "snapshot_limit limit = nat (max 1 (min limit 100))"

definition batch_by_score :: "sdb \<Rightarrow> uuid \<Rightarrow> string \<Rightarrow> uuid \<Rightarrow> snapshot_row list" where
  "batch_by_score db project_id kind batch_id =
     sort_key (\<lambda>s. - ss_score s) (filter (\<lambda>s. ss_batch_id s = batch_id) (kind_rows db project_id kind))"

definition top_items :: "sdb \<Rightarrow> uuid \<Rightarrow> uuid \<Rightarrow> uuid \<Rightarrow> string \<Rightarrow> int \<Rightarrow> top_batch result" where
  "top_items db user_id project_id batch_id kind limit =
     rbind (ensure_member db project_id user_id) (\<lambda>_.
     case take (snapshot_limit limit) (batch_by_score db project_id kind batch_id) of
       [] \<Rightarrow> Inl (http_error 404 ''Snapshot batch not found (or empty)'')
     | s # rest \<Rightarrow> Inr \<lparr>tb_batch_id = batch_id, tb_captured_at = ss_captured_at s,
                    tb_top = map top_item_of (s # rest)\<rparr>)"

text \<open>
  \<open>row_number() OVER (PARTITION BY batch_id ORDER BY score DESC)\<close> ranks the rows of a batch; the
  rows of rank at most \<open>limit\<close> come back batch by batch in rank order and are regrouped by batch.
\<close>

definition top_history ::
  "sdb \<Rightarrow> uuid \<Rightarrow> uuid \<Rightarrow> string \<Rightarrow> int \<Rightarrow> time option \<Rightarrow> time option \<Rightarrow> top_batch list result" where
  "top_history db user_id project_id kind limit from_ts to_ts =
     rbind (ensure_member db project_id user_id) (\<lambda>_.
     let k = lower (strip kind) in
     rbind (if k \<in> {''risks'', ''risk''} then Inr ''risk''
            else if k \<in> {''opportunities'', ''opportunity'', ''opps'', ''opp''} then Inr ''opportunity''
            else Inl bad_snapshot_kind) (\<lambda>snap_kind.
     let in_window = (\<lambda>s. (case from_ts of None \<Rightarrow> True | Some t \<Rightarrow> t \<le> ss_captured_at s) \<and>
                           (case to_ts of None \<Rightarrow> True | Some t \<Rightarrow> ss_captured_at s \<le> t));
         batches = sort_key snd (firsts (map (\<lambda>s. (ss_batch_id s, ss_captured_at s))
                     (filter in_window (kind_rows db project_id snap_kind))));
         batch_ids = firsts (map fst batches);
         all_rows = concat (map (\<lambda>b. take (snapshot_limit limit) (batch_by_score db project_id snap_kind b))
                      (sort batch_ids)) in
     Inr (map (\<lambda>(b, ts). \<lparr>tb_batch_id = b, tb_captured_at = ts,
                 tb_top = map top_item_of (filter (\<lambda>s. ss_batch_id s = b) all_rows)\<rparr>) batches)))"


section \<open>Facts about reports\<close>

subsection \<open>Search text is literal\<close>

lemma contains_sub_iff: "contains_sub s q \<longleftrightarrow> (\<exists>a b. s = a @ q @ b)"
proof (induction s)
  case (Cons c s)
  have "starts_with (c # s) q \<longleftrightarrow> (\<exists>b. c # s = q @ b)"
    unfolding starts_with_def by (metis append_eq_conv_conj append_take_drop_id)
  moreover have "(\<exists>a b. c # s = a @ q @ b) \<longleftrightarrow> (\<exists>b. c # s = q @ b) \<or> (\<exists>a b. s = a @ q @ b)"
    by (metis append_Cons append_Nil list.exhaust list.inject)
  ultimately show ?case using Cons by simp
qed simp

lemma replace_char: "replace_str [c] new s = concat (map (\<lambda>x. if x = c then new else [x]) s)"
  unfolding replace_str_def by (induction s) (auto simp: starts_with_def)

definition escape_char_like :: "char \<Rightarrow> string" where
  "escape_char_like c = (if c \<in> {backslash, percent, underscore} then [backslash, c] else [c])"

lemma like_specials: "backslash \<noteq> percent" "backslash \<noteq> underscore" "percent \<noteq> underscore"
  by (simp_all add: backslash_def percent_def underscore_def)

lemma escape_like_eq: "escape_like s = concat (map escape_char_like s)"
  unfolding escape_like_def replace_char
  by (induction s) (use like_specials in \<open>auto simp: escape_char_like_def\<close>)

definition fold_char :: "dialect \<Rightarrow> char \<Rightarrow> char" where
  "fold_char d = (if d = SQLite then ascii_lower_char else lower_char)"

lemma fold_case_map: "fold_case d s = map (fold_char d) s"
  by (simp add: fold_case_def fold_char_def lower_def)

lemma fold_char_special:
  "x \<in> {backslash, percent, underscore} \<Longrightarrow> fold_char d c = x \<longleftrightarrow> c = x"
proof -
  have n: "of_char (char_of (k :: nat) :: char) = k" if "k < 256" for k :: nat using that by simp
  assume "x \<in> {backslash, percent, underscore}"
  then have x: "(of_char x :: nat) \<in> {92, 37, 95}" by (auto simp: backslash_def percent_def underscore_def)
  have "of_char (fold_char d c) = (of_char x :: nat) \<longleftrightarrow> of_char c = (of_char x :: nat)"
    using x by (auto simp: fold_char_def ascii_lower_char_def lower_char_def Let_def n split: if_splits)
  then show ?thesis by simp
qed

lemma fold_case_escape: "fold_case d (escape_like q) = escape_like (fold_case d q)"
proof -
  have "map (fold_char d) (escape_char_like c) = escape_char_like (fold_char d c)" for c
    using fold_char_special [of _ d c] fold_char_special [of backslash d backslash]
    by (auto simp: escape_char_like_def)
  then show ?thesis unfolding fold_case_map escape_like_eq by (induction q) simp_all
qed

lemma like_escaped:
  "like_match (escape_like q @ p) s \<longleftrightarrow> (\<exists>rest. s = q @ rest \<and> like_match p rest)"
  unfolding escape_like_eq
proof (induction q arbitrary: s)
  case (Cons c q)
  show ?case
  proof (cases s)
    case Nil
    then show ?thesis using like_specials by (auto simp: escape_char_like_def)
  next
    case (Cons x xs)
    then show ?thesis using like_specials Cons.IH [of xs] by (auto simp: escape_char_like_def)
  qed
qed simp

lemma like_percent: "like_match (percent # p) s \<longleftrightarrow> (\<exists>a b. s = a @ b \<and> like_match p b)"
proof -
  have "like_match (percent # p) s \<longleftrightarrow> (\<exists>n \<le> length s. like_match p (drop n s))"
    by (auto simp: list_ex_iff less_Suc_eq_le simp del: upt_Suc)
  also have "\<dots> \<longleftrightarrow> (\<exists>a b. s = a @ b \<and> like_match p b)"
    by (metis append_eq_conv_conj append_take_drop_id length_append le_add1)
  finally show ?thesis .
qed

lemma ilike_contains:
  "ilike d (VStr s) (contains_pattern q) \<longleftrightarrow> contains_sub (fold_case d s) (fold_case d q)"
proof -
  have pat: "fold_case d (contains_pattern q) = percent # escape_like (fold_case d q) @ [percent]"
    using fold_case_escape [of d q] fold_char_special [of percent d percent]
    by (simp add: contains_pattern_def fold_case_map)
  have any: "like_match [percent] b" for b using like_percent [of "[]" b] by auto
  have "ilike d (VStr s) (contains_pattern q) \<longleftrightarrow>
      (\<exists>a b. fold_case d s = a @ b \<and> (\<exists>rest. b = fold_case d q @ rest \<and> like_match [percent] rest))"
    by (simp only: ilike_def pyval.case pat like_percent like_escaped)
  also have "\<dots> \<longleftrightarrow> contains_sub (fold_case d s) (fold_case d q)"
    unfolding contains_sub_iff using any by auto
  finally show ?thesis .
qed

subsection \<open>Exported cells\<close>

lemma safe_csv_cell_inert:
  assumes "safe_csv_cell v = VStr txt"
  shows "\<not> is_formula txt"
proof -
  have quote: "char_of (39 :: nat) \<notin> set FORMULA_PREFIXES" by code_simp
  have "\<not> is_formula (char_of (39 :: nat) # x)" for x
    by (simp add: is_formula_def lstrip_def is_space_def Let_def quote)
  moreover have "\<not> is_formula []" by (simp add: is_formula_def lstrip_def)
  ultimately show ?thesis using assms
    by (auto simp: safe_csv_cell_def Let_def split: pyval.splits if_splits)
qed

subsection \<open>Groups\<close>

lemma set_firsts [simp]: "set (firsts xs) = set xs"
  by (simp add: firsts_def)

lemma distinct_firsts [simp]: "distinct (firsts xs)"
  by (simp add: firsts_def)

lemma group_count_keys: "map fst (group_count f xs) = firsts (map f xs)"
  by (simp add: group_count_def o_def)

lemma map_of_group_count:
  "map_of (group_count f xs) k = (if k \<in> f ` set xs then Some (count_where (\<lambda>x. f x = k) xs) else None)"
proof (cases "k \<in> f ` set xs")
  case True
  then have "(k, count_where (\<lambda>x. f x = k) xs) \<in> set (group_count f xs)" by (auto simp: group_count_def)
  then show ?thesis using True group_count_keys [of f xs] by simp
next
  case False
  then have "k \<notin> fst ` set (group_count f xs)" by (auto simp: group_count_def)
  then show ?thesis using False by (simp add: map_of_eq_None_iff)
qed

subsection \<open>The matrix\<close>

definition square :: "nat list list \<Rightarrow> bool" where
  "square out = (length out = 5 \<and> (\<forall>a < 5. length (out ! a) = 5))"

lemma set_cell_nth:
  assumes "square out" "1 \<le> p" "p \<le> 5" "1 \<le> i" "i \<le> 5"
  shows "square (set_cell out ((p, i), c))"
    "a < 5 \<Longrightarrow> b < 5 \<Longrightarrow> set_cell out ((p, i), c) ! a ! b =
      (if (p, i) = (int a + 1, int b + 1) then c else out ! a ! b)"
  using assms by (auto simp: square_def set_cell_def nth_list_update)

lemma fill_cells:
  assumes "\<forall>((p, i), c) \<in> set gs. 1 \<le> p \<and> p \<le> 5 \<and> 1 \<le> i \<and> i \<le> 5" "distinct (map fst gs)" "square out"
  shows "square (foldl set_cell out gs) \<and> (\<forall>a < 5. \<forall>b < 5. foldl set_cell out gs ! a ! b =
      (case map_of gs (int a + 1, int b + 1) of Some c \<Rightarrow> c | None \<Rightarrow> out ! a ! b))"
  using assms
proof (induction gs arbitrary: out)
  case (Cons g gs)
  obtain p i c where g: "g = ((p, i), c)" by (cases g) auto
  from Cons.prems have b: "1 \<le> p" "p \<le> 5" "1 \<le> i" "i \<le> 5" by (auto simp: g)
  note cell = set_cell_nth [OF Cons.prems(3) b, where c = c]
  have "map_of gs (p, i) = None" using Cons.prems(2) by (simp add: g map_of_eq_None_iff)
  with Cons.IH [of "set_cell out g"] Cons.prems cell show ?case
    by (auto simp: g split: option.splits)
qed simp

definition matrix_rows :: "sdb \<Rightarrow> uuid \<Rightarrow> string \<Rightarrow> row list" where
  "matrix_rows db project_id item_type = filter on_matrix (live_of_kind db project_id item_type)"

lemma fill_counts:
  "square (fill db p t blank)"
  "a < 5 \<Longrightarrow> b < 5 \<Longrightarrow> fill db p t blank ! a ! b =
     count_where (\<lambda>r. int_col r ''probability'' = int a + 1 \<and> int_col r ''impact'' = int b + 1) (matrix_rows db p t)"
proof -
  let ?key = "\<lambda>r. (int_col r ''probability'', int_col r ''impact'')"
  let ?rows = "matrix_rows db p t" and ?gs = "group_count (\<lambda>r. (int_col r ''probability'', int_col r ''impact'')) (matrix_rows db p t)"
  have rows: "filter (\<lambda>r. r ''is_deleted'' = VBool False \<and> r ''type'' = VStr t \<and> on_matrix r)
      (project_rows db Item p) = ?rows"
    by (auto simp: matrix_rows_def live_of_kind_def intro!: filter_cong)
  have fill: "fill db p t blank = foldl set_cell blank ?gs" by (simp add: fill_def rows)
  have "1 \<le> int_col r ''probability'' \<and> int_col r ''probability'' \<le> 5 \<and> 1 \<le> int_col r ''impact'' \<and>
      int_col r ''impact'' \<le> 5" if "r \<in> set ?rows" for r
    using that by (auto simp: matrix_rows_def on_matrix_def between_1_5_def int_col_def split: pyval.splits)
  then have "\<forall>((p, i), c) \<in> set ?gs. 1 \<le> p \<and> p \<le> 5 \<and> 1 \<le> i \<and> i \<le> 5"
    by (auto simp: group_count_def)
  moreover have "square blank" by (simp add: square_def blank_def)
  ultimately have cells: "square (foldl set_cell blank ?gs)"
    "\<forall>a < 5. \<forall>b < 5. foldl set_cell blank ?gs ! a ! b =
      (case map_of ?gs (int a + 1, int b + 1) of Some c \<Rightarrow> c | None \<Rightarrow> blank ! a ! b)"
    using fill_cells [of ?gs blank] group_count_keys [of ?key ?rows] by simp_all
  show "square (fill db p t blank)" using cells(1) by (simp add: fill)
  show "fill db p t blank ! a ! b = count_where (\<lambda>r. int_col r ''probability'' = int a + 1 \<and>
      int_col r ''impact'' = int b + 1) ?rows" if "a < 5" "b < 5"
  proof (cases "(int a + 1, int b + 1) \<in> ?key ` set ?rows")
    case True
    then show ?thesis using cells(2) that by (simp add: fill map_of_group_count)
  next
    case False
    then have "count_where (\<lambda>r. ?key r = (int a + 1, int b + 1)) ?rows = 0"
      unfolding count_where_zero_iff by force
    moreover have "blank ! a ! b = 0" using that by (simp add: blank_def)
    ultimately show ?thesis using cells(2) that False by (simp add: fill map_of_group_count)
  qed
qed

lemma sum_cells:
  assumes "square out"
  shows "sum_list (map sum_list out) = (\<Sum>a < 5. \<Sum>b < 5. out ! a ! b)"
proof -
  have "sum_list (map sum_list out) = (\<Sum>a < 5. sum_list (out ! a))"
    using assms by (simp add: square_def sum_list_sum_nth atLeast0LessThan)
  also have "\<dots> = (\<Sum>a < 5. \<Sum>b < 5. out ! a ! b)"
    using assms by (intro sum.cong) (simp_all add: square_def sum_list_sum_nth atLeast0LessThan)
  finally show ?thesis .
qed

lemma sum_counts:
  fixes f g :: "row \<Rightarrow> int"
  assumes "\<forall>r \<in> set rows. 1 \<le> f r \<and> f r \<le> 5 \<and> 1 \<le> g r \<and> g r \<le> 5"
  shows "(\<Sum>a < (5 :: nat). \<Sum>b < (5 :: nat). count_where (\<lambda>r. f r = int a + 1 \<and> g r = int b + 1) rows) = length rows"
  using assms
proof (induction rows)
  case (Cons r rows)
  have Cons': "count_where Q (x # t) = (if Q x then 1 else 0) + count_where Q t" for Q and x :: row and t
    by (simp add: count_where_def)
  have one: "(\<Sum>b < (5 :: nat). if x = int b + 1 then 1 else 0 :: nat) = 1" if "1 \<le> x" "x \<le> 5" for x
  proof -
    have "(x = int b + 1) = (b = nat (x - 1))" for b using that by auto
    then show ?thesis using that by simp
  qed
  have "(\<Sum>a < (5 :: nat). \<Sum>b < (5 :: nat). if f r = int a + 1 \<and> g r = int b + 1 then 1 else 0 :: nat) =
      (\<Sum>a < (5 :: nat). if f r = int a + 1 then \<Sum>b < (5 :: nat). if g r = int b + 1 then 1 else 0 else 0)"
    by (intro sum.cong) auto
  then have "(\<Sum>a < (5 :: nat). \<Sum>b < (5 :: nat). if f r = int a + 1 \<and> g r = int b + 1 then 1 else 0 :: nat) = 1"
    using one [of "g r"] one [of "f r"] Cons.prems by (simp cong: if_cong)
  with Cons show ?case by (simp add: Cons' sum.distrib)
qed (simp add: count_where_def)

lemma sum_fill:
  "sum_list (map sum_list (fill db p t blank)) = length (matrix_rows db p t)"
proof -
  have "\<forall>r \<in> set (matrix_rows db p t). 1 \<le> int_col r ''probability'' \<and> int_col r ''probability'' \<le> 5 \<and>
      1 \<le> int_col r ''impact'' \<and> int_col r ''impact'' \<le> 5"
    by (auto simp: matrix_rows_def on_matrix_def between_1_5_def int_col_def split: pyval.splits)
  from sum_counts [OF this] show ?thesis
    by (simp add: sum_cells [OF fill_counts(1)] fill_counts(2))
qed

subsection \<open>Snapshots\<close>

lemma append_rows:
  "case foldl (append_row n) b rows of (table, chunk) \<Rightarrow> table @ chunk = fst b @ snd b @ rows"
proof (induction rows arbitrary: b)
  case (Cons s rows)
  have "fst (append_row n b s) @ snd (append_row n b s) = fst b @ snd b @ [s]"
    by (cases b) (simp add: append_row_def flush_chunk_def Let_def)
  then show ?case using Cons [of "append_row n b s"] by (simp add: case_prod_beta)
qed (simp add: case_prod_beta)

lemma append_kinds:
  fixes rows :: "string \<Rightarrow> snapshot_row list"
  shows "fst (flush_chunk (foldl (\<lambda>b k. foldl (append_row n) b (rows k)) b kinds)) = fst b @ snd b @ concat (map rows kinds)"
proof (induction kinds arbitrary: b)
  case Nil
  show ?case by (cases b) (simp add: flush_chunk_def)
next
  case (Cons k kinds)
  show ?case using Cons [of "foldl (append_row n) b (rows k)"] append_rows [where n = n and b = b and rows = "rows k"]
    by (simp add: case_prod_beta)
qed

lemma create_snapshot_table:
  assumes "create_snapshot n now batch_id db user_id project_id kind = Inr (out, db')"
  shows "\<exists>wanted. wanted_kinds kind = Inr wanted \<and> db' = db\<lparr>score_snapshots := score_snapshots db @
    concat (map (\<lambda>k. map (snapshot_of batch_id now project_id user_id k) (live_of_kind db project_id k)) wanted)\<rparr>"
  using assms
    append_kinds [where n = n and rows = "\<lambda>k. map (snapshot_of batch_id now project_id user_id k) (live_of_kind db project_id k)"
      and b = "(score_snapshots db, [])"]
  by (auto simp: create_snapshot_def Let_def case_prod_beta)

lemma insort_key_map: "insort_key f (g x) (map g xs) = map g (insort_key (\<lambda>y. f (g y)) x xs)"
  by (induction xs) simp_all

lemma sort_key_map: "sort_key f (map g xs) = map g (sort_key (\<lambda>y. f (g y)) xs)"
  by (induction xs) (simp_all add: insort_key_map)

lemma snapshot_of_simps [simp]:
  "ss_batch_id (snapshot_of b t p u k r) = b" "ss_project_id (snapshot_of b t p u k r) = p"
  "ss_kind (snapshot_of b t p u k r) = k" "ss_score (snapshot_of b t p u k r) = int_col r ''score''"
  "ss_captured_at (snapshot_of b t p u k r) = t"
  by (simp_all add: snapshot_of_def)

lemma filter_concat_map: "filter P (concat (map f xs)) = concat (map (\<lambda>x. filter P (f x)) xs)"
  by (induction xs) simp_all

lemma concat_single:
  "distinct xs \<Longrightarrow> k \<in> set xs \<Longrightarrow> concat (map (\<lambda>x. if x = k then f x else []) xs) = f k"
proof (induction xs)
  case (Cons x xs)
  have "k \<notin> set ys \<Longrightarrow> concat (map (\<lambda>x. if x = k then f x else []) ys) = []" for ys by (induction ys) auto
  with Cons show ?case by (cases "x = k") auto
qed simp

text \<open>The item as a ranking shows it.\<close>

definition ranked :: "row \<Rightarrow> top_item" where
  "ranked r = \<lparr>ti_item_id = uuid_col r ''id'', ti_title = col_text r ''title'',
     ti_probability = int_col r ''probability'', ti_impact = int_col r ''impact'', ti_score = int_col r ''score''\<rparr>"

lemma top_item_of_snapshot: "top_item_of (snapshot_of b t p u k r) = ranked r"
  by (simp add: top_item_of_def snapshot_of_def ranked_def)

lemma wanted_kinds_distinct: "wanted_kinds kind = Inr wanted \<Longrightarrow> distinct wanted"
  by (auto simp: wanted_kinds_def Let_def split: if_splits)

lemma snapshot_batch:
  assumes run: "create_snapshot n now b db u p kind = Inr (out, db')"
    and fresh: "\<forall>s \<in> set (score_snapshots db). ss_batch_id s \<noteq> b"
    and wanted: "wanted_kinds kind = Inr wanted" "k \<in> set wanted"
  shows "batch_by_score db' p k b =
    map (snapshot_of b now p u k) (sort_key (\<lambda>r. - int_col r ''score'') (live_of_kind db p k))"
proof -
  let ?new = "\<lambda>k. map (snapshot_of b now p u k) (live_of_kind db p k)"
  let ?mine = "\<lambda>s. ss_batch_id s = b \<and> ss_project_id s = p \<and> ss_kind s = k"
  have db': "score_snapshots db' = score_snapshots db @ concat (map ?new wanted)"
    using create_snapshot_table [OF run] wanted(1) by auto
  have "filter ?mine (?new x) = (if x = k then ?new x else [])" for x
    by (simp add: filter_map o_def)
  then have "filter ?mine (concat (map ?new wanted)) = ?new k"
    using concat_single [OF wanted_kinds_distinct [OF wanted(1)] wanted(2)] by (simp add: filter_concat_map)
  moreover have "filter ?mine (score_snapshots db) = []" using fresh by (auto simp: filter_empty_conv)
  ultimately have "filter ?mine (score_snapshots db') = ?new k" by (simp add: db')
  then show ?thesis by (simp add: batch_by_score_def kind_rows_def sort_key_map conj_commute conj_left_commute)
qed

lemma create_snapshot_member:
  assumes "create_snapshot n now b db u p kind = Inr (out, db')"
  shows "\<exists>role. ensure_member db' p u = Inr role"
proof -
  obtain table where db': "db' = db\<lparr>score_snapshots := table\<rparr>"
    using create_snapshot_table [OF assms] by blast
  have "require_min_role db' p u q = require_min_role db p u q" for q
    by (simp add: db' require_min_role_def get_member_role_def is_superuser_def)
  moreover have "\<exists>role. require_min_role db p u ''member'' = Inr role"
    using assms by (auto simp: create_snapshot_def)
  moreover have "rank_or 10000 ''viewer'' \<le> rank_or 10000 ''member''" by code_simp
  ultimately show ?thesis
    by (auto simp: ensure_member_def require_min_role_def ensure_role_at_least_def split: option.splits if_splits)
qed

lemma concat_of_batch:
  assumes "distinct bs" "b \<in> set bs" "\<And>x s. s \<in> set (f x) \<Longrightarrow> ss_batch_id s = x"
  shows "filter (\<lambda>s. ss_batch_id s = b) (concat (map f bs)) = f b"
proof -
  have "filter (\<lambda>s. ss_batch_id s = b) (f x) = (if x = b then f x else [])" for x
  proof (cases "x = b")
    case True
    then have "\<forall>s \<in> set (f x). ss_batch_id s = b" using assms(3) by blast
    then show ?thesis using True by simp
  next
    case False
    then show ?thesis using assms(3) by (auto simp: filter_empty_conv)
  qed
  then show ?thesis by (simp add: filter_concat_map concat_single [OF assms(1,2)])
qed

lemma batch_rows: "s \<in> set (take n (batch_by_score db p k b)) \<Longrightarrow> ss_batch_id s = b"
  using set_take_subset [of n "batch_by_score db p k b"] by (auto simp: batch_by_score_def)

section \<open>Properties of reports\<close>

text \<open>Search text is literal. Listing with a search text, whatever wildcards and escapes of SQL it
  holds, selects exactly the live items whose title or code contains the stripped text, up to
  the dialect's case folding.\<close>

lemma search_is_literal:
  assumes "strip q \<noteq> []"
  shows "apply_item_filters d (no_filters\<lparr>if_search := Some q\<rparr>) r \<longleftrightarrow>
    r ''is_deleted'' = VBool False \<and>
    (\<exists>s. (r ''title'' = VStr s \<or> r ''code'' = VStr s) \<and> contains_sub (fold_case d s) (fold_case d (strip q)))"
proof -
  have "ilike d v (contains_pattern x) \<longleftrightarrow> (\<exists>s. v = VStr s \<and> contains_sub (fold_case d s) (fold_case d x))" for v x
    using ilike_contains [of d _ x] by (cases v) (auto simp: ilike_def)
  moreover have "strip [] = []" by code_simp
  ultimately show ?thesis using assms
    by (auto simp: apply_item_filters_def no_filters_def normalize_score_range_def text_or_empty_def Let_def
        status_condition_def csv_list_def in_date_range_def score_at_least_def score_at_most_def)
qed

text \<open>The matrix counts every item once. In each of the grids of a response the cell of a probability
  and an impact is the number of live items of that kind with these values, and no live item
  of the kind is left out.\<close>

lemma matrix_counts_every_item:
  assumes "db_inv db" "matrix db u p kind = Inr out"
    and "(t, grid) = (''risk'', mr_risks out) \<or> (t, grid) = (''opportunity'', mr_opportunities out)" "grid = Some cells"
  shows "(\<forall>a b. a < 5 \<and> b < 5 \<longrightarrow> cells ! a ! b =
      count_where (\<lambda>r. r ''probability'' = VInt (int a + 1) \<and> r ''impact'' = VInt (int b + 1)) (live_of_kind db p t)) \<and>
    sum_list (map sum_list cells) = length (live_of_kind db p t)"
proof -
  have cells: "cells = fill db p t blank"
    using assms(2-4) by (auto simp: matrix_def Let_def split: if_splits)
  have ok: "\<exists>x y. r ''probability'' = VInt x \<and> r ''impact'' = VInt y \<and> on_matrix r" if "r \<in> set (live_of_kind db p t)" for r
    using that db_invD(4) [OF assms(1), of r Item]
    by (auto simp: live_of_kind_def project_rows_def row_ok_def score_ok_def scored_model_def on_matrix_def between_1_5_def)
  then have rows: "matrix_rows db p t = live_of_kind db p t" by (auto simp: matrix_rows_def filter_id_conv)
  have "(int_col r ''probability'' = x \<and> int_col r ''impact'' = y) \<longleftrightarrow> (r ''probability'' = VInt x \<and> r ''impact'' = VInt y)"
    if "r \<in> set (live_of_kind db p t)" for r x y
    using ok [OF that] by (auto simp: int_col_def)
  then have "count_where (\<lambda>r. int_col r ''probability'' = x \<and> int_col r ''impact'' = y) (live_of_kind db p t) =
      count_where (\<lambda>r. r ''probability'' = VInt x \<and> r ''impact'' = VInt y) (live_of_kind db p t)" for x y
    unfolding count_where_def by (intro arg_cong [of _ _ length] filter_cong) simp_all
  then show ?thesis using fill_counts(2) [of _ _ db p t] sum_fill [of db p t] by (simp add: cells rows)
qed

lemma demo_live: "live_of_kind demo_db 10 ''risk'' = [demo_item]"
  by (simp add: live_of_kind_def project_rows_def)

lemma demo_member: "require_min_role demo_db 10 2 ''viewer'' = Inr ''member''" "require_min_role demo_db 10 2 ''member'' = Inr ''member''"
  by code_simp+

text \<open>C37: a snapshot is the ranking at its time. After a snapshot under a fresh batch id, whatever the insert
  chunk size, the ranking of a captured kind shows the live items of that kind as they were,
  ordered by descending score and cut at the limit.\<close>

theorem snapshot_is_the_ranking:
  assumes "create_snapshot n now b db u p kind = Inr (out, db')"
    and "\<forall>s \<in> set (score_snapshots db). ss_batch_id s \<noteq> b"
    and "wanted_kinds kind = Inr wanted" "k \<in> set wanted" "live_of_kind db p k \<noteq> []"
  shows "top_items db' u p b k limit = Inr \<lparr>tb_batch_id = b, tb_captured_at = now,
    tb_top = map ranked (take (snapshot_limit limit) (sort_key (\<lambda>r. - int_col r ''score'') (live_of_kind db p k)))\<rparr>"
proof -
  let ?rows = "take (snapshot_limit limit) (sort_key (\<lambda>r. - int_col r ''score'') (live_of_kind db p k))"
  have "snapshot_limit limit \<noteq> 0" by (simp add: snapshot_limit_def)
  moreover have "sort_key (\<lambda>r. - int_col r ''score'') (live_of_kind db p k) \<noteq> []"
    using assms(5) by (metis length_0_conv length_sort)
  ultimately obtain r rs where rows: "?rows = r # rs" by (cases ?rows) auto
  show ?thesis
    using create_snapshot_member [OF assms(1)] rows
    by (auto simp: top_items_def snapshot_batch [OF assms(1-4)] take_map top_item_of_snapshot)
qed

theorem snapshot_is_the_ranking_witness:
  "\<exists>out db'. create_snapshot 2 7 5 demo_db 2 10 ''risks'' = Inr (out, db') \<and>
     top_items db' 2 10 5 ''risk'' 3 = Inr \<lparr>tb_batch_id = 5, tb_captured_at = 7, tb_top = [ranked demo_item]\<rparr>"
proof -
  have w: "wanted_kinds ''risks'' = Inr [''risk'']" by code_simp
  obtain out db' where run: "create_snapshot 2 7 5 demo_db 2 10 ''risks'' = Inr (out, db')"
    using demo_member(2) w by (auto simp: create_snapshot_def Let_def case_prod_beta)
  have "\<forall>s \<in> set (score_snapshots demo_db). ss_batch_id s \<noteq> 5" by (simp add: demo_db_def)
  from snapshot_is_the_ranking [OF run this w, of "''risk''" 3] run show ?thesis
    by (simp add: demo_live snapshot_limit_def)
qed

text \<open>The history agrees with the rankings. Every batch a history lists, though all batches come from one
  query over window ranks, is the answer that the ranking of that batch alone gives.\<close>

lemma history_agrees_with_rankings:
  assumes run: "top_history db u p kind limit from_ts to_ts = Inr history" and batch: "batch \<in> set history"
    and kind: "kind \<in> {''risk'', ''opportunity''}"
    and times: "\<forall>s \<in> set (score_snapshots db). \<forall>s' \<in> set (score_snapshots db).
      ss_batch_id s = ss_batch_id s' \<longrightarrow> ss_captured_at s = ss_captured_at s'"
  shows "top_items db u p (tb_batch_id batch) kind limit = Inr batch"
proof -
  have k: "lower (strip kind) = kind" using kind by (elim insertE emptyE) (hypsubst, code_simp)+
  let ?win = "\<lambda>s. (case from_ts of None \<Rightarrow> True | Some t \<Rightarrow> t \<le> ss_captured_at s) \<and>
      (case to_ts of None \<Rightarrow> True | Some t \<Rightarrow> ss_captured_at s \<le> t)"
  let ?keys = "map (\<lambda>s. (ss_batch_id s, ss_captured_at s)) (filter ?win (kind_rows db p kind))"
  let ?batches = "sort_key snd (firsts ?keys)" and ?top = "\<lambda>b. take (snapshot_limit limit) (batch_by_score db p kind b)"
  let ?all = "concat (map ?top (sort (firsts (map fst ?batches))))"
  obtain role where member: "ensure_member db p u = Inr role"
    and hist: "history = map (\<lambda>(b, ts). \<lparr>tb_batch_id = b, tb_captured_at = ts,
      tb_top = map top_item_of (filter (\<lambda>s. ss_batch_id s = b) ?all)\<rparr>) ?batches"
    using run kind by (auto simp: top_history_def k Let_def split: if_splits)
  from batch hist obtain b ts where key: "(b, ts) \<in> set ?keys"
    and batch': "batch = \<lparr>tb_batch_id = b, tb_captured_at = ts, tb_top = map top_item_of (filter (\<lambda>s. ss_batch_id s = b) ?all)\<rparr>"
    by auto
  have "b \<in> set (sort (firsts (map fst ?batches)))" using key by force
  then have top: "filter (\<lambda>s. ss_batch_id s = b) ?all = ?top b"
    by (intro concat_of_batch batch_rows) simp_all
  from key obtain s0 where s0: "s0 \<in> set (kind_rows db p kind)" "ss_batch_id s0 = b" "ss_captured_at s0 = ts" by auto
  then have "s0 \<in> set (batch_by_score db p kind b)" by (simp add: batch_by_score_def)
  moreover have "0 < snapshot_limit limit" by (simp add: snapshot_limit_def)
  ultimately obtain s rest where rows: "?top b = s # rest" by (cases "batch_by_score db p kind b"; cases "snapshot_limit limit") auto
  then have "s \<in> set (batch_by_score db p kind b)" by (metis in_set_takeD list.set_intros(1))
  with s0 times have "ss_captured_at s = ts" by (fastforce simp: batch_by_score_def kind_rows_def)
  then show ?thesis using rows member by (simp add: top_items_def batch' top)
qed

end
