(* ===== verification/Client_Reports.thy ===== *)
theory Client_Reports
  imports Client_Services Server_Reports
begin

section \<open>Reports from the local copy (services/entity_filters.py, services/offline_first_facade.py)\<close>

text \<open>
  The client's own filter of risks and opportunities and the report it computes when no server
  answers, compared with the report of the server. A model object is the dictionary of its fields,
  as \<open>Client_Entities\<close> reads it from a row. \<open>datetime.fromisoformat\<close> is the argument \<open>fromiso\<close>; a
  timestamp is its wall clock in microseconds with the offset from UTC it names, if any, and
  comparing one that has an offset with one that has none raises, like every failed conversion.
\<close>

subsection \<open>Dates\<close>

record pydatetime =
  dt_clock :: int
  dt_offset :: "int option"

type_synonym iso_parser = "string \<Rightarrow> pydatetime option"

definition dt_le :: "pydatetime \<Rightarrow> pydatetime \<Rightarrow> bool cresult" where
  "dt_le a b =
     (case (dt_offset a, dt_offset b) of
        (None, None) \<Rightarrow> Inr (dt_clock a \<le> dt_clock b)
      | (Some x, Some y) \<Rightarrow> Inr (dt_clock a - x \<le> dt_clock b - y)
      | _ \<Rightarrow> Inl CConversionError)"

definition parse_date :: "iso_parser \<Rightarrow> string \<Rightarrow> pydatetime option" where
  "parse_date fromiso value =
     (let txt = strip value in
      if txt = [] then None
      else if length txt = 10 \<and> txt ! 4 = CHR ''-'' \<and> txt ! 7 = CHR ''-'' then fromiso (txt @ ''T00:00:00'')
      else fromiso txt)"

text \<open>\<open>replace(hour=23, minute=59, second=59)\<close>, which keeps the microseconds.\<close>

definition end_of_day :: "pydatetime \<Rightarrow> pydatetime" where
  "end_of_day t = t\<lparr>dt_clock := dt_clock t div 86400000000 * 86400000000 + 86399000000 + dt_clock t mod 1000000\<rparr>"

subsection \<open>Criteria\<close>

definition ANY_STATUS :: string where "ANY_STATUS = ''(any)''"
definition MAX_SCORE :: int where "MAX_SCORE = 999999"

record scored_filter_criteria =
  fc_search :: string
  fc_min_score :: int
  fc_max_score :: int
  fc_status :: string
  fc_category_contains :: string
  fc_owner_user_id :: "string option"
  fc_owner_unassigned :: bool
  fc_identified_from :: "pydatetime option"
  fc_identified_to :: "pydatetime option"

definition criteria_from_report_filters :: "iso_parser \<Rightarrow> dict \<Rightarrow> scored_filter_criteria cresult" where
  "criteria_from_report_filters fromiso filters =
     (let identified_to = map_option end_of_day (parse_date fromiso (str_or_empty (dget filters ''to_date'')));
          owner_user_id = dget filters ''owner_user_id''; status = str_or_empty (dget filters ''status'') in
      rbind (int_or (dget filters ''min_score'') 0) (\<lambda>min_score.
      rbind (int_or (dget filters ''max_score'') MAX_SCORE) (\<lambda>max_score.
      Inr \<lparr>fc_search = str_or_empty (dget filters ''search''), fc_min_score = min_score, fc_max_score = max_score,
           fc_status = (if truthy (dget filters ''status'') then status else ANY_STATUS),
           fc_category_contains = str_or_empty (dget filters ''category''),
           fc_owner_user_id = (if truthy owner_user_id then Some (py_str owner_user_id) else None),
           fc_owner_unassigned = truthy (dget filters ''owner_unassigned''),
           fc_identified_from = parse_date fromiso (str_or_empty (dget filters ''from_date'')),
           fc_identified_to = identified_to\<rparr>)))"

definition norm_filter :: "string \<Rightarrow> string" where
  "norm_filter value = lower (strip value)"

definition search_text :: "dict \<Rightarrow> string" where
  "search_text item =
     lower (join_with '' '' (map (\<lambda>k. str_or_empty (dget item k)) [''title'', ''code'', ''category'', ''description'']))"

definition owner_matches :: "dict \<Rightarrow> string option \<Rightarrow> bool \<Rightarrow> bool" where
  "owner_matches item owner_id unassigned =
     (let owner = strip (str_or_empty (dget item ''owner_user_id'')) in
      if unassigned then owner = []
      else case owner_id of None \<Rightarrow> True | Some u \<Rightarrow> u = [] \<or> lower owner = u)"

definition identified_between :: "iso_parser \<Rightarrow> dict \<Rightarrow> pydatetime option \<Rightarrow> pydatetime option \<Rightarrow> bool cresult" where
  "identified_between fromiso item start stop =
     (if start = None \<and> stop = None then Inr True
      else case parse_date fromiso (str_or_empty (dget item ''identified_at'')) of
             None \<Rightarrow> Inr False
           | Some t \<Rightarrow>
               rbind (case start of None \<Rightarrow> Inr True | Some a \<Rightarrow> dt_le a t) (\<lambda>after.
               if \<not> after then Inr False else (case stop of None \<Rightarrow> Inr True | Some b \<Rightarrow> dt_le t b)))"

text \<open>The condition of the comprehension in \<open>filter_scored\<close>, evaluated from left to right.\<close>

definition scored_matches :: "iso_parser \<Rightarrow> scored_filter_criteria \<Rightarrow> dict \<Rightarrow> bool cresult" where
  "scored_matches fromiso c item =
     (let search = norm_filter (fc_search c);
          low = min (fc_min_score c) (fc_max_score c); high = max (fc_min_score c) (fc_max_score c);
          status = norm_filter (if fc_status c = [] then ANY_STATUS else fc_status c);
          category = norm_filter (fc_category_contains c);
          owner = norm_filter (case fc_owner_user_id c of None \<Rightarrow> [] | Some u \<Rightarrow> u);
          score = int_or_zero (dget item ''score'') in
      if (search = [] \<or> contains_sub (search_text item) search) \<and>
         low \<le> score \<and> score \<le> high \<and>
         (status = ANY_STATUS \<or> norm_filter (str_or_empty (dget item ''status'')) = status) \<and>
         (category = [] \<or> contains_sub (lower (str_or_empty (dget item ''category''))) category) \<and>
         owner_matches item (if owner = [] then None else Some owner) (fc_owner_unassigned c)
      then identified_between fromiso item (fc_identified_from c) (fc_identified_to c) else Inr False)"

fun filter_result :: "('a \<Rightarrow> bool cresult) \<Rightarrow> 'a list \<Rightarrow> 'a list cresult" where
  "filter_result P [] = Inr []"
| "filter_result P (x # xs) =
     rbind (P x) (\<lambda>keep. rbind (filter_result P xs) (\<lambda>ys. Inr (if keep then x # ys else ys)))"

definition filter_scored :: "iso_parser \<Rightarrow> dict list \<Rightarrow> scored_filter_criteria \<Rightarrow> dict list cresult" where
  "filter_scored fromiso items criteria = filter_result (scored_matches fromiso criteria) items"

subsection \<open>The report\<close>

definition SCORE_BUCKETS :: "(string \<times> int option) list" where
  "SCORE_BUCKETS = [(''0-4'', Some 4), (''5-9'', Some 9), (''10-14'', Some 14), (''15-19'', Some 19), (''20-25'', None)]"

definition local_score_bucket :: "int \<Rightarrow> string" where
  "local_score_bucket s =
     fst (hd (filter (\<lambda>(_, upper). case upper of None \<Rightarrow> True | Some u \<Rightarrow> s \<le> u) SCORE_BUCKETS))"

text \<open>\<open>d[key] += 1\<close> on a counter.\<close>

definition count_key :: "counts \<Rightarrow> string \<Rightarrow> counts" where
  "count_key d k = AList.update k (Suc (case map_of d k of None \<Rightarrow> 0 | Some n \<Rightarrow> n)) d"

definition counter :: "string list \<Rightarrow> counts" where
  "counter ks = foldl count_key [] ks"

definition local_scored_report :: "iso_parser \<Rightarrow> dict list \<Rightarrow> dict \<Rightarrow> score_report cresult" where
  "local_scored_report fromiso items filters =
     rbind (criteria_from_report_filters fromiso filters) (\<lambda>criteria.
     rbind (filter_scored fromiso items criteria) (\<lambda>filtered.
     let scores = map (\<lambda>x. int_or_zero (dget x ''score'')) filtered;
         buckets = foldl (\<lambda>d s. count_key d (local_score_bucket s)) (map (\<lambda>(label, _). (label, 0)) SCORE_BUCKETS) scores in
     Inr \<lparr>sr_total = length filtered, sr_project_total = length items,
          sr_min_score = min_of scores, sr_max_score = max_of scores, sr_avg_score = avg_of scores,
          sr_status_counts = counter (map (\<lambda>x. label_or ''concept'' (dget x ''status'')) filtered),
          sr_category_counts = counter (map (\<lambda>x. label_or ''(none)'' (dget x ''category'')) filtered),
          sr_owner_counts = counter (map (\<lambda>x. label_or ''(none)'' (dget x ''owner_user_id'')) filtered),
          sr_score_buckets = buckets\<rparr>))"

text \<open>A project that exists only locally has no remote.\<close>

definition remote_for_project :: "'r option \<Rightarrow> string \<Rightarrow> 'r option" where
  "remote_for_project remote project_id = (if starts_with project_id ''local-'' then None else remote)"

definition scored_report ::
  "iso_parser \<Rightarrow> (string \<Rightarrow> dict \<Rightarrow> remote_error + score_report) option \<Rightarrow> string \<Rightarrow> string \<Rightarrow> dict \<Rightarrow> ldb \<Rightarrow>
     remote_error + score_report cresult" where
  "scored_report fromiso remote_report table project_id filters db =
     (case remote_for_project remote_report project_id of
        Some ask \<Rightarrow> rbind (ask project_id filters) (\<lambda>r. Inr (Inr r))
      | None \<Rightarrow> Inr (rbind (list_scored_entities project_id table db) (\<lambda>items.
          local_scored_report fromiso items filters)))"

section \<open>The local report is the server's\<close>

text \<open>How often each label occurs, and nothing for labels that do not.\<close>

definition tally :: "string multiset \<Rightarrow> string \<Rightarrow> nat option" where
  "tally M l = (if count M l = 0 then None else Some (count M l))"

lemma count_where_count: "count_where (\<lambda>x. f x = l) xs = count (mset (map f xs)) l"
  by (induction xs) (simp_all add: count_where_def)

lemma count_keys:
  "map_of (foldl count_key d ks) l =
    (case map_of d l of None \<Rightarrow> tally (mset ks) l | Some n \<Rightarrow> Some (n + count (mset ks) l))"
  by (induction ks arbitrary: d) (auto simp: tally_def count_key_def update_conv' split: option.splits if_splits)

lemma map_of_counter: "map_of (counter ks) = tally (mset ks)"
  by (rule ext) (simp add: counter_def count_keys)

lemma map_of_updates:
  "distinct (map fst xs) \<Longrightarrow> map_of (foldl (\<lambda>d (k, n). AList.update k n d) d xs) l =
    (case map_of xs l of Some n \<Rightarrow> Some n | None \<Rightarrow> map_of d l)"
proof (induction xs arbitrary: d)
  case (Cons x xs)
  obtain k n where x: "x = (k, n)" by (cases x)
  have "map_of xs k = None" using Cons.prems by (simp add: x map_of_eq_None_iff)
  then show ?case using Cons by (cases "l = k") (simp_all add: x update_conv' split: option.split)
qed simp

lemma map_of_counts_by:
  assumes inj: "inj_on label (column ` set rows)"
  shows "map_of (counts_by column label rows) = tally (mset (map (\<lambda>r. label (column r)) rows))"
proof
  fix l
  let ?gs = "map (\<lambda>(v, n). (label v, n)) (group_count column rows)"
  have keys: "map fst ?gs = map label (firsts (map column rows))"
    by (simp add: group_count_def o_def case_prod_beta)
  then have dist: "distinct (map fst ?gs)" using inj by (simp add: distinct_map)
  have "counts_by column label rows = foldl (\<lambda>d (k, n). AList.update k n d) [] ?gs"
    by (simp add: counts_by_def foldl_map case_prod_unfold)
  then have lookup: "map_of (counts_by column label rows) l = map_of ?gs l"
    using map_of_updates [OF dist, of "[]" l] by (simp split: option.splits)
  show "map_of (counts_by column label rows) l = tally (mset (map (\<lambda>r. label (column r)) rows)) l"
  proof (cases "\<exists>r \<in> set rows. label (column r) = l")
    case True
    then obtain r where r: "r \<in> set rows" "label (column r) = l" by blast
    have "(column x = column r) = (label (column x) = l)" if "x \<in> set rows" for x
      using inj r that by (auto dest: inj_onD)
    then have same: "count_where (\<lambda>x. column x = column r) rows = count_where (\<lambda>x. label (column x) = l) rows"
      unfolding count_where_def by (intro arg_cong [of _ _ length] filter_cong) simp_all
    have "(l, count_where (\<lambda>x. column x = column r) rows) \<in> set ?gs" using r by (force simp: group_count_def)
    then have "map_of ?gs l = Some (count_where (\<lambda>x. label (column x) = l) rows)"
      using dist by (simp add: same map_of_eq_Some_iff)
    moreover have "count_where (\<lambda>x. label (column x) = l) rows \<noteq> 0" using r by (auto simp: count_where_zero_iff)
    ultimately show ?thesis by (simp add: lookup tally_def count_where_count)
  next
    case False
    then have "map_of ?gs l = None" using keys by (force simp: map_of_eq_None_iff group_count_def)
    moreover have "count_where (\<lambda>x. label (column x) = l) rows = 0" using False by (auto simp: count_where_zero_iff)
    ultimately show ?thesis by (simp add: lookup tally_def count_where_count)
  qed
qed

lemma local_score_bucket_eq: "local_score_bucket s = score_bucket s"
  by (simp add: local_score_bucket_def score_bucket_def SCORE_BUCKETS_def)

text \<open>What a report says, whatever the order in which it lists its groups.\<close>

definition same_report :: "score_report \<Rightarrow> score_report \<Rightarrow> bool" where
  "same_report a b \<longleftrightarrow>
     sr_total a = sr_total b \<and> sr_project_total a = sr_project_total b \<and> sr_min_score a = sr_min_score b \<and>
     sr_max_score a = sr_max_score b \<and> sr_avg_score a = sr_avg_score b \<and>
     map_of (sr_status_counts a) = map_of (sr_status_counts b) \<and>
     map_of (sr_category_counts a) = map_of (sr_category_counts b) \<and>
     map_of (sr_owner_counts a) = map_of (sr_owner_counts b) \<and>
     map_of (sr_score_buckets a) = map_of (sr_score_buckets b)"

text \<open>What a report reads of an item, on the server and in the local copy.\<close>

type_synonym report_key = "string \<times> string \<times> string \<times> int"

definition row_key :: "row \<Rightarrow> report_key" where
  "row_key r = (label_or ''concept'' (r ''status''), label_or ''(none)'' (r ''category''),
     label_or ''(none)'' (r ''owner_user_id''), int_col r ''score'')"

definition item_key :: "dict \<Rightarrow> report_key" where
  "item_key x = (label_or ''concept'' (dget x ''status''), label_or ''(none)'' (dget x ''category''),
     label_or ''(none)'' (dget x ''owner_user_id''), int_or_zero (dget x ''score''))"

lemma map_keys:
  "map (\<lambda>r. label_or ''concept'' (r ''status'')) rows = map fst (map row_key rows)"
  "map (\<lambda>r. label_or ''(none)'' (r ''category'')) rows = map (fst \<circ> snd) (map row_key rows)"
  "map (\<lambda>r. label_or ''(none)'' (r ''owner_user_id'')) rows = map (fst \<circ> snd \<circ> snd) (map row_key rows)"
  "map (\<lambda>r. int_col r ''score'') rows = map (snd \<circ> snd \<circ> snd) (map row_key rows)"
  "map (\<lambda>x. label_or ''concept'' (dget x ''status'')) items = map fst (map item_key items)"
  "map (\<lambda>x. label_or ''(none)'' (dget x ''category'')) items = map (fst \<circ> snd) (map item_key items)"
  "map (\<lambda>x. label_or ''(none)'' (dget x ''owner_user_id'')) items = map (fst \<circ> snd \<circ> snd) (map item_key items)"
  "map (\<lambda>x. int_or_zero (dget x ''score'')) items = map (snd \<circ> snd \<circ> snd) (map item_key items)"
  by (simp_all add: row_key_def item_key_def)

lemma mset_eq_stats:
  assumes "mset xs = mset ys"
  shows "min_of xs = min_of ys" "max_of xs = max_of ys" "avg_of xs = avg_of ys"
proof -
  have "sum_list xs = sum_list ys" using assms by (metis sum_mset_sum_list)
  moreover have "xs = [] \<longleftrightarrow> ys = []" using assms by (metis mset_zero_iff)
  ultimately show "min_of xs = min_of ys" "max_of xs = max_of ys" "avg_of xs = avg_of ys"
    using mset_eq_setD [OF assms] mset_eq_length [OF assms] by (simp_all add: min_of_def max_of_def avg_of_def)
qed

text \<open>No label stands for two values of a column.\<close>

definition labels_distinct :: "row list \<Rightarrow> bool" where
  "labels_distinct rows \<longleftrightarrow>
     inj_on (label_or ''concept'') ((\<lambda>r. r ''status'') ` set rows) \<and>
     inj_on (label_or ''(none)'') ((\<lambda>r. r ''category'') ` set rows) \<and>
     inj_on (label_or ''(none)'') ((\<lambda>r. r ''owner_user_id'') ` set rows)"

lemma labels_distinct_subset: "labels_distinct rows \<Longrightarrow> set rows' \<subseteq> set rows \<Longrightarrow> labels_distinct rows'"
  unfolding labels_distinct_def by (meson image_mono inj_on_subset)

lemma distinct_updates:
  "distinct (map fst d) \<Longrightarrow> distinct (map fst (foldl (\<lambda>d (v, n). AList.update (label v) n d) d gs))"
  by (induction gs arbitrary: d) (simp_all add: distinct_update case_prod_beta)

lemma bucket_counts:
  assumes "mset (map f rows) = mset scores"
  shows "map_of (foldl (\<lambda>d (k, n). AList.update k n d) EMPTY_SCORE_BUCKETS (counts_by (\<lambda>r. score_bucket (f r)) (\<lambda>b. b) rows)) =
    map_of (foldl (\<lambda>d s. count_key d (local_score_bucket s)) (map (\<lambda>(label, _). (label, 0)) SCORE_BUCKETS) scores)"
proof
  fix l
  let ?M = "mset (map score_bucket scores)"
  have M: "mset (map (\<lambda>r. score_bucket (f r)) rows) = ?M"
    using arg_cong [OF assms, of "image_mset score_bucket"] by (simp add: multiset.map_comp o_def)
  have "distinct (map fst (counts_by (\<lambda>r. score_bucket (f r)) (\<lambda>b. b) rows))"
    unfolding counts_by_def by (rule distinct_updates) simp
  moreover have "map_of (counts_by (\<lambda>r. score_bucket (f r)) (\<lambda>b. b) rows) = tally ?M"
    using map_of_counts_by [of "\<lambda>b. b" "\<lambda>r. score_bucket (f r)" rows] by (simp only: M inj_on_id2)
  ultimately have server: "map_of (foldl (\<lambda>d (k, n). AList.update k n d) EMPTY_SCORE_BUCKETS
      (counts_by (\<lambda>r. score_bucket (f r)) (\<lambda>b. b) rows)) l = (case tally ?M l of Some n \<Rightarrow> Some n | None \<Rightarrow> map_of EMPTY_SCORE_BUCKETS l)"
    by (simp add: map_of_updates)
  have empty: "map (\<lambda>(label, _). (label, 0)) SCORE_BUCKETS = EMPTY_SCORE_BUCKETS"
    by (simp add: SCORE_BUCKETS_def EMPTY_SCORE_BUCKETS_def)
  have "foldl (\<lambda>d s. count_key d (local_score_bucket s)) EMPTY_SCORE_BUCKETS scores =
      foldl count_key EMPTY_SCORE_BUCKETS (map score_bucket scores)"
    by (simp add: foldl_map local_score_bucket_eq)
  then have client: "map_of (foldl (\<lambda>d s. count_key d (local_score_bucket s)) EMPTY_SCORE_BUCKETS scores) l =
      (case map_of EMPTY_SCORE_BUCKETS l of None \<Rightarrow> tally ?M l | Some n \<Rightarrow> Some (n + count ?M l))"
    by (simp add: count_keys)
  have "map_of EMPTY_SCORE_BUCKETS l = None \<or> map_of EMPTY_SCORE_BUCKETS l = Some 0"
    by (simp add: EMPTY_SCORE_BUCKETS_def)
  then show "map_of (foldl (\<lambda>d (k, n). AList.update k n d) EMPTY_SCORE_BUCKETS
      (counts_by (\<lambda>r. score_bucket (f r)) (\<lambda>b. b) rows)) l =
    map_of (foldl (\<lambda>d s. count_key d (local_score_bucket s)) (map (\<lambda>(label, _). (label, 0)) SCORE_BUCKETS) scores) l"
    unfolding empty server client by (auto simp: tally_def)
qed

subsection \<open>The two filters\<close>

lemma filter_result_pure: "(\<And>x. x \<in> set xs \<Longrightarrow> P x = Inr (Q x)) \<Longrightarrow> filter_result P xs = Inr (filter Q xs)"
  by (induction xs) simp_all

text \<open>The score filter of a report request.\<close>

definition score_filters :: "int \<Rightarrow> int \<Rightarrow> dict" where
  "score_filters lo hi = [(''min_score'', VInt lo), (''max_score'', VInt hi)]"

lemma local_score_filter:
  assumes "hi \<noteq> 0"
  shows "\<exists>c. criteria_from_report_filters fromiso (score_filters lo hi) = Inr c \<and>
    filter_scored fromiso items c =
      Inr (filter (\<lambda>x. min lo hi \<le> int_or_zero (dget x ''score'') \<and> int_or_zero (dget x ''score'') \<le> max lo hi) items)"
proof -
  have n: "norm_filter [] = []" "norm_filter ANY_STATUS = ANY_STATUS" "strip [] = []" "ANY_STATUS \<noteq> []" by code_simp+
  have lo: "int_or (VInt lo) 0 = Inr lo" by (simp add: int_or_def cint_def py_int_def)
  have hi: "int_or (VInt hi) m = Inr hi" for m using assms by (simp add: int_or_def cint_def py_int_def)
  have d: "parse_date fromiso [] = None" by (simp add: parse_date_def n)
  let ?c = "\<lparr>fc_search = [], fc_min_score = lo, fc_max_score = hi, fc_status = ANY_STATUS, fc_category_contains = [],
    fc_owner_user_id = None, fc_owner_unassigned = False, fc_identified_from = None, fc_identified_to = None\<rparr>"
  have c: "criteria_from_report_filters fromiso (score_filters lo hi) = Inr ?c"
    by (simp add: criteria_from_report_filters_def score_filters_def dget_Cons lo hi d str_or_empty_def)
  have "scored_matches fromiso ?c x =
      Inr (min lo hi \<le> int_or_zero (dget x ''score'') \<and> int_or_zero (dget x ''score'') \<le> max lo hi)" for x
    by (simp add: scored_matches_def n owner_matches_def identified_between_def Let_def)
  then have "filter_scored fromiso items ?c = Inr (filter
      (\<lambda>x. min lo hi \<le> int_or_zero (dget x ''score'') \<and> int_or_zero (dget x ''score'') \<le> max lo hi) items)"
    unfolding filter_scored_def by (rule filter_result_pure)
  with c show ?thesis by blast
qed

lemma server_score_filter:
  assumes "kind \<in> {''risk'', ''opportunity''}"
  shows "apply_item_filters d (no_filters\<lparr>if_item_type := Some kind, if_min_score := Some lo, if_max_score := Some hi\<rparr>) r \<longleftrightarrow>
    r ''is_deleted'' = VBool False \<and> r ''type'' = VStr kind \<and> (\<exists>s. r ''score'' = VInt s \<and> min lo hi \<le> s \<and> s \<le> max lo hi)"
proof -
  have "strip (lower ''risk'') = ''risk''" "strip (lower ''opportunity'') = ''opportunity''" by code_simp+
  then have k: "strip (lower kind) = kind" "kind \<noteq> []" using assms by auto
  have n: "strip [] = []" by code_simp
  show ?thesis
    by (simp add: apply_item_filters_def no_filters_def normalize_score_range_def text_or_empty_def Let_def k n
        status_condition_def csv_list_def in_date_range_def)
       (cases "r ''score''"; auto simp: score_at_least_def score_at_most_def)
qed

lemma server_kind_filter:
  assumes "kind \<in> {''risk'', ''opportunity''}"
  shows "apply_item_filters d (no_filters\<lparr>if_item_type := Some kind, if_status := None\<rparr>) r \<longleftrightarrow>
    r ''is_deleted'' = VBool False \<and> r ''type'' = VStr kind"
proof -
  have "strip (lower ''risk'') = ''risk''" "strip (lower ''opportunity'') = ''opportunity''" by code_simp+
  then have k: "strip (lower kind) = kind" "kind \<noteq> []" using assms by auto
  have n: "strip [] = []" by code_simp
  show ?thesis
    by (simp add: apply_item_filters_def no_filters_def normalize_score_range_def text_or_empty_def Let_def k n
        status_condition_def csv_list_def in_date_range_def score_at_least_def score_at_most_def)
qed

abbreviation (input) key_within :: "int \<Rightarrow> int \<Rightarrow> report_key \<Rightarrow> bool" where
  "key_within lo hi k \<equiv> min lo hi \<le> snd (snd (snd k)) \<and> snd (snd (snd k)) \<le> max lo hi"

lemma server_rows:
  assumes "db_inv db" "kind \<in> {''risk'', ''opportunity''}"
  shows "filter (apply_item_filters d (no_filters\<lparr>if_item_type := Some kind, if_min_score := Some lo, if_max_score := Some hi\<rparr>))
      (project_rows db Item p) = filter (\<lambda>r. key_within lo hi (row_key r)) (live_of_kind db p kind)"
proof -
  have "\<exists>s. r ''score'' = VInt s" if "r \<in> set (project_rows db Item p)" for r
    using that db_invD(4) [OF assms(1), of r Item]
    by (auto simp: project_rows_def row_ok_def score_ok_def scored_model_def)
  then have "(\<exists>s. r ''score'' = VInt s \<and> min lo hi \<le> s \<and> s \<le> max lo hi) \<longleftrightarrow> key_within lo hi (row_key r)"
    if "r \<in> set (project_rows db Item p)" for r
    using that by (fastforce simp: row_key_def int_col_def)
  then show ?thesis unfolding live_of_kind_def filter_filter
    by (intro filter_cong refl) (simp only: server_score_filter [OF assms(2)] conj_ac)
qed

lemma reports_of_same_items:
  assumes keys: "mset (map item_key items) = mset (map row_key rows)" and labels: "labels_distinct rows"
    and rep: "sr_total rep = length items" "sr_project_total rep = n"
      "sr_min_score rep = min_of (map (\<lambda>x. int_or_zero (dget x ''score'')) items)"
      "sr_max_score rep = max_of (map (\<lambda>x. int_or_zero (dget x ''score'')) items)"
      "sr_avg_score rep = avg_of (map (\<lambda>x. int_or_zero (dget x ''score'')) items)"
      "sr_status_counts rep = counter (map (\<lambda>x. label_or ''concept'' (dget x ''status'')) items)"
      "sr_category_counts rep = counter (map (\<lambda>x. label_or ''(none)'' (dget x ''category'')) items)"
      "sr_owner_counts rep = counter (map (\<lambda>x. label_or ''(none)'' (dget x ''owner_user_id'')) items)"
      "sr_score_buckets rep = foldl (\<lambda>d s. count_key d (local_score_bucket s)) (map (\<lambda>(label, _). (label, 0)) SCORE_BUCKETS)
        (map (\<lambda>x. int_or_zero (dget x ''score'')) items)"
  shows "same_report rep \<lparr>sr_total = length rows, sr_project_total = n,
       sr_min_score = min_of (map (\<lambda>r. int_col r ''score'') rows), sr_max_score = max_of (map (\<lambda>r. int_col r ''score'') rows),
       sr_avg_score = avg_of (map (\<lambda>r. int_col r ''score'') rows),
       sr_status_counts = counts_by (\<lambda>r. r ''status'') (label_or ''concept'') rows,
       sr_category_counts = counts_by (\<lambda>r. r ''category'') (label_or ''(none)'') rows,
       sr_owner_counts = counts_by (\<lambda>r. r ''owner_user_id'') (label_or ''(none)'') rows,
       sr_score_buckets = foldl (\<lambda>d (k, n). AList.update k n d) EMPTY_SCORE_BUCKETS
         (counts_by (\<lambda>r. score_bucket (int_col r ''score'')) (\<lambda>b. b) rows)\<rparr>"
proof -
  have image: "mset (map g (map item_key items)) = mset (map g (map row_key rows))" for g :: "report_key \<Rightarrow> 'a"
    using arg_cong [OF keys, of "image_mset g"] by (simp only: mset_map)
  have len: "length items = length rows" using mset_eq_length [OF keys] by simp
  have scores: "mset (map (\<lambda>x. int_or_zero (dget x ''score'')) items) = mset (map (\<lambda>r. int_col r ''score'') rows)"
    unfolding map_keys by (rule image)
  have texts: "tally (mset (map (\<lambda>x. label_or ''concept'' (dget x ''status'')) items)) =
      tally (mset (map (\<lambda>r. label_or ''concept'' (r ''status'')) rows))"
    "tally (mset (map (\<lambda>x. label_or ''(none)'' (dget x ''category'')) items)) =
      tally (mset (map (\<lambda>r. label_or ''(none)'' (r ''category'')) rows))"
    "tally (mset (map (\<lambda>x. label_or ''(none)'' (dget x ''owner_user_id'')) items)) =
      tally (mset (map (\<lambda>r. label_or ''(none)'' (r ''owner_user_id'')) rows))"
    unfolding map_keys by (rule arg_cong [of _ _ tally], rule image)+
  show ?thesis
    unfolding same_report_def rep score_report.simps map_of_counter texts len
      mset_eq_stats [OF scores] bucket_counts [OF scores [symmetric]]
    using labels by (simp only: labels_distinct_def map_of_counts_by simp_thms)
qed


definition report_store :: ldb where
  "report_store = \<lparr>l_rows = (\<lambda>_. [])(''risks'' := [[(''id'', VStr ''r''), (''project_id'', VStr ''p''), (''title'', VStr ''Flood''),
       (''probability'', VInt 2), (''impact'', VInt 4), (''status'', VStr ''active''), (''is_deleted'', VInt 0)]]),
     l_outbox = [], l_sync_state = []\<rparr>"


end
