(* ===== verification/Client_Api.thy ===== *)
theory Client_Api
  imports Client_Entities Client_Sync
begin

section \<open>The HTTP client (adapters/remote_api/rest_api_client.py, utils/urls.py)\<close>

text \<open>
  \<open>ApiBackend\<close>: requests with the bearer token of the session, its renewal after a 401, the checks
  of replies, and the endpoints the client calls. The network is the argument \<open>ae_send\<close>: what a
  request is answered, given the requests sent before. Clients of several threads share the
  authentication state behind a lock; \<open>ae_meanwhile\<close> is what the others do to it between a 401 and
  taking the lock. \<open>urlparse\<close>, the JSON decoder and base64 are arguments; where they raise they give
  nothing. Replies are bytes, one character each.
\<close>

subsection \<open>URLs\<close>

record url_parts =
  ur_scheme :: string
  ur_netloc :: string
  ur_username :: "string option"
  ur_password :: "string option"
  ur_query :: string
  ur_fragment :: string
  ur_hostname :: "string option"

type_synonym url_parser = "string \<Rightarrow> url_parts option"

datatype api_exc =
    ApiFailed int string
  | ApiValueError string
  | ApiMapping cexc
  | ApiOSError string

record url_policy =
  up_allow_http_localhost :: bool
  up_allow_http_anywhere :: bool

definition has_text :: "string option \<Rightarrow> bool" where
  "has_text v = (case v of None \<Rightarrow> False | Some s \<Rightarrow> s \<noteq> [])"

definition rstrip_slash :: "string \<Rightarrow> string" where
  "rstrip_slash s = rev (dropWhile (\<lambda>c. c = CHR ''/'') (rev s))"

definition LOCAL_HOSTS :: "string list" where
  "LOCAL_HOSTS = [''localhost'', ''127.0.0.1'', ''::1'']"

definition validate_base_url :: "url_parser \<Rightarrow> string \<Rightarrow> url_policy \<Rightarrow> api_exc + string" where
  "validate_base_url urlparse base_url policy =
    (let url = rstrip_slash (strip base_url) in
     if url = [] then Inl (ApiValueError ''base_url must not be empty'')
     else if list_ex is_space url then Inl (ApiValueError ''base_url must not contain whitespace'')
     else case urlparse url of
       None \<Rightarrow> Inl (ApiValueError ''invalid URL'')
     | Some parsed \<Rightarrow>
         if ur_scheme parsed \<notin> {''http'', ''https''} then Inl (ApiValueError ''base_url must start with http:// or https://'')
         else if ur_netloc parsed = [] then Inl (ApiValueError ''base_url must include a host (e.g. https://example.com)'')
         else if has_text (ur_username parsed) \<or> has_text (ur_password parsed)
         then Inl (ApiValueError ''base_url must not include embedded credentials'')
         else if ur_query parsed \<noteq> [] \<or> ur_fragment parsed \<noteq> []
         then Inl (ApiValueError ''base_url must not include a query or fragment'')
         else if ur_scheme parsed = ''http'' \<and> \<not> up_allow_http_anywhere policy \<and>
             \<not> (up_allow_http_localhost policy \<and>
                 lower (case ur_hostname parsed of None \<Rightarrow> [] | Some h \<Rightarrow> h) \<in> set LOCAL_HOSTS)
         then Inl (ApiValueError ''http:// URL is not allowed'')
         else Inr url)"

text \<open>\<open>_SameOriginRedirectHandler.redirect_request\<close>: the error it raises, if it refuses.\<close>

definition redirect_refused :: "url_parser \<Rightarrow> url_parts \<Rightarrow> string \<Rightarrow> string option" where
  "redirect_refused urlparse base newurl =
    (case urlparse newurl of
       None \<Rightarrow> Some ''invalid URL''
     | Some parsed \<Rightarrow>
         if ur_scheme parsed \<noteq> [] \<and> ur_scheme parsed \<noteq> ur_scheme base then Some ''Cross-scheme redirect not allowed''
         else if ur_netloc parsed \<noteq> [] \<and> ur_netloc parsed \<noteq> ur_netloc base then Some ''Cross-origin redirect not allowed''
         else None)"

text \<open>\<open>urllib.parse.urlencode\<close>: \<open>quote_plus\<close> of the UTF-8 bytes.\<close>

definition hex_upper :: "nat \<Rightarrow> char" where
  "hex_upper n = (if n < 10 then char_of (48 + n) else char_of (55 + n))"

definition percent_byte :: "nat \<Rightarrow> string" where
  "percent_byte n = [CHR ''%'', hex_upper (n div 16), hex_upper (n mod 16)]"

definition quote_char :: "char \<Rightarrow> string" where
  "quote_char c =
    (let n = (of_char c :: nat) in
     if 48 \<le> n \<and> n \<le> 57 \<or> 65 \<le> n \<and> n \<le> 90 \<or> 97 \<le> n \<and> n \<le> 122 \<or> c \<in> set ''_.-~'' then [c]
     else if n = 32 then ''+''
     else if n < 128 then percent_byte n
     else percent_byte (192 + n div 64) @ percent_byte (128 + n mod 64))"

definition quote_plus :: "string \<Rightarrow> string" where
  "quote_plus s = concat (map quote_char s)"

definition urlencode :: "(string \<times> string) list \<Rightarrow> string" where
  "urlencode params = join_with ''&'' (map (\<lambda>(k, v). quote_plus k @ ''='' @ quote_plus v) params)"

subsection \<open>Requests and replies\<close>

datatype request_body = NoBody | JsonBody pyval | FormBody "(string \<times> string) list"

text \<open>The content type follows from the body; \<open>hr_bearer\<close> is the \<open>Authorization\<close> header.\<close>

record http_request =
  hr_method :: string
  hr_url :: string
  hr_bearer :: "string option"
  hr_body :: request_body

text \<open>A reply has its content type and body, an HTTP error its status, reason and body;
  other errors of the socket are \<open>OSError\<close>s, which no method handles.\<close>

datatype http_reply =
    Reply string string
  | HttpError int string string
  | UrlError string
  | OsError string

record auth_state =
  au_token :: "string option"
  au_refresh_token :: "string option"
  au_user_id :: "string option"
  au_is_superuser :: bool

record api_state =
  as_auth :: auth_state
  as_sent :: "http_request list"

record api_env =
  ae_base_url :: string
  ae_urlparse :: url_parser
  ae_loads :: "string \<Rightarrow> pyval option"
  ae_decode_lossy :: "string \<Rightarrow> string"
  ae_loads_text :: "string \<Rightarrow> pyval option"
  ae_b64_json :: "string \<Rightarrow> pyval option"
  ae_send :: "http_request list \<Rightarrow> http_request \<Rightarrow> http_reply"
  ae_meanwhile :: "auth_state \<Rightarrow> auth_state"

type_synonym 'a call = "api_state \<Rightarrow> (api_exc + 'a) \<times> api_state"

definition call_return :: "'a \<Rightarrow> 'a call" where
  "call_return x s = (Inr x, s)"

definition call_bind :: "'a call \<Rightarrow> ('a \<Rightarrow> 'b call) \<Rightarrow> 'b call" where
  "call_bind c f s = (case c s of (Inl x, s') \<Rightarrow> (Inl x, s') | (Inr a, s') \<Rightarrow> f a s')"

definition call_lift :: "api_exc + 'a \<Rightarrow> 'a call" where
  "call_lift r s = (r, s)"

definition MAX_RESPONSE_BYTES :: nat where "MAX_RESPONSE_BYTES = 5000000"

definition HTTP_METHODS :: "string list" where
  "HTTP_METHODS = [''GET'', ''POST'', ''PUT'', ''PATCH'', ''DELETE'']"

definition read_limited :: "int \<Rightarrow> string \<Rightarrow> api_exc + string" where
  "read_limited status raw =
    (if MAX_RESPONSE_BYTES < length raw then Inl (ApiFailed status ''Response too large'') else Inr raw)"

definition load_json :: "api_env \<Rightarrow> string \<Rightarrow> api_exc + pyval" where
  "load_json e raw = (case ae_loads e raw of None \<Rightarrow> Inl (ApiFailed 0 ''Server returned invalid JSON'') | Some v \<Rightarrow> Inr v)"

definition http_error_detail :: "api_env \<Rightarrow> int \<Rightarrow> string \<Rightarrow> string \<Rightarrow> api_exc + string" where
  "http_error_detail e code reason body =
    rbind (read_limited code body) (\<lambda>bytes.
    let raw = ae_decode_lossy e bytes;
        detail = (if raw = [] then VStr raw
          else case ae_loads_text e raw of
            Some (VDict payload) \<Rightarrow> if dhas payload ''detail'' then dget payload ''detail'' else VStr raw
          | _ \<Rightarrow> VStr raw) in
    Inr (if truthy detail then py_str detail else reason))"

definition http_failure :: "api_env \<Rightarrow> int \<Rightarrow> string \<Rightarrow> string \<Rightarrow> api_exc" where
  "http_failure e code reason body =
    (case http_error_detail e code reason body of Inl x \<Rightarrow> x | Inr detail \<Rightarrow> ApiFailed code detail)"

definition read_json_response :: "api_env \<Rightarrow> string \<Rightarrow> string \<Rightarrow> api_exc + pyval" where
  "read_json_response e content_type body =
    (let ct = lower (strip (hd (split_on (CHR '';'') content_type))) in
     rbind (read_limited 0 body) (\<lambda>raw.
     if raw = [] then Inr VNone
     else if ct \<noteq> ''application/json'' \<and> ct \<noteq> [] then Inl (ApiFailed 0 (''Unexpected Content-Type: '' @ ct))
     else load_json e raw))"

definition jwt_sub :: "api_env \<Rightarrow> string \<Rightarrow> string option" where
  "jwt_sub e token =
    (case split_on (CHR ''.'') token of
       _ # payload # _ \<Rightarrow>
         (case ae_b64_json e (payload @ replicate (nat (- int (length payload) mod 4)) (CHR ''='')) of
            Some (VDict d) \<Rightarrow> if truthy (dget d ''sub'') then Some (py_str (dget d ''sub'')) else None
          | _ \<Rightarrow> None)
     | _ \<Rightarrow> None)"

definition checked_request :: "api_env \<Rightarrow> http_request \<Rightarrow> api_exc + http_request" where
  "checked_request e rq =
    (case ae_urlparse e (hr_url rq) of
       None \<Rightarrow> Inl (ApiValueError ''invalid URL'')
     | Some parsed \<Rightarrow>
         if ur_scheme parsed \<notin> {''http'', ''https''} \<or> ur_netloc parsed = []
         then Inl (ApiValueError ''request URL must use HTTP or HTTPS and include a host'')
         else if has_text (ur_username parsed) \<or> has_text (ur_password parsed) \<or> ur_fragment parsed \<noteq> []
         then Inl (ApiValueError ''request URL must not include credentials or a fragment'')
         else Inr rq)"

definition build_request ::
  "api_env \<Rightarrow> string \<Rightarrow> string \<Rightarrow> request_body \<Rightarrow> bool \<Rightarrow> auth_state \<Rightarrow> api_exc + http_request" where
  "build_request e verb path body auth st =
    (let method_up = upper (strip verb);
         rq = \<lparr>hr_method = method_up, hr_url = ae_base_url e @ path, hr_bearer = (if auth then au_token st else None), hr_body = body\<rparr> in
     if \<not> starts_with path ''/'' then Inl (ApiValueError (''API path must start with '' @ repr_str ''/''))
     else if method_up \<notin> set HTTP_METHODS then Inl (ApiValueError (''Unsupported HTTP method: '' @ method_up))
     else if auth \<and> \<not> has_text (au_token st) then Inl (ApiFailed 401 ''Not logged in'')
     else checked_request e rq)"

definition open_request :: "api_env \<Rightarrow> http_request \<Rightarrow> api_state \<Rightarrow> http_reply \<times> api_state" where
  "open_request e rq s = (ae_send e (as_sent s) rq, s\<lparr>as_sent := as_sent s @ [rq]\<rparr>)"

definition cannot_reach :: "string \<Rightarrow> api_exc" where
  "cannot_reach msg = ApiFailed 0 (''Cannot reach server: '' @ msg)"

text \<open>\<open>_req\<close> with \<open>_retry_on_401=False\<close>.\<close>

definition req_once :: "api_env \<Rightarrow> string \<Rightarrow> string \<Rightarrow> request_body \<Rightarrow> bool \<Rightarrow> pyval call" where
  "req_once e verb path body auth s =
    (case build_request e verb path body auth (as_auth s) of
       Inl x \<Rightarrow> (Inl x, s)
     | Inr rq \<Rightarrow>
         (case open_request e rq s of
            (Reply ct raw, s') \<Rightarrow> (read_json_response e ct raw, s')
          | (HttpError code why raw, s') \<Rightarrow> (Inl (http_failure e code why raw), s')
          | (UrlError msg, s') \<Rightarrow> (Inl (cannot_reach msg), s')
          | (OsError msg, s') \<Rightarrow> (Inl (ApiOSError msg), s')))"

definition token_of :: "pyval \<Rightarrow> string option" where
  "token_of v = (case v of VStr t \<Rightarrow> if t = [] then None else Some t | _ \<Rightarrow> None)"

definition refresh_access_token :: "api_env \<Rightarrow> unit call" where
  "refresh_access_token e s =
    (if \<not> has_text (au_refresh_token (as_auth s)) then (Inl (ApiFailed 401 ''Missing refresh token''), s)
     else case req_once e ''POST'' ''/refresh''
              (JsonBody (VDict [(''refresh_token'', VStr (the (au_refresh_token (as_auth s))))])) False s of
       (Inl x, s') \<Rightarrow> (Inl x, s')
     | (Inr (VDict payload), s') \<Rightarrow>
         (case token_of (dget payload ''access_token'') of
            None \<Rightarrow> (Inl (ApiFailed 401 (''Refresh failed: '' @ py_str (VDict payload))), s')
          | Some token \<Rightarrow>
              (case dget payload ''refresh_token'' of
                 VNone \<Rightarrow> (Inr (), s'\<lparr>as_auth := (as_auth s')\<lparr>au_token := Some token, au_user_id := jwt_sub e token\<rparr>\<rparr>)
               | VStr rotated \<Rightarrow>
                   (Inr (), s'\<lparr>as_auth := (as_auth s')\<lparr>au_token := Some token,
                      au_refresh_token := (if rotated = [] then au_refresh_token (as_auth s') else Some rotated),
                      au_user_id := jwt_sub e token\<rparr>\<rparr>)
               | _ \<Rightarrow> (Inl (ApiFailed 0 ''Server returned an invalid rotated refresh token''), s')))
     | (Inr _, s') \<Rightarrow> (Inl (ApiFailed 0 ''Server returned an invalid refresh response''), s'))"

definition refresh_unless_rotated :: "api_env \<Rightarrow> string option \<Rightarrow> unit call" where
  "refresh_unless_rotated e used_token s =
    (if au_token (as_auth s) = used_token then refresh_access_token e s else (Inr (), s))"

text \<open>\<open>contextlib.suppress(ValueError, TypeError)\<close> around the renewal: such an error gives way to the
  failure of the first request.\<close>

definition suppress_value_error :: "api_exc \<Rightarrow> 'a call \<Rightarrow> 'a call" where
  "suppress_value_error failure c s =
    (case c s of (Inl (ApiValueError _), s') \<Rightarrow> (Inl failure, s') | r \<Rightarrow> r)"

definition req :: "api_env \<Rightarrow> string \<Rightarrow> string \<Rightarrow> request_body \<Rightarrow> bool \<Rightarrow> pyval call" where
  "req e verb path body auth s =
    (case build_request e verb path body auth (as_auth s) of
       Inl x \<Rightarrow> (Inl x, s)
     | Inr rq \<Rightarrow>
         (case open_request e rq s of
            (Reply ct raw, s') \<Rightarrow> (read_json_response e ct raw, s')
          | (UrlError msg, s') \<Rightarrow> (Inl (cannot_reach msg), s')
          | (OsError msg, s') \<Rightarrow> (Inl (ApiOSError msg), s')
          | (HttpError code why raw, s') \<Rightarrow>
              let now = s'\<lparr>as_auth := ae_meanwhile e (as_auth s')\<rparr> in
              if code = 401 \<and> auth \<and> has_text (au_refresh_token (as_auth now))
              then suppress_value_error (http_failure e code why raw)
                     (call_bind (refresh_unless_rotated e (hr_bearer rq)) (\<lambda>_. req_once e verb path body auth)) now
              else (Inl (http_failure e code why raw), now)))"

subsection \<open>The session\<close>

definition login_session :: "api_env \<Rightarrow> string \<Rightarrow> string \<Rightarrow> unit call" where
  "login_session e email password =
    call_bind (req e ''POST'' ''/login'' (FormBody [(''username'', email), (''password'', password)]) False) (\<lambda>payload s.
      case payload of
        VDict d \<Rightarrow>
          (case token_of (dget d ''access_token'') of
             None \<Rightarrow> (Inl (ApiFailed 401 (''Login failed: '' @ py_str payload)), s)
           | Some token \<Rightarrow>
               (let store = (\<lambda>r. (Inr (), s\<lparr>as_auth := (as_auth s)\<lparr>au_token := Some token, au_refresh_token := r,
                                    au_user_id := jwt_sub e token\<rparr>\<rparr>)) in
                case dget d ''refresh_token'' of
                  VNone \<Rightarrow> store None
                | VStr r \<Rightarrow> store (Some r)
                | _ \<Rightarrow> (Inl (ApiFailed 0 ''Server returned an invalid refresh token''), s)))
      | _ \<Rightarrow> (Inl (ApiFailed 0 ''Server returned an invalid login response''), s))"

definition fetch_me :: "api_env \<Rightarrow> unit call" where
  "fetch_me e s =
    (case req e ''GET'' ''/users/me'' NoBody True s of
       (Inl (ApiValueError _), s') \<Rightarrow> (Inr (), s'\<lparr>as_auth := (as_auth s')\<lparr>au_is_superuser := False\<rparr>\<rparr>)
     | (Inl x, s') \<Rightarrow> (Inl x, s')
     | (Inr (VDict d), s') \<Rightarrow>
         (Inr (), if d = [] then s' else s'\<lparr>as_auth := (as_auth s')\<lparr>au_is_superuser := truthy (dget d ''is_superuser'')\<rparr>\<rparr>)
     | (Inr _, s') \<Rightarrow> (Inr (), s'))"

definition new_auth_state :: auth_state where
  "new_auth_state = \<lparr>au_token = None, au_refresh_token = None, au_user_id = None, au_is_superuser = False\<rparr>"

text \<open>The constructor of \<open>ApiBackend\<close>: a client exists only after a login.\<close>

definition api_backend :: "api_env \<Rightarrow> string \<Rightarrow> url_policy \<Rightarrow> string \<Rightarrow> string \<Rightarrow> (api_exc + api_env) \<times> api_state" where
  "api_backend e base_url policy email password =
    (let s = \<lparr>as_auth = new_auth_state, as_sent = []\<rparr> in
     case validate_base_url (ae_urlparse e) base_url policy of
       Inl x \<Rightarrow> (Inl x, s)
     | Inr url \<Rightarrow>
         let e' = e\<lparr>ae_base_url := url\<rparr> in
         call_bind (login_session e' email password) (\<lambda>_. call_bind (fetch_me e') (\<lambda>_. call_return e')) s)"

definition fork_authenticated :: "api_state \<Rightarrow> api_state" where
  "fork_authenticated s = \<lparr>as_auth = as_auth s, as_sent = []\<rparr>"

definition register_account :: "api_env \<Rightarrow> string \<Rightarrow> url_policy \<Rightarrow> string \<Rightarrow> string \<Rightarrow> dict call" where
  "register_account e base_url policy email password s =
    (case rbind (validate_base_url (ae_urlparse e) base_url policy) (\<lambda>url.
            checked_request e \<lparr>hr_method = ''POST'', hr_url = url @ ''/register'', hr_bearer = None,
              hr_body = JsonBody (VDict [(''email'', VStr email), (''password'', VStr password)])\<rparr>) of
       Inl x \<Rightarrow> (Inl x, s)
     | Inr rq \<Rightarrow>
         (case open_request e rq s of
            (Reply ct raw, s') \<Rightarrow>
              (rbind (rbind (read_limited 0 raw) (load_json e)) (\<lambda>payload. case payload of
                 VDict d \<Rightarrow> Inr d | _ \<Rightarrow> Inl (ApiFailed 0 ''Server returned an unexpected JSON payload'')), s')
          | (HttpError code why raw, s') \<Rightarrow> (Inl (http_failure e code why raw), s')
          | (UrlError msg, s') \<Rightarrow> (Inl (cannot_reach msg), s')
          | (OsError msg, s') \<Rightarrow> (Inl (ApiOSError msg), s')))"

subsection \<open>Checked payloads\<close>

fun object_list :: "string \<Rightarrow> pyval list \<Rightarrow> api_exc + dict list" where
  "object_list item_name [] = Inr []"
| "object_list item_name (v # vs) =
    (case v of
       VDict d \<Rightarrow> rbind (object_list item_name vs) (\<lambda>ds. Inr (d # ds))
     | _ \<Rightarrow> Inl (ApiFailed 0 (''Server returned an invalid '' @ item_name @ '' record'')))"

definition require_object_list :: "string \<Rightarrow> pyval \<Rightarrow> api_exc + dict list" where
  "require_object_list item_name payload =
    (case payload of
       VNone \<Rightarrow> Inr []
     | VList vs \<Rightarrow> object_list item_name vs
     | _ \<Rightarrow> Inl (ApiFailed 0 (''Server returned an invalid '' @ item_name @ '' list'')))"

definition require_object :: "string \<Rightarrow> pyval \<Rightarrow> api_exc + dict" where
  "require_object item_name payload =
    (case payload of VDict d \<Rightarrow> Inr d | _ \<Rightarrow> Inl (ApiFailed 0 (''Server returned an invalid '' @ item_name @ '' response'')))"

definition mapped :: "'a cresult \<Rightarrow> api_exc + 'a" where
  "mapped r = (case r of Inl x \<Rightarrow> Inl (ApiMapping x) | Inr a \<Rightarrow> Inr a)"

definition object_of :: "string \<Rightarrow> (dict \<Rightarrow> dict cresult) \<Rightarrow> pyval call \<Rightarrow> dict call" where
  "object_of item_name f c = call_bind c (\<lambda>payload. call_lift (rbind (require_object item_name payload) (\<lambda>d. mapped (f d))))"

definition objects_of :: "string \<Rightarrow> (dict \<Rightarrow> dict cresult) \<Rightarrow> pyval call \<Rightarrow> dict list call" where
  "objects_of item_name f c =
    call_bind c (\<lambda>payload. call_lift (rbind (require_object_list item_name payload) (\<lambda>ds. mapped (all_mapped f ds))))"

definition ignore_reply :: "pyval call \<Rightarrow> unit call" where
  "ignore_reply c = call_bind c (\<lambda>_. call_return ())"

definition to_project :: "dict \<Rightarrow> dict cresult" where
  "to_project j =
    (if \<not> dhas j ''id'' then Inl (CKeyError ''id'')
     else Inr [(''id'', VStr (py_str (dget j ''id''))), (''name'', if dhas j ''name'' then dget j ''name'' else VStr []),
       (''description'', py_or (dget j ''description'') (VStr [])), (''created_by'', VStr (str_or_empty (dget j ''created_by'')))])"

definition str_or :: "pyval \<Rightarrow> string \<Rightarrow> pyval" where
  "str_or v dflt = VStr (if truthy v then py_str v else dflt)"

definition to_ticket :: "dict \<Rightarrow> dict cresult" where
  "to_ticket j =
    (if \<not> dhas j ''id'' then Inl (CKeyError ''id'')
     else rbind (int_or (dget j ''version'') 0) (\<lambda>version.
       Inr [(''id'', VStr (py_str (dget j ''id''))), (''project_id'', str_or (dget j ''project_id'') []),
         (''title'', str_or (dget j ''title'') []), (''description'', str_or (dget j ''description'') []),
         (''category'', str_or (dget j ''category'') ''other''), (''priority'', str_or (dget j ''priority'') ''medium''),
         (''status'', str_or (dget j ''status'') ''open''), (''reporter_email'', str_or (dget j ''reporter_email'') []),
         (''created_at'', str_or (dget j ''created_at'') []), (''updated_at'', str_or (dget j ''updated_at'') []),
         (''version'', VInt version), (''is_deleted'', VBool (truthy (dget j ''is_deleted'')))]))"

definition to_member :: "dict \<Rightarrow> dict cresult" where
  "to_member j = Inr [(''user_id'', str_or (dget j ''user_id'') []), (''email'', str_or (dget j ''email'') []),
     (''role'', str_or (dget j ''role'') []), (''is_superuser'', VBool (truthy (dget j ''is_superuser''))),
     (''created_at'', if truthy (dget j ''created_at'') then VStr (py_str (dget j ''created_at'')) else VNone)]"

subsection \<open>Endpoints\<close>

definition project_path :: "string \<Rightarrow> string \<Rightarrow> string" where
  "project_path project_id rest = ''/projects/'' @ project_id @ rest"

definition json_dict :: "dict \<Rightarrow> request_body" where
  "json_dict d = JsonBody (VDict d)"

definition build_scored_payload :: "string \<Rightarrow> int \<Rightarrow> int \<Rightarrow> dict \<Rightarrow> dict" where
  "build_scored_payload title probability impact meta =
    [(''title'', VStr title), (''probability'', VInt probability), (''impact'', VInt impact)] @
    List.map_filter (\<lambda>k. let v = dget meta k in
      if \<not> is_none v \<and> strip (py_str v) \<noteq> [] then Some (k, v) else None) SCORED_ENTITY_META_KEYS"

definition LIST_PARAMS :: "string list" where
  "LIST_PARAMS = [''search'', ''min_score'', ''max_score'', ''status'', ''category'', ''owner_user_id'',
     ''owner_unassigned'', ''from_date'', ''to_date'']"

definition build_list_qs :: "dict \<Rightarrow> string" where
  "build_list_qs kwargs =
    urlencode (List.map_filter (\<lambda>k. case dget kwargs k of
        VNone \<Rightarrow> None
      | VBool b \<Rightarrow> Some (k, if b then ''1'' else ''0'')
      | v \<Rightarrow> Some (k, py_str v)) LIST_PARAMS)"

definition with_query :: "string \<Rightarrow> dict \<Rightarrow> string" where
  "with_query path kwargs = (let qs = build_list_qs kwargs in if qs = [] then path else path @ ''?'' @ qs)"

definition list_projects_api :: "api_env \<Rightarrow> dict list call" where
  "list_projects_api e = objects_of ''project'' to_project (req e ''GET'' ''/projects'' NoBody True)"

definition create_project_api :: "api_env \<Rightarrow> string \<Rightarrow> string \<Rightarrow> dict call" where
  "create_project_api e name description =
    object_of ''project'' to_project (req e ''POST'' ''/projects''
      (json_dict [(''name'', VStr (if name = [] then ''Project'' else name)), (''description'', VStr description)]) True)"

definition delete_project_api :: "api_env \<Rightarrow> string \<Rightarrow> unit call" where
  "delete_project_api e project_id = ignore_reply (req e ''DELETE'' (''/admin/projects/'' @ project_id) NoBody True)"

text \<open>Risks and opportunities have the same six methods over \<open>/risks\<close> and \<open>/opportunities\<close>.\<close>

definition item_prefix :: "string \<Rightarrow> string" where
  "item_prefix item_type = (if item_type = ''risk'' then ''risks'' else ''opportunities'')"

definition collection :: "string \<Rightarrow> string \<Rightarrow> string" where
  "collection item_type project_id = project_path project_id (''/'' @ item_prefix item_type)"

definition list_items_api :: "string \<Rightarrow> api_env \<Rightarrow> string \<Rightarrow> dict \<Rightarrow> dict list call" where
  "list_items_api item_type e project_id filters =
    objects_of item_type scored_entity_from_mapping
      (req e ''GET'' (with_query (collection item_type project_id) filters) NoBody True)"

definition items_report_api :: "string \<Rightarrow> api_env \<Rightarrow> string \<Rightarrow> dict \<Rightarrow> dict call" where
  "items_report_api item_type e project_id filters =
    call_bind (req e ''GET'' (with_query (collection item_type project_id @ ''/report'') filters) NoBody True) (\<lambda>payload.
    if is_none payload then call_return [] else call_lift (require_object (item_type @ '' report'') payload))"

definition create_item_api :: "string \<Rightarrow> api_env \<Rightarrow> string \<Rightarrow> string \<Rightarrow> int \<Rightarrow> int \<Rightarrow> dict \<Rightarrow> dict call" where
  "create_item_api item_type e project_id title probability impact meta =
    object_of item_type scored_entity_from_mapping
      (req e ''POST'' (collection item_type project_id) (json_dict (build_scored_payload title probability impact meta)) True)"

definition update_item_api ::
  "string \<Rightarrow> api_env \<Rightarrow> string \<Rightarrow> string \<Rightarrow> string \<Rightarrow> int \<Rightarrow> int \<Rightarrow> int \<Rightarrow> dict \<Rightarrow> dict call" where
  "update_item_api item_type e project_id item_id title probability impact base_version meta =
    object_of item_type scored_entity_from_mapping
      (req e ''PATCH'' (collection item_type project_id @ ''/'' @ item_id)
        (json_dict (dset (build_scored_payload title probability impact meta) ''base_version'' (VInt base_version))) True)"

definition delete_item_api :: "string \<Rightarrow> api_env \<Rightarrow> string \<Rightarrow> string \<Rightarrow> unit call" where
  "delete_item_api item_type e project_id item_id =
    ignore_reply (req e ''DELETE'' (collection item_type project_id @ ''/'' @ item_id) NoBody True)"

text \<open>The methods of the interface, by kind.\<close>

definition list_risks_api :: "api_env \<Rightarrow> string \<Rightarrow> dict \<Rightarrow> dict list call" where
  "list_risks_api = list_items_api ''risk''"

definition risks_report_api :: "api_env \<Rightarrow> string \<Rightarrow> dict \<Rightarrow> dict call" where
  "risks_report_api = items_report_api ''risk''"

definition create_risk_api :: "api_env \<Rightarrow> string \<Rightarrow> string \<Rightarrow> int \<Rightarrow> int \<Rightarrow> dict \<Rightarrow> dict call" where
  "create_risk_api = create_item_api ''risk''"

definition update_risk_api :: "api_env \<Rightarrow> string \<Rightarrow> string \<Rightarrow> string \<Rightarrow> int \<Rightarrow> int \<Rightarrow> int \<Rightarrow> dict \<Rightarrow> dict call" where
  "update_risk_api = update_item_api ''risk''"

definition delete_risk_api :: "api_env \<Rightarrow> string \<Rightarrow> string \<Rightarrow> unit call" where
  "delete_risk_api = delete_item_api ''risk''"

definition list_opportunities_api :: "api_env \<Rightarrow> string \<Rightarrow> dict \<Rightarrow> dict list call" where
  "list_opportunities_api = list_items_api ''opportunity''"

definition opportunities_report_api :: "api_env \<Rightarrow> string \<Rightarrow> dict \<Rightarrow> dict call" where
  "opportunities_report_api = items_report_api ''opportunity''"

definition create_opportunity_api :: "api_env \<Rightarrow> string \<Rightarrow> string \<Rightarrow> int \<Rightarrow> int \<Rightarrow> dict \<Rightarrow> dict call" where
  "create_opportunity_api = create_item_api ''opportunity''"

definition update_opportunity_api :: "api_env \<Rightarrow> string \<Rightarrow> string \<Rightarrow> string \<Rightarrow> int \<Rightarrow> int \<Rightarrow> int \<Rightarrow> dict \<Rightarrow> dict call" where
  "update_opportunity_api = update_item_api ''opportunity''"

definition delete_opportunity_api :: "api_env \<Rightarrow> string \<Rightarrow> string \<Rightarrow> unit call" where
  "delete_opportunity_api = delete_item_api ''opportunity''"

definition list_assessments_api :: "api_env \<Rightarrow> string \<Rightarrow> string \<Rightarrow> string \<Rightarrow> dict list call" where
  "list_assessments_api e project_id item_type item_id =
    objects_of ''assessment'' assessment_from_mapping
      (req e ''GET'' (collection item_type project_id @ ''/'' @ item_id @ ''/assessments'') NoBody True)"

definition upsert_my_assessment_api ::
  "api_env \<Rightarrow> string \<Rightarrow> string \<Rightarrow> string \<Rightarrow> int \<Rightarrow> int \<Rightarrow> string \<Rightarrow> int \<Rightarrow> dict call" where
  "upsert_my_assessment_api e project_id item_type item_id probability impact notes base_version =
    object_of ''assessment'' assessment_from_mapping
      (req e ''PUT'' (collection item_type project_id @ ''/'' @ item_id @ ''/assessment'')
        (json_dict [(''probability'', VInt probability), (''impact'', VInt impact), (''notes'', VStr notes),
          (''base_version'', VInt base_version)]) True)"

definition pull_body :: "string \<Rightarrow> pull_request \<Rightarrow> dict" where
  "pull_body project_id rq =
    [(''project_id'', VStr project_id), (''since_sequence'', VInt (rq_since rq))] @
    (case rq_snapshot rq of None \<Rightarrow> [] | Some n \<Rightarrow> [(''snapshot_sequence'', VInt n)]) @
    (case rq_limit rq of None \<Rightarrow> []
     | Some n \<Rightarrow> (''limit_per_entity'', VInt n) #
         (case rq_cursors rq of None \<Rightarrow> [] | Some c \<Rightarrow> if c = [] then [] else [(''cursors'', VDict c)]))"

definition sync_pull_api :: "api_env \<Rightarrow> string \<Rightarrow> pull_request \<Rightarrow> dict call" where
  "sync_pull_api e project_id rq =
    object_of ''synchronization pull'' Inr
      (req e ''POST'' (project_path project_id ''/sync/pull'') (json_dict (pull_body project_id rq)) True)"

definition sync_push_api :: "api_env \<Rightarrow> string \<Rightarrow> dict list \<Rightarrow> dict call" where
  "sync_push_api e project_id changes =
    object_of ''synchronization push'' Inr
      (req e ''POST'' (project_path project_id ''/sync/push'')
        (json_dict [(''project_id'', VStr project_id), (''changes'', VList (map VDict changes))]) True)"

definition create_snapshot_api :: "api_env \<Rightarrow> string \<Rightarrow> string \<Rightarrow> dict call" where
  "create_snapshot_api e project_id kind =
    object_of ''snapshot'' Inr (req e ''POST'' (project_path project_id
      (''/snapshots'' @ (if kind = [] then [] else ''?'' @ urlencode [(''kind'', kind)]))) NoBody True)"

definition latest_snapshot_api :: "api_env \<Rightarrow> string \<Rightarrow> string \<Rightarrow> dict call" where
  "latest_snapshot_api e project_id kind =
    object_of ''latest snapshot'' Inr
      (req e ''GET'' (project_path project_id (''/snapshots/latest?'' @ urlencode [(''kind'', kind)])) NoBody True)"

definition top_history_api :: "api_env \<Rightarrow> string \<Rightarrow> string \<Rightarrow> int \<Rightarrow> string \<Rightarrow> string \<Rightarrow> dict list call" where
  "top_history_api e project_id kind limit from_ts to_ts =
    objects_of ''top-history'' Inr (req e ''GET'' (project_path project_id (''/top-history?'' @
      urlencode ([(''kind'', kind), (''limit'', int_str limit)] @
        (if from_ts = [] then [] else [(''from_ts'', from_ts)]) @ (if to_ts = [] then [] else [(''to_ts'', to_ts)])))) NoBody True)"

definition list_actions_api :: "api_env \<Rightarrow> string \<Rightarrow> dict list call" where
  "list_actions_api e project_id =
    objects_of ''action'' action_from_mapping (req e ''GET'' (project_path project_id ''/actions'') NoBody True)"

definition text_or_none :: "string \<Rightarrow> pyval" where
  "text_or_none s = (if s = [] then VNone else VStr s)"

definition optional_text :: "string option \<Rightarrow> pyval" where
  "optional_text s = (case s of None \<Rightarrow> VNone | Some t \<Rightarrow> VStr t)"

definition create_action_api ::
  "api_env \<Rightarrow> string \<Rightarrow> string \<Rightarrow> string \<Rightarrow> string \<Rightarrow> string \<Rightarrow> string \<Rightarrow> string \<Rightarrow> string option \<Rightarrow> dict call" where
  "create_action_api e project_id target_type target_id kind title description status owner_user_id =
    object_of ''action'' action_from_mapping (req e ''POST'' (project_path project_id ''/actions'')
      (json_dict ([(''kind'', VStr kind), (''title'', VStr title), (''description'', text_or_none description),
          (''owner_user_id'', optional_text owner_user_id)] @
        (if status = [] then [] else [(''status'', VStr status)]) @
        [(if target_type = ''risk'' then ''risk_id'' else ''opportunity_id'', VStr target_id)])) True)"

definition update_action_api ::
  "api_env \<Rightarrow> string \<Rightarrow> string \<Rightarrow> int \<Rightarrow> string \<Rightarrow> string \<Rightarrow> string \<Rightarrow> string \<Rightarrow> string \<Rightarrow> string \<Rightarrow> string option \<Rightarrow> dict call" where
  "update_action_api e project_id action_id base_version target_type target_id kind title description status owner_user_id =
    object_of ''action'' action_from_mapping (req e ''PATCH'' (project_path project_id (''/actions/'' @ action_id))
      (json_dict [(''base_version'', VInt base_version), (''kind'', VStr kind), (''title'', VStr title),
        (''description'', text_or_none description), (''status'', VStr status), (''owner_user_id'', optional_text owner_user_id),
        (''risk_id'', if target_type = ''risk'' then VStr target_id else VNone),
        (''opportunity_id'', if target_type = ''risk'' then VNone else VStr target_id)]) True)"

definition list_members_api :: "api_env \<Rightarrow> string \<Rightarrow> dict list call" where
  "list_members_api e project_id =
    objects_of ''member'' to_member (req e ''GET'' (project_path project_id ''/members'') NoBody True)"

definition add_member_api :: "api_env \<Rightarrow> string \<Rightarrow> string \<Rightarrow> string \<Rightarrow> unit call" where
  "add_member_api e project_id user_email role =
    ignore_reply (req e ''POST'' (project_path project_id ''/members'')
      (json_dict [(''user_email'', VStr user_email), (''role'', VStr role)]) True)"

definition remove_member_api :: "api_env \<Rightarrow> string \<Rightarrow> string \<Rightarrow> unit call" where
  "remove_member_api e project_id member_user_id =
    ignore_reply (req e ''DELETE'' (project_path project_id (''/members/'' @ member_user_id)) NoBody True)"

definition list_helpdesk_tickets_api :: "api_env \<Rightarrow> string \<Rightarrow> dict list call" where
  "list_helpdesk_tickets_api e project_id =
    objects_of ''help-desk ticket'' to_ticket (req e ''GET'' (project_path project_id ''/helpdesk/tickets'') NoBody True)"

definition create_helpdesk_ticket_api ::
  "api_env \<Rightarrow> string \<Rightarrow> string \<Rightarrow> string \<Rightarrow> string \<Rightarrow> string \<Rightarrow> string \<Rightarrow> dict call" where
  "create_helpdesk_ticket_api e project_id title description category priority reporter_email =
    object_of ''help-desk ticket'' to_ticket (req e ''POST'' (project_path project_id ''/helpdesk/tickets'')
      (json_dict [(''title'', VStr title), (''description'', VStr description), (''category'', VStr category),
        (''priority'', VStr priority), (''reporter_email'', VStr reporter_email)]) True)"

definition update_helpdesk_ticket_api ::
  "api_env \<Rightarrow> string \<Rightarrow> string \<Rightarrow> int \<Rightarrow> (string \<times> string option) list \<Rightarrow> dict call" where
  "update_helpdesk_ticket_api e project_id ticket_id base_version changes =
    object_of ''help-desk ticket'' to_ticket (req e ''PATCH'' (project_path project_id (''/helpdesk/tickets/'' @ ticket_id))
      (json_dict ((''base_version'', VInt base_version) #
        List.map_filter (\<lambda>k. case map_of changes k of Some (Some v) \<Rightarrow> Some (k, VStr v) | _ \<Rightarrow> None)
          [''title'', ''description'', ''category'', ''priority'', ''status''])) True)"

definition delete_helpdesk_ticket_api :: "api_env \<Rightarrow> string \<Rightarrow> string \<Rightarrow> unit call" where
  "delete_helpdesk_ticket_api e project_id ticket_id =
    ignore_reply (req e ''DELETE'' (project_path project_id (''/helpdesk/tickets/'' @ ticket_id)) NoBody True)"

section \<open>Facts about the session\<close>

definition bearer_request :: "api_env \<Rightarrow> string \<Rightarrow> string \<Rightarrow> request_body \<Rightarrow> string \<Rightarrow> http_request" where
  "bearer_request e verb path body t =
    \<lparr>hr_method = upper (strip verb), hr_url = ae_base_url e @ path, hr_bearer = Some t, hr_body = body\<rparr>"

definition refresh_request :: "api_env \<Rightarrow> string \<Rightarrow> http_request" where
  "refresh_request e r =
    \<lparr>hr_method = ''POST'', hr_url = ae_base_url e @ ''/refresh'', hr_bearer = None,
     hr_body = JsonBody (VDict [(''refresh_token'', VStr r)])\<rparr>"

lemma build_request_Inr:
  "build_request e verb path body auth st = Inr rq \<Longrightarrow>
    rq = \<lparr>hr_method = upper (strip verb), hr_url = ae_base_url e @ path, hr_bearer = (if auth then au_token st else None), hr_body = body\<rparr> \<and>
    (auth \<longrightarrow> has_text (au_token st))"
  by (auto simp: build_request_def checked_request_def Let_def split: if_splits option.splits)

lemma build_request_auth:
  assumes "build_request e verb path body True st = Inr rq"
  obtains t where "au_token st = Some t" "rq = bearer_request e verb path body t"
  using build_request_Inr [OF assms] by (auto simp: bearer_request_def has_text_def split: option.splits)

lemma req_once_sends:
  assumes "req_once e verb path body auth s = (res, s')"
  shows "isl res \<and> s' = s \<or>
    (\<exists>rq. build_request e verb path body auth (as_auth s) = Inr rq \<and> s' = s\<lparr>as_sent := as_sent s @ [rq]\<rparr>)"
  using assms by (auto simp: req_once_def open_request_def split: sum.splits http_reply.splits)

lemma refresh_sends:
  assumes "refresh_access_token e s = (res, s')"
  shows "isl res \<and> as_sent s' = as_sent s \<or>
    (\<exists>r. au_refresh_token (as_auth s) = Some r \<and> as_sent s' = as_sent s @ [refresh_request e r])"
proof (cases "has_text (au_refresh_token (as_auth s))")
  case True
  then obtain r where r: "au_refresh_token (as_auth s) = Some r" by (auto simp: has_text_def split: option.splits)
  let ?body = "JsonBody (VDict [(''refresh_token'', VStr r)])"
  obtain res1 s1 where once: "req_once e ''POST'' ''/refresh'' ?body False s = (res1, s1)" by fastforce
  have "as_sent s' = as_sent s1 \<and> (isl res1 \<longrightarrow> isl res)"
    using assms True once by (auto simp: refresh_access_token_def r split: sum.splits option.splits pyval.splits)
  moreover have "upper (strip ''POST'') = ''POST''" by code_simp
  then have "rq = refresh_request e r" if "build_request e ''POST'' ''/refresh'' ?body False (as_auth s) = Inr rq" for rq
    using build_request_Inr [OF that] by (simp add: refresh_request_def)
  ultimately show ?thesis using req_once_sends [OF once] r by auto
next
  case False
  then show ?thesis using assms by (auto simp: refresh_access_token_def)
qed

text \<open>What may follow a 401: a token that another client has stored meanwhile is used at once; otherwise the
  refresh token is presented, once.\<close>

definition renewal :: "api_env \<Rightarrow> string \<Rightarrow> string \<Rightarrow> request_body \<Rightarrow> string \<Rightarrow> auth_state \<Rightarrow> api_state \<Rightarrow> http_request list \<Rightarrow> bool" where
  "renewal e verb path body t a s' rest \<longleftrightarrow>
    rest = [] \<or>
    (\<exists>t'. au_token a = Some t' \<and> t' \<noteq> t \<and> rest = [bearer_request e verb path body t']) \<or>
    (\<exists>r. au_token a = Some t \<and> au_refresh_token a = Some r \<and>
      (rest = [refresh_request e r] \<or>
       (\<exists>t'. rest = [refresh_request e r, bearer_request e verb path body t'] \<and> au_token (as_auth s') = Some t')))"

lemma suppress_state: "snd (suppress_value_error x c s) = snd (c s)"
  by (auto simp: suppress_value_error_def split: prod.splits sum.splits api_exc.splits)

lemma retry_sends:
  assumes "req_once e verb path body True s = (res, s')"
  shows "s' = s \<or> (\<exists>t. au_token (as_auth s) = Some t \<and> s' = s\<lparr>as_sent := as_sent s @ [bearer_request e verb path body t]\<rparr>)"
  using req_once_sends [OF assms] by (auto elim!: build_request_auth)

lemma renewal_sends:
  assumes "call_bind (refresh_unless_rotated e (Some t)) (\<lambda>_. req_once e verb path body True) s = (res, s')"
  shows "\<exists>rest. as_sent s' = as_sent s @ rest \<and> renewal e verb path body t (as_auth s) s' rest"
proof (cases "au_token (as_auth s) = Some t")
  case True
  obtain r1 s1 where fresh: "refresh_access_token e s = (r1, s1)" by fastforce
  show ?thesis
  proof (cases r1)
    case (Inl x)
    then have "s' = s1" using assms True fresh by (simp add: call_bind_def refresh_unless_rotated_def)
    then show ?thesis using refresh_sends [OF fresh] True by (auto simp: renewal_def)
  next
    case (Inr u)
    then obtain r where r: "au_refresh_token (as_auth s) = Some r" "as_sent s1 = as_sent s @ [refresh_request e r]"
      using refresh_sends [OF fresh] by auto
    have "req_once e verb path body True s1 = (res, s')"
      using assms True fresh Inr by (simp add: call_bind_def refresh_unless_rotated_def)
    from retry_sends [OF this] show ?thesis
    proof (elim disjE exE conjE)
      assume "s' = s1"
      then show ?thesis using r True by (auto simp: renewal_def)
    next
      fix t' assume "au_token (as_auth s1) = Some t'" "s' = s1\<lparr>as_sent := as_sent s1 @ [bearer_request e verb path body t']\<rparr>"
      then show ?thesis using r True
        by (intro exI [of _ "[refresh_request e r, bearer_request e verb path body t']"]) (auto simp: renewal_def)
    qed
  qed
next
  case False
  then have "req_once e verb path body True s = (res, s')"
    using assms by (simp add: call_bind_def refresh_unless_rotated_def)
  from retry_sends [OF this] show ?thesis using False by (auto simp: renewal_def)
qed

text \<open>When the server renews the session, the call returns what the repeated request returns, and the
  session keeps the new tokens.\<close>

lemma expired_session_recovers:
  assumes tok: "au_token (as_auth s) = Some t" "au_refresh_token (as_auth s) = Some r" "r \<noteq> []" "tn \<noteq> []" "rn \<noteq> []"
    and alone: "ae_meanwhile e (as_auth s) = as_auth s"
    and built: "build_request e verb path body True (as_auth s) = Inr (bearer_request e verb path body t)"
      "\<And>a. au_token a = Some tn \<Longrightarrow> build_request e verb path body True a = Inr (bearer_request e verb path body tn)"
      "build_request e ''POST'' ''/refresh'' (JsonBody (VDict [(''refresh_token'', VStr r)])) False (as_auth s) = Inr (refresh_request e r)"
    and expired: "ae_send e (as_sent s) (bearer_request e verb path body t) = HttpError 401 why raw"
    and renewed: "ae_send e (as_sent s @ [bearer_request e verb path body t]) (refresh_request e r) = Reply ct rawr"
      "read_json_response e ct rawr = Inr (VDict [(''access_token'', VStr tn), (''refresh_token'', VStr rn)])"
    and answer: "ae_send e (as_sent s @ [bearer_request e verb path body t, refresh_request e r]) (bearer_request e verb path body tn) = Reply ctn rawn"
      "read_json_response e ctn rawn = Inr v"
  shows "\<exists>s'. req e verb path body True s = (Inr v, s') \<and> au_token (as_auth s') = Some tn \<and> au_refresh_token (as_auth s') = Some rn \<and>
    as_sent s' = as_sent s @ [bearer_request e verb path body t, refresh_request e r, bearer_request e verb path body tn]"
proof -
  have "hr_bearer (bearer_request e verb path body t) = Some t" by (simp add: bearer_request_def)
  then show ?thesis
    using assms
    by (simp add: req_def open_request_def Let_def has_text_def suppress_value_error_def call_bind_def
        refresh_unless_rotated_def refresh_access_token_def req_once_def token_of_def dget_Cons)
qed


definition demo_api :: api_env where
  "demo_api = \<lparr>ae_base_url = ''https://r.cz'',
     ae_urlparse = (\<lambda>_. Some \<lparr>ur_scheme = ''https'', ur_netloc = ''r.cz'', ur_username = None, ur_password = None,
       ur_query = [], ur_fragment = [], ur_hostname = Some ''r.cz''\<rparr>),
     ae_loads = (\<lambda>raw. if raw = ''new'' then Some (VDict [(''access_token'', VStr ''b''), (''refresh_token'', VStr ''s'')]) else Some (VList [])),
     ae_decode_lossy = (\<lambda>raw. raw), ae_loads_text = (\<lambda>_. None), ae_b64_json = (\<lambda>_. None),
     ae_send = (\<lambda>_ rq. if hr_bearer rq = Some ''a'' then HttpError 401 ''Unauthorized'' []
       else if hr_bearer rq = None then Reply ''application/json'' ''new'' else Reply ''application/json'' ''all''),
     ae_meanwhile = (\<lambda>a. a)\<rparr>"

definition demo_session :: api_state where
  "demo_session = \<lparr>as_auth = \<lparr>au_token = Some ''a'', au_refresh_token = Some ''r'', au_user_id = None, au_is_superuser = False\<rparr>, as_sent = []\<rparr>"


text \<open>Plain HTTP is refused outside the local host unless the policy allows it.\<close>

lemma base_url_is_safe:
  assumes "validate_base_url urlparse base_url \<lparr>up_allow_http_localhost = True, up_allow_http_anywhere = False\<rparr> = Inr url"
  shows "\<exists>parsed. urlparse url = Some parsed \<and> ur_netloc parsed \<noteq> [] \<and> ur_query parsed = [] \<and> ur_fragment parsed = [] \<and>
    (ur_scheme parsed = ''https'' \<or>
     ur_scheme parsed = ''http'' \<and> (\<exists>h. ur_hostname parsed = Some h \<and> lower h \<in> set LOCAL_HOSTS))"
proof -
  have "lower [] \<notin> set LOCAL_HOSTS" by code_simp
  then show ?thesis using assms
    by (auto simp: validate_base_url_def Let_def split: if_splits option.splits)
qed

text \<open>With a base URL that has passed, a redirect is followed only within its scheme and host.\<close>

lemma redirects_stay_at_origin:
  assumes "redirect_refused urlparse base newurl = None"
  shows "\<exists>parsed. urlparse newurl = Some parsed \<and> ur_scheme parsed \<in> {[], ur_scheme base} \<and> ur_netloc parsed \<in> {[], ur_netloc base}"
  using assms by (auto simp: redirect_refused_def split: option.splits if_splits)

end
