(* ===== verification/Spec2Isabelle.thy ===== *)
theory Spec2Isabelle
  imports Sync_Properties Server_Auth Client_Server Client_Reports Client_Api
begin

text \<open>
  RiskApp is a risk and opportunity register: an offline-first desktop client (\<open>client/riskapp_client\<close>)
  keeps a local SQLite copy of a project and synchronises it with a FastAPI server
  (\<open>server/riskapp_server\<close>) that several users share.

  \<^bold>\<open>The parts and how they interact.\<close> A local edit writes a row of the local store and queues a change in the
  outbox. \<open>SyncService.sync_project\<close> publishes a project that exists only locally, pushes the due changes,
  downloads what the server changed after the local watermark, applies those rows and moves the watermark.
  The server applies a pushed batch change by change (authorisation, validation, compare-and-swap on the
  row's version, write, audit, receipt), answers a re-sent change from its receipt, and stamps every write
  with the next change sequence of the project; a pull pages through that sequence up to a snapshot.
  Conflicts come back to the client, which keeps the server's version beside the queued change until the
  user keeps his own, takes the server's or merges the two. Access is guarded by project roles; sessions are
  refresh tokens that are rotated at every use; a sliding-window limiter stands in front of the logins.

  \<^bold>\<open>The theories\<close>, in the order of their imports:
  \<^item> \<open>Prelude\<close>: Python values, dictionaries and string methods, UUIDs, results with errors, tables as lists of
    rows, reachability and invariants.
  \<^item> \<open>Server_Models\<close>: \<open>db/models.py\<close>, \<open>core/scoring.py\<close> and \<open>sync/serialize.py\<close>; a row is its attribute map,
    the database \<open>sdb\<close> the tables, a flush runs the listeners and the constraints.
  \<^item> \<open>Server_Permissions\<close>: \<open>core/permissions.py\<close>.
  \<^item> \<open>Versioned_Store\<close> and \<open>Change_Feed\<close>: the two interfaces of the server's store, as locales (a conditional
    version claim; a paged feed of sequence numbers), with what clients may conclude from their laws.
  \<^item> \<open>Server_Mutations\<close>: \<open>sync/registry.py\<close>, the record schemas, \<open>sync/mutations.py\<close>; interprets \<open>Versioned_Store\<close>.
  \<^item> \<open>Server_Receipts\<close>: \<open>sync/receipts.py\<close>. \<open>Server_Push\<close>: \<open>sync/engine.py\<close>, with the invariants of the database.
  \<^item> \<open>Server_Pull\<close>: \<open>sync/pull.py\<close> and \<open>api/routers/sync_routes.py\<close>; interprets \<open>Change_Feed\<close> for every kind of row.
  \<^item> \<open>Server_Items\<close>: the REST writes of \<open>core/items_crud.py\<close> and of the routers for items, assessments, actions and
    tickets with their request schemas; interprets \<open>Versioned_Store\<close> for claims of both paths together.
  \<^item> \<open>Server_Projects\<close>: \<open>api/routers/projects.py\<close> and the project routes of \<open>admin.py\<close> (memberships, deletion, pruning),
    and the transition system of all server writes from a fresh installation.
  \<^item> \<open>Server_Reports\<close>: the read side: \<open>core/filters.py\<close>, \<open>core/csv_export.py\<close>, the lists and the score report of
    \<open>items_crud.py\<close>, \<open>matrix.py\<close> and \<open>snapshots.py\<close>.
  \<^item> \<open>Sync_Demo\<close> and \<open>Sync_Properties\<close>: a small project for the witnesses, and the properties that span the sync
    routes, the REST routes and the projects.
  \<^item> \<open>Rate_Limit\<close>: \<open>core/rate_limit.py\<close>. \<open>Server_Tokens\<close>: the refresh tokens of \<open>auth/service.py\<close>.
    \<open>Server_Auth\<close>: \<open>api/routers/auth_routes.py\<close>, \<open>users.py\<close>, the account routes of \<open>admin.py\<close> and the password policy.
  \<^item> \<open>Client_Store\<close>: \<open>domain/sync_protocol.py\<close>, \<open>domain/conflict_fields.py\<close>, the mappers, \<open>sqlite_base.py\<close> and
    \<open>server_state.py\<close> (pulled rows and push acknowledgements). \<open>Client_Outbox\<close>: \<open>sync_outbox_queue.py\<close>.
  \<^item> \<open>Client_Merge\<close>: \<open>services/conflict_merge.py\<close>. \<open>Client_Sync\<close>: \<open>services/synchronization_service.py\<close> with the part of
    \<open>project_store.py\<close> that publishing uses. \<open>Client_Sync_Facts\<close>: a logic of state relations that all steps of a
    run respect (a locale, interpreted for the outbox, the watermarks and the flags), and the run's properties.
  \<^item> \<open>Client_Server\<close>: the client's download composed with the server's pull.
  \<^item> \<open>Client_Entities\<close>: \<open>entity_store.py\<close> and \<open>scored_entity_mapper.py\<close> (local rows, listings, codes, models).
    \<open>Client_Services\<close>: the edit services, the rest of \<open>project_store.py\<close> and the edits and project list of
    \<open>services/offline_first_facade.py\<close>. \<open>Client_Reports\<close>: \<open>services/entity_filters.py\<close> and the facade's offline report.
  \<^item> \<open>Client_Api\<close>: \<open>rest_api_client.py\<close> and \<open>utils/urls.py\<close>: the session with its renewal, checked replies and endpoints.

  \<^bold>\<open>What the lemmas show.\<close> Server: every push keeps the database invariant (typed rows, products as scores, unique
  change sequences, unique receipts), a base version is won once, refused changes have no effect, a retried
  batch changes nothing, members cannot delete, a paged pull is complete even while others write; a REST write
  changes one row by one version; from a fresh installation rows stay typed and sequences unique, every project
  keeps an administrator, and deleting a project removes exactly its data; search text is literal, the matrix
  counts every item, a snapshot is the ranking of its time. Accounts:
  one live token per family, reuse kills the family, credential changes end sessions, limits hold. Client: at
  most one open change per record, a pull never overwrites queued work, a push drops only what the server
  accepted, a late acknowledgement keeps the newer edit, the watermark moves only with its rows, conflicts
  end as the user chose; a local edit is queued with its row, the project list never drops work, a download from
  the modelled server ends with every changed row, the offline report is the server's,
  and a call renews an expired session at most once, and not at all when another thread has done so.

  \<^bold>\<open>Parameters.\<close> Code outside the repository is an argument: pydantic's coercion of a field and the wording of its
  errors (\<open>e_coerce\<close>, \<open>e_validation_text\<close>), SHA-256 of the canonical JSON (\<open>e_digest\<close>), the clocks, Argon2 and JWT,
  the JSON decoder (\<open>loads\<close>), \<open>urlparse\<close>, \<open>datetime.fromisoformat\<close> (\<open>iso_ok\<close>, \<open>fromiso\<close>), whether a commit succeeds, what other sessions
  commit between two statements, and, for the client, the server itself (\<open>remote\<close>) and what other threads do to
  the store while a request is in flight. Properties hold for every such argument, or name what they need.

  \<^bold>\<open>Loops and fuel.\<close> Loops over lists are structural; the token-family search and the search for a free
  project name have termination proofs; the client's page loop, which a server could keep busy for ever, takes
  fuel (\<open>se_fuel\<close>) and running out is an error of its own; the retry loop of a rotation has the source's bound.

  \<^bold>\<open>Abstractions.\<close> Text is the first 256 code points. Tables are lists in insertion order; a locked transaction is
  one step. Audit rows, times and messages are kept where code reads them.

  \<^bold>\<open>Not modelled.\<close> The Qt user interface with its background workers, the HTTP transport under \<open>rest_api_client.py\<close>, logging, middleware, process configuration, file backup and the Alembic scripts: presentation, I/O or generated DDL.
  Of the facade, forwarding a call unchanged to the remote and handing a session to a worker; of the account
  routes, the read-only listings.
\<close>

end
